(* ===== verification/Prelude.thy ===== *)
theory Prelude
  imports Main "HOL-Library.Multiset"
begin

text \<open>
  What every component of the development shares.

  JavaScript strings are sequences of 16-bit code units; a string is the list of its code
  units (\<open>ustr\<close>), and \<open>lit ''abc''\<close> is the string of an ASCII literal. Chinese literals
  of the source are written as the list of their code units. A number that the source only
  uses as an integer is an \<open>int\<close>; a coerced number that may be NaN is an \<open>int option\<close>
  with \<open>None\<close> for NaN. An exception is the left value of \<open>'a res\<close>.

  The collection \<open>js_simps\<close> holds the rewrite rules that evaluate the string and array
  primitives; \<open>res_iff\<close> holds the characterisations of a normal return.
\<close>

named_theorems js_simps
named_theorems res_iff
named_theorems frame_simps

type_synonym jchar = nat
type_synonym ustr = "jchar list"

datatype js_error = TypeError | ReferenceError | SyntaxError | URIError | ThrownValue

type_synonym 'a res = "js_error + 'a"

definition lit :: "string \<Rightarrow> ustr" where
  "lit s = map of_char s"

abbreviation backslash :: jchar where
  "backslash \<equiv> 92"

abbreviation quote :: jchar where
  "quote \<equiv> 34"

abbreviation blank_char :: jchar where
  "blank_char \<equiv> 32"

lemma lit_Nil [simp]: "lit [] = []"
  by (simp add: lit_def)

lemma lit_Cons [js_simps]: "lit (c # cs) = of_char c # lit cs"
  by (simp add: lit_def)

lemma length_lit [simp]: "length (lit s) = length s"
  by (simp add: lit_def)

lemma lit_eq_Nil_iff [simp]: "lit s = [] \<longleftrightarrow> s = []"
  by (simp add: lit_def)

definition rbind :: "'a res \<Rightarrow> ('a \<Rightarrow> 'b res) \<Rightarrow> 'b res" where
  "rbind r f = (case r of Inl e \<Rightarrow> Inl e | Inr x \<Rightarrow> f x)"

lemma rbind_Inl [simp]: "rbind (Inl e) f = Inl e"
  by (simp add: rbind_def)

lemma rbind_Inr [simp]: "rbind (Inr x) f = f x"
  by (simp add: rbind_def)

lemma rbind_Inr_iff [res_iff]: "rbind r f = Inr y \<longleftrightarrow> (\<exists>x. r = Inr x \<and> f x = Inr y)"
  by (cases r) auto

lemma rbind_Inl_iff [res_iff]:
  "rbind r f = Inl e \<longleftrightarrow> r = Inl e \<or> (\<exists>x. r = Inr x \<and> f x = Inl e)"
  by (cases r) auto

fun rmap :: "('a \<Rightarrow> 'b res) \<Rightarrow> 'a list \<Rightarrow> 'b list res" where
  "rmap f [] = Inr []"
| "rmap f (x # xs) = rbind (f x) (\<lambda>y. rbind (rmap f xs) (\<lambda>ys. Inr (y # ys)))"

lemma rmap_Inr_length: "rmap f xs = Inr ys \<Longrightarrow> length ys = length xs"
  by (induction xs arbitrary: ys) (auto simp: res_iff)

lemma rmap_Inr_nth: "rmap f xs = Inr ys \<Longrightarrow> i < length xs \<Longrightarrow> f (xs ! i) = Inr (ys ! i)"
  by (induction xs arbitrary: ys i) (auto simp: res_iff nth_Cons split: nat.splits)

lemma rmap_append: "rmap f (xs @ ys) = rbind (rmap f xs) (\<lambda>us. rbind (rmap f ys) (\<lambda>vs. Inr (us @ vs)))"
  by (induction xs) (auto simp: rbind_def split: sum.splits)

lemma rmap_pure: "(\<And>x. x \<in> set xs \<Longrightarrow> f x = Inr (g x)) \<Longrightarrow> rmap f xs = Inr (map g xs)"
  by (induction xs) auto

lemma rmap_fails: "x \<in> set xs \<Longrightarrow> f x = Inl e \<Longrightarrow> \<exists>e'. rmap f xs = Inl e'"
proof (induction xs)
  case (Cons y ys)
  then show ?case by (cases "f y"; cases "rmap f ys") auto
qed simp

text \<open>Facts on lists the components share.\<close>

lemma mset_remove1_list: "mset (fold remove1 xs ys) = mset ys - mset xs"
  by (induction xs arbitrary: ys) (simp_all add: diff_diff_add[symmetric])

lemma take_dropWhile_append_takeWhile: "takeWhile P xs @ dropWhile P xs = xs"
  by simp

lemma takeWhile_all: "(\<And>x. x \<in> set xs \<Longrightarrow> P x) \<Longrightarrow> takeWhile P xs = xs"
  by (induction xs) auto

lemma dropWhile_not_hd: "dropWhile P xs = [] \<or> \<not> P (hd (dropWhile P xs))"
  by (induction xs) auto

lemma filter_one_key_le:
  "distinct (map fst xs) \<Longrightarrow> length (filter (\<lambda>x. fst x = k) xs) \<le> 1"
proof (induction xs)
  case (Cons a xs)
  then have "fst a = k \<Longrightarrow> filter (\<lambda>x. fst x = k) xs = []"
    by (auto simp: filter_empty_conv image_iff)
  with Cons show ?case by auto
qed simp

lemma fold_invariant_list:
  assumes "P s" and "\<And>x s. x \<in> set xs \<Longrightarrow> P s \<Longrightarrow> P (f x s)"
  shows "P (fold f xs s)"
  using assms by (induction xs arbitrary: s) auto

text \<open>
  The interface of a component that is driven by events: an operation for each event and a property
  that the events allowed to occur keep. Its clients get the property after any sequence of events.
\<close>

locale event_machine =
  fixes step :: "'e \<Rightarrow> 's \<Rightarrow> 's"
    and inv :: "'s \<Rightarrow> bool"
    and allowed :: "'e \<Rightarrow> bool"
  assumes inv_step: "inv s \<Longrightarrow> allowed e \<Longrightarrow> inv (step e s)"
begin

lemma inv_run: "inv s \<Longrightarrow> list_all allowed evs \<Longrightarrow> inv (fold step evs s)"
  by (induction evs arbitrary: s) (auto intro: inv_step)

lemma inv_prefix: "inv s \<Longrightarrow> list_all allowed evs \<Longrightarrow> inv (fold step (take n evs) s)"
  by (rule inv_run) (auto simp: list_all_iff dest: in_set_takeD)

end

end
