(* ===== verification/JsString.thy ===== *)
theory JsString
  imports Prelude
begin

text \<open>
  The part of the JavaScript standard library that the source uses on strings and arrays:
  \<open>substring\<close>, \<open>substr\<close>, \<open>slice\<close>, \<open>splice\<close>, \<open>indexOf\<close>, \<open>lastIndexOf\<close>,
  \<open>charAt\<close>, \<open>split\<close>, \<open>join\<close>, \<open>replace\<close> by a literal, the whitespace class of
  regular expressions, decimal output of integers and the coercion of a string to a number.
  Indices are integers, clamped as the language specification says.
\<close>

subsection \<open>Substrings\<close>

definition clamp :: "int \<Rightarrow> 'a list \<Rightarrow> nat" where
  "clamp i xs = nat (min (max i 0) (int (length xs)))"

definition substring :: "'a list \<Rightarrow> int \<Rightarrow> int \<Rightarrow> 'a list" where
  "substring s a b =
     (let lo = min (clamp a s) (clamp b s); hi = max (clamp a s) (clamp b s)
      in take (hi - lo) (drop lo s))"

definition rel_index :: "int \<Rightarrow> 'a list \<Rightarrow> nat" where
  "rel_index i xs = clamp (if i < 0 then int (length xs) + i else i) xs"

definition slice :: "'a list \<Rightarrow> int \<Rightarrow> int \<Rightarrow> 'a list" where
  "slice xs a b = take (rel_index b xs - rel_index a xs) (drop (rel_index a xs) xs)"

definition substr :: "'a list \<Rightarrow> int \<Rightarrow> int \<Rightarrow> 'a list" where
  "substr s start len = take (nat len) (drop (rel_index start s) s)"

definition charAt :: "ustr \<Rightarrow> int \<Rightarrow> ustr" where
  "charAt s i = (if 0 \<le> i \<and> i < int (length s) then [s ! nat i] else [])"

definition splice1 :: "'a list \<Rightarrow> nat \<Rightarrow> 'a list" where
  "splice1 xs i = take i xs @ drop (Suc i) xs"

lemma clamp_le [simp]: "clamp i xs \<le> length xs"
  by (simp add: clamp_def)

lemma clamp_nat: "clamp (int n) xs = min n (length xs)"
  by (simp add: clamp_def)

lemma clamp_zero [simp]: "clamp 0 xs = 0"
  by (simp add: clamp_def)

lemma clamp_length [simp]: "clamp (int (length xs)) xs = length xs"
  by (simp add: clamp_def)

lemma clamp_numeral [simp]: "clamp (numeral n) xs = min (numeral n) (length xs)"
  using clamp_nat [of "numeral n" xs] by simp

lemma substring_prefix: "substring s 0 (int n) = take n s"
  by (simp add: substring_def clamp_nat min_def)

lemma substring_suffix: "substring s (int n) (int (length s)) = drop n s"
  by (simp add: substring_def clamp_nat Let_def max_def min_def)

lemma substring_nat: "a \<le> b \<Longrightarrow> substring s (int a) (int b) = take (b - a) (drop a s)"
  by (auto simp: substring_def clamp_nat Let_def min_def max_def)

lemma length_substring: "length (substring s a b) \<le> length s"
  by (simp add: substring_def Let_def)

lemma set_substring: "set (substring s a b) \<subseteq> set s"
  by (auto simp: substring_def Let_def dest: in_set_takeD in_set_dropD)

lemma slice_nat: "slice xs (int a) (int b) = take (b - a) (drop a xs)"
  by (cases "a \<le> length xs")
     (auto simp: slice_def rel_index_def clamp_nat min_def)

lemma slice_zero_nat: "slice xs 0 (int b) = take b xs"
  using slice_nat [of xs 0 b] by simp

lemma splice1_eq_remove1:
  "i < length xs \<Longrightarrow> xs ! i = x \<Longrightarrow> x \<notin> set (take i xs) \<Longrightarrow> splice1 xs i = remove1 x xs"
proof (induction xs arbitrary: i)
  case (Cons y ys)
  then show ?case by (cases i) (auto simp: splice1_def)
qed (simp add: splice1_def)

subsection \<open>Searching\<close>

fun starts_with :: "'a list \<Rightarrow> 'a list \<Rightarrow> bool" where
  "starts_with [] s = True"
| "starts_with (p # ps) [] = False"
| "starts_with (p # ps) (c # cs) = (p = c \<and> starts_with ps cs)"

fun find_sub :: "'a list \<Rightarrow> 'a list \<Rightarrow> nat option" where
  "find_sub p [] = (if p = [] then Some 0 else None)"
| "find_sub p (c # cs) =
     (if starts_with p (c # cs) then Some 0 else map_option Suc (find_sub p cs))"

definition indexOf :: "'a list \<Rightarrow> 'a list \<Rightarrow> int" where
  "indexOf s p = (case find_sub p s of None \<Rightarrow> -1 | Some i \<Rightarrow> int i)"

definition indexOf_from :: "'a list \<Rightarrow> 'a list \<Rightarrow> int \<Rightarrow> int" where
  "indexOf_from s p from =
     (case find_sub p (drop (clamp from s) s) of
        None \<Rightarrow> -1 | Some i \<Rightarrow> int (clamp from s) + int i)"

definition lastIndexOf :: "'a list \<Rightarrow> 'a list \<Rightarrow> int" where
  "lastIndexOf s p =
     (case find_sub (rev p) (rev s) of
        None \<Rightarrow> -1 | Some i \<Rightarrow> int (length s) - int (length p) - int i)"

definition inArray :: "'a \<Rightarrow> 'a list \<Rightarrow> int" where
  "inArray x xs = indexOf xs [x]"

lemma starts_with_iff: "starts_with p s \<longleftrightarrow> (\<exists>r. s = p @ r)"
  by (induction p s rule: starts_with.induct) auto

lemma find_sub_Some_split: "find_sub p s = Some i \<Longrightarrow> \<exists>r. s = take i s @ p @ r \<and> i \<le> length s"
proof (induction s arbitrary: i)
  case (Cons c cs)
  then show ?case by (auto simp: starts_with_iff split: if_splits)
qed (auto split: if_splits)

lemma find_sub_None_iff: "find_sub p s = None \<longleftrightarrow> (\<forall>u v. s \<noteq> u @ p @ v)"
proof (induction s)
  case (Cons c cs)
  show ?case
  proof
    assume n: "find_sub p (c # cs) = None"
    then have a: "\<not> starts_with p (c # cs)" and b: "find_sub p cs = None"
      by (auto split: if_splits)
    show "\<forall>u v. c # cs \<noteq> u @ p @ v"
    proof (intro allI notI)
      fix u v assume "c # cs = u @ p @ v"
      then show False using a b Cons.IH
        by (cases u) (auto simp: starts_with_iff)
    qed
  next
    assume r: "\<forall>u v. c # cs \<noteq> u @ p @ v"
    then have "\<not> starts_with p (c # cs)" by (metis append_Nil starts_with_iff)
    moreover have "find_sub p cs = None" using r Cons.IH by (metis append_Cons)
    ultimately show "find_sub p (c # cs) = None" by simp
  qed
qed auto

lemma find_sub_first:
  assumes "find_sub p s = Some i" and "j < i"
  shows "\<not> starts_with p (drop j s)"
  using assms
proof (induction s arbitrary: i j)
  case (Cons c cs)
  then show ?case by (cases j) (auto split: if_splits)
qed (auto split: if_splits)

lemma find_sub_single:
  "find_sub [x] s = (if x \<in> set s then Some (length (takeWhile (\<lambda>y. y \<noteq> x) s)) else None)"
  by (induction s) auto

lemma indexOf_single:
  "indexOf s [x] = (if x \<in> set s then int (length (takeWhile (\<lambda>y. y \<noteq> x) s)) else -1)"
  by (simp add: indexOf_def find_sub_single)

lemma indexOf_minus_one_iff: "indexOf s p = -1 \<longleftrightarrow> (\<forall>u v. s \<noteq> u @ p @ v)"
  by (simp add: indexOf_def find_sub_None_iff [symmetric] split: option.splits)

lemma indexOf_ge: "-1 \<le> indexOf s p"
  by (simp add: indexOf_def split: option.splits)

lemma indexOf_from_zero: "indexOf_from s p 0 = indexOf s p"
  by (simp add: indexOf_from_def indexOf_def split: option.split)

lemma indexOf_from_single:
  assumes "n \<le> length s"
  shows "indexOf_from s [x] (int n) =
     (if x \<in> set (drop n s) then int n + int (length (takeWhile (\<lambda>y. y \<noteq> x) (drop n s))) else -1)"
  using assms by (simp add: indexOf_from_def clamp_nat find_sub_single)

lemma lastIndexOf_single:
  "lastIndexOf s [x] =
     (if x \<in> set s then int (length s) - 1 - int (length (takeWhile (\<lambda>y. y \<noteq> x) (rev s))) else -1)"
  by (simp add: lastIndexOf_def find_sub_single)

lemma takeWhile_neq_nth: "x \<in> set s \<Longrightarrow> s ! length (takeWhile (\<lambda>y. y \<noteq> x) s) = x"
  by (induction s) auto

lemma takeWhile_neq_length: "x \<in> set s \<Longrightarrow> length (takeWhile (\<lambda>y. y \<noteq> x) s) < length s"
  by (induction s) auto

text \<open>Removing the first occurrence through \<open>$.inArray\<close> and \<open>splice(i, 1)\<close>.\<close>

lemma inArray_splice:
  "(if inArray x xs \<noteq> -1 then splice1 xs (nat (inArray x xs)) else xs) = remove1 x xs"
proof (cases "x \<in> set xs")
  case True
  let ?i = "length (takeWhile (\<lambda>y. y \<noteq> x) xs)"
  have "x \<notin> set (take ?i xs)"
    by (metis (full_types) set_takeWhileD takeWhile_eq_take)
  with True have "splice1 xs ?i = remove1 x xs"
    by (intro splice1_eq_remove1) (auto simp: takeWhile_neq_nth takeWhile_neq_length)
  with True show ?thesis by (simp add: inArray_def indexOf_single)
qed (simp add: inArray_def indexOf_single remove1_idem)

subsection \<open>Whitespace and trimming\<close>

definition is_ws :: "jchar \<Rightarrow> bool" where
  "is_ws c \<longleftrightarrow> (9 \<le> c \<and> c \<le> 13) \<or> c = 32 \<or> c = 160 \<or> c = 0x1680
     \<or> (0x2000 \<le> c \<and> c \<le> 0x200A) \<or> c = 0x2028 \<or> c = 0x2029 \<or> c = 0x202F \<or> c = 0x205F
     \<or> c = 0x3000 \<or> c = 0xFEFF"

definition strip_left :: "(jchar \<Rightarrow> bool) \<Rightarrow> ustr \<Rightarrow> ustr" where
  "strip_left cls s = dropWhile cls s"

definition strip_right :: "(jchar \<Rightarrow> bool) \<Rightarrow> ustr \<Rightarrow> ustr" where
  "strip_right cls s = rev (dropWhile cls (rev s))"

lemma strip_left_id: "s = [] \<or> \<not> cls (hd s) \<Longrightarrow> strip_left cls s = s"
  by (cases s) (auto simp: strip_left_def)

lemma strip_right_id: "s = [] \<or> \<not> cls (last s) \<Longrightarrow> strip_right cls s = s"
  by (cases s rule: rev_cases) (auto simp: strip_right_def)

lemma hd_strip_left: "strip_left cls s \<noteq> [] \<Longrightarrow> \<not> cls (hd (strip_left cls s))"
  using dropWhile_not_hd [of cls s] by (auto simp: strip_left_def)

lemma last_strip_right: "strip_right cls s \<noteq> [] \<Longrightarrow> \<not> cls (last (strip_right cls s))"
  using dropWhile_not_hd [of cls "rev s"] by (auto simp: strip_right_def last_rev)

lemma strip_right_prefix: "\<exists>r. s = strip_right cls s @ r \<and> (\<forall>c \<in> set r. cls c)"
proof -
  have "s = rev (dropWhile cls (rev s)) @ rev (takeWhile cls (rev s))"
    by (metis rev_append rev_rev_ident takeWhile_dropWhile_id)
  then show ?thesis unfolding strip_right_def
    by (metis (full_types) set_rev set_takeWhileD)
qed

lemma hd_strip_right: "strip_right cls s \<noteq> [] \<Longrightarrow> hd (strip_right cls s) = hd s"
  using strip_right_prefix [of s cls] by (metis hd_append2)

lemma strip_right_left_id: "strip_left cls (strip_right cls (strip_left cls (strip_right cls s)))
    = strip_left cls (strip_right cls s)"
proof -
  let ?t = "strip_left cls (strip_right cls s)"
  have l: "?t = [] \<or> \<not> cls (hd ?t)" using hd_strip_left by blast
  have "?t = [] \<or> last ?t = last (strip_right cls s)"
    unfolding strip_left_def by (metis append_Nil2 last_appendR takeWhile_dropWhile_id)
  then have "?t = [] \<or> \<not> cls (last ?t)"
    using last_strip_right [of cls s] unfolding strip_left_def
    by (metis dropWhile.simps(1))
  with l show ?thesis by (simp add: strip_left_id strip_right_id)
qed

subsection \<open>Case-insensitive matching of ASCII patterns\<close>

definition ascii_lower :: "jchar \<Rightarrow> jchar" where
  "ascii_lower c = (if 65 \<le> c \<and> c \<le> 90 then c + 32 else c)"

definition ascii_upper :: "jchar \<Rightarrow> jchar" where
  "ascii_upper c = (if 97 \<le> c \<and> c \<le> 122 then c - 32 else c)"

definition ends_with_ci :: "string \<Rightarrow> ustr \<Rightarrow> bool" where
  "ends_with_ci p s = starts_with (rev (lit p)) (rev (map ascii_lower s))"

lemma ends_with_ci_iff: "ends_with_ci p s \<longleftrightarrow> (\<exists>r. map ascii_lower s = r @ lit p)"
  by (auto simp: ends_with_ci_def starts_with_iff) (metis rev_append rev_rev_ident)+

subsection \<open>Splitting and joining\<close>

fun split_char :: "'a \<Rightarrow> 'a list \<Rightarrow> 'a list list" where
  "split_char sep [] = [[]]"
| "split_char sep (c # cs) =
     (if c = sep then [] # split_char sep cs
      else (case split_char sep cs of [] \<Rightarrow> [[c]] | w # ws \<Rightarrow> (c # w) # ws))"

fun join :: "'a list \<Rightarrow> 'a list list \<Rightarrow> 'a list" where
  "join sep [] = []"
| "join sep [w] = w"
| "join sep (w # v # ws) = w @ sep @ join sep (v # ws)"

lemma split_char_not_Nil [simp]: "split_char sep s \<noteq> []"
  by (induction s) (auto split: list.splits)

lemma join_Cons: "ps \<noteq> [] \<Longrightarrow> join sep (p # ps) = p @ sep @ join sep ps"
  by (cases ps) auto

lemma join_split_char: "join [sep] (split_char sep s) = s"
proof (induction s)
  case (Cons c cs)
  obtain w ws where "split_char sep cs = w # ws"
    by (cases "split_char sep cs") auto
  with Cons show ?case by (cases ws) auto
qed simp

lemma split_char_no_sep: "sep \<notin> set w \<Longrightarrow> split_char sep w = [w]"
  by (induction w) auto

lemma split_char_append:
  "sep \<notin> set w \<Longrightarrow> split_char sep (w @ sep # s) = w # split_char sep s"
  by (induction w) auto

lemma split_char_join:
  "ws \<noteq> [] \<Longrightarrow> (\<And>w. w \<in> set ws \<Longrightarrow> sep \<notin> set w) \<Longrightarrow> split_char sep (join [sep] ws) = ws"
  by (induction "[sep]" ws rule: join.induct) (auto simp: split_char_no_sep split_char_append)

lemma set_split_char: "w \<in> set (split_char sep s) \<Longrightarrow> sep \<notin> set w"
  by (induction s arbitrary: w) (auto split: if_splits list.splits)

definition replace_char :: "jchar \<Rightarrow> ustr \<Rightarrow> ustr \<Rightarrow> ustr" where
  "replace_char c r s = concat (map (\<lambda>x. if x = c then r else [x]) s)"

lemma replace_char_Nil [simp]: "replace_char c r [] = []"
  by (simp add: replace_char_def)

lemma replace_char_Cons:
  "replace_char c r (x # s) = (if x = c then r else [x]) @ replace_char c r s"
  by (simp add: replace_char_def)

lemma replace_char_append: "replace_char c r (s @ t) = replace_char c r s @ replace_char c r t"
  by (simp add: replace_char_def)

lemma replace_char_absent: "c \<notin> set s \<Longrightarrow> replace_char c r s = s"
  by (induction s) (auto simp: replace_char_Cons)

lemma replace_char_removes: "c \<notin> set r \<Longrightarrow> c \<notin> set (replace_char c r s)"
  by (induction s) (auto simp: replace_char_Cons)

end
