(* ===== verification/JsNumber.thy ===== *)
theory JsNumber
  imports JsString
begin

text \<open>
  Numbers as the source uses them: decimal output (\<open>'' + n\<close>, \<open>toString(radix)\<close>), the
  coercion of a string to a number (\<open>s * 1\<close>, \<open>s > 9000\<close>, \<open>type == 2\<close>) and
  \<open>Math.round\<close> of a quotient. The strings that are coerced are printed by the search
  server with \<open>%d\<close>, so the coercion reads optional white space, an optional sign and
  decimal digits, and is NaN (\<open>None\<close>) on every other string.
\<close>

subsection \<open>Decimal output\<close>

definition digit_char :: "nat \<Rightarrow> jchar" where
  "digit_char d = (if d < 10 then 48 + d else 87 + d)"

function radix_str :: "nat \<Rightarrow> nat \<Rightarrow> ustr" where
  "radix_str r n =
     (if n < r \<or> r < 2 then [digit_char n] else radix_str r (n div r) @ [digit_char (n mod r)])"
  by pat_completeness auto
termination
  by (relation "measure snd") auto

declare radix_str.simps [simp del]

definition nat_str :: "nat \<Rightarrow> ustr" where
  "nat_str n = radix_str 10 n"

definition int_str :: "int \<Rightarrow> ustr" where
  "int_str i = (if i < 0 then 45 # nat_str (nat (- i)) else nat_str (nat i))"

lemma radix_str_not_Nil [simp]: "radix_str r n \<noteq> []"
  by (subst radix_str.simps) simp

lemma nat_str_not_Nil [simp]: "nat_str n \<noteq> []"
  by (simp add: nat_str_def)

lemma radix_str_digits:
  assumes "2 \<le> r" and "r \<le> 10"
  shows "\<forall>c \<in> set (radix_str r n). 48 \<le> c \<and> c < 48 + r"
  using assms
proof (induction r n rule: radix_str.induct)
  case (1 r n)
  show ?case
  proof (cases "n < r")
    case True
    with 1 show ?thesis by (subst radix_str.simps) (simp add: digit_char_def)
  next
    case False
    have "n mod r < r" using "1.prems" by simp
    moreover have "n mod r < 10" using "1.prems" \<open>n mod r < r\<close> by linarith
    moreover have "\<forall>c \<in> set (radix_str r (n div r)). 48 \<le> c \<and> c < 48 + r"
      using 1 False by simp
    ultimately show ?thesis using False "1.prems"
      by (subst radix_str.simps) (auto simp: digit_char_def)
  qed
qed

lemma nat_str_digits: "c \<in> set (nat_str n) \<Longrightarrow> 48 \<le> c \<and> c \<le> 57"
  using radix_str_digits [of 10 n] by (auto simp: nat_str_def)

subsection \<open>Coercion of a string\<close>

definition is_digit :: "jchar \<Rightarrow> bool" where
  "is_digit c \<longleftrightarrow> 48 \<le> c \<and> c \<le> 57"

fun digits_value :: "nat \<Rightarrow> ustr \<Rightarrow> nat" where
  "digits_value acc [] = acc"
| "digits_value acc (c # cs) = digits_value (10 * acc + (c - 48)) cs"

definition unsigned_number :: "ustr \<Rightarrow> int option" where
  "unsigned_number s =
     (if s \<noteq> [] \<and> list_all is_digit s then Some (int (digits_value 0 s)) else None)"

definition to_number :: "ustr \<Rightarrow> int option" where
  "to_number s =
     (case strip_left is_ws (strip_right is_ws s) of
        [] \<Rightarrow> Some 0
      | c # cs \<Rightarrow>
          if c = 45 then map_option uminus (unsigned_number cs)
          else if c = 43 then unsigned_number cs
          else unsigned_number (c # cs))"

definition num_gt :: "int option \<Rightarrow> int \<Rightarrow> bool" where
  "num_gt x k = (case x of None \<Rightarrow> False | Some v \<Rightarrow> v > k)"

lemma digits_value_append: "digits_value a (xs @ ys) = digits_value (digits_value a xs) ys"
  by (induction xs arbitrary: a) auto

lemma digits_value_radix10: "digits_value 0 (radix_str r n) = n" if "r = 10"
  using that
proof (induction r n rule: radix_str.induct)
  case (1 r n)
  show ?case
  proof (cases "n < 10")
    case True
    with 1 show ?thesis by (subst radix_str.simps) (simp add: digit_char_def)
  next
    case False
    have "digits_value 0 (radix_str r (n div r)) = n div r" using 1 False by simp
    moreover have "n mod 10 < 10" by simp
    ultimately show ?thesis using False "1.prems"
      by (subst radix_str.simps) (simp add: digits_value_append digit_char_def)
  qed
qed

lemma unsigned_number_nat_str: "unsigned_number (nat_str n) = Some (int n)"
proof -
  have "list_all is_digit (nat_str n)"
    by (auto simp: list_all_iff is_digit_def dest: nat_str_digits)
  then show ?thesis
    by (simp add: unsigned_number_def digits_value_radix10 nat_str_def)
qed

lemma digit_not_ws: "48 \<le> c \<Longrightarrow> c \<le> 57 \<Longrightarrow> \<not> is_ws c"
  by (simp add: is_ws_def)

lemma strip_ws_id:
  assumes "\<And>c. c \<in> set s \<Longrightarrow> \<not> is_ws c"
  shows "strip_left is_ws (strip_right is_ws s) = s"
  using assms by (metis hd_in_set last_in_set strip_left_id strip_right_id)

lemma nat_str_hd: "nat_str n = c # cs \<Longrightarrow> 48 \<le> c \<and> c \<le> 57"
  using nat_str_digits [of c n] by simp

text \<open>Reading back a printed integer gives the integer.\<close>

lemma to_number_nat_str: "to_number (nat_str n) = Some (int n)"
proof -
  obtain c cs where s: "nat_str n = c # cs" by (cases "nat_str n") auto
  have "strip_left is_ws (strip_right is_ws (nat_str n)) = nat_str n"
    by (rule strip_ws_id) (auto dest: nat_str_digits digit_not_ws)
  with s nat_str_hd [OF s] unsigned_number_nat_str [of n] show ?thesis
    by (auto simp: to_number_def)
qed

lemma to_number_int_str: "to_number (int_str i) = Some i"
proof (cases "i < 0")
  case True
  have "strip_left is_ws (strip_right is_ws (45 # nat_str (nat (- i)))) = 45 # nat_str (nat (- i))"
    by (rule strip_ws_id) (auto dest: nat_str_digits digit_not_ws simp: is_ws_def)
  with True show ?thesis
    by (simp add: to_number_def int_str_def unsigned_number_nat_str)
qed (simp add: int_str_def to_number_nat_str)

lemma int_str_inj: "int_str a = int_str b \<longleftrightarrow> a = b"
  by (metis option.inject to_number_int_str)

lemma nat_str_inj: "nat_str a = nat_str b \<longleftrightarrow> a = b"
  by (metis of_nat_eq_iff option.inject to_number_nat_str)

subsection \<open>Rounding\<close>

text \<open>\<open>Math.round(n / d)\<close> is the floor of \<open>n / d + 1 / 2\<close>: ties go up.\<close>

definition round_div :: "int \<Rightarrow> int \<Rightarrow> int" where
  "round_div n d = (2 * n + d) div (2 * d)"

lemma round_div_bounds:
  assumes "0 < d"
  shows "2 * \<bar>d * round_div n d - n\<bar> \<le> d"
proof -
  define p where "p = d * round_div n d"
  define m where "m = (2 * n + d) mod (2 * d)"
  have "2 * d * round_div n d + m = 2 * n + d"
    unfolding m_def round_div_def by (rule mult_div_mod_eq)
  then have "2 * p + m = 2 * n + d"
    by (simp add: p_def)
  moreover have "0 \<le> m" and "m < 2 * d"
    using assms by (simp_all add: m_def)
  ultimately have "2 * \<bar>p - n\<bar> \<le> d" by arith
  then show ?thesis by (simp add: p_def)
qed

text \<open>\<open>'' + t / 10\<close> for an integer \<open>t\<close>: one decimal, none when it is zero.\<close>

definition tenths_str :: "int \<Rightarrow> ustr" where
  "tenths_str t =
     (if t mod 10 = 0 then int_str (t div 10)
      else (if t < 0 then [45] else []) @ nat_str (nat \<bar>t\<bar> div 10) @ [46] @ nat_str (nat \<bar>t\<bar> mod 10))"

end
