(* ===== verification/EventLoop.thy ===== *)
theory EventLoop
  imports Prelude
begin

text \<open>
  The timers of the window: \<open>setTimeout\<close>, \<open>clearTimeout\<close>, the set of pending timers,
  and the discipline the scripts follow with a timer variable (clear what the variable
  names, then arm again). The locale \<open>timer_slot\<close> states that discipline as an interface;
  its clients prove once that at most one timer of a kind is pending.
\<close>

subsection \<open>Timers\<close>

datatype callback =
    HideMessage | SearchF0 | StatSearch | Highlight | IconReplace | HistoryParse | LoadHistory
  | CheckUpgrade | InitEvent | ScanImg | Refresh | ShowUpgradeInfo | RefreashIndexStatus
  | DelOfflineDb nat

record timer =
  t_id :: nat
  t_cb :: callback
  t_delay :: nat

record timers =
  next_id :: nat
  pending :: "timer list"

definition setTimeout :: "callback \<Rightarrow> nat \<Rightarrow> timers \<Rightarrow> nat \<times> timers" where
  "setTimeout cb d q =
     (next_id q, q\<lparr>next_id := Suc (next_id q),
                   pending := pending q @ [\<lparr>t_id = next_id q, t_cb = cb, t_delay = d\<rparr>]\<rparr>)"

definition clearTimeout :: "nat option \<Rightarrow> timers \<Rightarrow> timers" where
  "clearTimeout h q =
     (case h of None \<Rightarrow> q | Some i \<Rightarrow> q\<lparr>pending := filter (\<lambda>t. t_id t \<noteq> i) (pending q)\<rparr>)"

subsection \<open>What a well-formed timer queue is\<close>

definition ids_of :: "callback \<Rightarrow> timers \<Rightarrow> nat list" where
  "ids_of cb q = map t_id (filter (\<lambda>t. t_cb t = cb) (pending q))"

definition timers_ok :: "timers \<Rightarrow> bool" where
  "timers_ok q \<longleftrightarrow> distinct (map t_id (pending q)) \<and> (\<forall>t \<in> set (pending q). t_id t < next_id q)"

definition slot_ok :: "callback \<Rightarrow> nat option \<Rightarrow> timers \<Rightarrow> bool" where
  "slot_ok cb h q \<longleftrightarrow> timers_ok q \<and> set (ids_of cb q) \<subseteq> set_option h"

definition take_timer :: "nat \<Rightarrow> timers \<Rightarrow> timers" where
  "take_timer i q = q\<lparr>pending := filter (\<lambda>t. t_id t \<noteq> i) (pending q)\<rparr>"

lemma clearTimeout_None [simp]: "clearTimeout None q = q"
  by (simp add: clearTimeout_def)

lemma clearTimeout_Some: "clearTimeout (Some i) q = take_timer i q"
  by (simp add: clearTimeout_def take_timer_def)

lemma ids_of_take [simp]: "ids_of cb (take_timer i q) = filter (\<lambda>j. j \<noteq> i) (ids_of cb q)"
  by (simp add: ids_of_def take_timer_def filter_map o_def conj_commute)

lemma timers_ok_take [intro]: "timers_ok q \<Longrightarrow> timers_ok (take_timer i q)"
  by (auto simp: timers_ok_def take_timer_def distinct_map_filter)

lemma timers_ok_clear [intro]: "timers_ok q \<Longrightarrow> timers_ok (clearTimeout h q)"
  by (cases h) (auto simp: clearTimeout_Some)

lemma timers_ok_set [intro]: "timers_ok q \<Longrightarrow> timers_ok (snd (setTimeout cb d q))"
  by (auto simp: timers_ok_def setTimeout_def less_Suc_eq)

lemma ids_of_set:
  "ids_of cb (snd (setTimeout cb' d q)) = ids_of cb q @ (if cb' = cb then [next_id q] else [])"
  by (simp add: ids_of_def setTimeout_def)

lemma fst_setTimeout [simp]: "fst (setTimeout cb d q) = next_id q"
  by (simp add: setTimeout_def)

lemma distinct_ids_of: "timers_ok q \<Longrightarrow> distinct (ids_of cb q)"
  by (simp add: timers_ok_def ids_of_def distinct_map_filter)

lemma slot_ok_at_most_one: "slot_ok cb h q \<Longrightarrow> length (ids_of cb q) \<le> 1"
proof -
  assume ok: "slot_ok cb h q"
  then have "distinct (ids_of cb q)" by (auto simp: slot_ok_def intro: distinct_ids_of)
  then have "length (ids_of cb q) = card (set (ids_of cb q))" by (simp add: distinct_card)
  also have "\<dots> \<le> card (set_option h)" using ok by (auto simp: slot_ok_def intro: card_mono)
  also have "\<dots> \<le> 1" by (cases h) auto
  finally show ?thesis .
qed

lemma slot_ok_take [intro]: "slot_ok cb h q \<Longrightarrow> slot_ok cb h (take_timer i q)"
  by (auto simp: slot_ok_def)

lemma slot_ok_clear [intro]: "slot_ok cb h q \<Longrightarrow> slot_ok cb h (clearTimeout h' q)"
  by (cases h') (auto simp: clearTimeout_Some)

lemma slot_ok_set_other:
  "slot_ok cb h q \<Longrightarrow> cb' \<noteq> cb \<Longrightarrow> slot_ok cb h (snd (setTimeout cb' d q))"
  by (auto simp: slot_ok_def ids_of_set)

lemma ids_of_clear_own: "slot_ok cb h q \<Longrightarrow> ids_of cb (clearTimeout h q) = []"
  by (cases h) (auto simp: slot_ok_def clearTimeout_Some filter_empty_conv)

text \<open>Clearing the slot and arming it: the slot owns the one pending timer.\<close>

lemma slot_ok_arm:
  assumes "timers_ok q" and "ids_of cb q = []"
  shows "slot_ok cb (Some (next_id q)) (snd (setTimeout cb d q))"
  using assms by (auto simp: slot_ok_def ids_of_set)

subsection \<open>The interface of a timer variable\<close>

locale timer_slot =
  fixes queue :: "'s \<Rightarrow> timers"
    and slot :: "'s \<Rightarrow> nat option"
    and arm :: "'a \<Rightarrow> 's \<Rightarrow> 's"
    and cb :: callback
  assumes arm_ok: "slot_ok cb (slot s) (queue s) \<Longrightarrow> slot_ok cb (slot (arm a s)) (queue (arm a s))"
    and arm_pending: "slot_ok cb (slot s) (queue s) \<Longrightarrow> ids_of cb (queue (arm a s)) \<noteq> []"
begin

lemma arm_exactly_one:
  assumes "slot_ok cb (slot s) (queue s)"
  shows "length (ids_of cb (queue (arm a s))) = 1"
  using slot_ok_at_most_one [OF arm_ok [OF assms, of a]] arm_pending [OF assms, of a]
  by (cases "ids_of cb (queue (arm a s))") auto

lemma arm_owner:
  assumes "slot_ok cb (slot s) (queue s)"
  shows "\<exists>i. slot (arm a s) = Some i \<and> ids_of cb (queue (arm a s)) = [i]"
proof -
  obtain i where i: "ids_of cb (queue (arm a s)) = [i]"
    using arm_exactly_one [OF assms, of a] by (auto simp: length_Suc_conv)
  with arm_ok [OF assms, of a] show ?thesis by (cases "slot (arm a s)") (auto simp: slot_ok_def)
qed

lemma fold_arm_ok:
  "slot_ok cb (slot s) (queue s) \<Longrightarrow> slot_ok cb (slot (fold arm as s)) (queue (fold arm as s))"
  by (induction as arbitrary: s) (auto intro: arm_ok)

lemma burst_leaves_one:
  assumes "slot_ok cb (slot s) (queue s)" and "as \<noteq> []"
  shows "length (ids_of cb (queue (fold arm as s))) = 1"
proof -
  obtain bs a where as: "as = bs @ [a]" using assms(2) by (cases as rule: rev_cases) auto
  show ?thesis unfolding as using arm_exactly_one [OF fold_arm_ok [OF assms(1), of bs], of a] by simp
qed

end

text \<open>
  A component that owns a slot: it has operations besides arming, and an invariant of its own
  that all its operations keep and that makes the slot well-formed.
\<close>

locale timer_component = timer_slot queue slot arm cb
  for queue :: "'s \<Rightarrow> timers" and slot :: "'s \<Rightarrow> nat option" and arm :: "'a \<Rightarrow> 's \<Rightarrow> 's"
    and cb :: callback +
  fixes inv :: "'s \<Rightarrow> bool"
    and step :: "'b \<Rightarrow> 's \<Rightarrow> 's"
  assumes inv_slot_ok: "inv s \<Longrightarrow> slot_ok cb (slot s) (queue s)"
    and inv_arm: "inv s \<Longrightarrow> inv (arm a s)"
    and inv_step: "inv s \<Longrightarrow> inv (step b s)"
begin

lemma run_inv: "inv s \<Longrightarrow> inv (fold (case_sum arm step) es s)"
  by (induction es arbitrary: s) (auto intro: inv_arm inv_step split: sum.split)

lemma steps_inv: "inv s \<Longrightarrow> inv (fold step es s)"
  by (induction es arbitrary: s) (auto intro: inv_step)

lemma run_at_most_one:
  "inv s \<Longrightarrow> length (ids_of cb (queue (fold (case_sum arm step) es s))) \<le> 1"
  using inv_slot_ok run_inv slot_ok_at_most_one by blast

lemma steps_at_most_one: "inv s \<Longrightarrow> length (ids_of cb (queue (fold step es s))) \<le> 1"
  using inv_slot_ok steps_inv slot_ok_at_most_one by blast

lemma steps_pending_owner:
  assumes "inv s" and "i \<in> set (ids_of cb (queue (fold step es s)))"
  shows "slot (fold step es s) = Some i"
  using inv_slot_ok [OF steps_inv [OF assms(1), of es]] assms(2)
  by (cases "slot (fold step es s)") (auto simp: slot_ok_def)

end

end
