(* ===== verification/AppState.thy ===== *)
theory AppState
  imports JsNumber EventLoop
begin

text \<open>
  The state of the search page (the scripts of \<open>browser/web\<close>): the timers of the window, the global
  variables of \<open>search.js\<close>, \<open>disk.js\<close>, \<open>message.js\<close> and \<open>context.js\<close>, the
  properties of the native object \<open>cef\<close>, and the parts of the document the scripts write.
  The native object is not JavaScript: what it answers is the environment \<open>env\<close>, an
  argument of every handler, and the commands it receives are the log \<open>calls\<close>. A reply
  that \<open>eval\<close> cannot read as an array of records is \<open>None\<close>. One handler runs to
  completion, so within one handler the environment is fixed.
\<close>

subsection \<open>Records the server sends\<close>

record drive =
  d_id :: ustr
  d_type :: ustr
  d_serialNumber :: ustr
  d_totalMB :: ustr
  d_totalFreeMB :: ustr
  d_volumeName :: ustr
  d_fsName :: ustr
  d_time :: "ustr option"
  d_panfu :: "ustr option"
  d_typename :: "ustr option"
  d_indexed :: "ustr option"
  d_display :: "ustr option"

record db =
  db_name :: ustr
  db_time :: ustr

record file_entry =
  f_name :: ustr
  f_path :: ustr
  f_size :: "ustr option"
  f_time :: ustr
  f_type :: ustr
  f_icon_name :: "ustr option"
  f_name2 :: "ustr option"
  f_path2 :: "ustr option"

record hist =
  h_name :: ustr
  h_pin :: int
  h_id :: nat
  h_left :: int
  h_top :: int
  h_path :: ustr
  h_thumb :: ustr
  h_name2 :: ustr

text \<open>A row of the result table; its id is a number the scripts gave it or one the grid generated.
  The fields are what \<open>get_file_path\<close>, \<open>highlight\<close> and
  \<open>icon_replace\<close> read and write of it, its menu and how many handlers are bound to it.\<close>

datatype menu = NoMenu | MyMenu1 | MyMenu2 | MyMenu3 | EmptyMenu

datatype rowid = RowNum nat | RowGen nat

record row =
  r_id :: rowid
  r_file :: ustr
  r_path :: ustr
  r_type :: ustr
  r_html :: "ustr option"
  r_img :: "ustr option"
  r_ped :: bool
  r_menu :: menu
  r_keyups :: nat
  r_dblclicks :: nat

record dateparts =
  year :: int
  month :: int
  day :: int
  hours :: int
  minutes :: int
  seconds :: int

subsection \<open>Commands to the native object\<close>

datatype call =
    Search ustr | Stat ustr | StartServer
  | Shell2 ustr ustr | ShellDefault ustr | ShellExplore ustr | Term ustr | CopyPath ustr
  | BatchOpen ustr | BatchCopy ustr | BatchCut ustr | BatchDelete ustr
  | HisDel int | HisPin nat | HisUnpin nat | SaveFile ustr ustr
  | AjaxPost ustr ustr | AjaxGet ustr

text \<open>
  The environment of one handler: the replies of \<open>cef\<close> and of the browser.
  \<open>e_cell_title\<close> is the title the grid gives a cell with that markup, \<open>e_inner_html\<close> what
  the browser serialises of a text put between tags, \<open>e_dir2_width\<close> the rendered width of
  the directory label.
\<close>

record env =
  platform :: ustr
  e_index_status :: "drive list option"
  e_get_drives :: "drive list option"
  e_cache_dbs :: "db list option"
  e_search :: "ustr \<Rightarrow> file_entry list option"
  e_stat :: "ustr \<Rightarrow> (string \<Rightarrow> int option) option"
  e_history :: "hist list option"
  e_type :: "ustr \<Rightarrow> ustr"
  e_info :: "string \<Rightarrow> ustr"
  e_upgrade_status :: ustr
  e_upgrade_file :: ustr
  e_shell :: "call \<Rightarrow> bool"
  e_confirm :: bool
  e_icon :: "ustr \<Rightarrow> ustr"
  e_selectDir :: ustr
  e_hotkey :: "ustr \<Rightarrow> ustr"
  e_date :: "int \<Rightarrow> dateparts"
  e_now :: dateparts
  e_dir2_width :: "ustr \<Rightarrow> int"
  e_toLowerCase :: "ustr \<Rightarrow> ustr"
  e_cell_title :: "ustr \<Rightarrow> ustr"
  e_inner_html :: "ustr \<Rightarrow> ustr"

subsection \<open>The page\<close>

record app =
  tq :: timers
  message_timeout :: "nat option"
  search_timeout :: "nat option"
  highlight_timeout :: "nat option"
  history_timeout :: "nat option"
  history_parse_timeout :: "nat option"
  stat_timeout :: "nat option"
  refreash_index_dialog_timeout :: "nat option"
  msg_error :: bool
  msg_info :: bool
  msg_html :: ustr
  msg_opaque :: bool
  v_file :: ustr
  v_path :: ustr
  v_ftype :: ustr
  order_col :: "int option"
  order_desc :: bool
  cur_search :: "ustr option"
  files :: "file_entry list"
  icon_replace_index :: nat
  his_start :: bool
  first_grid :: bool
  cur_page_end :: nat
  mannual :: bool
  cef_order :: "int option"
  cef_file_type :: int
  cef_offline :: bool
  cef_caze :: bool
  cef_personal :: bool
  cef_dire :: ustr
  cef_fontSize :: int
  cef_hotkey :: ustr
  search_val :: ustr
  search_width :: int
  dir_search :: bool
  loading :: bool
  tabs_shown :: bool
  history_area :: bool
  scanning :: bool
  online_offline :: bool
  subnav_shown :: "ustr option"
  counts :: "string \<Rightarrow> ustr"
  dir_html :: ustr
  dir2_val :: ustr
  dir2_title :: ustr
  dir2_size_x2 :: int
  dir2_shown :: bool
  body_font :: int
  arrows :: "nat \<Rightarrow> bool option list"
  grid_rowNum :: nat
  rows :: "row list"
  selarrrow :: "rowid list"
  history_cells :: "hist list"
  history_pinned :: "bool list"
  history_unpin_bound :: "bool list"
  index_rows :: "drive list"
  offline_rows :: "drive list"
  dialogs :: "string set"
  export_filename :: ustr
  export_type :: ustr
  hotkey_select :: ustr
  upgrade_texts :: "ustr list"
  calls :: "call list"
  ajax_open :: "ustr list"

text \<open>A handler returns the state it leaves and the exception that ended it, if any.\<close>

type_synonym run = "app \<times> js_error option"

definition done_with :: "app \<Rightarrow> run" where
  "done_with s = (s, None)"

definition throw :: "js_error \<Rightarrow> app \<Rightarrow> run" where
  "throw e s = (s, Some e)"

definition and_then :: "run \<Rightarrow> (app \<Rightarrow> run) \<Rightarrow> run" where
  "and_then r f = (case snd r of None \<Rightarrow> f (fst r) | Some e \<Rightarrow> r)"

lemma and_then_done [simp]: "and_then (done_with s) f = f s"
  by (simp add: and_then_def done_with_def)

lemma and_then_throw [simp]: "and_then (throw e s) f = throw e s"
  by (simp add: and_then_def throw_def)

lemma fst_done [simp]: "fst (done_with s) = s" "snd (done_with s) = None"
  by (simp_all add: done_with_def)

lemma fst_throw [simp]: "fst (throw e s) = s" "snd (throw e s) = Some e"
  by (simp_all add: throw_def)

definition native :: "call \<Rightarrow> app \<Rightarrow> app" where
  "native c s = s\<lparr>calls := calls s @ [c]\<rparr>"

definition os_win :: "env \<Rightarrow> bool" where
  "os_win e \<longleftrightarrow> find_sub (lit ''win'') (map ascii_lower (platform e)) \<noteq> None"

definition os_linux :: "env \<Rightarrow> bool" where
  "os_linux e \<longleftrightarrow> find_sub (lit ''linux'') (map ascii_lower (platform e)) \<noteq> None"

definition path_sep :: "env \<Rightarrow> jchar" where
  "path_sep e = (if os_win e then backslash else 47)"

end
