(* ===== verification/Message.thy ===== *)
theory Message
  imports AppState
begin

text \<open>
  \<open>browser/web/message.js\<close>: the message area. A message is shown at once and a timer fades
  it out three seconds later; showing another message cancels the pending fade.
\<close>

definition hide_message :: "app \<Rightarrow> app" where
  "hide_message s = s\<lparr>msg_opaque := False\<rparr>"

definition show_error :: "ustr \<Rightarrow> app \<Rightarrow> app" where
  "show_error msg s =
     (let q = clearTimeout (message_timeout s) (tq s);
          (i, q') = setTimeout HideMessage 3000 q
      in s\<lparr>msg_error := True, msg_info := False, msg_html := msg, msg_opaque := True,
            message_timeout := Some i, tq := q'\<rparr>)"

definition show_info :: "ustr \<Rightarrow> app \<Rightarrow> app" where
  "show_info msg s =
     (let q = clearTimeout (message_timeout s) (tq s);
          (i, q') = setTimeout HideMessage 3000 q
      in s\<lparr>msg_info := True, msg_error := False, msg_html := msg, msg_opaque := True,
            message_timeout := Some i, tq := q'\<rparr>)"

definition action_text :: "ustr \<Rightarrow> ustr \<Rightarrow> ustr \<Rightarrow> ustr" where
  "action_text head action file = head @ lit ''! &nbsp;&nbsp;'' @ action @ [quote] @ file @ [quote] @ lit ''.''"

definition info_or_error :: "bool \<Rightarrow> ustr \<Rightarrow> ustr \<Rightarrow> app \<Rightarrow> app" where
  "info_or_error ret file action s =
     (if ret then show_info (action_text [0x6267, 0x884C, 0x6210, 0x529F] action file) s
      else show_error (action_text [0x6267, 0x884C, 0x5931, 0x8D25] action file) s)"

definition info_if_error :: "bool \<Rightarrow> ustr \<Rightarrow> ustr \<Rightarrow> app \<Rightarrow> app" where
  "info_if_error ret file action s =
     (if \<not> ret then show_error (action_text [0x6267, 0x884C, 0x5931, 0x8D25] action file) s else s)"

text \<open>The two ways to post a message, as one operation of the timer interface.\<close>

definition post :: "bool \<times> ustr \<Rightarrow> app \<Rightarrow> app" where
  "post m s = (if fst m then show_error (snd m) s else show_info (snd m) s)"

lemma post_fields [frame_simps]:
  "tq (show_error m s) = snd (setTimeout HideMessage 3000 (clearTimeout (message_timeout s) (tq s)))"
  "tq (show_info m s) = snd (setTimeout HideMessage 3000 (clearTimeout (message_timeout s) (tq s)))"
  "message_timeout (show_error m s) = Some (next_id (clearTimeout (message_timeout s) (tq s)))"
  "message_timeout (show_info m s) = Some (next_id (clearTimeout (message_timeout s) (tq s)))"
  by (simp_all add: show_error_def show_info_def setTimeout_def Let_def)

lemma message_slot_ok:
  assumes "slot_ok HideMessage (message_timeout s) (tq s)"
  shows "slot_ok HideMessage (message_timeout (show_error m s)) (tq (show_error m s))"
    and "slot_ok HideMessage (message_timeout (show_info m s)) (tq (show_info m s))"
proof -
  let ?q = "clearTimeout (message_timeout s) (tq s)"
  have "timers_ok ?q" using assms by (auto simp: slot_ok_def)
  moreover have "ids_of HideMessage ?q = []" using assms by (rule ids_of_clear_own)
  ultimately have ok: "slot_ok HideMessage (Some (next_id ?q)) (snd (setTimeout HideMessage 3000 ?q))"
    by (rule slot_ok_arm)
  show "slot_ok HideMessage (message_timeout (show_error m s)) (tq (show_error m s))"
    and "slot_ok HideMessage (message_timeout (show_info m s)) (tq (show_info m s))"
    using ok by (simp_all add: frame_simps)
qed

interpretation message_slot: timer_slot tq message_timeout post HideMessage
proof
  fix s :: app and a
  assume ok: "slot_ok HideMessage (message_timeout s) (tq s)"
  show "slot_ok HideMessage (message_timeout (post a s)) (tq (post a s))"
    using ok by (simp add: post_def message_slot_ok)
  show "ids_of HideMessage (tq (post a s)) \<noteq> []"
    by (simp add: post_def frame_simps ids_of_set)
qed

lemma show_frame [simp]:
  "search_timeout (show_error m s) = search_timeout s"
  "search_timeout (show_info m s) = search_timeout s"
  "files (show_error m s) = files s" "files (show_info m s) = files s"
  "rows (show_error m s) = rows s" "rows (show_info m s) = rows s"
  "calls (show_error m s) = calls s" "calls (show_info m s) = calls s"
  "search_val (show_error m s) = search_val s" "search_val (show_info m s) = search_val s"
  "cur_search (show_error m s) = cur_search s" "cur_search (show_info m s) = cur_search s"
  "first_grid (show_error m s) = first_grid s" "first_grid (show_info m s) = first_grid s"
  "cur_page_end (show_error m s) = cur_page_end s" "cur_page_end (show_info m s) = cur_page_end s"
  "grid_rowNum (show_error m s) = grid_rowNum s" "grid_rowNum (show_info m s) = grid_rowNum s"
  "cef_offline (show_error m s) = cef_offline s" "cef_offline (show_info m s) = cef_offline s"
  "msg_error (show_error m s)" "msg_info (show_info m s)"
  "\<not> msg_info (show_error m s)" "\<not> msg_error (show_info m s)"
  "msg_html (show_error m s) = m" "msg_html (show_info m s) = m"
  by (simp_all add: show_error_def show_info_def Let_def split: prod.split)

lemma slot_ok_show_other:
  assumes "slot_ok cb h (tq s)" and "cb \<noteq> HideMessage"
  shows "slot_ok cb h (tq (show_error m s))" and "slot_ok cb h (tq (show_info m s))"
  using assms by (auto simp: frame_simps intro!: slot_ok_set_other slot_ok_clear)

end
