(* ===== verification/Order.thy ===== *)
theory Order
  imports Message
begin

text \<open>
  The order of the results (\<open>search.js\<close>, \<open>set_orderby_value\<close> to \<open>file_type_search\<close>; the
  header handler of \<open>disk.js\<close>). A column that is \<open>undefined\<close> is \<open>None\<close>; the numeric
  order the server is told (\<open>cef.order\<close>) is then NaN. The scripts use \<open>desc\<close> only as a
  truth value and as the number 0 or 1, so it is a \<open>bool\<close>. \<open>arrows\<close> gives, for each table
  header, the spans inside it: \<open>None\<close> for an emptied one, \<open>Some desc\<close> for an arrow image.
\<close>

definition set_orderby_value :: "int option \<Rightarrow> bool \<Rightarrow> app \<Rightarrow> app" where
  "set_orderby_value col desc s =
     s\<lparr>order_col := col, order_desc := desc,
       cef_order := map_option (\<lambda>c. c * 2 + of_bool desc + 1) col\<rparr>"

definition set_order_arrow :: "int option \<Rightarrow> bool \<Rightarrow> app \<Rightarrow> run" where
  "set_order_arrow col_add desc s =
     (let cleared = (\<lambda>k. map (\<lambda>_. None) (arrows s k)); s1 = s\<lparr>arrows := cleared\<rparr>
      in case col_add of
           None \<Rightarrow> throw SyntaxError s1
         | Some c \<Rightarrow>
             done_with (s1\<lparr>arrows := (\<lambda>k. if int k = c then cleared k @ [Some desc] else cleared k)\<rparr>))"

definition arm_search :: "nat \<Rightarrow> app \<Rightarrow> app" where
  "arm_search delay s =
     (let (i, q) = setTimeout SearchF0 delay (clearTimeout (search_timeout s) (tq s))
      in s\<lparr>search_timeout := Some i, tq := q\<rparr>)"

definition orderby :: "int option \<Rightarrow> bool \<Rightarrow> app \<Rightarrow> run" where
  "orderby col desc s =
     and_then
       (let s1 = set_orderby_value col desc (s\<lparr>loading := True\<rparr>)
        in if \<not> first_grid s1 then set_order_arrow (map_option (\<lambda>c. c * 1 + 1) col) desc s1
           else done_with s1)
       (\<lambda>s2. done_with (if length (files s2) > 0 then arm_search 5 s2 else s2))"

definition header_index :: "ustr \<Rightarrow> int option" where
  "header_index th_id =
     (if th_id = lit ''maintable_icon_name'' then Some 0
      else if th_id = lit ''maintable_path'' then Some 1
      else if th_id = lit ''maintable_size'' then Some 2
      else if th_id = lit ''maintable_time'' then Some 3
      else None)"

definition header_click :: "ustr \<Rightarrow> app \<Rightarrow> run" where
  "header_click th_id s =
     (let index = header_index th_id in
      if index = order_col s then orderby index (\<not> order_desc s) s
      else orderby index True s)"

definition file_type_search :: "int \<Rightarrow> app \<Rightarrow> app" where
  "file_type_search ft s =
     (let s1 = s\<lparr>loading := True, cef_file_type := ft\<rparr>
      in if search_val s1 = [] then s1 else arm_search 5 s1)"

subsection \<open>Facts\<close>

lemma arm_search_fields [frame_simps]:
  "tq (arm_search d s) = snd (setTimeout SearchF0 d (clearTimeout (search_timeout s) (tq s)))"
  "search_timeout (arm_search d s) = Some (next_id (clearTimeout (search_timeout s) (tq s)))"
  by (simp_all add: arm_search_def setTimeout_def Let_def)

lemma arm_search_frame [simp]:
  "order_col (arm_search d s) = order_col s" "order_desc (arm_search d s) = order_desc s"
  "cef_order (arm_search d s) = cef_order s" "arrows (arm_search d s) = arrows s"
  "files (arm_search d s) = files s" "search_val (arm_search d s) = search_val s"
  "cur_search (arm_search d s) = cur_search s" "rows (arm_search d s) = rows s"
  "message_timeout (arm_search d s) = message_timeout s" "calls (arm_search d s) = calls s"
  "first_grid (arm_search d s) = first_grid s" "cef_file_type (arm_search d s) = cef_file_type s"
  "cef_offline (arm_search d s) = cef_offline s" "cur_page_end (arm_search d s) = cur_page_end s"
  by (simp_all add: arm_search_def Let_def split: prod.split)

lemma arm_search_ok:
  assumes "slot_ok SearchF0 (search_timeout s) (tq s)"
  shows "slot_ok SearchF0 (search_timeout (arm_search d s)) (tq (arm_search d s))"
  unfolding frame_simps
  by (rule slot_ok_arm) (use assms in \<open>auto simp: slot_ok_def ids_of_clear_own [OF assms]\<close>)

interpretation search_slot: timer_slot tq search_timeout arm_search SearchF0
proof
  fix s :: app and d :: nat
  assume ok: "slot_ok SearchF0 (search_timeout s) (tq s)"
  then show "slot_ok SearchF0 (search_timeout (arm_search d s)) (tq (arm_search d s))"
    by (rule arm_search_ok)
  show "ids_of SearchF0 (tq (arm_search d s)) \<noteq> []"
    by (simp add: frame_simps ids_of_set)
qed

text \<open>The number the server is sent determines the column and the direction.\<close>

lemma order_code_inj:
  assumes "0 \<le> c" "0 \<le> c'" and "c * 2 + of_bool d + 1 = c' * 2 + of_bool d' + (1::int)"
  shows "c = c' \<and> d = d'"
  using assms by (cases d; cases d') (auto, presburger+)

definition arrow_heads :: "app \<Rightarrow> nat \<Rightarrow> bool list" where
  "arrow_heads s k = map the (filter (\<lambda>a. a \<noteq> None) (arrows s k))"

lemma set_order_arrow_heads:
  "snd (set_order_arrow (Some c) desc s) = None"
  "arrow_heads (fst (set_order_arrow (Some c) desc s)) k = (if int k = c then [desc] else [])"
  by (auto simp: set_order_arrow_def arrow_heads_def Let_def filter_empty_conv)

lemma orderby_state:
  "snd (orderby (Some c) desc s) = None"
  "order_col (fst (orderby (Some c) desc s)) = Some c"
  "order_desc (fst (orderby (Some c) desc s)) = desc"
  "cef_order (fst (orderby (Some c) desc s)) = Some (c * 2 + of_bool desc + 1)"
  "files (fst (orderby (Some c) desc s)) = files s"
  "first_grid (fst (orderby (Some c) desc s)) = first_grid s"
  by (auto simp: orderby_def set_orderby_value_def set_order_arrow_def Let_def)

lemma orderby_heads:
  "\<not> first_grid s \<Longrightarrow>
     arrow_heads (fst (orderby (Some c) desc s)) k = (if int k = c + 1 then [desc] else [])"
  by (auto simp: orderby_def set_orderby_value_def set_order_arrow_def Let_def arrow_heads_def
      filter_empty_conv)

end
