(* ===== verification/Grid.thy ===== *)
theory Grid
  imports Order
begin

text \<open>
  The result table: the second half of \<open>disk.js\<close> (from \<open>file_grid\<close> on), \<open>highlight\<close> and
  \<open>icon_replace\<close> of \<open>search.js\<close>, and \<open>get_file_path\<close> of \<open>context.js\<close>. The jqGrid widget is used through four of its documented operations: the
  table shows the first \<open>rowNum\<close> records of its local data with ids 1, 2, ... after a reload,
  \<open>addRowData\<close> with an array appends rows with generated ids, \<open>resetSelection\<close> empties the
  selection and \<open>setSelection\<close> toggles a row of a multi-select table.
\<close>

subsection \<open>Rows and where they point\<close>

datatype target = RowTarget row | SpanTarget ustr ustr

definition get_file_path :: "env \<Rightarrow> target \<Rightarrow> app \<Rightarrow> app" where
  "get_file_path e tr s =
     (case tr of
        SpanTarget f p \<Rightarrow> s\<lparr>v_file := f, v_path := p, v_ftype := e_type e (p @ f)\<rparr>
      | RowTarget r \<Rightarrow> s\<lparr>v_file := r_file r, v_path := r_path r, v_ftype := r_type r\<rparr>)"

definition make_row :: "env \<Rightarrow> rowid \<Rightarrow> file_entry \<Rightarrow> row" where
  "make_row e i f =
     \<lparr>r_id = i,
      r_file = (case f_icon_name f of None \<Rightarrow> [] | Some h \<Rightarrow> e_cell_title e h),
      r_path = e_cell_title e (f_path f),
      r_type = e_cell_title e (f_type f),
      r_html = map_option (\<lambda>_. e_inner_html e (f_name f)) (f_icon_name f),
      r_img = map_option (\<lambda>_. lit ''icons/'' @ f_type f @ lit ''.ico'') (f_icon_name f),
      r_ped = False, r_menu = NoMenu, r_keyups = 0, r_dblclicks = 0\<rparr>"

subsection \<open>The grid operations of jqGrid the script calls\<close>

definition grid_reload :: "env \<Rightarrow> app \<Rightarrow> app" where
  "grid_reload e s =
     s\<lparr>rows := map (\<lambda>(i, f). make_row e (RowNum (Suc i)) f)
                  (enumerate 0 (take (grid_rowNum s) (files s))),
       selarrrow := []\<rparr>"

definition grid_addRowData :: "env \<Rightarrow> file_entry list \<Rightarrow> app \<Rightarrow> app" where
  "grid_addRowData e fs s =
     s\<lparr>rows := rows s @ map (\<lambda>(i, f). make_row e (RowGen i) f) (enumerate (length (rows s)) fs)\<rparr>"

definition resetSelection :: "app \<Rightarrow> app" where
  "resetSelection s = s\<lparr>selarrrow := []\<rparr>"

subsection \<open>The table\<close>

definition page_row :: nat where
  "page_row = 100"

definition grid_start_id :: "app \<Rightarrow> nat" where
  "grid_start_id s = (if cur_page_end s = 200 then 0 else cur_page_end s - page_row)"

definition bind_row :: "bool \<Rightarrow> row \<Rightarrow> row" where
  "bind_row offline r =
     (if r_ped r then r
      else let r1 = r\<lparr>r_keyups := Suc (r_keyups r)\<rparr>
           in if \<not> offline then r1\<lparr>r_menu := MyMenu1, r_dblclicks := Suc (r_dblclicks r1)\<rparr>
              else r1\<lparr>r_menu := MyMenu2\<rparr>)"

definition grid_event :: "app \<Rightarrow> app" where
  "grid_event s =
     (let s1 = s\<lparr>rows := map (bind_row (cef_offline s)) (rows s)\<rparr>;
          (i, q) = setTimeout Highlight 1 (tq s1)
      in s1\<lparr>highlight_timeout := Some i, tq := q\<rparr>)"

definition file_grid :: "env \<Rightarrow> app \<Rightarrow> run" where
  "file_grid e s =
     (let s1 = grid_reload e (s\<lparr>grid_rowNum := cur_page_end s\<rparr>);
          s2 = s1\<lparr>first_grid := False\<rparr>
      in and_then (set_order_arrow (map_option (\<lambda>c. c + 1) (order_col s2)) (order_desc s2) s2)
           (\<lambda>s3. done_with (grid_event s3)))"

definition view_grid :: "env \<Rightarrow> app \<Rightarrow> run" where
  "view_grid e s =
     (if first_grid s then file_grid e s
      else let s1 = s\<lparr>rows := []\<rparr>; s2 = grid_reload e s1
           in done_with (grid_event s2))"

definition renumber :: "nat \<Rightarrow> row list \<Rightarrow> row list" where
  "renumber from rs =
     map (\<lambda>(k, r). if k \<ge> from then r\<lparr>r_id := RowNum (from + (k - from) + 1)\<rparr> else r) (enumerate 0 rs)"

definition grid_add_files :: "env \<Rightarrow> app \<Rightarrow> app" where
  "grid_add_files e s =
     (let p = cur_page_end s;
          s1 = grid_addRowData e (slice (files s) (int p) (int (p + page_row))) s;
          s2 = s1\<lparr>rows := renumber p (rows s1)\<rparr>;
          s3 = s2\<lparr>cur_page_end := p + page_row\<rparr>
      in grid_event s3)"

definition selected_file :: "app \<Rightarrow> rowid \<Rightarrow> file_entry res" where
  "selected_file s ele =
     (case ele of
        RowGen _ \<Rightarrow> Inl TypeError
      | RowNum i \<Rightarrow> if 1 \<le> i \<and> i \<le> length (files s) then Inr (files s ! (i - 1)) else Inl TypeError)"

definition grid_selectd_files :: "app \<Rightarrow> ustr res" where
  "grid_selectd_files s =
     rbind (rmap (selected_file s) (selarrrow s))
       (\<lambda>fs. Inr (concat (map (\<lambda>f. f_path f @ f_name f @ lit ''|'') fs)))"

definition grid_selectd_filenames :: "app \<Rightarrow> ustr res" where
  "grid_selectd_filenames s =
     rbind (rmap (selected_file s) (selarrrow s))
       (\<lambda>fs. Inr (concat (map (\<lambda>f. f_name f @ [10]) fs)))"

definition grid_batch_unselect :: "app \<Rightarrow> app" where
  "grid_batch_unselect s =
     resetSelection (s\<lparr>rows := map (\<lambda>r. r\<lparr>r_menu := MyMenu1\<rparr>) (rows s)\<rparr>)"

definition has_row_selected :: "rowid \<Rightarrow> app \<Rightarrow> bool" where
  "has_row_selected rowid s = fold (\<lambda>ele ret. if ele = rowid then True else ret) (selarrrow s) False"

definition set_menu_at :: "nat \<Rightarrow> menu \<Rightarrow> app \<Rightarrow> app" where
  "set_menu_at k m s =
     (if k < length (rows s) then s\<lparr>rows := (rows s)[k := (rows s ! k)\<lparr>r_menu := m\<rparr>]\<rparr> else s)"

text \<open>
  \<open>onSelectRow\<close>: row ids start at 1 and the first table row is the header of the widget, so
  child \<open>id + 1\<close> is the row at position \<open>id - 1\<close>. A generated id makes the selector
  \<open>nth-child(NaN)\<close>, which the selector engine rejects.
\<close>

definition onSelectRow :: "rowid \<Rightarrow> bool \<Rightarrow> app \<Rightarrow> run" where
  "onSelectRow i status s =
     (case i of
        RowGen _ \<Rightarrow> throw SyntaxError s
      | RowNum n \<Rightarrow>
          (let k = n - 1;
               s1 = (if n = 0 then s
                     else if status then (if length (selarrrow s) > 1 then set_menu_at k MyMenu3 s else s)
                     else set_menu_at k MyMenu1 s)
           in if 1 \<le> n \<and> k < length (rows s1) then
                (if substr (r_path (rows s1 ! k)) 0 1 = [backslash]
                 then done_with (set_menu_at k EmptyMenu s1) else done_with s1)
              else throw TypeError s1))"

definition setSelection :: "rowid \<Rightarrow> app \<Rightarrow> run" where
  "setSelection i s =
     (if i \<notin> set (map r_id (rows s)) then done_with s
      else if i \<in> set (selarrrow s)
      then onSelectRow i False (s\<lparr>selarrrow := remove1 i (selarrrow s)\<rparr>)
      else onSelectRow i True (s\<lparr>selarrrow := selarrrow s @ [i]\<rparr>))"

subsection \<open>Highlighting the match, replacing the icons\<close>

definition highlight_html :: "env \<Rightarrow> ustr \<Rightarrow> ustr \<Rightarrow> ustr" where
  "highlight_html e search html =
     (let fi = indexOf (e_toLowerCase e html) (e_toLowerCase e search) in
      if fi = -1 then html
      else substring html 0 fi
           @ lit ''<span class='' @ [39] @ lit ''highlight-match'' @ [39] @ lit ''>''
           @ substring html fi (fi + int (length search)) @ lit ''</span>''
           @ substring html (fi + int (length search)) (int (length html)))"

definition set_icon :: "ustr \<Rightarrow> row \<Rightarrow> row res" where
  "set_icon full_path r =
     (case r_img r of None \<Rightarrow> Inl TypeError
      | Some _ \<Rightarrow> Inr (r\<lparr>r_img := Some (lit ''gigaso://icon/'' @ full_path)\<rparr>))"

text \<open>
  One pass over the rows \<open>todo\<close> that \<open>sel\<close> selects, with \<open>done_rows\<close> before them and \<open>rest\<close>
  after them; an exception leaves the remaining rows as they were. \<open>get_file_path\<close> sets the
  global variables for each row the loop reaches.
\<close>

fun icon_pass ::
  "env \<Rightarrow> (row \<Rightarrow> bool) \<Rightarrow> (ustr \<Rightarrow> bool) \<Rightarrow> row list \<Rightarrow> row list \<Rightarrow> row list \<Rightarrow> app \<Rightarrow> run"
where
  "icon_pass e sel wanted done_rows [] rest s = done_with (s\<lparr>rows := done_rows @ rest\<rparr>)"
| "icon_pass e sel wanted done_rows (r # todo) rest s =
     (if \<not> sel r then icon_pass e sel wanted (done_rows @ [r]) todo rest s
      else
        let s1 = get_file_path e (RowTarget r) s; full_path = v_path s1 @ v_file s1 in
        if 37 \<in> set full_path \<or> \<not> wanted full_path
        then icon_pass e sel wanted (done_rows @ [r]) todo rest s1
        else case set_icon full_path r of
               Inl x \<Rightarrow> throw x (s1\<lparr>rows := done_rows @ r # todo @ rest\<rparr>)
             | Inr r' \<Rightarrow> icon_pass e sel wanted (done_rows @ [r']) todo rest s1)"

definition highlight :: "env \<Rightarrow> app \<Rightarrow> run" where
  "highlight e s =
     (let s1 = s\<lparr>rows := map (\<lambda>r. if r_ped r then r
                    else r\<lparr>r_html := map_option (highlight_html e (search_val s)) (r_html r)\<rparr>) (rows s)\<rparr>
      in and_then
           (icon_pass e (\<lambda>r. \<not> r_ped r) (\<lambda>p. ends_with_ci ''exe'' p \<or> ends_with_ci ''lnk'' p)
              [] (rows s1) [] s1)
           (\<lambda>s2.
              let s3 = s2\<lparr>rows := map (\<lambda>r. r\<lparr>r_ped := True\<rparr>) (rows s2), icon_replace_index := 0\<rparr>;
                  s4 = (if \<not> cef_offline s3
                        then let (i, q) = setTimeout IconReplace 1 (tq s3)
                             in s3\<lparr>highlight_timeout := Some i, tq := q\<rparr>
                        else s3)
              in done_with (s4\<lparr>loading := False\<rparr>)))"

definition icon_replace :: "env \<Rightarrow> app \<Rightarrow> run" where
  "icon_replace e s =
     (let from = grid_start_id s + icon_replace_index s;
          before = take from (rows s);
          batch = take 20 (drop from (rows s));
          after = drop 20 (drop from (rows s));
          finished = (\<forall>r \<in> set batch. 37 \<in> set (r_path r @ r_file r))
      in and_then (icon_pass e (\<lambda>_. True) (\<lambda>_. True) before batch after s)
           (\<lambda>s1. if finished then done_with s1
                 else let (i, q) = setTimeout IconReplace 1 (tq s1)
                      in done_with (s1\<lparr>icon_replace_index := icon_replace_index s1 + 20,
                                      highlight_timeout := Some i, tq := q\<rparr>)))"

subsection \<open>Facts\<close>

definition row_key :: "row \<Rightarrow> rowid \<times> ustr \<times> ustr \<times> ustr" where
  "row_key r = (r_id r, r_file r, r_path r, r_type r)"

definition shown_row :: "env \<Rightarrow> app \<Rightarrow> nat \<Rightarrow> nat \<Rightarrow> bool" where
  "shown_row e s k j \<longleftrightarrow> row_key (rows s ! k) = row_key (make_row e (RowNum (Suc k)) (files s ! j))"

text \<open>\<open>table_shows e n s\<close>: the table displays the first \<open>n\<close> results, numbered from 1.\<close>

definition table_shows :: "env \<Rightarrow> nat \<Rightarrow> app \<Rightarrow> bool" where
  "table_shows e n s \<longleftrightarrow> length (rows s) = min n (length (files s)) \<and> (\<forall>k < length (rows s). shown_row e s k k)"

lemma row_key_bind [simp]: "row_key (bind_row b r) = row_key r"
  by (simp add: row_key_def bind_row_def Let_def)

lemma row_key_make_row: "row_key ((make_row e j f)\<lparr>r_id := i\<rparr>) = row_key (make_row e i f)"
  by (simp add: row_key_def make_row_def)

lemma grid_event_frame [simp]:
  "files (grid_event s) = files s" "cur_page_end (grid_event s) = cur_page_end s"
  "grid_rowNum (grid_event s) = grid_rowNum s" "first_grid (grid_event s) = first_grid s"
  "rows (grid_event s) = map (bind_row (cef_offline s)) (rows s)"
  "selarrrow (grid_event s) = selarrrow s" "search_timeout (grid_event s) = search_timeout s"
  "message_timeout (grid_event s) = message_timeout s" "calls (grid_event s) = calls s"
  "cur_search (grid_event s) = cur_search s" "search_val (grid_event s) = search_val s"
  "tq (grid_event s) = snd (setTimeout Highlight 1 (tq s))"
  "arrows (grid_event s) = arrows s" "order_col (grid_event s) = order_col s"
  "order_desc (grid_event s) = order_desc s" "loading (grid_event s) = loading s"
  by (simp_all add: grid_event_def Let_def split: prod.split)

lemma shows_grid_event [simp]: "table_shows e n (grid_event s) \<longleftrightarrow> table_shows e n s"
  by (simp add: table_shows_def shown_row_def)

lemma rows_reload_nth:
  "k < length (take n fs) \<Longrightarrow>
     map (\<lambda>(i, f). make_row e (RowNum (Suc i)) f) (enumerate 0 (take n fs)) ! k = make_row e (RowNum (Suc k)) (fs ! k)"
  by (simp add: enumerate_eq_zip)

lemma shows_reload: "table_shows e (grid_rowNum s) (grid_reload e s)"
  by (auto simp: table_shows_def shown_row_def grid_reload_def enumerate_eq_zip)

lemma view_grid_shows:
  assumes "\<not> first_grid s"
  shows "table_shows e (grid_rowNum s) (fst (view_grid e s)) \<and> snd (view_grid e s) = None"
  using assms shows_reload [of e "s\<lparr>rows := []\<rparr>"] by (simp add: view_grid_def Let_def)

lemma length_renumber [simp]: "length (renumber n rs) = length rs"
  by (simp add: renumber_def)

lemma renumber_nth:
  "k < length rs \<Longrightarrow> renumber p rs ! k = (if k \<ge> p then (rs ! k)\<lparr>r_id := RowNum (Suc k)\<rparr> else rs ! k)"
  by (simp add: renumber_def enumerate_eq_zip)

lemma grid_add_files_frame [simp]:
  "files (grid_add_files e s) = files s"
  "cur_page_end (grid_add_files e s) = cur_page_end s + 100"
  "grid_rowNum (grid_add_files e s) = grid_rowNum s"
  "first_grid (grid_add_files e s) = first_grid s"
  by (simp_all add: grid_add_files_def grid_addRowData_def Let_def page_row_def)

definition page_rows :: "env \<Rightarrow> app \<Rightarrow> row list" where
  "page_rows e s =
     map (\<lambda>(i, f). make_row e (RowGen i) f)
       (enumerate (length (rows s)) (take 100 (drop (cur_page_end s) (files s))))"

lemma length_page_rows [simp]: "length (page_rows e s) = min (length (files s) - cur_page_end s) 100"
  by (simp add: page_rows_def)

lemma page_rows_nth:
  "k < length (page_rows e s) \<Longrightarrow>
     page_rows e s ! k = make_row e (RowGen (length (rows s) + k)) (files s ! (cur_page_end s + k))"
  by (auto simp: page_rows_def enumerate_eq_zip nth_drop)

lemma grid_add_files_rows:
  "rows (grid_add_files e s) =
     map (bind_row (cef_offline s)) (renumber (cur_page_end s) (rows s @ page_rows e s))"
  using slice_nat [of "files s" "cur_page_end s" "cur_page_end s + 100"]
  by (simp add: grid_add_files_def grid_addRowData_def Let_def page_row_def page_rows_def)

text \<open>Appending a page keeps the table a numbered prefix of the results.\<close>

lemma grid_add_files_shows:
  assumes "table_shows e (cur_page_end s) s"
  shows "table_shows e (cur_page_end s + 100) (grid_add_files e s)"
proof -
  let ?p = "cur_page_end s" and ?fs = "files s" and ?all = "rows s @ page_rows e s"
  have len: "length (rows s) = min ?p (length ?fs)"
    and old: "\<And>k. k < length (rows s) \<Longrightarrow> row_key (rows s ! k) = row_key (make_row e (RowNum (Suc k)) (?fs ! k))"
    using assms by (auto simp: table_shows_def shown_row_def)
  have n: "length (rows (grid_add_files e s)) = min (?p + 100) (length ?fs)"
    unfolding grid_add_files_rows by (simp add: len)
  have "row_key (rows (grid_add_files e s) ! k) = row_key (make_row e (RowNum (Suc k)) (?fs ! k))"
    if k: "k < length (rows (grid_add_files e s))" for k
  proof -
    have kl: "k < length ?all" using k unfolding grid_add_files_rows by simp
    show ?thesis
    proof (cases "k < length (rows s)")
      case True
      then show ?thesis unfolding grid_add_files_rows using kl old [OF True] len
        by (simp add: renumber_nth nth_append)
    next
      case False
      then have ge: "k \<ge> ?p" "length (rows s) = ?p" using kl len by auto
      have "k - ?p < length (page_rows e s)" using kl ge by auto
      then have "?all ! k = make_row e (RowGen (?p + (k - ?p))) (?fs ! (?p + (k - ?p)))"
        using ge by (simp add: nth_append page_rows_nth del: length_page_rows)
      then show ?thesis unfolding grid_add_files_rows using kl ge
        by (simp add: renumber_nth row_key_make_row)
    qed
  qed
  with n show ?thesis by (simp add: table_shows_def shown_row_def)
qed

lemma set_icon_key: "set_icon p r = Inr r' \<Longrightarrow> row_key r' = row_key r"
  by (auto simp: set_icon_def row_key_def split: option.splits)

lemma icon_pass_keys:
  "map row_key (rows (fst (icon_pass e sel w ds todo rest s))) = map row_key (ds @ todo @ rest)"
proof (induction e sel w ds todo rest s rule: icon_pass.induct)
  case (2 e sel w ds r todo rest s)
  then show ?case by (auto simp: Let_def set_icon_key split: sum.split)
qed simp

lemma get_file_path_frame [simp]:
  "files (get_file_path e t s) = files s" "rows (get_file_path e t s) = rows s"
  "cur_page_end (get_file_path e t s) = cur_page_end s" "tq (get_file_path e t s) = tq s"
  "search_timeout (get_file_path e t s) = search_timeout s" "calls (get_file_path e t s) = calls s"
  "message_timeout (get_file_path e t s) = message_timeout s"
  "cef_offline (get_file_path e t s) = cef_offline s" "first_grid (get_file_path e t s) = first_grid s"
  "cur_search (get_file_path e t s) = cur_search s" "search_val (get_file_path e t s) = search_val s"
  "icon_replace_index (get_file_path e t s) = icon_replace_index s"
  "grid_rowNum (get_file_path e t s) = grid_rowNum s"
  "selarrrow (get_file_path e t s) = selarrrow s"
  by (simp_all add: get_file_path_def split: target.split)

lemma icon_pass_frame [simp]:
  "files (fst (icon_pass e sel w ds todo rest s)) = files s"
  "cur_page_end (fst (icon_pass e sel w ds todo rest s)) = cur_page_end s"
  "tq (fst (icon_pass e sel w ds todo rest s)) = tq s"
  "search_timeout (fst (icon_pass e sel w ds todo rest s)) = search_timeout s"
  "message_timeout (fst (icon_pass e sel w ds todo rest s)) = message_timeout s"
  "first_grid (fst (icon_pass e sel w ds todo rest s)) = first_grid s"
  "grid_rowNum (fst (icon_pass e sel w ds todo rest s)) = grid_rowNum s"
  "icon_replace_index (fst (icon_pass e sel w ds todo rest s)) = icon_replace_index s"
  by (induction e sel w ds todo rest s rule: icon_pass.induct)
     (auto simp: Let_def split: sum.split)

lemma shows_keys: "table_shows e n s \<Longrightarrow> map row_key (rows t) = map row_key (rows s) \<Longrightarrow> files t = files s \<Longrightarrow> table_shows e n t"
  unfolding table_shows_def shown_row_def by (metis length_map nth_map)

end
