(* ===== verification/Drives.thy ===== *)
theory Drives
  imports AppState
begin

text \<open>
  The disk part of \<open>browser/web/disk.js\<close> (lines 3 to 150): what the page computes from the
  server's lists of indexed volumes (\<open>index_status\<close>), connected volumes (\<open>get_drives\<close>)
  and cached databases (\<open>cache_dbs\<close>). A reply that cannot be read ends the function with an
  exception, as \<open>eval\<close> or the first use of its value does.
\<close>

definition drive_type_name :: "ustr \<Rightarrow> ustr" where
  "drive_type_name type =
     (let t = to_number type in
      if t = Some 0 then [0x672A, 0x77E5]
      else if t = Some 1 then [0x65E0, 0x6548]
      else if t = Some 2 then [0x55, 0x76D8]
      else if t = Some 3 then [0x786C, 0x76D8]
      else if t = Some 4 then [0x7F51, 0x7EDC, 0x78C1, 0x76D8]
      else if t = Some 5 then [0x5149, 0x76D8]
      else if t = Some 6 then [0x5185, 0x5B58, 0x76D8]
      else [])"

fun contain :: "ustr \<Rightarrow> drive list \<Rightarrow> bool" where
  "contain ident [] = False"
| "contain ident (ele # obj) = (let ret = contain ident obj in if d_id ele = ident then True else ret)"

fun get_drive_info :: "ustr \<Rightarrow> drive list \<Rightarrow> drive option" where
  "get_drive_info ident [] = None"
| "get_drive_info ident (d # d_infos) = (if d_id d = ident then Some d else get_drive_info ident d_infos)"

definition gen_offline_dir_name :: "file_entry \<Rightarrow> drive list \<Rightarrow> file_entry res" where
  "gen_offline_dir_name file d_infos =
     (let ident = substring (f_path file) 0 2 in
      case to_number ident of
        None \<Rightarrow> Inr file
      | Some n \<Rightarrow>
          if n \<ge> 26 \<and> n < 26 * 3 then
            (let dir = substring (f_path file) 2 (int (length (f_path file))) in
             case get_drive_info ident d_infos of
               None \<Rightarrow> Inl TypeError
             | Some info \<Rightarrow>
                 (let disk_name = (if d_volumeName info \<noteq> [] then d_volumeName info
                                   else [0x672A, 0x547D, 0x540D] @ int_str (n - 25))
                  in Inr (file\<lparr>f_path := lit ''['' @ drive_type_name (d_type info) @ lit '':''
                                 @ disk_name @ lit '']'' @ dir\<rparr>)))
          else Inr file)"

definition the_reply :: "'a option \<Rightarrow> 'a res" where
  "the_reply r = (case r of None \<Rightarrow> Inl SyntaxError | Some x \<Rightarrow> Inr x)"

definition get_loaded_offline_dbs :: "env \<Rightarrow> drive list res" where
  "get_loaded_offline_dbs e =
     rbind (the_reply (e_index_status e)) (\<lambda>done_list.
     rbind (the_reply (e_get_drives e)) (\<lambda>drives.
       Inr (filter (\<lambda>ele. \<not> contain (d_id ele) drives) done_list)))"

text \<open>\<open>var i = $.inArray(x, xs); if(i!=-1) xs.splice(i, 1);\<close>\<close>

definition splice_out :: "'a \<Rightarrow> 'a list \<Rightarrow> 'a list" where
  "splice_out x xs = (let i = inArray x xs in if i \<noteq> -1 then splice1 xs (nat i) else xs)"

definition get_offline_dbs :: "env \<Rightarrow> ustr list res" where
  "get_offline_dbs e =
     rbind (the_reply (e_cache_dbs e)) (\<lambda>dbs.
       let dbs_name = map db_name dbs in
       rbind (the_reply (e_get_drives e)) (\<lambda>drives.
         Inr (fold (\<lambda>ele names. splice_out (d_serialNumber ele @ lit ''.db'') names) drives dbs_name)))"

definition has_offline_dbs :: "env \<Rightarrow> bool res" where
  "has_offline_dbs e = rbind (get_offline_dbs e) (\<lambda>l. Inr (length l > 0))"

definition date_text :: "env \<Rightarrow> int option \<Rightarrow> ustr" where
  "date_text e t =
     (case t of
        None \<Rightarrow> lit ''NaN-NaN-NaN NaN:NaN''
      | Some sec \<Rightarrow>
          (let d = e_date e (sec * 1000) in
           int_str (year d) @ lit ''-'' @ int_str (month d + 1) @ lit ''-'' @ int_str (day d)
             @ lit '' '' @ int_str (hours d) @ lit '':'' @ int_str (minutes d)))"

definition add_time_info :: "env \<Rightarrow> drive list \<Rightarrow> drive list res" where
  "add_time_info e objs =
     rbind (the_reply (e_cache_dbs e)) (\<lambda>dbs.
       let dbs_name = map db_name dbs in
       Inr (map (\<lambda>ele.
              let i = inArray (d_serialNumber ele @ lit ''.db'') dbs_name in
              if i \<noteq> -1 then ele\<lparr>d_time := Some (date_text e (to_number (db_time (dbs ! nat i))))\<rparr>
              else ele) objs))"

text \<open>Number output where the number may be NaN.\<close>

definition num_str :: "(int \<Rightarrow> ustr) \<Rightarrow> int option \<Rightarrow> ustr" where
  "num_str f x = (case x of None \<Rightarrow> lit ''NaN'' | Some n \<Rightarrow> f n)"

definition space_gb :: "int \<Rightarrow> ustr" where
  "space_gb n = int_str (round_div n 1000)"

definition space_gb1 :: "int \<Rightarrow> ustr" where
  "space_gb1 n = tenths_str (round_div n 100)"

definition space_mb :: "int \<Rightarrow> ustr" where
  "space_mb n = int_str (round_div n 10 * 10)"

definition parse_space1 :: "drive \<Rightarrow> drive" where
  "parse_space1 ele =
     (let total = to_number (d_totalMB ele); free = to_number (d_totalFreeMB ele) in
      if num_gt total 9000 then
        ele\<lparr>d_totalMB := num_str space_gb total @ lit ''GB'',
             d_totalFreeMB := num_str space_gb free @ lit ''GB''\<rparr>
      else if num_gt total 900 then
        ele\<lparr>d_totalMB := num_str space_gb1 total @ lit ''GB'',
             d_totalFreeMB := num_str space_gb1 free @ lit ''GB''\<rparr>
      else
        ele\<lparr>d_totalMB := num_str space_mb total @ lit ''MB'',
             d_totalFreeMB := num_str space_mb free @ lit ''MB''\<rparr>)"

definition parse_space :: "drive list \<Rightarrow> drive list" where
  "parse_space objs = map parse_space1 objs"

definition todo_dirves :: "env \<Rightarrow> ustr list res" where
  "todo_dirves e =
     rbind (the_reply (e_index_status e)) (\<lambda>done_list.
     rbind (the_reply (e_get_drives e)) (\<lambda>drives.
       let done_sn = map d_serialNumber done_list;
           drive_sn = fold splice_out done_sn (map d_serialNumber drives)
       in Inr (filter (\<lambda>ele. length ele > 0 \<and> ele \<noteq> lit ''0'') drive_sn)))"

definition is_scan_finish_one :: "env \<Rightarrow> bool res" where
  "is_scan_finish_one e = rbind (the_reply (e_index_status e)) (\<lambda>dd. Inr (length dd > 0))"

definition is_scan_finished :: "env \<Rightarrow> bool res" where
  "is_scan_finished e = rbind (todo_dirves e) (\<lambda>l. Inr (length l = 0))"

subsection \<open>Facts\<close>

lemma the_reply_simps [simp]: "the_reply None = Inl SyntaxError" "the_reply (Some x) = Inr x"
  by (simp_all add: the_reply_def)

lemma the_reply_Inr [res_iff]: "the_reply r = Inr x \<longleftrightarrow> r = Some x"
  by (simp add: the_reply_def split: option.split)

lemma contain_iff: "contain ident obj \<longleftrightarrow> (\<exists>d \<in> set obj. d_id d = ident)"
  by (induction obj) (auto simp: Let_def)

lemma splice_out_remove1 [simp]: "splice_out x xs = remove1 x xs"
  using inArray_splice [of x xs] by (simp add: splice_out_def Let_def)

lemma get_drive_info_None: "get_drive_info ident ds = None \<longleftrightarrow> \<not> contain ident ds"
  by (induction ds) (auto simp: Let_def)

lemma get_drive_info_Some: "get_drive_info ident ds = Some d \<Longrightarrow> d \<in> set ds \<and> d_id d = ident"
  by (induction ds) (auto split: if_splits)

lemma fold_remove1_mset: "mset (fold remove1 xs ys) = mset ys - mset xs"
  by (rule mset_remove1_list)

lemma fold_remove1_map:
  "fold (\<lambda>ele names. remove1 (g ele) names) ds ns = fold remove1 (map g ds) ns"
  by (simp add: fold_map o_def)

end
