(* ===== verification/Search.thy ===== *)
theory Search
  imports Grid Drives
begin

text \<open>
  The search box (\<open>search.js\<close>): typing arms a timer, the timer asks the server and fills the
  table, a second timer asks for the counts; searching inside a directory; the refresh
  button. \<open>changed\<close> compares the box with the query that was sent.
\<close>

subsection \<open>Trimming\<close>

definition chars_class :: "(jchar \<Rightarrow> bool) option \<Rightarrow> jchar \<Rightarrow> bool" where
  "chars_class chars = (case chars of None \<Rightarrow> is_ws | Some cls \<Rightarrow> cls)"

definition ltrim :: "ustr \<Rightarrow> (jchar \<Rightarrow> bool) option \<Rightarrow> ustr" where
  "ltrim str chars = strip_left (chars_class chars) str"

definition rtrim :: "ustr \<Rightarrow> (jchar \<Rightarrow> bool) option \<Rightarrow> ustr" where
  "rtrim str chars = strip_right (chars_class chars) str"

definition trim :: "ustr \<Rightarrow> (jchar \<Rightarrow> bool) option \<Rightarrow> ustr" where
  "trim str chars = ltrim (rtrim str chars) chars"

subsection \<open>The result of a query\<close>

definition changed :: "app \<Rightarrow> bool" where
  "changed s = (Some (trim (search_val s) None) \<noteq> cur_search s)"

definition restart_when_error :: "env \<Rightarrow> app \<Rightarrow> run" where
  "restart_when_error e s =
     (let s1 = show_error [0x641C, 0x7D22, 0x670D, 0x52A1, 0x5931, 0x53BB, 0x54CD, 0x5E94, 0x3002, 0x8BF7, 0x7A0D, 0x540E, 0x91CD, 0x8BD5, 0xFF01] s; s2 = s1\<lparr>files := []\<rparr>
      in and_then (view_grid e s2) (\<lambda>s3. done_with (native StartServer s3)))"

definition icon_name_of :: "file_entry \<Rightarrow> ustr" where
  "icon_name_of ele =
     (let q = [quote] in
      lit ''<img width='' @ q @ lit ''16'' @ q @ lit '' height='' @ q @ lit ''16'' @ q
        @ lit '' style='' @ q @ lit ''margin-right:3px'' @ q @ lit '' src='' @ q @ lit ''icons/''
        @ f_type ele @ lit ''.ico'' @ q @ lit '' /><span>'' @ f_name ele @ lit ''</span>'')"

definition more_row :: file_entry where
  "more_row = \<lparr>f_name = lit ''......'', f_path = [0x8D85, 0x8FC7, 0x31, 0x30, 0x30, 0x30, 0x6761, 0x7684, 0x8BB0, 0x5F55, 0x4E0D, 0x663E, 0x793A], f_size = Some [], f_time = [],
     f_type = lit ''unknown'', f_icon_name = None, f_name2 = None, f_path2 = None\<rparr>"

fun gen_offline_all :: "drive list \<Rightarrow> file_entry list \<Rightarrow> file_entry list \<times> js_error option" where
  "gen_offline_all d_infos [] = ([], None)"
| "gen_offline_all d_infos (f # fs) =
     (case gen_offline_dir_name f d_infos of
        Inl x \<Rightarrow> (f # fs, Some x)
      | Inr f' \<Rightarrow> (let (fs', x) = gen_offline_all d_infos fs in (f' # fs', x)))"

definition offline_names :: "env \<Rightarrow> app \<Rightarrow> run" where
  "offline_names e s =
     (if cef_offline s then
        (case get_loaded_offline_dbs e of
           Inl x \<Rightarrow> throw x s
         | Inr d_infos \<Rightarrow>
             (let (fs, x) = gen_offline_all d_infos (files s) in (s\<lparr>files := fs\<rparr>, x)))
      else done_with s)"

definition decorate :: "file_entry list \<Rightarrow> file_entry list" where
  "decorate fs =
     (let fs1 = map (\<lambda>ele. ele\<lparr>f_icon_name := Some (icon_name_of ele)\<rparr>) fs
      in if length fs1 = 1000 then fs1 @ [more_row] else fs1)"

definition search_and_parse :: "env \<Rightarrow> ustr option \<Rightarrow> app \<Rightarrow> run" where
  "search_and_parse e query s =
     (case query of
        None \<Rightarrow> throw TypeError s
      | Some q \<Rightarrow>
          (let s1 = native (Search q) s in
           case e_search e q of
             None \<Rightarrow> and_then (restart_when_error e s1) (\<lambda>s2. done_with (s2\<lparr>loading := False\<rparr>))
           | Some fs \<Rightarrow>
               and_then (offline_names e (s1\<lparr>files := fs\<rparr>))
                 (\<lambda>s2. done_with (s2\<lparr>files := decorate (files s2)\<rparr>))))"

definition searchf0 :: "env \<Rightarrow> app \<Rightarrow> run" where
  "searchf0 e s =
     (let (i, q) = setTimeout StatSearch 10 (tq s);
          s1 = s\<lparr>stat_timeout := Some i, tq := q\<rparr>
      in if search_val s1 = [] then done_with (s1\<lparr>loading := False\<rparr>)
         else
           (let s2 = s1\<lparr>loading := True, tq := clearTimeout (highlight_timeout s1) (tq s1)\<rparr>
            in and_then (search_and_parse e (cur_search s2) s2)
                 (\<lambda>s3. if changed s3 then done_with s3 else view_grid e s3)))"

definition scan_notice :: "env \<Rightarrow> app \<Rightarrow> run" where
  "scan_notice e s =
     (case is_scan_finished e of
        Inl x \<Rightarrow> throw x s
      | Inr True \<Rightarrow> done_with s
      | Inr False \<Rightarrow>
          (case is_scan_finish_one e of
             Inl x \<Rightarrow> throw x s
           | Inr True \<Rightarrow> done_with (show_info [0x78C1, 0x76D8, 0x626B, 0x63CF, 0x672A, 0x5168, 0x90E8, 0x5B8C, 0x6210, 0xFF0C, 0x53EA, 0x80FD, 0x663E, 0x793A, 0x90E8, 0x5206, 0x67E5, 0x8BE2, 0x7ED3, 0x679C, 0x2E] s)
           | Inr False \<Rightarrow> done_with (show_info [0x78C1, 0x76D8, 0x626B, 0x63CF, 0x4E2D, 0xFF0C, 0x8BF7, 0x7B49, 0x5F85, 0x35, 0x79D2, 0x540E, 0x91CD, 0x8BD5, 0x2E] s)))"

definition searchf :: "env \<Rightarrow> ustr \<Rightarrow> app \<Rightarrow> run" where
  "searchf e v s =
     (let value = trim v None in
      if length value = 0 then done_with s
      else and_then (scan_notice e s)
        (\<lambda>s1.
           let s2 = s1\<lparr>history_area := False, tabs_shown := True, loading := True,
                       cur_search := Some value\<rparr>;
               s3 = s2\<lparr>tq := clearTimeout (highlight_timeout s2)
                             (clearTimeout (stat_timeout s2) (clearTimeout (search_timeout s2) (tq s2))),
                       counts := (\<lambda>_. lit ''0'')\<rparr>;
               (i, q) = setTimeout SearchF0 (if length value \<le> 4 then 300 else 150) (tq s3)
           in done_with (s3\<lparr>search_timeout := Some i, tq := q\<rparr>)))"

subsection \<open>Counts\<close>

definition stat_keys :: "string list" where
  "stat_keys = [''all'', ''dir'', ''compress'', ''program'', ''media'', ''archive'', ''other'',
     ''exe'', ''link'', ''script'', ''lib'', ''music'', ''photo'', ''video'', ''animation'',
     ''office'', ''ebook'', ''htm'', ''text'']"

definition stat_num_set :: "(string \<Rightarrow> int option) \<Rightarrow> app \<Rightarrow> app" where
  "stat_num_set stats s =
     s\<lparr>counts := fold (\<lambda>k c. case stats k of None \<Rightarrow> c | Some n \<Rightarrow> c(k := int_str n)) stat_keys (counts s)\<rparr>"

definition stat_search :: "env \<Rightarrow> app \<Rightarrow> run" where
  "stat_search e s =
     (if changed s then done_with s
      else case cur_search s of
             None \<Rightarrow> done_with s
           | Some [] \<Rightarrow> done_with s
           | Some q \<Rightarrow>
               (let s1 = native (Stat q) s in
                case e_stat e q of
                  None \<Rightarrow> restart_when_error e s1
                | Some stats \<Rightarrow> done_with (stat_num_set stats s1)))"

subsection \<open>Searching in a directory\<close>

definition chsum :: "ustr \<Rightarrow> int" where
  "chsum chars =
     fold (\<lambda>c sum. if (1 \<le> c \<and> c \<le> 0x7E) \<or> (0xFF60 \<le> c \<and> c \<le> 0xFF9F) then sum else sum + 1) chars 0"

definition dir_label :: "ustr \<Rightarrow> ustr" where
  "dir_label ss =
     (let n = int (length ss);
          dir_show = (if length ss > 38 then substring ss 0 18 @ lit ''...'' @ substring ss (n - 18) n
                      else ss)
      in [0x5728, 0x20] @ [quote] @ dir_show @ [quote] @ [0x20, 0x4E0B, 0x641C, 0x7D22, 0x3A])"

definition search_dir :: "env \<Rightarrow> ustr \<Rightarrow> app \<Rightarrow> run" where
  "search_dir e ss s =
     (let dir_show = dir_label ss;
          s1 = s\<lparr>cef_dire := ss, dir_html := ss, dir2_val := dir_show, dir2_title := ss,
                 dir2_shown := True, dir2_size_x2 := 2 * int (length dir_show) + chsum dir_show,
                 search_width := 720 - e_dir2_width e dir_show, dir_search := True\<rparr>
      in if search_val s1 = [] then searchf e (lit ''*'') (s1\<lparr>search_val := lit ''*''\<rparr>)
         else searchf e (search_val s1) s1)"

definition remove_dir :: "app \<Rightarrow> app" where
  "remove_dir s =
     s\<lparr>cef_dire := [], dir_html := [], dir2_shown := False, search_width := 720, dir_search := False\<rparr>"

definition parse_init_dir :: "ustr \<Rightarrow> ustr" where
  "parse_init_dir ss =
     (let after = (\<lambda>sep. let findex = indexOf_from ss [sep] 1 in
            if findex = -1 then None
            else Some (substring ss (findex + 1) (int (length ss))))
      in case after (if charAt ss 0 = [quote] then quote else blank_char) of
           None \<Rightarrow> []
         | Some rest \<Rightarrow>
             (let ss2 = trim rest None;
                  findex = indexOf_from ss2 [if charAt ss2 0 = [quote] then quote else blank_char] 1
              in if findex = -1 then [] else substring ss2 1 findex))"

subsection \<open>Keys, history entry, refresh\<close>

definition load_history :: "app \<Rightarrow> app" where
  "load_history s =
     (let s1 = s\<lparr>loading := True\<rparr>; (i, q) = setTimeout HistoryParse 1 (tq s1)
      in s1\<lparr>history_parse_timeout := Some i, tq := q\<rparr>)"

definition return_history :: "app \<Rightarrow> app" where
  "return_history s =
     (let s1 = s\<lparr>loading := True, tabs_shown := False, history_area := True\<rparr>
      in (load_history s1)\<lparr>search_val := []\<rparr>)"

definition refresh :: "env \<Rightarrow> app \<Rightarrow> run" where
  "refresh e s = (if search_val s \<noteq> [] then searchf e (search_val s) s else done_with (load_history s))"

definition search_if_change :: "env \<Rightarrow> int \<Rightarrow> app \<Rightarrow> run" where
  "search_if_change e keyCode s0 =
     (let s = s0\<lparr>dialogs := dialogs s0 - {''dialog-welcome''}\<rparr> in
      if search_val s = [] then done_with (s\<lparr>loading := False\<rparr>)
      else if keyCode = 13 then
        and_then (setSelection (RowNum 1) s) (\<lambda>s1. if rows s1 = [] then throw TypeError s1 else done_with s1)
      else if keyCode = 8 \<and> cur_search s = Some (search_val s) then
        (let s1 = remove_dir s in searchf e (search_val s) s1)
      else
        (let s1 = (if keyCode = 46 \<and> dir2_val s \<noteq> [] \<and> search_val s = [] then
                     (if cur_search s \<noteq> Some [] then s\<lparr>cur_search := Some []\<rparr> else remove_dir s)
                   else s)
         in if changed s1 then searchf e (trim (search_val s1) None) s1 else done_with s1))"

definition init_dir :: "env \<Rightarrow> ustr \<Rightarrow> app \<Rightarrow> run" where
  "init_dir e ss s =
     (let realss = parse_init_dir ss in
      and_then
        (if length realss \<ge> 1 then search_dir e realss (s\<lparr>tq := clearTimeout (history_timeout s) (tq s)\<rparr>)
         else (let (i, q) = setTimeout LoadHistory 50 (tq s)
               in done_with (s\<lparr>history_timeout := Some i, tq := q\<rparr>)))
        (\<lambda>s1. done_with (s1\<lparr>tq := snd (setTimeout CheckUpgrade 1 (tq s1))\<rparr>)))"

end
