(* ===== verification/History.thy ===== *)
theory History
  imports Search
begin

text \<open>
  The history page (\<open>history_parse\<close> to \<open>history_switch\<close> and \<open>file_name_trim2\<close> of
  \<open>search.js\<close>): sixteen recently opened files in two pages of four columns and two rows.
  \<open>history_cells\<close> are the records rendered by the template, \<open>history_pinned\<close> the class of
  each pin, \<open>history_unpin_bound\<close> whether its click handler is the one that unpins.
\<close>

definition num_per_row :: nat where "num_per_row = 4"
definition row_per_page :: nat where "row_per_page = 2"
definition num_per_page :: nat where "num_per_page = num_per_row * row_per_page"
definition num_all_page :: nat where "num_all_page = num_per_page * 2"

lemmas page_size_defs = num_all_page_def num_per_page_def num_per_row_def row_per_page_def

definition trim2 :: "ustr \<Rightarrow> ustr" where
  "trim2 name =
     (if length name > 53
      then substring name 0 25 @ lit ''...''
           @ substring name (int (length name) - 25) (int (length name))
      else name)"

definition file_name_trim2 :: "hist list \<Rightarrow> hist list" where
  "file_name_trim2 fs = map (\<lambda>obj. obj\<lparr>h_name2 := trim2 (h_name obj)\<rparr>) fs"

definition calc_top :: "nat \<Rightarrow> int" where
  "calc_top x = (let x' = (if x \<ge> num_per_page then x - num_per_page else x)
                 in if x' \<ge> num_per_row then 320 else 120)"

definition calc_left :: "nat \<Rightarrow> int" where
  "calc_left x = (let x' = (if x \<ge> num_per_page then x - num_per_page else x)
                  in 100 + 200 * int (x' mod num_per_row))"

definition thumb_url :: "env \<Rightarrow> ustr \<Rightarrow> ustr" where
  "thumb_url e full =
     (if os_linux e then e_icon e (lit ''file://'' @ full)
      else replace_char blank_char (lit ''%20'')
             (replace_char backslash [backslash, backslash] (lit ''gigaso://thumb/'' @ full)))"

definition history_entry :: "env \<Rightarrow> nat \<Rightarrow> hist \<Rightarrow> hist" where
  "history_entry e i h =
     (let sep = path_sep e;
          name0 = h_name h;
          n0 = int (length name0);
          fname = (if charAt name0 (n0 - 1) = [sep] then substr name0 0 (n0 - 1) else name0);
          cut = lastIndexOf fname [sep] + 1;
          pth = substring fname 0 cut;
          nm = substring fname cut (int (length fname))
      in h\<lparr>h_id := i, h_left := calc_left i, h_top := calc_top i, h_path := pth, h_name := nm,
           h_thumb := (if nm = [] then [] else thumb_url e (pth @ nm))\<rparr>)"

definition history_entries :: "env \<Rightarrow> hist list res" where
  "history_entries e =
     rbind (the_reply (e_history e)) (\<lambda>hs0.
       let hs = take num_all_page hs0 in
       if length hs < num_all_page then Inl TypeError
       else Inr (file_name_trim2 (map (\<lambda>(i, h). history_entry e i h) (enumerate 0 hs))))"

definition history_parse :: "env \<Rightarrow> nat \<Rightarrow> app \<Rightarrow> run" where
  "history_parse e start_index s =
     (case history_entries e of
        Inl x \<Rightarrow> throw x s
      | Inr hs \<Rightarrow>
          (let hs0 = slice hs (int start_index) (int (start_index + num_per_page));
               pins = map (\<lambda>i. h_pin (hs ! i) = 1) [0..<length hs0];
               s1 = s\<lparr>history_cells := hs0, history_pinned := pins, history_unpin_bound := pins\<rparr>;
               s2 = (if h_name (hs ! 0) = [] \<and> h_name (hs ! 1) = []
                     then s1\<lparr>dialogs := dialogs s1 \<union> {''dialog-welcome''}\<rparr> else s1)
           in done_with (s2\<lparr>loading := False\<rparr>)))"

definition pin_click :: "nat \<Rightarrow> app \<Rightarrow> app" where
  "pin_click idx s =
     (if history_unpin_bound s ! idx
      then (native (HisUnpin idx) s)\<lparr>history_pinned := (history_pinned s)[idx := False]\<rparr>
      else (native (HisPin idx) s)\<lparr>history_pinned := (history_pinned s)[idx := True]\<rparr>)"

definition remove_click :: "env \<Rightarrow> hist \<Rightarrow> app \<Rightarrow> run" where
  "remove_click e cell s = refresh e (native (HisDel (int (h_id cell))) s)"

definition history_switch :: "env \<Rightarrow> app \<Rightarrow> run" where
  "history_switch e s =
     (if his_start s
      then and_then (history_parse e num_per_page s) (\<lambda>s1. done_with (s1\<lparr>his_start := False\<rparr>))
      else and_then (history_parse e 0 s) (\<lambda>s1. done_with (s1\<lparr>his_start := True\<rparr>)))"

subsection \<open>Facts\<close>

lemma trim2_length: "length (trim2 name) \<le> 53"
  by (auto simp: trim2_def substring_def Let_def clamp_def)

lemma trim2_long:
  assumes "length name > 53"
  shows "trim2 name = take 25 name @ lit ''...'' @ drop (length name - 25) name"
proof -
  have "substring name (int (length name) - 25) (int (length name)) = drop (length name - 25) name"
    using substring_suffix [of name "length name - 25"] assms by (simp add: of_nat_diff)
  moreover have "substring name 0 25 = take 25 name"
    using substring_prefix [of name 25] by simp
  ultimately show ?thesis using assms by (simp add: trim2_def)
qed

lemma split_last_sep:
  "substring f 0 (lastIndexOf f [sep] + 1) @ substring f (lastIndexOf f [sep] + 1) (int (length f)) = f"
proof -
  obtain n where n: "lastIndexOf f [sep] + 1 = int n" and "n \<le> length f"
  proof (cases "sep \<in> set f")
    case True
    then have "length (takeWhile (\<lambda>y. y \<noteq> sep) (rev f)) < length f"
      using takeWhile_neq_length [of sep "rev f"] by simp
    with True show ?thesis using that [of "length f - length (takeWhile (\<lambda>y. y \<noteq> sep) (rev f))"]
      by (simp add: lastIndexOf_single of_nat_diff)
  next
    case False
    then show ?thesis using that [of 0] by (simp add: lastIndexOf_single)
  qed
  then show ?thesis by (simp add: substring_prefix substring_suffix)
qed

lemma nat_pred_length: "nat (int n - 1) = n - Suc 0"
  by arith

lemma history_entry_fields:
  "h_path (history_entry e i h) @ h_name (history_entry e i h) =
     (if charAt (h_name h) (int (length (h_name h)) - 1) = [path_sep e]
      then butlast (h_name h) else h_name h)"
  by (auto simp: history_entry_def Let_def split_last_sep substr_def rel_index_def
      butlast_conv_take nat_pred_length)

lemma history_entry_place [simp]:
  "h_id (history_entry e i h) = i" "h_left (history_entry e i h) = calc_left i"
  "h_top (history_entry e i h) = calc_top i" "h_pin (history_entry e i h) = h_pin h"
  by (simp_all add: history_entry_def Let_def)

lemma suffix_after_last:
  "sep \<notin> set (substring f (lastIndexOf f [sep] + 1) (int (length f)))"
proof (cases "sep \<in> set f")
  case True
  let ?t = "takeWhile (\<lambda>y. y \<noteq> sep) (rev f)"
  have lt: "length ?t < length f" using True takeWhile_neq_length [of sep "rev f"] by simp
  have "lastIndexOf f [sep] + 1 = int (length f - length ?t)"
    using True lt by (simp add: lastIndexOf_single of_nat_diff)
  then have "substring f (lastIndexOf f [sep] + 1) (int (length f)) = drop (length f - length ?t) f"
    by (simp add: substring_suffix)
  also have "\<dots> = rev (take (length ?t) (rev f))" by (simp add: rev_take)
  also have "\<dots> = rev ?t" by (metis takeWhile_eq_take)
  finally show ?thesis by (auto dest: set_takeWhileD)
next
  case False
  then show ?thesis using set_substring by fastforce
qed

lemma history_name_no_sep: "path_sep e \<notin> set (h_name (history_entry e i h))"
  by (simp add: history_entry_def Let_def suffix_after_last)

lemma enumerate_nth_map:
  "k < length hs \<Longrightarrow> map (\<lambda>(i, h). f i h) (enumerate 0 hs) ! k = f k (hs ! k)"
  by (simp add: enumerate_eq_zip)

lemma history_entries_Inr:
  "history_entries e = Inr hs \<Longrightarrow>
     \<exists>hs0. e_history e = Some hs0 \<and> num_all_page \<le> length hs0 \<and> length hs = num_all_page
       \<and> (\<forall>k < num_all_page. hs ! k = (history_entry e k (hs0 ! k))
             \<lparr>h_name2 := trim2 (h_name (history_entry e k (hs0 ! k)))\<rparr>)"
  by (auto simp: history_entries_def res_iff Let_def file_name_trim2_def enumerate_eq_zip
      min_def split: if_splits)

end
