(* ===== verification/FileOps.thy ===== *)
theory FileOps
  imports History
begin

text \<open>
  \<open>browser/web/context.js\<close>: the operations on the file of a row or of a history cell, the two
  context menus, and the keys of a row (\<open>grid_event\<close> of \<open>disk.js\<close>). \<open>ask\<close> runs a native
  command: it is logged and its answer is the environment's.
\<close>

definition ask :: "env \<Rightarrow> call \<Rightarrow> app \<Rightarrow> bool \<times> app" where
  "ask e c s = (e_shell e c, native c s)"

definition delete_file :: "env \<Rightarrow> target \<Rightarrow> app \<Rightarrow> run" where
  "delete_file e t s =
     (let s1 = get_file_path e t s in
      if e_confirm e then
        (let (ret, s2) = ask e (Shell2 (v_path s1 @ v_file s1) (lit ''delete'')) s1
         in and_then (refresh e s2)
              (\<lambda>s3. done_with (info_or_error ret (v_file s3) [0x5220, 0x9664] s3)))
      else done_with s1)"

definition copy_file :: "env \<Rightarrow> target \<Rightarrow> app \<Rightarrow> app" where
  "copy_file e t s =
     (let s1 = get_file_path e t s;
          (ret, s2) = ask e (Shell2 (v_path s1 @ v_file s1) (lit ''copy'')) s1
      in info_or_error ret (v_file s2) [0x590D, 0x5236] s2)"

definition drag_file :: "env \<Rightarrow> target \<Rightarrow> app \<Rightarrow> app" where
  "drag_file e t s =
     (let s1 = get_file_path e t s
      in snd (ask e (Shell2 (v_path s1 @ v_file s1) (lit ''drag'')) s1))"

definition cut_file :: "env \<Rightarrow> target \<Rightarrow> app \<Rightarrow> app" where
  "cut_file e t s =
     (let s1 = get_file_path e t s;
          (ret, s2) = ask e (Shell2 (v_path s1 @ v_file s1) (lit ''cut'')) s1
      in info_or_error ret (v_file s2) [0x526A, 0x5207] s2)"

definition dblclick_file :: "env \<Rightarrow> target \<Rightarrow> app \<Rightarrow> app" where
  "dblclick_file e t s =
     (let s1 = get_file_path e t s;
          (ret, s2) = ask e (ShellDefault (v_path s1 @ v_file s1)) s1
      in info_if_error ret (v_file s2) [0x6253, 0x5F00] s2)"

definition dblclick_path :: "env \<Rightarrow> target \<Rightarrow> app \<Rightarrow> app" where
  "dblclick_path e t s =
     (let s1 = get_file_path e t s in
      if substr (v_path s1) 0 1 = [backslash] then
        (let s2 = s1\<lparr>v_file := substr (v_path s1) 0 (int (length (v_path s1)) - 1)\<rparr>;
             (ret, s3) = ask e (ShellDefault (v_file s2)) s2
         in info_if_error ret (v_file s3) [0x6253, 0x5F00] s3)
      else if os_linux e then
        (let (ret, s2) = ask e (ShellDefault (v_path s1)) s1
         in info_if_error ret (v_path s2) [0x8D44, 0x6E90, 0x7BA1, 0x7406, 0x5668] s2)
      else
        (let (ret, s2) = ask e (ShellExplore (v_path s1 @ v_file s1)) s1
         in info_if_error ret (v_path s2) [0x8D44, 0x6E90, 0x7BA1, 0x7406, 0x5668] s2))"

subsection \<open>The context menu of one row\<close>

definition onContextMenu :: "rowid option \<Rightarrow> app \<Rightarrow> run" where
  "onContextMenu rowId s =
     (case rowId of
        None \<Rightarrow> done_with s
      | Some i \<Rightarrow>
          (if \<not> has_row_selected i s then setSelection i (grid_batch_unselect s) else done_with s))"

datatype menu_item =
    MDefault | MOpenas | MExplore | MTerm | MCopypath | MCopy | MCut | MDelete | MProp

fun context_menu_obj :: "env \<Rightarrow> menu_item \<Rightarrow> target \<Rightarrow> ustr \<Rightarrow> app \<Rightarrow> run" where
  "context_menu_obj e MDefault t label s =
     (let s1 = get_file_path e t s; (ret, s2) = ask e (ShellDefault (v_path s1 @ v_file s1)) s1
      in done_with (info_if_error ret (v_file s2) label s2))"
| "context_menu_obj e MOpenas t label s =
     (let s1 = get_file_path e t s;
          (ret, s2) = ask e (Shell2 (v_path s1 @ v_file s1) (lit ''openas'')) s1
      in done_with (info_if_error ret (v_file s2) label s2))"
| "context_menu_obj e MExplore t label s = done_with (dblclick_path e t s)"
| "context_menu_obj e MTerm t label s =
     (let s1 = get_file_path e t s in
      if v_ftype s1 = lit ''dir'' then
        (let (ret, s2) = ask e (Term (v_path s1 @ v_file s1)) s1
         in done_with (info_or_error ret (v_file s2) [0x6253, 0x5F00] s2))
      else
        (let (ret, s2) = ask e (Term (v_path s1)) s1
         in done_with (info_or_error ret (v_file s2) [0x6253, 0x5F00] s2)))"
| "context_menu_obj e MCopypath t label s =
     (let s1 = get_file_path e t s; (ret, s2) = ask e (CopyPath (v_path s1 @ v_file s1)) s1
      in done_with (info_or_error ret (v_path s2 @ v_file s2) [0x590D, 0x5236, 0x6587, 0x4EF6, 0x8DEF, 0x5F84] s2))"
| "context_menu_obj e MCopy t label s = done_with (copy_file e t s)"
| "context_menu_obj e MCut t label s = done_with (cut_file e t s)"
| "context_menu_obj e MDelete t label s = delete_file e t s"
| "context_menu_obj e MProp t label s =
     (let s1 = get_file_path e t s;
          (ret, s2) = ask e (Shell2 (v_path s1 @ v_file s1) (lit ''properties'')) s1
      in done_with (info_if_error ret (v_file s2) label s2))"

subsection \<open>The context menu of a selection\<close>

datatype batch_item = BDefault | BCopy | BCut | BDelete

definition batch_files :: "app \<Rightarrow> (ustr \<Rightarrow> run) \<Rightarrow> run" where
  "batch_files s k = (case grid_selectd_files s of Inl x \<Rightarrow> throw x s | Inr fs \<Rightarrow> k fs)"

fun context_menu_obj3 :: "env \<Rightarrow> batch_item \<Rightarrow> ustr \<Rightarrow> app \<Rightarrow> run" where
  "context_menu_obj3 e BDefault label s =
     batch_files s (\<lambda>fs. let (ret, s1) = ask e (BatchOpen fs) s
                         in done_with (info_or_error ret fs label s1))"
| "context_menu_obj3 e BCopy label s =
     batch_files s (\<lambda>fs. let (ret, s1) = ask e (BatchCopy fs) s
                         in done_with (info_or_error ret fs label s1))"
| "context_menu_obj3 e BCut label s =
     batch_files s (\<lambda>fs. let (ret, s1) = ask e (BatchCut fs) s
                         in done_with (info_or_error ret fs label s1))"
| "context_menu_obj3 e BDelete label s =
     batch_files s (\<lambda>fs. let (ret, s1) = ask e (BatchDelete fs) s
                         in and_then (refresh e s1) (\<lambda>s2. done_with (info_or_error ret fs label s2)))"

subsection \<open>The keys of a row\<close>

definition row_keyup :: "env \<Rightarrow> int \<Rightarrow> row \<Rightarrow> app \<Rightarrow> run" where
  "row_keyup e keyCode r s =
     (let t = RowTarget r in
      if keyCode = 13 then done_with (dblclick_file e t s)
      else if keyCode = 46 then delete_file e t s
      else if keyCode = 67 then done_with (copy_file e t s)
      else if keyCode = 88 then done_with (cut_file e t s)
      else done_with s)"

text \<open>The handler looks the row up by its id: \<open>$('.jqgrow', '#maintable')[this.id-1]\<close>.\<close>

definition row_key_event :: "env \<Rightarrow> int \<Rightarrow> rowid \<Rightarrow> app \<Rightarrow> run" where
  "row_key_event e keyCode i s =
     (case i of
        RowNum n \<Rightarrow>
          if 1 \<le> n \<and> n \<le> length (rows s) then row_keyup e keyCode (rows s ! (n - 1)) s
          else if keyCode \<in> {13, 46, 67, 88} then throw TypeError s else done_with s
      | RowGen _ \<Rightarrow> if keyCode \<in> {13, 46, 67, 88} then throw TypeError s else done_with s)"

end
