(* ===== verification/IndexStatus.thy ===== *)
theory IndexStatus
  imports FileOps
begin

text \<open>
  The dialogs of \<open>disk.js\<close> (lines 151 to 259): the index status of the volumes, the hot key,
  the export of the results, and the switch between connected and removed volumes.
  \<open>index_rows\<close> and \<open>offline_rows\<close> are the records the two templates were rendered with.
\<close>

definition from_char_code :: "int option \<Rightarrow> ustr" where
  "from_char_code n = [case n of None \<Rightarrow> 0 | Some v \<Rightarrow> nat (v mod 65536)]"

definition status_row :: "drive list \<Rightarrow> drive \<Rightarrow> drive" where
  "status_row done_list ele =
     (let e1 = (if d_volumeName ele = [] then ele\<lparr>d_volumeName := [0x672A, 0x547D, 0x540D]\<rparr> else ele);
          e2 = e1\<lparr>d_panfu := Some (from_char_code (map_option (\<lambda>n. 65 + n * 1) (to_number (d_id e1)))),
                  d_typename := Some (drive_type_name (d_type e1))\<rparr>;
          e3 = (if contain (d_id e2) done_list then e2\<lparr>d_indexed := Some (lit ''images/tick.png'')\<rparr>
                else if length (d_serialNumber e2) > 1
                then e2\<lparr>d_indexed := Some (lit ''images/spinner.gif'')\<rparr>
                else e2\<lparr>d_indexed := Some []\<rparr>)
      in if d_fsName e3 = [] then e3\<lparr>d_display := Some (lit ''display:none'')\<rparr> else e3)"

definition offline_row :: "drive \<Rightarrow> drive" where
  "offline_row ele =
     (let e1 = ele\<lparr>d_indexed := Some [0x79BB, 0x7EBF], d_typename := Some (drive_type_name (d_type ele))\<rparr>
      in if d_volumeName e1 = []
         then e1\<lparr>d_volumeName := [0x672A, 0x547D, 0x540D, 0x20, 0x28] @ num_str int_str (map_option (\<lambda>n. n - 25) (to_number (d_id e1)))
                  @ lit '')''\<rparr>
         else e1)"

definition show_index_status :: "env \<Rightarrow> app \<Rightarrow> run" where
  "show_index_status e s =
     (case rbind (the_reply (e_index_status e)) (\<lambda>done_list.
           rbind (the_reply (e_get_drives e)) (\<lambda>drives.
           rbind (get_loaded_offline_dbs e) (\<lambda>offline.
           rbind (add_time_info e (map (status_row done_list) drives)) (\<lambda>drives1.
           rbind (add_time_info e (map offline_row offline)) (\<lambda>offline1.
             Inr (parse_space drives1, parse_space offline1)))))) of
        Inl x \<Rightarrow> throw x s
      | Inr (ds, os) \<Rightarrow>
          done_with (s\<lparr>index_rows := ds, offline_rows := os,
                       dialogs := dialogs s \<union> {''dialog-index-status''}\<rparr>))"

definition refreash_index_status :: "env \<Rightarrow> app \<Rightarrow> run" where
  "refreash_index_status e s =
     (if ''dialog-index-status'' \<in> dialogs s then
        and_then (show_index_status e s)
          (\<lambda>s1. let (i, q) = setTimeout RefreashIndexStatus 1000 (tq s1)
                in done_with (s1\<lparr>refreash_index_dialog_timeout := Some i, tq := q\<rparr>))
      else done_with s)"

definition show_hotkey :: "app \<Rightarrow> app" where
  "show_hotkey s = s\<lparr>hotkey_select := cef_hotkey s, dialogs := dialogs s \<union> {''dialog-set-hotkey''}\<rparr>"

definition set_hotkey :: "env \<Rightarrow> app \<Rightarrow> app" where
  "set_hotkey e s =
     (let s1 = s\<lparr>cef_hotkey := e_hotkey e (hotkey_select s)\<rparr>;
          s2 = s1\<lparr>dialogs := dialogs s1 - {''dialog-set-hotkey''}\<rparr>
      in if hotkey_select s1 = cef_hotkey s1 then show_info [0x5FEB, 0x6377, 0x952E, 0x8BBE, 0x7F6E, 0x6210, 0x529F, 0xFF01] s2
         else show_error [0x5FEB, 0x6377, 0x952E, 0x8BBE, 0x7F6E, 0x5931, 0x8D25, 0xFF01] s2)"

definition show_export :: "env \<Rightarrow> app \<Rightarrow> app" where
  "show_export e s =
     (let d = e_now e in
      s\<lparr>export_filename := lit ''search-results-'' @ int_str (year d) @ lit ''-'' @ int_str (month d + 1)
           @ lit ''-'' @ int_str (day d) @ [39] @ int_str (seconds d) @ lit ''.txt'',
        dialogs := dialogs s \<union> {''dialog-export''}\<rparr>)"

definition truthy :: "ustr option \<Rightarrow> bool" where
  "truthy x = (case x of None \<Rightarrow> False | Some t \<Rightarrow> t \<noteq> [])"

definition export_line :: "ustr \<Rightarrow> file_entry \<Rightarrow> ustr" where
  "export_line etype ele =
     (if truthy (f_path2 ele) then the (f_path2 ele) else f_path ele)
     @ (if truthy (f_name2 ele) then the (f_name2 ele) else f_name ele)
     @ (if etype = lit ''1''
        then [9] @ lit '','' @ (case f_size ele of None \<Rightarrow> lit ''undefined'' | Some z \<Rightarrow> z)
             @ [9] @ lit '','' @ f_time ele
        else [])
     @ [13, 10]"

definition do_export :: "app \<Rightarrow> app" where
  "do_export s =
     (let text = concat (map (export_line (export_type s)) (files s));
          s1 = native (SaveFile (export_filename s) text) s
      in show_info [0x67E5, 0x8BE2, 0x7ED3, 0x679C, 0x5BFC, 0x51FA, 0x6210, 0x529F, 0xFF01] (s1\<lparr>dialogs := dialogs s1 - {''dialog-export''}\<rparr>))"

definition rescan :: "nat \<Rightarrow> app \<Rightarrow> app" where
  "rescan i s =
     (let s1 = s\<lparr>tq := clearTimeout (refreash_index_dialog_timeout s) (tq s)\<rparr>;
          s2 = native (Search (lit ''[///rescan'' @ nat_str i)) s1;
          (t, q) = setTimeout RefreashIndexStatus 3000 (tq s2)
      in s2\<lparr>refreash_index_dialog_timeout := Some t, tq := q\<rparr>)"

definition del_offline_db :: "nat \<Rightarrow> app \<Rightarrow> app" where
  "del_offline_db i s = s\<lparr>tq := snd (setTimeout (DelOfflineDb i) 10 (tq s))\<rparr>"

definition rescan0 :: "env \<Rightarrow> nat \<Rightarrow> app \<Rightarrow> run" where
  "rescan0 e i s =
     (let s1 = native (Search (lit ''[///del_offline_db'' @ nat_str i)) s
      in show_index_status e (s1\<lparr>dialogs := dialogs s1 - {''dialog-index-status''}\<rparr>))"

definition offline_db :: "app \<Rightarrow> app" where
  "offline_db s =
     (let s1 = native (Search (lit ''[///load_offline_db'')) (s\<lparr>loading := True, cef_offline := True\<rparr>)
      in s1\<lparr>tq := snd (setTimeout Refresh 2000 (tq s1))\<rparr>)"

definition online_db :: "app \<Rightarrow> app" where
  "online_db s = s\<lparr>cef_offline := False, tq := snd (setTimeout Refresh 10 (tq s))\<rparr>"

end
