(* ===== verification/Upgrade.thy ===== *)
theory Upgrade
  imports IndexStatus
begin

text \<open>
  The check for a newer version (\<open>disk.js\<close>, lines 225 to 310). The two AJAX requests are
  asynchronous: \<open>ajax_open\<close> holds the addresses whose answer is outstanding, and the success
  and error callbacks are operations of their own. The variable \<open>host\<close> that \<open>show_upgrade\<close>
  reads is declared nowhere, so evaluating the request's address is a ReferenceError.
\<close>

definition host_main :: ustr where
  "host_main = lit ''http://www.wandouss.com''"

definition host_backup :: ustr where
  "host_backup = lit ''http://60.191.119.190:3333''"

record upgrade_data =
  ud_status :: int
  ud_url :: ustr
  ud_hash :: ustr
  ud_version :: ustr

definition upgrade_req :: "env \<Rightarrow> ustr \<Rightarrow> app \<Rightarrow> app" where
  "upgrade_req e up_url s =
     (let body = lit ''upgrade[os]='' @ e_info e ''os'' @ lit ''&upgrade[cpu]='' @ e_info e ''cpu''
            @ lit ''&upgrade[disk]='' @ e_info e ''disk'' @ lit ''&upgrade[ver]='' @ e_info e ''ver''
            @ lit ''&upgrade[user]='' @ e_info e ''user''
      in (native (AjaxPost (up_url @ lit ''/upgrades.js'') body) s)\<lparr>ajax_open := ajax_open s @ [up_url]\<rparr>)"

definition upgrade_success :: "ustr \<Rightarrow> upgrade_data \<Rightarrow> app \<Rightarrow> app" where
  "upgrade_success up_url d s =
     (let s0 = s\<lparr>ajax_open := remove1 up_url (ajax_open s)\<rparr>;
          s1 = (if ud_status d = 1
                then native (Search (lit ''[///upgrade'' @ up_url @ ud_url d @ lit ''?'' @ ud_hash d
                               @ lit ''&'' @ ud_version d)) s0
                else native (Search (lit ''[///upgrade_none'')) s0)
      in s1\<lparr>tq := snd (setTimeout ShowUpgradeInfo 10 (tq s1))\<rparr>)"

definition upgrade_error :: "env \<Rightarrow> ustr \<Rightarrow> app \<Rightarrow> app" where
  "upgrade_error e up_url s =
     (let s0 = s\<lparr>ajax_open := remove1 up_url (ajax_open s)\<rparr>
      in if up_url \<noteq> host_backup then upgrade_req e host_backup s0 else s0)"

text \<open>\<open>/PeaSearch-([\d\.]+)-x86.exe/i\<close>, tried at each position.\<close>

definition ver_char :: "jchar \<Rightarrow> bool" where
  "ver_char c \<longleftrightarrow> is_digit c \<or> c = 46"

definition ver_match_here :: "ustr \<Rightarrow> ustr option" where
  "ver_match_here s =
     (let p = lit ''peasearch-''; low = map ascii_lower s in
      if starts_with p low then
        (let body = drop (length p) s; v = takeWhile ver_char body;
             tail = map ascii_lower (drop (length v) body)
         in if v \<noteq> [] \<and> starts_with (lit ''-x86'') tail \<and> length tail \<ge> 8
               \<and> tail ! 4 \<notin> {10, 13, 0x2028, 0x2029} \<and> starts_with (lit ''exe'') (drop 5 tail)
            then Some v else None)
      else None)"

fun ver_match :: "ustr \<Rightarrow> ustr option" where
  "ver_match [] = None"
| "ver_match (c # s) = (case ver_match_here (c # s) of Some v \<Rightarrow> Some v | None \<Rightarrow> ver_match s)"

text \<open>\<open>ver_new\<close> evaluates the match and returns nothing.\<close>

definition ver_new :: "env \<Rightarrow> app \<Rightarrow> run" where
  "ver_new e s =
     (let s1 = s\<lparr>v_file := e_upgrade_file e\<rparr>
      in case ver_match (v_file s1) of None \<Rightarrow> throw TypeError s1 | Some _ \<Rightarrow> done_with s1)"

definition show_upgrade :: "env \<Rightarrow> app \<Rightarrow> run" where
  "show_upgrade e s = throw ReferenceError s"

definition do_upgrade :: "env \<Rightarrow> app \<Rightarrow> app" where
  "do_upgrade e s =
     (let s1 = s\<lparr>dialogs := dialogs s - {''dialog-upgrade''}, v_file := e_upgrade_file e\<rparr>
      in if v_file s1 \<noteq> [] then native (ShellDefault (v_file s1)) s1 else s1)"

definition show_upgrade_info :: "env \<Rightarrow> app \<Rightarrow> app" where
  "show_upgrade_info e s =
     (if mannual s then
        (let st = to_number (e_upgrade_status e) in
         if st = Some 0 then show_info [0x6B63, 0x5728, 0x68C0, 0x67E5, 0x66F4, 0x65B0, 0x2E, 0x2E, 0x2E] s
         else if st = Some 1 then show_info [0x5DF2, 0x7ECF, 0x66F4, 0x65B0, 0x5230, 0x6700, 0x65B0, 0x3002] s
         else if st = Some 2 then show_info [0x5B89, 0x88C5, 0x66F4, 0x65B0, 0x2E, 0x2E, 0x2E] s
         else if st = Some 3 then show_info [0x6B63, 0x5728, 0x4E0B, 0x8F7D, 0x66F4, 0x65B0, 0x2E, 0x2E, 0x2E] s
         else show_info [0x6682, 0x65F6, 0x65E0, 0x6CD5, 0x66F4, 0x65B0, 0x2E, 0x2E, 0x2E] s)
      else s)"

definition check_upgrade :: "env \<Rightarrow> bool option \<Rightarrow> app \<Rightarrow> run" where
  "check_upgrade e by_hand s =
     (let s1 = s\<lparr>mannual := (case by_hand of None \<Rightarrow> False | Some b \<Rightarrow> b)\<rparr>;
          update_status = to_number (e_upgrade_status e)
      in if mannual s1 \<or> update_status = Some 0 then done_with (upgrade_req e host_main s1)
         else if update_status = Some 2 then show_upgrade e s1
         else done_with s1)"

end
