(* ===== verification/Scroll.thy ===== *)
theory Scroll
  imports Prelude
begin

text \<open>
  \<open>browser/web/scroll.js\<close>: when the window has been scrolled near the bottom of the page.
  The document is the record \<open>geometry\<close> of the heights and offsets the script reads; the
  three global variables of the script are \<open>scroll_vars\<close>. Pixels are integers, and
  \<open>parseInt(iHeight*0.95)\<close> of a non-negative height is \<open>95 * iHeight div 100\<close>: the double
  nearest to 0.95 is too close to it for the rounded product to reach another integer.
\<close>

record geometry =
  body_clientHeight :: int
  doc_clientHeight :: int
  body_scrollHeight :: int
  doc_scrollHeight :: int
  body_scrollTop :: int
  doc_scrollTop :: int

record scroll_vars =
  iHeight :: int
  iTop :: int
  clientHeight :: int

definition getPageHeight :: "geometry \<Rightarrow> scroll_vars \<Rightarrow> scroll_vars" where
  "getPageHeight g v =
     (let ch = (if body_clientHeight g \<noteq> 0 \<and> doc_clientHeight g \<noteq> 0
                then (if body_clientHeight g < doc_clientHeight g
                      then body_clientHeight g else doc_clientHeight g)
                else (if body_clientHeight g > doc_clientHeight g
                      then body_clientHeight g else doc_clientHeight g))
      in v\<lparr>clientHeight := ch, iHeight := max (body_scrollHeight g) (doc_scrollHeight g)\<rparr>)"

definition reachBottom0 :: "geometry \<Rightarrow> scroll_vars \<Rightarrow> bool" where
  "reachBottom0 g v =
     (let scrollTop = (if doc_scrollTop g \<noteq> 0 then doc_scrollTop g else body_scrollTop g)
      in if scrollTop > 0 \<and> scrollTop + clientHeight v = iHeight v then True else False)"

definition reachBottom :: "geometry \<Rightarrow> scroll_vars \<Rightarrow> bool \<times> scroll_vars" where
  "reachBottom g v =
     (let v1 = v\<lparr>iTop := doc_scrollTop g + body_scrollTop g\<rparr>;
          v2 = getPageHeight g v1
      in (if iTop v2 + clientHeight v2 > 95 * iHeight v2 div 100 \<or> reachBottom0 g v2
          then True else False, v2))"

definition page_ok :: "geometry \<Rightarrow> bool" where
  "page_ok g \<longleftrightarrow> 0 \<le> body_scrollTop g \<and> 0 \<le> doc_scrollTop g
     \<and> 0 < max (body_scrollHeight g) (doc_scrollHeight g)"

lemma above_floor_iff: "(x::int) > 95 * h div 100 \<longleftrightarrow> 100 * x > 95 * h"
  by arith

lemma reachBottom_vars [simp]:
  "iTop (snd (reachBottom g v)) = doc_scrollTop g + body_scrollTop g"
  "iHeight (snd (reachBottom g v)) = max (body_scrollHeight g) (doc_scrollHeight g)"
  by (simp_all add: reachBottom_def getPageHeight_def Let_def)

lemma reachBottom0_below:
  assumes "page_ok g" and "reachBottom0 g v" and "iHeight v = max (body_scrollHeight g) (doc_scrollHeight g)"
  shows "100 * (doc_scrollTop g + body_scrollTop g + clientHeight v) > 95 * iHeight v"
  using assms by (auto simp: page_ok_def reachBottom0_def Let_def split: if_splits)

text \<open>The answer is exactly "the lower edge of the window is past 95 percent of the page".\<close>

lemma reachBottom_iff:
  assumes "page_ok g"
  shows "fst (reachBottom g v) \<longleftrightarrow>
    20 * (doc_scrollTop g + body_scrollTop g + clientHeight (snd (reachBottom g v)))
      > 19 * max (body_scrollHeight g) (doc_scrollHeight g)"
proof -
  let ?v2 = "getPageHeight g (v\<lparr>iTop := doc_scrollTop g + body_scrollTop g\<rparr>)"
  have h: "iHeight ?v2 = max (body_scrollHeight g) (doc_scrollHeight g)"
    and t: "iTop ?v2 = doc_scrollTop g + body_scrollTop g"
    by (simp_all add: getPageHeight_def Let_def)
  have "fst (reachBottom g v) \<longleftrightarrow> 100 * (iTop ?v2 + clientHeight ?v2) > 95 * iHeight ?v2"
    using reachBottom0_below [OF assms, of ?v2] h t
    by (auto simp: reachBottom_def Let_def above_floor_iff)
  moreover have "100 * x > 95 * y \<longleftrightarrow> 20 * x > 19 * y" for x y :: int by arith
  moreover have "snd (reachBottom g v) = ?v2" by (simp add: reachBottom_def Let_def)
  ultimately show ?thesis by (simp only: h t)
qed

end
