(* ===== verification/Page.thy ===== *)
theory Page
  imports Upgrade Scroll
begin

text \<open>
  The page as a whole: the start-up code of \<open>search.js\<close>, the font size, the bindings of
  \<open>init_event\<close> and of the page's buttons, and the event loop: an event is something the user,
  a timer or the network does, and \<open>handle\<close> runs the handler the scripts bound to it.
\<close>

subsection \<open>Font size\<close>

definition getFontSize :: "app \<Rightarrow> int" where
  "getFontSize s = body_font s"

definition incFontSize :: "app \<Rightarrow> app" where
  "incFontSize s =
     (if getFontSize s \<ge> 17 then s
      else let fontsize = getFontSize s + 1 in s\<lparr>body_font := fontsize, cef_fontSize := fontsize\<rparr>)"

definition decFontSize :: "app \<Rightarrow> app" where
  "decFontSize s =
     (if getFontSize s \<le> 9 then s
      else let fontsize = getFontSize s - 1 in s\<lparr>body_font := fontsize, cef_fontSize := fontsize\<rparr>)"

subsection \<open>Start-up\<close>

definition startup :: "app \<Rightarrow> app" where
  "startup s =
     (let s1 = (if cef_fontSize s \<ge> 9 \<and> cef_fontSize s \<le> 17 then s\<lparr>body_font := cef_fontSize s\<rparr> else s);
          s2 = set_orderby_value (Some 0) False s1
      in s2\<lparr>tq := snd (setTimeout InitEvent 1 (tq s2))\<rparr>)"

definition scan_img :: "env \<Rightarrow> app \<Rightarrow> run" where
  "scan_img e s =
     (case is_scan_finished e of
        Inl x \<Rightarrow> throw x s
      | Inr True \<Rightarrow> done_with (s\<lparr>scanning := False\<rparr>)
      | Inr False \<Rightarrow>
          (let s1 = s\<lparr>scanning := True\<rparr>
           in done_with (s1\<lparr>tq := snd (setTimeout ScanImg 5000 (tq s1))\<rparr>)))"

definition init_event :: "env \<Rightarrow> app \<Rightarrow> run" where
  "init_event e s =
     and_then (scan_img e s)
       (\<lambda>s1. case get_offline_dbs e of
               Inl x \<Rightarrow> throw x s1
             | Inr dbs \<Rightarrow> done_with (if length dbs = 0 then s1\<lparr>online_offline := False\<rparr> else s1))"

text \<open>The click handler of a result tab shows the sub-navigation of that tab only.\<close>

definition tab_click :: "ustr \<Rightarrow> app \<Rightarrow> app" where
  "tab_click tab_id s = s\<lparr>subnav_shown := Some (tab_id @ lit ''div'')\<rparr>"

subsection \<open>Events\<close>

datatype button =
    HomeBt | RefreshBt | ZoominBt | ZoomoutBt | IndexStBt | HotkeyBt | ExportBt | UpgradeBt
  | LargefileBt | OfflineBt | OnlineBt | DirBt | HisBt | SetHkBt | DoExpBt | DoUpBt | UpLaterBt
  | Case0 | Case1 | Personal0 | Personal1

datatype event =
    KeyUp int ustr
  | Fire nat
  | TypeFilter int
  | TabClick ustr
  | HeaderClick ustr
  | Button button
  | WindowScroll geometry scroll_vars
  | RowKey int rowid
  | DblclickFile target
  | DblclickPath target
  | RowMenu menu_item target ustr
  | BatchMenu batch_item ustr
  | OpenMenu "rowid option"
  | SelectRow rowid
  | PinClick nat
  | RemoveClick hist
  | InitDir ustr
  | Rescan nat
  | DelOffline nat
  | UpgradeSuccess ustr upgrade_data
  | UpgradeError ustr

fun run_callback :: "env \<Rightarrow> callback \<Rightarrow> app \<Rightarrow> run" where
  "run_callback e HideMessage s = done_with (hide_message s)"
| "run_callback e SearchF0 s = searchf0 e s"
| "run_callback e StatSearch s = stat_search e s"
| "run_callback e Highlight s = highlight e s"
| "run_callback e IconReplace s = icon_replace e s"
| "run_callback e HistoryParse s = history_parse e 0 s"
| "run_callback e LoadHistory s = done_with (load_history s)"
| "run_callback e CheckUpgrade s = check_upgrade e None s"
| "run_callback e InitEvent s = init_event e s"
| "run_callback e ScanImg s = scan_img e s"
| "run_callback e Refresh s = refresh e s"
| "run_callback e ShowUpgradeInfo s = done_with (show_upgrade_info e s)"
| "run_callback e RefreashIndexStatus s = refreash_index_status e s"
| "run_callback e (DelOfflineDb i) s = rescan0 e i s"

definition fire :: "env \<Rightarrow> nat \<Rightarrow> app \<Rightarrow> run" where
  "fire e i s =
     (case filter (\<lambda>t. t_id t = i) (pending (tq s)) of
        [] \<Rightarrow> done_with s
      | t # _ \<Rightarrow> run_callback e (t_cb t) (s\<lparr>tq := take_timer i (tq s)\<rparr>))"

fun press :: "env \<Rightarrow> button \<Rightarrow> app \<Rightarrow> run" where
  "press e HomeBt s = done_with (return_history s)"
| "press e RefreshBt s = refresh e s"
| "press e ZoominBt s = done_with (incFontSize s)"
| "press e ZoomoutBt s = done_with (decFontSize s)"
| "press e IndexStBt s = show_index_status e s"
| "press e HotkeyBt s = done_with (show_hotkey s)"
| "press e ExportBt s = done_with (show_export e s)"
| "press e UpgradeBt s = check_upgrade e (Some True) s"
| "press e LargefileBt s =
     and_then (searchf e (lit ''*'') (s\<lparr>search_val := lit ''*''\<rparr>)) (\<lambda>s1. orderby (Some 2) True s1)"
| "press e OfflineBt s = done_with (offline_db s)"
| "press e OnlineBt s = done_with (online_db s)"
| "press e DirBt s = search_dir e (e_selectDir e) s"
| "press e HisBt s = history_switch e s"
| "press e SetHkBt s = done_with (set_hotkey e s)"
| "press e DoExpBt s = done_with (do_export s)"
| "press e DoUpBt s = done_with (do_upgrade e s)"
| "press e UpLaterBt s = done_with (s\<lparr>dialogs := dialogs s - {''dialog-upgrade''}\<rparr>)"
| "press e Case0 s = searchf e (search_val s) (s\<lparr>cef_caze := False\<rparr>)"
| "press e Case1 s = searchf e (search_val s) (s\<lparr>cef_caze := True\<rparr>)"
| "press e Personal0 s = searchf e (search_val s) (s\<lparr>cef_personal := False\<rparr>)"
| "press e Personal1 s = searchf e (search_val s) (s\<lparr>cef_personal := True\<rparr>)"

fun handle :: "env \<Rightarrow> event \<Rightarrow> app \<Rightarrow> run" where
  "handle e (KeyUp k v) s = search_if_change e k (s\<lparr>search_val := v\<rparr>)"
| "handle e (Fire i) s = fire e i s"
| "handle e (TypeFilter ft) s = done_with (file_type_search ft s)"
| "handle e (TabClick i) s = done_with (tab_click i s)"
| "handle e (HeaderClick th) s = header_click th s"
| "handle e (Button b) s = press e b s"
| "handle e (WindowScroll g v) s =
     done_with (if fst (reachBottom g v) then grid_add_files e s else s)"
| "handle e (RowKey k i) s = row_key_event e k i s"
| "handle e (DblclickFile t) s = done_with (dblclick_file e t s)"
| "handle e (DblclickPath t) s = done_with (dblclick_path e t s)"
| "handle e (RowMenu m t label) s = context_menu_obj e m t label s"
| "handle e (BatchMenu m label) s = context_menu_obj3 e m label s"
| "handle e (OpenMenu r) s = onContextMenu r s"
| "handle e (SelectRow i) s = setSelection i s"
| "handle e (PinClick i) s = done_with (pin_click i s)"
| "handle e (RemoveClick h) s = remove_click e h s"
| "handle e (InitDir ss) s = init_dir e ss s"
| "handle e (Rescan i) s = done_with (rescan i s)"
| "handle e (DelOffline i) s = done_with (del_offline_db i s)"
| "handle e (UpgradeSuccess u d) s = done_with (upgrade_success u d s)"
| "handle e (UpgradeError u) s = done_with (upgrade_error e u s)"

definition step :: "env \<times> event \<Rightarrow> app \<Rightarrow> app" where
  "step ev s = fst (handle (fst ev) (snd ev) s)"

end
