(* ===== verification/PageTimers.thy ===== *)
theory PageTimers
  imports Page
begin

text \<open>
  The timer discipline of the whole page: every handler keeps the invariant that the pending
  search timer is the one \<open>search_timeout\<close> names and the pending fade of the message area the
  one \<open>message_timeout\<close> names. The interface of \<open>EventLoop\<close> then bounds their number in
  every run.
\<close>

definition timer_inv :: "app \<Rightarrow> bool" where
  "timer_inv s \<longleftrightarrow> slot_ok SearchF0 (search_timeout s) (tq s) \<and> slot_ok HideMessage (message_timeout s) (tq s)"

lemma timer_invI:
  "slot_ok SearchF0 (search_timeout s) (tq s) \<Longrightarrow> slot_ok HideMessage (message_timeout s) (tq s) \<Longrightarrow> timer_inv s"
  by (simp add: timer_inv_def)

lemma timer_inv_same:
  "timer_inv s \<Longrightarrow> tq t = tq s \<Longrightarrow> search_timeout t = search_timeout s \<Longrightarrow>
     message_timeout t = message_timeout s \<Longrightarrow> timer_inv t"
  by (simp add: timer_inv_def)

lemma timer_inv_set:
  assumes "timer_inv s" and "cb \<noteq> SearchF0" and "cb \<noteq> HideMessage"
    and "tq t = snd (setTimeout cb d (tq s))" and "search_timeout t = search_timeout s"
    and "message_timeout t = message_timeout s"
  shows "timer_inv t"
  using assms by (simp add: timer_inv_def slot_ok_set_other)

lemma timer_inv_clear:
  assumes "timer_inv s" and "tq t = clearTimeout h (tq s)" and "search_timeout t = search_timeout s"
    and "message_timeout t = message_timeout s"
  shows "timer_inv t"
  using assms by (auto simp: timer_inv_def)

lemma timer_inv_take: "timer_inv s \<Longrightarrow> timer_inv (s\<lparr>tq := take_timer i (tq s)\<rparr>)"
  by (auto simp: timer_inv_def)

lemma timer_inv_and_then:
  "timer_inv (fst r) \<Longrightarrow> (\<And>s. timer_inv s \<Longrightarrow> timer_inv (fst (f s))) \<Longrightarrow> timer_inv (fst (and_then r f))"
  by (simp add: and_then_def split: option.split)

lemma timer_inv_show:
  assumes "timer_inv s"
  shows "timer_inv (show_error m s)" and "timer_inv (show_info m s)"
  using assms by (auto simp: timer_inv_def message_slot_ok slot_ok_show_other)

lemma timer_inv_arm: "timer_inv s \<Longrightarrow> timer_inv (arm_search d s)"
  by (rule timer_invI)
     (auto simp: timer_inv_def arm_search_ok, auto simp: frame_simps intro!: slot_ok_set_other)

lemma timer_inv_native: "timer_inv s \<Longrightarrow> timer_inv (native c s)"
  by (simp add: timer_inv_def native_def)

lemma timer_inv_fields [simp]:
  "timer_inv (s\<lparr>highlight_timeout := x0\<rparr>) = timer_inv s"
  "timer_inv (s\<lparr>history_timeout := x1\<rparr>) = timer_inv s"
  "timer_inv (s\<lparr>history_parse_timeout := x2\<rparr>) = timer_inv s"
  "timer_inv (s\<lparr>stat_timeout := x3\<rparr>) = timer_inv s"
  "timer_inv (s\<lparr>refreash_index_dialog_timeout := x4\<rparr>) = timer_inv s"
  "timer_inv (s\<lparr>msg_error := x5\<rparr>) = timer_inv s"
  "timer_inv (s\<lparr>msg_info := x6\<rparr>) = timer_inv s"
  "timer_inv (s\<lparr>msg_html := x7\<rparr>) = timer_inv s"
  "timer_inv (s\<lparr>msg_opaque := x8\<rparr>) = timer_inv s"
  "timer_inv (s\<lparr>v_file := x9\<rparr>) = timer_inv s"
  "timer_inv (s\<lparr>v_path := x10\<rparr>) = timer_inv s"
  "timer_inv (s\<lparr>v_ftype := x11\<rparr>) = timer_inv s"
  "timer_inv (s\<lparr>order_col := x12\<rparr>) = timer_inv s"
  "timer_inv (s\<lparr>order_desc := x13\<rparr>) = timer_inv s"
  "timer_inv (s\<lparr>cur_search := x14\<rparr>) = timer_inv s"
  "timer_inv (s\<lparr>files := x15\<rparr>) = timer_inv s"
  "timer_inv (s\<lparr>icon_replace_index := x16\<rparr>) = timer_inv s"
  "timer_inv (s\<lparr>his_start := x17\<rparr>) = timer_inv s"
  "timer_inv (s\<lparr>first_grid := x18\<rparr>) = timer_inv s"
  "timer_inv (s\<lparr>cur_page_end := x19\<rparr>) = timer_inv s"
  "timer_inv (s\<lparr>mannual := x20\<rparr>) = timer_inv s"
  "timer_inv (s\<lparr>cef_order := x21\<rparr>) = timer_inv s"
  "timer_inv (s\<lparr>cef_file_type := x22\<rparr>) = timer_inv s"
  "timer_inv (s\<lparr>cef_offline := x23\<rparr>) = timer_inv s"
  "timer_inv (s\<lparr>cef_caze := x24\<rparr>) = timer_inv s"
  "timer_inv (s\<lparr>cef_personal := x25\<rparr>) = timer_inv s"
  "timer_inv (s\<lparr>cef_dire := x26\<rparr>) = timer_inv s"
  "timer_inv (s\<lparr>cef_fontSize := x27\<rparr>) = timer_inv s"
  "timer_inv (s\<lparr>cef_hotkey := x28\<rparr>) = timer_inv s"
  "timer_inv (s\<lparr>search_val := x29\<rparr>) = timer_inv s"
  "timer_inv (s\<lparr>search_width := x30\<rparr>) = timer_inv s"
  "timer_inv (s\<lparr>dir_search := x31\<rparr>) = timer_inv s"
  "timer_inv (s\<lparr>loading := x32\<rparr>) = timer_inv s"
  "timer_inv (s\<lparr>tabs_shown := x33\<rparr>) = timer_inv s"
  "timer_inv (s\<lparr>history_area := x34\<rparr>) = timer_inv s"
  "timer_inv (s\<lparr>scanning := x35\<rparr>) = timer_inv s"
  "timer_inv (s\<lparr>online_offline := x36\<rparr>) = timer_inv s"
  "timer_inv (s\<lparr>subnav_shown := x37\<rparr>) = timer_inv s"
  "timer_inv (s\<lparr>counts := x38\<rparr>) = timer_inv s"
  "timer_inv (s\<lparr>dir_html := x39\<rparr>) = timer_inv s"
  "timer_inv (s\<lparr>dir2_val := x40\<rparr>) = timer_inv s"
  "timer_inv (s\<lparr>dir2_title := x41\<rparr>) = timer_inv s"
  "timer_inv (s\<lparr>dir2_size_x2 := x42\<rparr>) = timer_inv s"
  "timer_inv (s\<lparr>dir2_shown := x43\<rparr>) = timer_inv s"
  "timer_inv (s\<lparr>body_font := x44\<rparr>) = timer_inv s"
  "timer_inv (s\<lparr>arrows := x45\<rparr>) = timer_inv s"
  "timer_inv (s\<lparr>grid_rowNum := x46\<rparr>) = timer_inv s"
  "timer_inv (s\<lparr>rows := x47\<rparr>) = timer_inv s"
  "timer_inv (s\<lparr>selarrrow := x48\<rparr>) = timer_inv s"
  "timer_inv (s\<lparr>history_cells := x49\<rparr>) = timer_inv s"
  "timer_inv (s\<lparr>history_pinned := x50\<rparr>) = timer_inv s"
  "timer_inv (s\<lparr>history_unpin_bound := x51\<rparr>) = timer_inv s"
  "timer_inv (s\<lparr>index_rows := x52\<rparr>) = timer_inv s"
  "timer_inv (s\<lparr>offline_rows := x53\<rparr>) = timer_inv s"
  "timer_inv (s\<lparr>dialogs := x54\<rparr>) = timer_inv s"
  "timer_inv (s\<lparr>export_filename := x55\<rparr>) = timer_inv s"
  "timer_inv (s\<lparr>export_type := x56\<rparr>) = timer_inv s"
  "timer_inv (s\<lparr>hotkey_select := x57\<rparr>) = timer_inv s"
  "timer_inv (s\<lparr>upgrade_texts := x58\<rparr>) = timer_inv s"
  "timer_inv (s\<lparr>calls := x59\<rparr>) = timer_inv s"
  "timer_inv (s\<lparr>ajax_open := x60\<rparr>) = timer_inv s"
  by (simp_all add: timer_inv_def)

lemmas timer_inv_intros = timer_inv_and_then timer_inv_show timer_inv_arm timer_inv_native

subsection \<open>Every handler keeps it\<close>

lemma timer_inv_messages:
  assumes "timer_inv s"
  shows "timer_inv (info_or_error b f a s)" and "timer_inv (info_if_error b f a s)"
  using assms by (simp_all add: info_or_error_def info_if_error_def timer_inv_show)

lemma timer_inv_get_file_path: "timer_inv s \<Longrightarrow> timer_inv (get_file_path e t s)"
  by (rule timer_inv_same) simp_all

lemma timer_inv_grid_event: "timer_inv s \<Longrightarrow> timer_inv (grid_event s)"
  by (rule timer_inv_set [where cb = Highlight and d = 1]) simp_all

lemma timer_inv_set_order_arrow: "timer_inv s \<Longrightarrow> timer_inv (fst (set_order_arrow c d s))"
  by (simp add: set_order_arrow_def Let_def split: option.split)

lemma timer_inv_set_orderby: "timer_inv s \<Longrightarrow> timer_inv (set_orderby_value c d s)"
  by (rule timer_inv_same) (simp_all add: set_orderby_value_def)

lemma timer_inv_orderby: "timer_inv s \<Longrightarrow> timer_inv (fst (orderby c d s))"
  unfolding orderby_def Let_def
  by (auto intro!: timer_inv_and_then timer_inv_set_order_arrow timer_inv_set_orderby timer_inv_arm)

lemma timer_inv_view_grid: "timer_inv s \<Longrightarrow> timer_inv (fst (view_grid e s))"
  unfolding view_grid_def file_grid_def Let_def grid_reload_def
  by (auto intro!: timer_inv_and_then timer_inv_set_order_arrow timer_inv_grid_event)

lemma timer_inv_grid_add: "timer_inv s \<Longrightarrow> timer_inv (grid_add_files e s)"
  unfolding grid_add_files_def grid_addRowData_def Let_def
  by (rule timer_inv_grid_event) (simp add: timer_inv_def)

lemma timer_inv_onSelectRow: "timer_inv s \<Longrightarrow> timer_inv (fst (onSelectRow i b s))"
  by (auto simp: onSelectRow_def set_menu_at_def Let_def split: rowid.split)

lemma timer_inv_setSelection: "timer_inv s \<Longrightarrow> timer_inv (fst (setSelection i s))"
  by (auto simp: setSelection_def intro!: timer_inv_onSelectRow)

lemma timer_inv_icon_pass:
  "timer_inv s \<Longrightarrow> timer_inv (fst (icon_pass e sel w ds todo rest s))"
proof (induction e sel w ds todo rest s rule: icon_pass.induct)
  case (2 e sel w ds r todo rest s)
  then show ?case by (auto simp: Let_def timer_inv_get_file_path split: sum.split)
qed simp

lemma timer_inv_icon_timer:
  "timer_inv s \<Longrightarrow> timer_inv (s\<lparr>highlight_timeout := h, tq := snd (setTimeout IconReplace d (tq s))\<rparr>)"
  by (rule timer_inv_set [where cb = IconReplace and d = d]) simp_all

lemma timer_inv_highlight: "timer_inv s \<Longrightarrow> timer_inv (fst (highlight e s))"
  unfolding highlight_def Let_def case_prod_beta
  by (auto intro!: timer_inv_and_then timer_inv_icon_pass)
     (auto simp: timer_inv_def intro!: slot_ok_set_other)

lemma timer_inv_icon_replace: "timer_inv s \<Longrightarrow> timer_inv (fst (icon_replace e s))"
  unfolding icon_replace_def Let_def case_prod_beta
  by (auto intro!: timer_inv_and_then timer_inv_icon_pass)
     (auto simp: timer_inv_def intro!: slot_ok_set_other)

lemma timer_inv_restart: "timer_inv s \<Longrightarrow> timer_inv (fst (restart_when_error e s))"
  unfolding restart_when_error_def Let_def
  by (auto intro!: timer_inv_and_then timer_inv_view_grid timer_inv_show timer_inv_native)

lemma timer_inv_offline_names: "timer_inv s \<Longrightarrow> timer_inv (fst (offline_names e s))"
  by (auto simp: offline_names_def case_prod_beta Let_def split: sum.split)

lemma timer_inv_search_and_parse: "timer_inv s \<Longrightarrow> timer_inv (fst (search_and_parse e q s))"
  unfolding search_and_parse_def Let_def
  by (auto intro!: timer_inv_and_then timer_inv_restart timer_inv_offline_names timer_inv_native
      split: option.split)

lemma timer_inv_searchf0: "timer_inv s \<Longrightarrow> timer_inv (fst (searchf0 e s))"
  unfolding searchf0_def Let_def case_prod_beta
  by (auto intro!: timer_inv_and_then timer_inv_search_and_parse timer_inv_view_grid)
     (auto simp: timer_inv_def intro!: slot_ok_set_other slot_ok_clear)

lemma timer_inv_scan_notice: "timer_inv s \<Longrightarrow> timer_inv (fst (scan_notice e s))"
  by (auto simp: scan_notice_def timer_inv_show split: sum.split bool.split)

text \<open>\<open>searchf\<close> clears the slot before it arms it, among other clears.\<close>

lemma ids_of_clear_Nil: "ids_of cb q = [] \<Longrightarrow> ids_of cb (clearTimeout h q) = []"
  by (cases h) (simp_all add: clearTimeout_Some)

lemma timer_inv_searchf_arm:
  assumes "timer_inv s"
  shows "timer_inv (s\<lparr>tq := snd (setTimeout SearchF0 d (clearTimeout h2 (clearTimeout h1
            (clearTimeout (search_timeout s) (tq s))))),
          search_timeout := Some (next_id (clearTimeout h2 (clearTimeout h1
            (clearTimeout (search_timeout s) (tq s)))))\<rparr>)"
proof -
  have "ids_of SearchF0 (clearTimeout (search_timeout s) (tq s)) = []"
    using assms by (auto simp: timer_inv_def intro: ids_of_clear_own)
  then have "ids_of SearchF0 (clearTimeout h2 (clearTimeout h1 (clearTimeout (search_timeout s) (tq s)))) = []"
    by (rule ids_of_clear_Nil [OF ids_of_clear_Nil])
  then have "slot_ok SearchF0 (Some (next_id (clearTimeout h2 (clearTimeout h1 (clearTimeout (search_timeout s) (tq s))))))
      (snd (setTimeout SearchF0 d (clearTimeout h2 (clearTimeout h1 (clearTimeout (search_timeout s) (tq s))))))"
    using assms by (intro slot_ok_arm) (auto simp: timer_inv_def slot_ok_def)
  moreover have "slot_ok HideMessage (message_timeout s)
      (snd (setTimeout SearchF0 d (clearTimeout h2 (clearTimeout h1 (clearTimeout (search_timeout s) (tq s))))))"
    using assms by (intro slot_ok_set_other slot_ok_clear) (auto simp: timer_inv_def)
  ultimately show ?thesis by (simp add: timer_inv_def)
qed

lemma timer_inv_searchf: "timer_inv s \<Longrightarrow> timer_inv (fst (searchf e v s))"
  unfolding searchf_def Let_def case_prod_beta
  by (auto intro!: timer_inv_and_then timer_inv_scan_notice
      intro: timer_inv_same [OF timer_inv_searchf_arm])

lemma timer_inv_stat_search: "timer_inv s \<Longrightarrow> timer_inv (fst (stat_search e s))"
  unfolding stat_search_def Let_def stat_num_set_def
  by (auto intro!: timer_inv_restart timer_inv_native split: option.split list.split)

lemma timer_inv_search_dir: "timer_inv s \<Longrightarrow> timer_inv (fst (search_dir e d s))"
  unfolding search_dir_def Let_def
  by (auto intro!: timer_inv_searchf)

lemma timer_inv_remove_dir: "timer_inv s \<Longrightarrow> timer_inv (remove_dir s)"
  by (simp add: remove_dir_def timer_inv_def)

lemma timer_inv_load_history: "timer_inv s \<Longrightarrow> timer_inv (load_history s)"
  by (rule timer_inv_set [where cb = HistoryParse and d = 1]) (simp_all add: load_history_def Let_def case_prod_beta)

lemma timer_inv_return_history: "timer_inv s \<Longrightarrow> timer_inv (return_history s)"
  by (simp add: return_history_def Let_def timer_inv_load_history)

lemma timer_inv_refresh: "timer_inv s \<Longrightarrow> timer_inv (fst (refresh e s))"
  by (simp add: refresh_def timer_inv_searchf timer_inv_load_history)

lemma timer_inv_search_if_change: "timer_inv s \<Longrightarrow> timer_inv (fst (search_if_change e k s))"
  unfolding search_if_change_def Let_def
  by (auto intro!: timer_inv_and_then timer_inv_setSelection timer_inv_searchf timer_inv_remove_dir)

lemma timer_inv_init_dir: "timer_inv s \<Longrightarrow> timer_inv (fst (init_dir e ss s))"
  unfolding init_dir_def Let_def case_prod_beta
  by (auto intro!: timer_inv_and_then timer_inv_search_dir)
     (auto simp: timer_inv_def intro!: slot_ok_set_other slot_ok_clear)

lemma timer_inv_history_parse: "timer_inv s \<Longrightarrow> timer_inv (fst (history_parse e n s))"
  by (auto simp: history_parse_def Let_def timer_inv_def split: sum.split)

lemma timer_inv_file_ops:
  assumes "timer_inv s"
  shows "timer_inv (fst (delete_file e t s))" and "timer_inv (copy_file e t s)"
    and "timer_inv (drag_file e t s)" and "timer_inv (cut_file e t s)"
    and "timer_inv (dblclick_file e t s)" and "timer_inv (dblclick_path e t s)"
  using assms
  by (auto simp: delete_file_def copy_file_def drag_file_def cut_file_def dblclick_file_def
      dblclick_path_def ask_def Let_def
      intro!: timer_inv_and_then timer_inv_refresh timer_inv_messages timer_inv_native timer_inv_get_file_path)

lemma timer_inv_context_menu: "timer_inv s \<Longrightarrow> timer_inv (fst (context_menu_obj e m t l s))"
  by (cases m)
     (auto simp: ask_def Let_def
       intro!: timer_inv_file_ops timer_inv_messages timer_inv_native timer_inv_get_file_path)

lemma timer_inv_context_menu3: "timer_inv s \<Longrightarrow> timer_inv (fst (context_menu_obj3 e m l s))"
  by (cases m)
     (auto simp: batch_files_def ask_def Let_def split: sum.split
       intro!: timer_inv_and_then timer_inv_refresh timer_inv_messages timer_inv_native)

lemma timer_inv_row_key: "timer_inv s \<Longrightarrow> timer_inv (fst (row_key_event e k i s))"
  by (auto simp: row_key_event_def row_keyup_def Let_def split: rowid.split intro!: timer_inv_file_ops)

lemma timer_inv_onContextMenu: "timer_inv s \<Longrightarrow> timer_inv (fst (onContextMenu r s))"
  by (auto simp: onContextMenu_def grid_batch_unselect_def resetSelection_def split: option.split
      intro!: timer_inv_setSelection)

lemma timer_inv_show_index_status: "timer_inv s \<Longrightarrow> timer_inv (fst (show_index_status e s))"
  by (auto simp: show_index_status_def timer_inv_def split: sum.split)

lemma timer_inv_index_ops:
  assumes "timer_inv s"
  shows "timer_inv (fst (refreash_index_status e s))" and "timer_inv (show_hotkey s)"
    and "timer_inv (set_hotkey e s)" and "timer_inv (show_export e s)" and "timer_inv (do_export s)"
    and "timer_inv (rescan i s)" and "timer_inv (del_offline_db i s)"
    and "timer_inv (fst (rescan0 e i s))" and "timer_inv (offline_db s)" and "timer_inv (online_db s)"
proof -
  show "timer_inv (fst (refreash_index_status e s))" using assms
    unfolding refreash_index_status_def Let_def case_prod_beta
    by (auto intro!: timer_inv_and_then timer_inv_show_index_status)
       (auto simp: timer_inv_def intro!: slot_ok_set_other)
  show "timer_inv (set_hotkey e s)" "timer_inv (do_export s)" using assms
    by (auto simp: set_hotkey_def do_export_def Let_def intro!: timer_inv_show timer_inv_native)
  show "timer_inv (fst (rescan0 e i s))" using assms
    by (auto simp: rescan0_def Let_def intro!: timer_inv_show_index_status timer_inv_native)
qed (use assms in \<open>auto simp: show_hotkey_def show_export_def rescan_def del_offline_db_def
      offline_db_def online_db_def native_def Let_def timer_inv_def case_prod_beta
      intro!: slot_ok_set_other slot_ok_clear\<close>)

lemma timer_inv_upgrade_ops:
  assumes "timer_inv s"
  shows "timer_inv (upgrade_success u d s)" and "timer_inv (upgrade_error e u s)"
    and "timer_inv (do_upgrade e s)" and "timer_inv (show_upgrade_info e s)"
    and "timer_inv (fst (check_upgrade e b s))"
  using assms
  by (auto simp: upgrade_success_def upgrade_error_def upgrade_req_def do_upgrade_def
      show_upgrade_info_def check_upgrade_def show_upgrade_def Let_def timer_inv_show)
     (auto simp: timer_inv_def native_def intro!: slot_ok_set_other)

lemma timer_inv_scan_img: "timer_inv s \<Longrightarrow> timer_inv (fst (scan_img e s))"
  by (auto simp: scan_img_def Let_def timer_inv_def split: sum.split bool.split intro!: slot_ok_set_other)

lemma timer_inv_init_event: "timer_inv s \<Longrightarrow> timer_inv (fst (init_event e s))"
  unfolding init_event_def
  by (auto intro!: timer_inv_and_then timer_inv_scan_img split: sum.split)

lemma timer_inv_run_callback: "timer_inv s \<Longrightarrow> timer_inv (fst (run_callback e cb s))"
  by (cases cb)
     (auto intro: timer_inv_searchf0 timer_inv_stat_search timer_inv_highlight timer_inv_icon_replace
       timer_inv_history_parse timer_inv_load_history timer_inv_upgrade_ops timer_inv_init_event
       timer_inv_scan_img timer_inv_refresh timer_inv_index_ops simp: hide_message_def)

lemma timer_inv_fire: "timer_inv s \<Longrightarrow> timer_inv (fst (fire e i s))"
  by (auto simp: fire_def split: list.split intro!: timer_inv_run_callback timer_inv_take)

lemma timer_inv_press: "timer_inv s \<Longrightarrow> timer_inv (fst (press e b s))"
  by (cases b)
     (auto simp: incFontSize_def decFontSize_def Let_def history_switch_def
       intro!: timer_inv_and_then timer_inv_orderby timer_inv_searchf timer_inv_return_history
         timer_inv_refresh timer_inv_index_ops timer_inv_show_index_status timer_inv_upgrade_ops
         timer_inv_search_dir timer_inv_history_parse)

lemma timer_inv_file_type: "timer_inv s \<Longrightarrow> timer_inv (file_type_search ft s)"
  by (auto simp: file_type_search_def Let_def intro!: timer_inv_arm)

lemma timer_inv_handle: "timer_inv s \<Longrightarrow> timer_inv (fst (handle e ev s))"
  by (cases ev)
     (auto simp: tab_click_def header_click_def pin_click_def remove_click_def Let_def
       intro!: timer_inv_search_if_change timer_inv_fire timer_inv_file_type timer_inv_orderby
         timer_inv_press timer_inv_grid_add timer_inv_row_key timer_inv_file_ops timer_inv_context_menu
         timer_inv_context_menu3 timer_inv_onContextMenu timer_inv_setSelection timer_inv_refresh
         timer_inv_native timer_inv_init_dir timer_inv_index_ops timer_inv_upgrade_ops)

lemma timer_inv_step: "timer_inv s \<Longrightarrow> timer_inv (step ev s)"
  by (simp add: step_def timer_inv_handle)

lemma timer_inv_post: "timer_inv s \<Longrightarrow> timer_inv (post m s)"
  by (simp add: post_def timer_inv_show)

text \<open>The page provides the interface of \<open>EventLoop\<close> for its two disciplined timer variables.\<close>

interpretation search_timers: timer_component tq search_timeout arm_search SearchF0 timer_inv step
  by unfold_locales (auto intro: timer_inv_arm timer_inv_step simp: timer_inv_def [THEN iffD1])

interpretation message_timers: timer_component tq message_timeout post HideMessage timer_inv step
  by unfold_locales (auto intro: timer_inv_post timer_inv_step simp: timer_inv_def [THEN iffD1])

subsection \<open>Reachable pages\<close>

text \<open>The page before the start-up code: no timer, no result, the initial values of the scripts.\<close>

definition initial :: "app \<Rightarrow> bool" where
  "initial s \<longleftrightarrow> pending (tq s) = [] \<and> files s = [] \<and> rows s = [] \<and> selarrrow s = []
     \<and> first_grid s \<and> his_start s \<and> cur_page_end s = 200 \<and> cur_search s = None"

inductive page_reachable :: "app \<Rightarrow> bool" where
  start: "initial s \<Longrightarrow> page_reachable (startup s)"
| event: "page_reachable s \<Longrightarrow> page_reachable (step ev s)"

inductive_cases page_reachableE: "page_reachable s"

lemma timer_inv_startup: "initial s \<Longrightarrow> timer_inv (startup s)"
  by (simp add: initial_def startup_def timer_inv_def slot_ok_def timers_ok_def ids_of_def
      setTimeout_def set_orderby_value_def Let_def)

lemma reachable_timer_inv: "page_reachable s \<Longrightarrow> timer_inv s"
  by (induction rule: page_reachable.induct) (auto intro: timer_inv_startup timer_inv_step)

lemma reachable_steps: "page_reachable s \<Longrightarrow> page_reachable (fold step evs s)"
  by (induction evs arbitrary: s) (auto intro: page_reachable.event)

end
