(* ===== verification/Sample.thy ===== *)
theory Sample
  imports Page
begin

text \<open>
  A concrete page and a concrete environment, on which the theorems of the development are
  applied to show that their hypotheses can hold together.
\<close>

definition sample_file :: file_entry where
  "sample_file = \<lparr>f_name = lit ''a.txt'', f_path = [67, 58, backslash], f_size = Some (lit ''1 KB''),
     f_time = lit ''2011-05-01'', f_type = lit ''txt'', f_icon_name = None, f_name2 = None, f_path2 = None\<rparr>"

definition sample_hist :: hist where
  "sample_hist = \<lparr>h_name = [67, 58, backslash, 97], h_pin = 0, h_id = 0, h_left = 0, h_top = 0,
     h_path = [], h_thumb = [], h_name2 = []\<rparr>"

definition sample_date :: dateparts where
  "sample_date = \<lparr>year = 2011, month = 4, day = 1, hours = 9, minutes = 5, seconds = 0\<rparr>"

definition sample_env :: env where
  "sample_env = \<lparr>platform = lit ''Win32'',
     e_index_status = Some [],
     e_get_drives = Some [],
     e_cache_dbs = Some [],
     e_search = (\<lambda>_. Some [sample_file]),
     e_stat = (\<lambda>_. Some (\<lambda>_. Some 1)),
     e_history = Some (replicate 16 sample_hist),
     e_type = (\<lambda>_. lit ''txt''),
     e_info = (\<lambda>_. []),
     e_upgrade_status = lit ''0'',
     e_upgrade_file = [],
     e_shell = (\<lambda>_. True),
     e_confirm = True,
     e_icon = (\<lambda>p. p),
     e_selectDir = [],
     e_hotkey = (\<lambda>k. k),
     e_date = (\<lambda>_. sample_date),
     e_now = sample_date,
     e_dir2_width = (\<lambda>_. 100),
     e_toLowerCase = map ascii_lower,
     e_cell_title = (\<lambda>h. h),
     e_inner_html = (\<lambda>h. h)\<rparr>"

definition sample_app :: app where
  "sample_app = \<lparr>tq = \<lparr>next_id = 0, pending = []\<rparr>,
     message_timeout = None,
     search_timeout = None,
     highlight_timeout = None,
     history_timeout = None,
     history_parse_timeout = None,
     stat_timeout = None,
     refreash_index_dialog_timeout = None,
     msg_error = False,
     msg_info = False,
     msg_html = [],
     msg_opaque = False,
     v_file = [],
     v_path = [],
     v_ftype = [],
     order_col = None,
     order_desc = False,
     cur_search = None,
     files = [],
     icon_replace_index = 0,
     his_start = True,
     first_grid = True,
     cur_page_end = 200,
     mannual = False,
     cef_order = None,
     cef_file_type = 0,
     cef_offline = False,
     cef_caze = False,
     cef_personal = False,
     cef_dire = [],
     cef_fontSize = 12,
     cef_hotkey = [],
     search_val = [],
     search_width = 720,
     dir_search = False,
     loading = False,
     tabs_shown = False,
     history_area = True,
     scanning = False,
     online_offline = True,
     subnav_shown = None,
     counts = (\<lambda>_. []),
     dir_html = [],
     dir2_val = [],
     dir2_title = [],
     dir2_size_x2 = 0,
     dir2_shown = False,
     body_font = 12,
     arrows = (\<lambda>_. []),
     grid_rowNum = 0,
     rows = [],
     selarrrow = [],
     history_cells = [],
     history_pinned = [],
     history_unpin_bound = [],
     index_rows = [],
     offline_rows = [],
     dialogs = {},
     export_filename = [],
     export_type = [],
     hotkey_select = [],
     upgrade_texts = [],
     calls = [],
     ajax_open = []\<rparr>"

definition sample_drive :: "ustr \<Rightarrow> ustr \<Rightarrow> drive" where
  "sample_drive ident sn = \<lparr>d_id = ident, d_type = lit ''3'', d_serialNumber = sn, d_totalMB = lit ''9500'',
     d_totalFreeMB = lit ''420'', d_volumeName = lit ''data'', d_fsName = lit ''NTFS'', d_time = None,
     d_panfu = None, d_typename = None, d_indexed = None, d_display = None\<rparr>"

lemmas sample_defs = sample_app_def sample_env_def

end
