(* ===== verification/SearchProps.thy ===== *)
theory SearchProps
  imports PageTimers Sample
begin

text \<open>Properties of the search box (\<open>Search\<close>), of the result order (\<open>Order\<close>) and of the timers.\<close>

subsection \<open>Timers\<close>

text \<open>
  C2. In every page that the start-up code and any sequence of events can produce, at most one
  search timer is pending and it is the one the variable \<open>search_timeout\<close> names; the same holds
  of the fade of the message area and \<open>message_timeout\<close>.
\<close>

theorem pending_timers_unique:
  assumes "page_reachable s"
  shows "length (ids_of SearchF0 (tq s)) \<le> 1 \<and> length (ids_of HideMessage (tq s)) \<le> 1
      \<and> set (ids_of SearchF0 (tq s)) \<subseteq> set_option (search_timeout s)
      \<and> set (ids_of HideMessage (tq s)) \<subseteq> set_option (message_timeout s)"
proof -
  have inv: "timer_inv s" using assms by (rule reachable_timer_inv)
  then show ?thesis
    using search_timers.steps_at_most_one [OF inv, of "[]"] message_timers.steps_at_most_one [OF inv, of "[]"]
    by (simp add: timer_inv_def slot_ok_def)
qed

lemma sample_reachable: "page_reachable (startup sample_app)"
  by (rule page_reachable.start) (simp add: initial_def sample_app_def)

theorem pending_timers_unique_witness:
  "length (ids_of SearchF0 (tq (fold step [(sample_env, KeyUp 65 (lit ''a'')), (sample_env, KeyUp 66 (lit ''ab''))]
      (startup sample_app)))) \<le> 1"
  using pending_timers_unique [OF reachable_steps [OF sample_reachable,
      of "[(sample_env, KeyUp 65 (lit ''a'')), (sample_env, KeyUp 66 (lit ''ab''))]"]]
  by (rule conjunct1)

subsection \<open>Trimming\<close>

lemma trim_None: "trim v None = strip_left is_ws (strip_right is_ws v)"
proof -
  have "chars_class None = is_ws" by (intro ext) (simp add: chars_class_def)
  then show ?thesis by (simp add: trim_def ltrim_def rtrim_def)
qed

text \<open>
  Trimming with a character class cuts a run of that class off both ends and nothing else:
  what is left neither starts nor ends in the class, and trimming again changes nothing.
\<close>

theorem trim_cuts_both_ends:
  "(\<exists>l r. str = l @ trim str chars @ r \<and> (\<forall>c. c \<in> set (l @ r) \<longrightarrow> chars_class chars c))
   \<and> (trim str chars \<noteq> [] \<longrightarrow>
        \<not> chars_class chars (hd (trim str chars)) \<and> \<not> chars_class chars (last (trim str chars)))
   \<and> trim (trim str chars) chars = trim str chars"
proof -
  let ?c = "chars_class chars"
  obtain r where r: "str = strip_right ?c str @ r" "\<forall>c \<in> set r. ?c c"
    using strip_right_prefix by blast
  let ?l = "takeWhile ?c (strip_right ?c str)"
  have "?l @ trim str chars = strip_right ?c str"
    by (simp add: trim_def ltrim_def rtrim_def strip_left_def)
  then have "str = ?l @ trim str chars @ r" using r(1) by (metis append.assoc)
  moreover have "\<forall>c \<in> set ?l. ?c c" by (auto dest: set_takeWhileD)
  moreover have "trim (trim str chars) chars = trim str chars"
    by (simp add: trim_def ltrim_def rtrim_def strip_right_left_id)
  moreover have "\<not> ?c (hd (trim str chars)) \<and> \<not> ?c (last (trim str chars))" if n: "trim str chars \<noteq> []"
  proof -
    have "last (trim str chars) = last (strip_right ?c str)"
      using n unfolding trim_def ltrim_def rtrim_def strip_left_def
      by (metis last_appendR takeWhile_dropWhile_id)
    moreover have "strip_right ?c str \<noteq> []"
      using n by (auto simp: trim_def ltrim_def rtrim_def strip_left_def)
    ultimately show ?thesis using n hd_strip_left [of ?c "strip_right ?c str"] last_strip_right [of ?c str]
      by (simp add: trim_def ltrim_def rtrim_def)
  qed
  ultimately show ?thesis using r(2) by (metis UnE set_append)
qed

theorem trim_cuts_both_ends_witness:
  "trim (trim (lit ''  ab '') None) None = lit ''ab'' \<and> \<not> chars_class None (hd (trim (lit ''  ab '') None))"
  using trim_cuts_both_ends [of "lit ''  ab ''" None]
  by (simp add: trim_None strip_left_def strip_right_def is_ws_def js_simps)

lemma trim_trim: "trim (trim v None) None = trim v None"
  by (simp add: trim_None strip_right_left_id)

subsection \<open>From a key to the table\<close>

lemma changed_frame: "search_val t = search_val s \<Longrightarrow> cur_search t = cur_search s \<Longrightarrow> changed t = changed s"
  by (simp add: changed_def)

lemma native_frame [simp]:
  "tq (native c s) = tq s" "rows (native c s) = rows s" "files (native c s) = files s"
  "search_val (native c s) = search_val s" "cur_search (native c s) = cur_search s"
  "first_grid (native c s) = first_grid s" "grid_rowNum (native c s) = grid_rowNum s"
  "cef_offline (native c s) = cef_offline s" "calls (native c s) = calls s @ [c]"
  "cur_page_end (native c s) = cur_page_end s" "ajax_open (native c s) = ajax_open s"
  by (simp_all add: native_def)

definition asking :: "app \<Rightarrow> app" where
  "asking s = s\<lparr>stat_timeout := Some (fst (setTimeout StatSearch 10 (tq s))), loading := True,
      tq := clearTimeout (highlight_timeout s) (snd (setTimeout StatSearch 10 (tq s)))\<rparr>"

lemma asking_frame [simp]:
  "search_val (asking s) = search_val s" "cur_search (asking s) = cur_search s"
  "first_grid (asking s) = first_grid s" "rows (asking s) = rows s" "calls (asking s) = calls s"
  "grid_rowNum (asking s) = grid_rowNum s" "cef_offline (asking s) = cef_offline s"
  by (simp_all add: asking_def)

lemma searchf0_asks:
  assumes "search_val s \<noteq> []"
  shows "searchf0 e s = and_then (search_and_parse e (cur_search s) (asking s))
      (\<lambda>s3. if changed s3 then done_with s3 else view_grid e s3)"
  unfolding searchf0_def Let_def case_prod_beta asking_def
  apply (subst if_not_P)
  subgoal using assms by simp
  apply (rule arg_cong [of _ _ "\<lambda>u. and_then u _"])
  apply (rule arg_cong2 [of _ _ _ _ "search_and_parse e"])
  subgoal by simp
  subgoal by simp
  done

lemma searchf0_result:
  assumes "search_val s \<noteq> []" and "cur_search s = Some q" and "e_search e q = Some fs"
    and "\<not> cef_offline s" and "\<not> first_grid s"
  shows "snd (searchf0 e s) = None \<and> files (fst (searchf0 e s)) = decorate fs
     \<and> calls (fst (searchf0 e s)) = calls s @ [Search q]
     \<and> (if changed s then rows (fst (searchf0 e s)) = rows s
        else table_shows e (grid_rowNum s) (fst (searchf0 e s)))"
proof -
  define t where "t = (native (Search q) (asking s))\<lparr>files := decorate fs\<rparr>"
  have t: "search_val t = search_val s" "cur_search t = cur_search s" "first_grid t = first_grid s"
    "files t = decorate fs" "rows t = rows s" "calls t = calls s @ [Search q]" "grid_rowNum t = grid_rowNum s"
    by (simp_all add: t_def)
  have "search_and_parse e (cur_search s) (asking s) = done_with t"
    using assms by (simp add: search_and_parse_def offline_names_def Let_def t_def)
  with searchf0_asks [OF assms(1), of e]
  have "searchf0 e s = (if changed t then done_with t else view_grid e t)"
    by (simp only: and_then_done)
  moreover have "changed t = changed s" using t(1,2) by (rule changed_frame)
  moreover have "table_shows e (grid_rowNum t) (fst (view_grid e t))" "snd (view_grid e t) = None"
    using view_grid_shows [of t e] assms t by auto
  moreover have "files (fst (view_grid e t)) = files t" "calls (fst (view_grid e t)) = calls t"
    using assms t by (simp_all add: view_grid_def grid_reload_def Let_def)
  ultimately show ?thesis using t by simp
qed

text \<open>
  C5. When the search timer runs, the query that was armed is sent to the server exactly once and
  its answer becomes the result list; the table shows the first page of that list, unless the
  text in the box is no longer that query, in which case the table is left as it was.
\<close>

theorem searchf0_shows_fresh_answer:
  assumes "search_val s \<noteq> []" and "cur_search s = Some q" and "e_search e q = Some fs"
    and "\<not> cef_offline s" and "\<not> first_grid s"
  shows "snd (searchf0 e s) = None \<and> files (fst (searchf0 e s)) = decorate fs
     \<and> calls (fst (searchf0 e s)) = calls s @ [Search q]
     \<and> (if changed s then rows (fst (searchf0 e s)) = rows s
        else table_shows e (grid_rowNum s) (fst (searchf0 e s)))"
  using assms by (rule searchf0_result)

theorem searchf0_shows_fresh_answer_witness:
  "files (fst (searchf0 sample_env (sample_app\<lparr>search_val := lit ''a'', cur_search := Some (lit ''a''), first_grid := False\<rparr>)))
     = decorate [sample_file]"
  using searchf0_shows_fresh_answer
    [of "sample_app\<lparr>search_val := lit ''a'', cur_search := Some (lit ''a''), first_grid := False\<rparr>" "lit ''a''" sample_env "[sample_file]"]
  by (simp add: sample_app_def sample_env_def)

lemma scan_notice_ok:
  assumes "e_index_status e = Some a" and "e_get_drives e = Some b"
  shows "snd (scan_notice e s) = None
     \<and> (fst (scan_notice e s) = s \<or> (\<exists>m. fst (scan_notice e s) = show_info m s))"
  using assms
  by (auto simp: scan_notice_def is_scan_finished_def is_scan_finish_one_def todo_dirves_def Let_def
      split: bool.split)

lemma and_then_None: "snd r = None \<Longrightarrow> and_then r f = f (fst r)"
  by (simp add: and_then_def)

lemma searchf_arms:
  assumes "e_index_status e = Some a" and "e_get_drives e = Some b" and "trim v None \<noteq> []"
  shows "\<exists>i ps d. let t = fst (searchf e v s) in
      snd (searchf e v s) = None \<and> search_timeout t = Some i \<and> cur_search t = Some (trim v None)
      \<and> pending (tq t) = ps @ [\<lparr>t_id = i, t_cb = SearchF0, t_delay = d\<rparr>]
      \<and> search_val t = search_val s \<and> first_grid t = first_grid s \<and> cef_offline t = cef_offline s
      \<and> grid_rowNum t = grid_rowNum s \<and> calls t = calls s"
  using scan_notice_ok [OF assms(1,2), of s] assms(3)
  by (auto simp: searchf_def Let_def and_then_None case_prod_beta setTimeout_def)

text \<open>
  C1. Typing a new query leads to its results: after the key event one search timer is armed, and
  when that timer fires the server has been asked for exactly the trimmed text, the result list
  is the server's answer and the table shows its first page.
\<close>

theorem typing_shows_results:
  assumes "timer_inv s" and "k \<notin> {8, 13}" and "trim v None \<noteq> []"
    and "Some (trim v None) \<noteq> cur_search s" and "\<not> first_grid s" and "\<not> cef_offline s"
    and "e_index_status e = Some a" and "e_get_drives e = Some b"
    and "e_search e (trim v None) = Some fs"
  shows "\<exists>i. search_timeout (step (e, KeyUp k v) s) = Some i
     \<and> (let t = step (e, Fire i) (step (e, KeyUp k v) s) in
          files t = decorate fs \<and> table_shows e (grid_rowNum s) t
          \<and> calls t = calls s @ [Search (trim v None)])"
proof -
  let ?s0 = "s\<lparr>search_val := v, dialogs := dialogs s - {''dialog-welcome''}\<rparr>"
  have v: "v \<noteq> []" using assms(3) by (auto simp: trim_None strip_left_def strip_right_def)
  have "handle e (KeyUp k v) s = searchf e (trim v None) ?s0"
    using assms(2,4) v by (simp add: search_if_change_def changed_def Let_def)
  then have key: "step (e, KeyUp k v) s = fst (searchf e (trim v None) ?s0)"
    by (simp add: step_def)
  let ?t1 = "fst (searchf e (trim v None) ?s0)"
  obtain i ps d where i: "search_timeout ?t1 = Some i" "cur_search ?t1 = Some (trim v None)"
      "pending (tq ?t1) = ps @ [\<lparr>t_id = i, t_cb = SearchF0, t_delay = d\<rparr>]"
      "search_val ?t1 = v" "first_grid ?t1 = first_grid s" "cef_offline ?t1 = cef_offline s"
      "grid_rowNum ?t1 = grid_rowNum s" "calls ?t1 = calls s"
    using searchf_arms [OF assms(7,8), of "trim v None" ?s0] assms(3) by (auto simp: trim_trim Let_def)
  have "timer_inv ?t1" using assms(1) by (intro timer_inv_searchf) simp
  then have "distinct (map t_id (pending (tq ?t1)))" by (simp add: timer_inv_def slot_ok_def timers_ok_def)
  then have "filter (\<lambda>t. t_id t = i) (pending (tq ?t1)) = [\<lparr>t_id = i, t_cb = SearchF0, t_delay = d\<rparr>]"
    unfolding i(3) by (auto simp: filter_empty_conv)
  then have fire: "step (e, Fire i) ?t1 = fst (searchf0 e (?t1\<lparr>tq := take_timer i (tq ?t1)\<rparr>))"
    by (simp add: step_def fire_def)
  let ?t2 = "?t1\<lparr>tq := take_timer i (tq ?t1)\<rparr>"
  have nc: "\<not> changed ?t2" using i by (simp add: changed_def)
  have "files (fst (searchf0 e ?t2)) = decorate fs \<and> table_shows e (grid_rowNum s) (fst (searchf0 e ?t2))
      \<and> calls (fst (searchf0 e ?t2)) = calls s @ [Search (trim v None)]"
    using searchf0_result [of ?t2 "trim v None" e fs] nc i assms v by simp
  then show ?thesis unfolding key using i(1) fire by (simp add: Let_def)
qed

theorem typing_shows_results_witness:
  "files (step (sample_env, Fire 0) (step (sample_env, KeyUp 65 (lit '' a'')) (sample_app\<lparr>first_grid := False\<rparr>)))
     = decorate [sample_file]"
proof -
  let ?s = "sample_app\<lparr>first_grid := False\<rparr>"
  have t: "trim (lit '' a'') None = lit ''a''"
    by (simp add: trim_None strip_left_def strip_right_def is_ws_def js_simps)
  have "timer_inv ?s"
    by (simp add: sample_app_def timer_inv_def slot_ok_def timers_ok_def ids_of_def)
  have u: "trim (lit ''a'') None = lit ''a''"
    by (simp add: trim_None strip_left_def strip_right_def is_ws_def js_simps)
  from \<open>timer_inv ?s\<close> have r: "\<exists>i. search_timeout (step (sample_env, KeyUp 65 (lit '' a'')) ?s) = Some i
     \<and> (let t = step (sample_env, Fire i) (step (sample_env, KeyUp 65 (lit '' a'')) ?s) in
          files t = decorate [sample_file] \<and> table_shows sample_env (grid_rowNum ?s) t
          \<and> calls t = calls ?s @ [Search (trim (lit '' a'') None)])"
    by (rule typing_shows_results [where a = "[]" and b = "[]"]) (simp_all add: t sample_app_def sample_env_def)
  have "search_timeout (step (sample_env, KeyUp 65 (lit '' a'')) ?s) = Some 0"
    by (simp add: step_def search_if_change_def changed_def searchf_def t u Let_def scan_notice_def
        is_scan_finished_def todo_dirves_def sample_app_def sample_env_def setTimeout_def clearTimeout_def
        and_then_def done_with_def)
  with r show ?thesis by (auto simp: Let_def)
qed

text \<open>
  When the answer to a search cannot be read the page says so and restarts the server: the
  result list and the table are empty, the error message is shown instead of an information,
  and the last command is the one that starts the server.
\<close>

theorem unreadable_answer_restarts:
  assumes "search_val s \<noteq> []" and "cur_search s = Some q" and "e_search e q = None"
    and "\<not> first_grid s"
  shows "snd (searchf0 e s) = None \<and> files (fst (searchf0 e s)) = [] \<and> rows (fst (searchf0 e s)) = []
     \<and> msg_error (fst (searchf0 e s)) \<and> \<not> msg_info (fst (searchf0 e s))
     \<and> calls (fst (searchf0 e s)) = calls s @ [Search q, StartServer]
     \<and> \<not> loading (fst (searchf0 e s))"
  using assms
  by (simp add: searchf0_def search_and_parse_def restart_when_error_def view_grid_def grid_reload_def
      grid_event_def show_error_def native_def case_prod_beta Let_def)

theorem unreadable_answer_restarts_witness:
  "calls (fst (searchf0 (sample_env\<lparr>e_search := (\<lambda>_. None)\<rparr>)
      (sample_app\<lparr>search_val := lit ''a'', cur_search := Some (lit ''a''), first_grid := False\<rparr>)))
     = [Search (lit ''a''), StartServer]"
  using unreadable_answer_restarts
    [of "sample_app\<lparr>search_val := lit ''a'', cur_search := Some (lit ''a''), first_grid := False\<rparr>" "lit ''a''"
      "sample_env\<lparr>e_search := (\<lambda>_. None)\<rparr>"]
  by (simp add: sample_app_def)

subsection \<open>The command line\<close>

lemma indexOf_from_after:
  assumes "sep \<notin> set w"
  shows "indexOf_from (c # w @ sep # rest) [sep] 1 = int (length w) + 1"
proof -
  have "takeWhile (\<lambda>y. y \<noteq> sep) (w @ sep # rest) = w"
    using assms by (induction w) auto
  then show ?thesis using indexOf_from_single [of 1 "c # w @ sep # rest" sep] by simp
qed

lemma substring_between: "substring (c # w @ sep # rest) 1 (int (length w) + 1) = w"
  using substring_nat [of 1 "Suc (length w)" "c # w @ sep # rest"] by (simp add: add.commute)

lemma substring_after:
  "substring (c # w @ sep # rest) (int (length w) + 1 + 1) (int (length (c # w @ sep # rest))) = rest"
  using substring_suffix [of "c # w @ sep # rest" "length w + 2"] by (simp add: add.commute)

lemma charAt_Cons [simp]: "charAt (c # w) 0 = [c]"
  by (simp add: charAt_def)

lemma parse_init_dir_head:
  assumes "q = (if c = quote then quote else blank_char)" and "q \<notin> set w"
  shows "parse_init_dir (c # w @ q # rest) =
     (let ss2 = trim rest None;
          findex = indexOf_from ss2 [if charAt ss2 0 = [quote] then quote else blank_char] 1
      in if findex = -1 then [] else substring ss2 1 findex)"
proof -
  have "(if charAt (c # w @ q # rest) 0 = [quote] then quote else blank_char) = q" using assms(1) by simp
  moreover have "int (length w) + 1 \<noteq> -1" by simp
  ultimately show ?thesis
    unfolding parse_init_dir_def Let_def
    by (simp only: indexOf_from_after [OF assms(2)] substring_after if_False option.case)
qed

lemma trim_id:
  assumes "s = [] \<or> \<not> is_ws (hd s)" and "s = [] \<or> \<not> is_ws (last s)"
  shows "trim s None = s"
  using assms by (simp add: trim_None strip_left_id strip_right_id)

text \<open>
  A directory given in double quotes after the program (itself quoted or not) is recovered
  exactly, whatever it contains except a double quote.
\<close>

theorem parse_init_dir_quoted:
  assumes "q = (if c = quote then quote else blank_char)" and "q \<notin> set prog" and "quote \<notin> set dir"
  shows "parse_init_dir (c # prog @ q # blank_char # quote # dir @ [quote]) = dir"
proof -
  let ?d = "quote # dir @ [quote]"
  have "trim (blank_char # ?d) None = ?d"
    by (simp add: trim_None strip_right_def strip_left_def is_ws_def)
  then show ?thesis
    using parse_init_dir_head [OF assms(1,2), of "blank_char # ?d"] indexOf_from_after [OF assms(3), of quote "[]"]
      substring_between [of quote dir quote "[]"]
    by (simp add: Let_def)
qed

theorem parse_init_dir_quoted_witness:
  "parse_init_dir (quote # lit ''pea.exe'' @ quote # blank_char # quote # lit ''C:/my docs'' @ [quote]) = lit ''C:/my docs''"
  by (rule parse_init_dir_quoted) (simp_all add: js_simps)

text \<open>
  A directory given without quotes is never recovered: when it holds no blank the result is
  empty, and when it holds one the result is the part before the blank without its first
  character.
\<close>

theorem parse_init_dir_unquoted:
  assumes "q = (if c = quote then quote else blank_char)" and "q \<notin> set prog"
    and "d \<noteq> quote" and "\<not> is_ws d" and "\<forall>x. x \<in> set dir \<longrightarrow> \<not> is_ws x"
    and "others \<noteq> [] \<longrightarrow> \<not> is_ws (last others)"
  shows "parse_init_dir (c # prog @ q # d # dir) = []
     \<and> (others \<noteq> [] \<longrightarrow> parse_init_dir (c # prog @ q # d # dir @ blank_char # others) = dir)"
proof -
  have blank: "blank_char \<notin> set dir" using assms(5) by (auto simp: is_ws_def)
  have "last (d # dir) \<in> set (d # dir)" by (rule last_in_set) simp
  then have "\<not> is_ws (last (d # dir))" using assms(4,5) by auto
  then have "trim (d # dir) None = d # dir" using assms(4) by (intro trim_id) simp_all
  moreover have "indexOf_from (d # dir) [blank_char] 1 = -1"
    using indexOf_from_single [of 1 "d # dir" blank_char] blank by simp
  ultimately have one: "parse_init_dir (c # prog @ q # d # dir) = []"
    using parse_init_dir_head [OF assms(1,2), of "d # dir"] assms(3) by (simp add: Let_def)
  have "parse_init_dir (c # prog @ q # d # dir @ blank_char # others) = dir" if m: "others \<noteq> []"
  proof -
    have "trim (d # dir @ blank_char # others) None = d # dir @ blank_char # others"
      using assms(4,6) m by (intro trim_id) simp_all
    then show ?thesis
      using parse_init_dir_head [OF assms(1,2), of "d # dir @ blank_char # others"] assms(3)
        indexOf_from_after [OF blank, of d others] substring_between [of d dir blank_char others]
      by (simp add: Let_def)
  qed
  with one show ?thesis by blast
qed

theorem parse_init_dir_unquoted_witness:
  "parse_init_dir (112 # lit ''ea.exe'' @ blank_char # 67 # lit '':/x'') = []
   \<and> parse_init_dir (112 # lit ''ea.exe'' @ blank_char # 67 # lit '':/x'' @ blank_char # lit ''y'') = lit '':/x''"
  using parse_init_dir_unquoted [of blank_char 112 "lit ''ea.exe''" 67 "lit '':/x''" "lit ''y''"]
  by (simp add: is_ws_def js_simps)

subsection \<open>The order of the results\<close>

text \<open>
  Ordering by one of the four columns records the column and the direction, sends the server a
  number between 1 and 8 that determines both, shows exactly one arrow, in the header of that
  column, and asks for the results again when there are some.
\<close>

theorem orderby_code_and_arrow:
  assumes "c \<in> {0..3}" and "c' \<in> {0..3}" and "\<not> first_grid s"
  shows "order_col (fst (orderby (Some c) d s)) = Some c \<and> order_desc (fst (orderby (Some c) d s)) = d
     \<and> (\<exists>n. cef_order (fst (orderby (Some c) d s)) = Some n \<and> 1 \<le> n \<and> n \<le> 8)
     \<and> (cef_order (fst (orderby (Some c) d s)) = cef_order (fst (orderby (Some c') d' s)) \<longleftrightarrow> c = c' \<and> d = d')
     \<and> (\<forall>k. arrow_heads (fst (orderby (Some c) d s)) k = (if int k = c + 1 then [d] else []))
     \<and> (files s \<noteq> [] \<longrightarrow> ids_of SearchF0 (tq (fst (orderby (Some c) d s))) \<noteq> [])"
proof -
  have "cef_order (fst (orderby (Some c) d s)) = cef_order (fst (orderby (Some c') d' s)) \<longleftrightarrow> c = c' \<and> d = d'"
    using assms order_code_inj [of c c' d d'] by (auto simp: orderby_state)
  moreover have "1 \<le> c * 2 + of_bool d + 1 \<and> c * 2 + of_bool d + 1 \<le> 8"
    using assms(1) by (cases d) auto
  moreover have "files s \<noteq> [] \<longrightarrow> ids_of SearchF0 (tq (fst (orderby (Some c) d s))) \<noteq> []"
    using assms(3) by (auto simp: orderby_def set_orderby_value_def set_order_arrow_def Let_def
        frame_simps ids_of_set)
  ultimately show ?thesis using orderby_heads [OF assms(3)] by (simp add: orderby_state)
qed

theorem orderby_code_and_arrow_witness:
  "arrow_heads (fst (orderby (Some 2) True (sample_app\<lparr>first_grid := False\<rparr>))) 3 = [True]"
proof -
  have "\<forall>k. arrow_heads (fst (orderby (Some 2) True (sample_app\<lparr>first_grid := False\<rparr>))) k = (if int k = 2 + 1 then [True] else [])"
    using orderby_code_and_arrow [of 2 0 "sample_app\<lparr>first_grid := False\<rparr>" True False] by simp
  then show ?thesis by simp
qed

text \<open>
  Clicking a sortable header orders by its column, descending at first; clicking the same
  header again reverses the direction, so two others clicks restore the order the server is told.
\<close>

theorem header_click_toggles:
  assumes "header_index th = Some c" and "order_col s \<noteq> Some c"
  shows "let s1 = fst (header_click th s); s2 = fst (header_click th s1); s3 = fst (header_click th s2) in
       order_col s1 = Some c \<and> order_desc s1 \<and> order_col s2 = Some c \<and> \<not> order_desc s2
       \<and> order_col s3 = order_col s1 \<and> order_desc s3 = order_desc s1 \<and> cef_order s3 = cef_order s1"
  using assms by (simp add: header_click_def Let_def orderby_state)

theorem header_click_toggles_witness:
  "let s1 = fst (header_click (lit ''maintable_size'') sample_app) in
     order_col s1 = Some 2 \<and> order_desc s1 \<and> \<not> order_desc (fst (header_click (lit ''maintable_size'') s1))"
  using header_click_toggles [of "lit ''maintable_size''" 2 sample_app]
  by (simp add: header_index_def js_simps sample_app_def Let_def)

end
