(* ===== verification/GridProps.thy ===== *)
theory GridProps
  imports SearchProps
begin

text \<open>Properties of the result table: paging, selection, highlighting, icons.\<close>

subsection \<open>Paging\<close>

lemma view_grid_frame:
  assumes "\<not> first_grid s"
  shows "cur_page_end (fst (view_grid e s)) = cur_page_end s" "files (fst (view_grid e s)) = files s"
    "grid_rowNum (fst (view_grid e s)) = grid_rowNum s" "selarrrow (fst (view_grid e s)) = []"
    "length (rows (fst (view_grid e s))) = min (grid_rowNum s) (length (files s))"
  using assms by (simp_all add: view_grid_def grid_reload_def Let_def min.commute)

lemma scrolls_show:
  assumes "table_shows e (cur_page_end s) s"
  shows "table_shows e (cur_page_end s + 100 * n) ((grid_add_files e ^^ n) s)
     \<and> cur_page_end ((grid_add_files e ^^ n) s) = cur_page_end s + 100 * n"
proof (induction n)
  case (Suc n)
  then show ?case using grid_add_files_shows [of e "(grid_add_files e ^^ n) s"] by (simp add: ac_simps)
qed (simp add: assms)

text \<open>
  C3. As long as the table's page size is the end of the loaded part, showing a result list and
  scrolling to the bottom any number of times displays a prefix of the results, numbered from 1,
  that grows by a hundred rows with every scroll until all the results are there.
\<close>

theorem scrolling_shows_prefix:
  assumes "\<not> first_grid s" and "grid_rowNum s = cur_page_end s"
  shows "table_shows e (cur_page_end s + 100 * n) ((grid_add_files e ^^ n) (fst (view_grid e s)))"
proof -
  have "table_shows e (cur_page_end (fst (view_grid e s))) (fst (view_grid e s))"
    using view_grid_shows [OF assms(1), of e] assms by (simp add: view_grid_frame)
  from scrolls_show [OF this, of n] show ?thesis using assms(1) by (simp add: view_grid_frame)
qed

theorem scrolling_shows_prefix_witness:
  "length (rows ((grid_add_files sample_env ^^ 1)
      (fst (view_grid sample_env (sample_app\<lparr>first_grid := False, grid_rowNum := 200, files := replicate 250 sample_file\<rparr>)))))
     = 250"
  using scrolling_shows_prefix
    [of "sample_app\<lparr>first_grid := False, grid_rowNum := 200, files := replicate 250 sample_file\<rparr>" sample_env 1]
  by (simp add: table_shows_def sample_app_def view_grid_frame)

definition row_data :: "row \<Rightarrow> ustr \<times> ustr \<times> ustr" where
  "row_data r = (r_file r, r_path r, r_type r)"

lemma row_data_simps [simp]:
  "row_data (bind_row b r) = row_data r" "row_data (r\<lparr>r_id := i\<rparr>) = row_data r"
  "r_id (bind_row b r) = r_id r" "r_id (make_row e i f) = i"
  by (simp_all add: row_data_def bind_row_def make_row_def Let_def)




subsection \<open>The selection\<close>

definition full_path :: "file_entry \<Rightarrow> ustr" where
  "full_path f = f_path f @ f_name f"

definition is_result :: "app \<Rightarrow> rowid \<Rightarrow> bool" where
  "is_result s i \<longleftrightarrow> (\<exists>f. selected_file s i = Inr f)"

lemma selected_file_Inl: "selected_file s i = Inl x \<longleftrightarrow> \<not> is_result s i \<and> x = TypeError"
  by (auto simp: is_result_def selected_file_def split: rowid.splits if_splits)

lemma rmap_selected:
  "(\<forall>i \<in> set is. is_result s i) \<and> rmap (selected_file s) is = Inr (map (\<lambda>i. projr (selected_file s i)) is)
   \<or> (\<exists>i \<in> set is. \<not> is_result s i) \<and> rmap (selected_file s) is = Inl TypeError"
proof (induction "is")
  case (Cons i "is")
  show ?case
  proof (cases "is_result s i")
    case True
    then obtain f where "selected_file s i = Inr f" by (auto simp: is_result_def)
    with Cons True show ?thesis by auto
  next
    case False
    then have "selected_file s i = Inl TypeError" by (cases "selected_file s i") (auto simp: selected_file_Inl is_result_def)
    with False show ?thesis by auto
  qed
qed simp

lemma split_paths:
  "(\<And>f. f \<in> set fs \<Longrightarrow> sep \<notin> set (full_path f)) \<Longrightarrow>
     split_char sep (concat (map (\<lambda>f. full_path f @ [sep]) fs)) = map full_path fs @ [[]]"
  by (induction fs) (auto simp: split_char_append)

text \<open>
  C8. The argument of the commands on a selection determines the selected files: split at the bars
  it gives back their full paths in the order of the selection, as no path contains a bar; and
  it can be built exactly when every selected row is one of the results, a row with a generated
  id ending the command with a TypeError.
\<close>

theorem selection_round_trip:
  assumes "\<And>f. f \<in> set (files s) \<Longrightarrow> 124 \<notin> set (full_path f)"
  shows "if \<forall>i \<in> set (selarrrow s). is_result s i
     then \<exists>fs. grid_selectd_files s = Inr fs
        \<and> split_char 124 fs = map (\<lambda>i. full_path (projr (selected_file s i))) (selarrrow s) @ [[]]
     else grid_selectd_files s = Inl TypeError"
proof (cases "\<forall>i \<in> set (selarrrow s). is_result s i")
  case True
  let ?fs = "map (\<lambda>i. projr (selected_file s i)) (selarrrow s)"
  have "projr (selected_file s i) \<in> set (files s)" if "i \<in> set (selarrrow s)" for i
    using True that by (force simp: is_result_def selected_file_def split: rowid.splits if_splits)
  then have "\<And>f. f \<in> set ?fs \<Longrightarrow> 124 \<notin> set (full_path f)" using assms by auto
  from split_paths [OF this] have
    "split_char 124 (concat (map (\<lambda>f. full_path f @ [124]) ?fs)) = map full_path ?fs @ [[]]" .
  moreover have "grid_selectd_files s = Inr (concat (map (\<lambda>f. full_path f @ [124]) ?fs))"
    using rmap_selected [of "selarrrow s" s] True
    by (auto simp: grid_selectd_files_def full_path_def js_simps)
  ultimately show ?thesis using True by (simp add: o_def)
next
  case False
  then show ?thesis using rmap_selected [of "selarrrow s" s] by (auto simp: grid_selectd_files_def)
qed

theorem selection_round_trip_witness:
  "\<exists>fs. grid_selectd_files (sample_app\<lparr>files := [sample_file], selarrrow := [RowNum 1]\<rparr>) = Inr fs
     \<and> split_char 124 fs = [[67, 58, backslash] @ lit ''a.txt'', []]"
  using selection_round_trip [of "sample_app\<lparr>files := [sample_file], selarrrow := [RowNum 1]\<rparr>"]
  by (auto simp: sample_file_def full_path_def js_simps is_result_def selected_file_def)

lemma has_row_selected_iff: "has_row_selected i s \<longleftrightarrow> i \<in> set (selarrrow s)"
proof -
  have "fold (\<lambda>ele ret. if ele = i then True else ret) xs b \<longleftrightarrow> b \<or> i \<in> set xs" for xs b
    by (induction xs arbitrary: b) auto
  then show ?thesis by (simp add: has_row_selected_def)
qed

text \<open>
  Opening the menu of a row acts on what the user sees selected: on a selected row nothing
  changes, and on another row the selection becomes exactly that row, every row getting the menu
  of a single file back and the row itself losing its menu when its directory is a network path.
\<close>

theorem open_menu_selects:
  assumes "n < length (rows s)" and "r_id (rows s ! n) = RowNum (Suc n)"
  shows "snd (onContextMenu (Some (RowNum (Suc n))) s) = None
     \<and> (if RowNum (Suc n) \<in> set (selarrrow s)
        then fst (onContextMenu (Some (RowNum (Suc n))) s) = s
        else selarrrow (fst (onContextMenu (Some (RowNum (Suc n))) s)) = [RowNum (Suc n)]
          \<and> (\<forall>k. k < length (rows s) \<longrightarrow>
               r_menu (rows (fst (onContextMenu (Some (RowNum (Suc n))) s)) ! k) =
                 (if k = n \<and> substr (r_path (rows s ! n)) 0 1 = [backslash] then EmptyMenu else MyMenu1)))"
proof -
  have "RowNum (Suc n) \<in> r_id ` set (rows s)"
    using assms by (metis image_eqI nth_mem)
  then show ?thesis using assms
    by (simp add: onContextMenu_def has_row_selected_iff setSelection_def grid_batch_unselect_def
        resetSelection_def onSelectRow_def set_menu_at_def Let_def image_image nth_list_update)
qed

theorem open_menu_selects_witness:
  "selarrrow (fst (onContextMenu (Some (RowNum (Suc 0)))
      (sample_app\<lparr>rows := [make_row sample_env (RowNum 1) sample_file], selarrrow := [RowNum 7]\<rparr>))) = [RowNum 1]"
  using open_menu_selects
    [of 0 "sample_app\<lparr>rows := [make_row sample_env (RowNum 1) sample_file], selarrrow := [RowNum 7]\<rparr>"]
  by (simp add: make_row_def)

end
