(* ===== verification/Subnav.thy ===== *)
theory Subnav
  imports Prelude
begin

text \<open>
  \<open>browser/web/subnav.js\<close>: showing one layer of a menu. \<open>eval(Lname)\<close> is one element, or
  a collection of elements with a \<open>length\<close>; of an element only \<open>style.visibility\<close> counts.
\<close>

datatype visibility = Visible | Hidden | Unset

datatype layer = Element visibility | Collection "visibility list"

definition toggle :: "visibility \<Rightarrow> visibility" where
  "toggle v = (if v \<noteq> Visible then Visible else Hidden)"

fun layer_loop :: "nat \<Rightarrow> int \<Rightarrow> visibility list \<Rightarrow> visibility list" where
  "layer_loop i num [] = []"
| "layer_loop i num (v # vs) =
     (if int i = num then toggle v else Hidden) # layer_loop (Suc i) num vs"

fun layer_menu :: "layer \<Rightarrow> int \<Rightarrow> layer res" where
  "layer_menu (Element v) num = Inr (Element (toggle v))"
| "layer_menu (Collection vs) num =
     (if length vs = 0 then Inl TypeError else Inr (Collection (layer_loop 0 num vs)))"

lemma length_layer_loop [simp]: "length (layer_loop i num vs) = length vs"
  by (induction vs arbitrary: i) auto

lemma layer_loop_nth:
  "k < length vs \<Longrightarrow>
     layer_loop i num vs ! k = (if int (i + k) = num then toggle (vs ! k) else Hidden)"
  by (induction vs arbitrary: i k) (auto simp: nth_Cons split: nat.split)

lemma layer_menu_Collection:
  "layer_menu (Collection vs) num = Inr l \<Longrightarrow> vs \<noteq> [] \<and> l = Collection (layer_loop 0 num vs)"
  by (auto split: if_splits)

end
