(* ===== verification/ViewProps.thy ===== *)
theory ViewProps
  imports GridProps Subnav
begin

text \<open>
  Properties of what the page shows: the highlighted match, the icons, the layers of a menu, the
  bottom of the page and the font size.
\<close>

subsection \<open>The highlighted match\<close>

definition marked :: "ustr \<Rightarrow> ustr" where
  "marked m = lit ''<span class='' @ [39] @ lit ''highlight-match'' @ [39] @ lit ''>'' @ m @ lit ''</span>''"

text \<open>
  When lowering is done character by character, a name that contains the query in any
  capitalisation is shown as its text before the first such occurrence, the occurrence itself
  inside the highlighting tag, and the text after it; every other name is left as it is.
\<close>

theorem highlight_marks_first:
  assumes "e_toLowerCase e = map low"
  shows "if \<exists>a m b. html = a @ m @ b \<and> map low m = map low search
     then \<exists>a m b. html = a @ m @ b \<and> map low m = map low search
        \<and> highlight_html e search html = a @ marked m @ b
        \<and> (\<forall>a' m' b'. html = a' @ m' @ b' \<and> map low m' = map low search \<longrightarrow> length a \<le> length a')
     else highlight_html e search html = html"
proof -
  let ?p = "map low search" and ?h = "map low html"
  have occ: "find_sub ?p ?h \<noteq> None" if "html = a @ m @ b" "map low m = ?p" for a m b
    unfolding find_sub_None_iff using that by (metis map_append)
  show ?thesis
  proof (cases "find_sub ?p ?h")
    case None
    then have "\<not> (\<exists>a m b. html = a @ m @ b \<and> map low m = ?p)" using occ by blast
    moreover have "highlight_html e search html = html"
      using None by (simp add: highlight_html_def indexOf_def assms)
    ultimately show ?thesis by (simp only: if_False)
  next
    case (Some i)
    obtain r where r: "?h = take i ?h @ ?p @ r" "i \<le> length ?h"
      using find_sub_Some_split [OF Some] by blast
    let ?a = "take i html" and ?m = "take (length search) (drop i html)"
      and ?b = "drop (length search + i) html"
    have "length ?h = i + length search + length r" using r by (metis add.assoc length_append length_map length_take min.absorb2)
    then have len: "i + length search \<le> length html" by simp
    have split: "html = ?a @ ?m @ ?b"
      by (metis append_take_drop_id drop_drop)
    have "drop i ?h = ?p @ r" using r by (metis append_eq_conv_conj length_take min.absorb2)
    then have m: "map low ?m = ?p" by (metis append_eq_conv_conj drop_map length_map take_map)
    have first: "length ?a \<le> length a'" if "html = a' @ m' @ b'" "map low m' = ?p" for a' m' b'
    proof (rule ccontr)
      assume "\<not> length ?a \<le> length a'"
      then have "length a' < i" by simp
      moreover have "starts_with ?p (drop (length a') ?h)" using that by (auto simp: starts_with_iff)
      ultimately show False using find_sub_first [OF Some] by blast
    qed
    have "highlight_html e search html = ?a @ marked ?m @ ?b"
      using substring_prefix [of html i] substring_nat [of i "i + length search" html]
        substring_suffix [of html "i + length search"]
      by (simp add: highlight_html_def indexOf_def assms Some marked_def add.commute)
    with split m first show ?thesis by metis
  qed
qed

theorem highlight_marks_first_witness:
  "\<exists>a m b. lit ''xAb'' = a @ m @ b \<and> map ascii_lower m = map ascii_lower (lit ''aB'')
     \<and> highlight_html sample_env (lit ''aB'') (lit ''xAb'') = a @ marked m @ b"
proof -
  have "\<exists>a m b. lit ''xAb'' = a @ m @ b \<and> map ascii_lower m = map ascii_lower (lit ''aB'')"
    by (intro exI [of _ "lit ''x''"] exI [of _ "lit ''Ab''"] exI [of _ "[]"])
       (simp add: js_simps ascii_lower_def)
  then show ?thesis
    using highlight_marks_first [of sample_env ascii_lower "lit ''xAb''" "lit ''aB''"]
    by (auto simp: sample_env_def)
qed

subsection \<open>Icons\<close>

definition real_icon :: "row \<Rightarrow> row" where
  "real_icon r = r\<lparr>r_img := Some (lit ''gigaso://icon/'' @ r_path r @ r_file r)\<rparr>"

definition plain_path :: "row \<Rightarrow> bool" where
  "plain_path r \<longleftrightarrow> 37 \<notin> set (r_path r @ r_file r)"

lemma icon_pass_ok:
  assumes "\<And>r. r \<in> set todo \<Longrightarrow> r_img r \<noteq> None"
  shows "snd (icon_pass e sel w ds todo rest s) = None
     \<and> rows (fst (icon_pass e sel w ds todo rest s)) =
         ds @ map (\<lambda>r. if sel r \<and> plain_path r \<and> w (r_path r @ r_file r) then real_icon r else r) todo @ rest"
  using assms
proof (induction e sel w ds todo rest s rule: icon_pass.induct)
  case (2 e sel w ds r todo rest s)
  obtain im where "r_img r = Some im" using "2.prems" [of r] by auto
  with 2 show ?case
    by (auto simp: Let_def set_icon_def get_file_path_def plain_path_def real_icon_def)
qed simp

text \<open>
  C10. One run of the icon timer gives the next twenty rows the icons of their files, except the
  rows whose path holds a percent sign, and changes no other row. It goes on with the following
  twenty exactly when one of these rows has a path without a percent sign, so twenty rows with
  such paths in a row end the replacement for all rows behind them.
\<close>

theorem icon_replace_batch:
  assumes "\<And>r. r \<in> set (rows s) \<Longrightarrow> r_img r \<noteq> None"
  shows "let n = grid_start_id s + icon_replace_index s; t = fst (icon_replace e s) in
       snd (icon_replace e s) = None
     \<and> rows t = take n (rows s)
          @ map (\<lambda>r. if plain_path r then real_icon r else r) (take 20 (drop n (rows s)))
          @ drop (n + 20) (rows s)
     \<and> (if \<exists>r \<in> set (take 20 (drop n (rows s))). plain_path r
        then icon_replace_index t = icon_replace_index s + 20
           \<and> tq t = snd (setTimeout IconReplace 1 (tq s))
        else icon_replace_index t = icon_replace_index s \<and> tq t = tq s)"
proof -
  let ?n = "grid_start_id s + icon_replace_index s"
  have ok: "\<And>r. r \<in> set (take 20 (drop ?n (rows s))) \<Longrightarrow> r_img r \<noteq> None"
    using assms by (meson in_set_dropD in_set_takeD)
  have fin: "(\<forall>r \<in> set (take 20 (drop ?n (rows s))). 37 \<in> set (r_path r @ r_file r))
      \<longleftrightarrow> \<not> (\<exists>r \<in> set (take 20 (drop ?n (rows s))). plain_path r)"
    by (auto simp: plain_path_def)
  show ?thesis
    using icon_pass_ok [OF ok, where e = e and sel = "\<lambda>_. True" and w = "\<lambda>_. True"
      and ds = "take ?n (rows s)" and rest = "drop 20 (drop ?n (rows s))" and s = s]
    unfolding icon_replace_def Let_def fin
    by (auto simp: and_then_None case_prod_beta add.commute)
qed

theorem icon_replace_batch_witness:
  "tq (fst (icon_replace sample_env (sample_app\<lparr>rows := replicate 20
       ((make_row sample_env (RowNum 1) (sample_file\<lparr>f_path := [37]\<rparr>))\<lparr>r_img := Some []\<rparr>)\<rparr>))) = tq sample_app"
  using icon_replace_batch [of "sample_app\<lparr>rows := replicate 20
       ((make_row sample_env (RowNum 1) (sample_file\<lparr>f_path := [37]\<rparr>))\<lparr>r_img := Some []\<rparr>)\<rparr>" sample_env]
  by (simp add: Let_def plain_path_def make_row_def sample_env_def sample_app_def grid_start_id_def
      split: if_splits)

subsection \<open>Layers of a menu\<close>

text \<open>
  Choosing an entry of a menu with several layers leaves at most the layer of that entry
  visible, so one at a time, and choosing the same entry twice hides it again unless it was
  hidden; on an entry number that no layer has, every layer is hidden.
\<close>

theorem layer_menu_one_visible:
  assumes "vs \<noteq> []"
  shows "\<exists>ws. layer_menu (Collection vs) num = Inr (Collection ws) \<and> length ws = length vs
     \<and> (\<forall>k. k < length ws \<and> ws ! k = Visible \<longrightarrow> int k = num \<and> vs ! k \<noteq> Visible)
     \<and> (\<forall>k. k < length ws \<and> int k = num \<longrightarrow>
           layer_menu (Collection ws) num = Inr (Collection ((replicate (length ws) Hidden)[k := toggle (toggle (vs ! k))])))
     \<and> (num < 0 \<or> int (length vs) \<le> num \<longrightarrow> ws = replicate (length vs) Hidden)"
proof -
  let ?ws = "layer_loop 0 num vs"
  have nth: "\<And>us k. k < length us \<Longrightarrow> layer_loop 0 num us ! k = (if int k = num then toggle (us ! k) else Hidden)"
    by (simp add: layer_loop_nth)
  have "layer_loop 0 num ?ws = (replicate (length ?ws) Hidden)[k := toggle (toggle (vs ! k))]"
    if "k < length ?ws" "int k = num" for k
    using that by (intro nth_equalityI) (auto simp: nth nth_list_update)
  moreover have "?ws = replicate (length vs) Hidden" if "num < 0 \<or> int (length vs) \<le> num"
    using that by (intro nth_equalityI) (auto simp: nth)
  moreover have "\<forall>k. k < length ?ws \<and> ?ws ! k = Visible \<longrightarrow> int k = num \<and> vs ! k \<noteq> Visible"
    by (auto simp: nth toggle_def split: if_splits)
  moreover have "layer_menu (Collection us) num = Inr (Collection (layer_loop 0 num us))" if "us \<noteq> []" for us
    using that by simp
  moreover have "?ws \<noteq> []" using assms by (metis length_0_conv length_layer_loop)
  ultimately show ?thesis using assms by (metis length_layer_loop)
qed

theorem layer_menu_one_visible_witness:
  "\<exists>ws. layer_menu (Collection [Visible, Unset]) 1 = Inr (Collection ws)
     \<and> (\<forall>k. k < length ws \<and> ws ! k = Visible \<longrightarrow> int k = 1)"
  using layer_menu_one_visible [of "[Visible, Unset]" 1] by blast

subsection \<open>The bottom of the page\<close>

text \<open>
  More rows are appended exactly when the lower edge of the window is past 95 percent of the
  page; the second test of the script, for standing exactly at the bottom, adds no case. The
  height of the window is the smaller one of the two the browser reports unless one is zero.
\<close>

theorem scroll_appends_near_bottom:
  assumes "page_ok g"
  shows "(handle e (WindowScroll g v) s =
       (if 20 * (doc_scrollTop g + body_scrollTop g + clientHeight (snd (reachBottom g v)))
             > 19 * max (body_scrollHeight g) (doc_scrollHeight g)
        then (grid_add_files e s, None) else (s, None)))
     \<and> clientHeight (snd (reachBottom g v)) =
         (if body_clientHeight g \<noteq> 0 \<and> doc_clientHeight g \<noteq> 0
          then min (body_clientHeight g) (doc_clientHeight g)
          else max (body_clientHeight g) (doc_clientHeight g))"
  using reachBottom_iff [OF assms, of v]
  by (simp add: done_with_def reachBottom_def getPageHeight_def Let_def min_def max_def)

theorem scroll_appends_near_bottom_witness:
  "handle sample_env (WindowScroll \<lparr>body_clientHeight = 600, doc_clientHeight = 600, body_scrollHeight = 3000,
       doc_scrollHeight = 3000, body_scrollTop = 2300, doc_scrollTop = 0\<rparr> \<lparr>iHeight = 0, iTop = 0, clientHeight = 0\<rparr>)
     sample_app = (grid_add_files sample_env sample_app, None)"
  using scroll_appends_near_bottom
    [of "\<lparr>body_clientHeight = 600, doc_clientHeight = 600, body_scrollHeight = 3000,
       doc_scrollHeight = 3000, body_scrollTop = 2300, doc_scrollTop = 0\<rparr>" sample_env
      "\<lparr>iHeight = 0, iTop = 0, clientHeight = 0\<rparr>" sample_app]
  by (simp add: page_ok_def)

subsection \<open>The font size\<close>

definition zoom :: "bool \<Rightarrow> app \<Rightarrow> app" where
  "zoom up s = (if up then incFontSize s else decFontSize s)"

text \<open>
  From a size between 9 and 17 pixels no sequence of zooming leaves that range, whatever is
  stored for the next start is the size on the screen, and zooming in and out again restores the
  size unless it was already the largest.
\<close>

theorem font_size_stays:
  assumes "9 \<le> body_font s" and "body_font s \<le> 17"
  shows "9 \<le> body_font (fold zoom ups s) \<and> body_font (fold zoom ups s) \<le> 17
     \<and> (cef_fontSize s = body_font s \<longrightarrow> cef_fontSize (fold zoom ups s) = body_font (fold zoom ups s))
     \<and> (body_font s < 17 \<longrightarrow> body_font (decFontSize (incFontSize s)) = body_font s)"
proof -
  have "9 \<le> body_font (zoom b s) \<and> body_font (zoom b s) \<le> 17 \<and>
      (cef_fontSize s = body_font s \<longrightarrow> cef_fontSize (zoom b s) = body_font (zoom b s))"
    if "9 \<le> body_font s" "body_font s \<le> 17" for b s
    using that by (auto simp: zoom_def incFontSize_def decFontSize_def getFontSize_def Let_def)
  note one = this
  have "9 \<le> body_font (fold zoom ups s) \<and> body_font (fold zoom ups s) \<le> 17
     \<and> (cef_fontSize s = body_font s \<longrightarrow> cef_fontSize (fold zoom ups s) = body_font (fold zoom ups s))"
    using assms
  proof (induction ups arbitrary: s)
    case (Cons b ups)
    then show ?case using one [of s b] by auto
  qed simp
  then show ?thesis using assms
    by (simp add: incFontSize_def decFontSize_def getFontSize_def Let_def)
qed

theorem font_size_stays_witness:
  "body_font (fold zoom (replicate 20 True) sample_app) \<le> 17"
  using font_size_stays [of sample_app "replicate 20 True"] by (simp add: sample_app_def)

end
