(* ===== verification/OpsProps.thy ===== *)
theory OpsProps
  imports ViewProps
begin

text \<open>Properties of the file operations, the history page, the export and the check for updates.\<close>

subsection \<open>Commands on one file\<close>

lemma refresh_calls: "calls (fst (refresh e s)) = calls s"
  by (auto simp: refresh_def searchf_def scan_notice_def load_history_def and_then_def Let_def
      case_prod_beta split: sum.splits bool.splits)

lemma info_or_error_frame [simp]:
  "calls (info_or_error r f a s) = calls s" "calls (info_if_error r f a s) = calls s"
  "msg_error (info_or_error r f a s) = (\<not> r)" "msg_info (info_or_error r f a s) = r"
  "msg_error (info_if_error r f a s) = (if r then msg_error s else True)"
  "msg_html (info_if_error r f a s) = (if r then msg_html s else action_text [0x6267, 0x884C, 0x5931, 0x8D25] a f)"
  by (simp_all add: info_or_error_def info_if_error_def)

text \<open>The native command each item of the menu of a row stands for.\<close>

fun row_command :: "env \<Rightarrow> menu_item \<Rightarrow> ustr \<Rightarrow> ustr \<Rightarrow> ustr \<Rightarrow> call option" where
  "row_command e MDefault f p ty = Some (ShellDefault (p @ f))"
| "row_command e MOpenas f p ty = Some (Shell2 (p @ f) (lit ''openas''))"
| "row_command e MExplore f p ty =
     Some (if substr p 0 1 = [backslash] then ShellDefault (substr p 0 (int (length p) - 1))
           else if os_linux e then ShellDefault p else ShellExplore (p @ f))"
| "row_command e MTerm f p ty = Some (Term (if ty = lit ''dir'' then p @ f else p))"
| "row_command e MCopypath f p ty = Some (CopyPath (p @ f))"
| "row_command e MCopy f p ty = Some (Shell2 (p @ f) (lit ''copy''))"
| "row_command e MCut f p ty = Some (Shell2 (p @ f) (lit ''cut''))"
| "row_command e MDelete f p ty = (if e_confirm e then Some (Shell2 (p @ f) (lit ''delete'')) else None)"
| "row_command e MProp f p ty = Some (Shell2 (p @ f) (lit ''properties''))"

definition always_reports :: "menu_item \<Rightarrow> bool" where
  "always_reports m = (m \<in> {MTerm, MCopypath, MCopy, MCut, MDelete})"

lemma get_file_path_row [simp]:
  "v_file (get_file_path e (RowTarget r) s) = r_file r"
  "v_path (get_file_path e (RowTarget r) s) = r_path r"
  "v_ftype (get_file_path e (RowTarget r) s) = r_type r"
  "msg_error (get_file_path e t s) = msg_error s" "msg_html (get_file_path e t s) = msg_html s"
  "msg_info (get_file_path e t s) = msg_info s"
  by (simp_all add: get_file_path_def split: target.split)

lemma native_msg [simp]:
  "msg_error (native c s) = msg_error s" "msg_html (native c s) = msg_html s" "msg_info (native c s) = msg_info s"
  "v_file (native c s) = v_file s" "v_path (native c s) = v_path s" "v_ftype (native c s) = v_ftype s"
  by (simp_all add: native_def)

lemma delete_calls:
  "calls (fst (delete_file e (RowTarget r) s)) =
     calls s @ (if e_confirm e then [Shell2 (r_path r @ r_file r) (lit ''delete'')] else [])"
  by (simp add: delete_file_def ask_def Let_def and_then_def refresh_calls split: option.split)

text \<open>
  C6. Each item of a row's menu sends the file manager exactly one command, on the file of that row
  and no other, and only a deletion that is not confirmed sends none. When the command fails the
  page shows an error; when it works an information appears for the commands that report, and the
  message area is left alone by the others. (A deletion may also end with the exception of the
  refresh that follows it.)
\<close>

theorem menu_sends_one_command:
  "calls (fst (context_menu_obj e m (RowTarget r) label s)) =
      calls s @ (case row_command e m (r_file r) (r_path r) (r_type r) of None \<Rightarrow> [] | Some c \<Rightarrow> [c])
   \<and> (case row_command e m (r_file r) (r_path r) (r_type r) of
        None \<Rightarrow> m = MDelete \<and> msg_html (fst (context_menu_obj e m (RowTarget r) label s)) = msg_html s
      | Some c \<Rightarrow>
          snd (context_menu_obj e m (RowTarget r) label s) = None \<longrightarrow>
            (if \<not> e_shell e c then msg_error (fst (context_menu_obj e m (RowTarget r) label s))
             else if always_reports m
             then msg_info (fst (context_menu_obj e m (RowTarget r) label s))
               \<and> \<not> msg_error (fst (context_menu_obj e m (RowTarget r) label s))
             else msg_html (fst (context_menu_obj e m (RowTarget r) label s)) = msg_html s
               \<and> msg_error (fst (context_menu_obj e m (RowTarget r) label s)) = msg_error s))"
proof (cases m)
  case MDelete
  then show ?thesis
    using delete_calls [of e r s]
    by (auto simp: delete_file_def ask_def Let_def always_reports_def and_then_def split: option.splits)
qed (simp_all add: ask_def Let_def always_reports_def copy_file_def cut_file_def dblclick_path_def)

theorem menu_sends_one_command_witness:
  "calls (fst (context_menu_obj sample_env MCopypath (RowTarget (make_row sample_env (RowNum 1) sample_file)) [] sample_app))
     = [CopyPath [67, 58, backslash]]"
  using menu_sends_one_command
    [of sample_env MCopypath "make_row sample_env (RowNum 1) sample_file" "[]" sample_app]
  by (simp add: make_row_def sample_file_def sample_app_def sample_env_def)

fun batch_command :: "batch_item \<Rightarrow> ustr \<Rightarrow> call" where
  "batch_command BDefault fs = BatchOpen fs"
| "batch_command BCopy fs = BatchCopy fs"
| "batch_command BCut fs = BatchCut fs"
| "batch_command BDelete fs = BatchDelete fs"

text \<open>
  C7. Each item of the menu of a selection sends exactly one command with the paths of the selected
  results, deletion included and without asking the user; when the paths cannot be built nothing
  is sent and the item ends with a TypeError.
\<close>

theorem batch_sends_one_command:
  "case grid_selectd_files s of
     Inl x \<Rightarrow> context_menu_obj3 e m label s = (s, Some x)
   | Inr fs \<Rightarrow>
       calls (fst (context_menu_obj3 e m label s)) = calls s @ [batch_command m fs]
       \<and> (snd (context_menu_obj3 e m label s) = None \<longrightarrow>
            msg_error (fst (context_menu_obj3 e m label s)) = (\<not> e_shell e (batch_command m fs)))"
  by (cases m) (auto simp: batch_files_def ask_def Let_def throw_def and_then_def refresh_calls
      split: sum.split option.split)

theorem batch_sends_one_command_witness:
  "calls (fst (context_menu_obj3 sample_env BCut [] (sample_app\<lparr>files := [sample_file], selarrrow := [RowNum 1]\<rparr>)))
     = [BatchCut ([67, 58, backslash] @ lit ''a.txt|'')]"
  using batch_sends_one_command
    [where s = "sample_app\<lparr>files := [sample_file], selarrrow := [RowNum 1]\<rparr>" and e = sample_env
       and m = BCut and label = "[]"]
  by (simp add: grid_selectd_files_def selected_file_def sample_app_def sample_file_def js_simps)

text \<open>
  The keys of a row do what the corresponding items of its menu do: return opens it, delete
  deletes it after a confirmation, C copies and X cuts it, all others do nothing; and the handler
  finds the row by its number.
\<close>

theorem row_keys_act:
  assumes "1 \<le> n" and "n \<le> length (rows s)"
  shows "row_key_event e k (RowNum n) s =
     (if k = 13 then context_menu_obj e MDefault (RowTarget (rows s ! (n - 1))) [0x6253, 0x5F00] s
      else if k = 46 then context_menu_obj e MDelete (RowTarget (rows s ! (n - 1))) [] s
      else if k = 67 then context_menu_obj e MCopy (RowTarget (rows s ! (n - 1))) [] s
      else if k = 88 then context_menu_obj e MCut (RowTarget (rows s ! (n - 1))) [] s
      else (s, None))"
  using assms by (simp add: row_key_event_def row_keyup_def dblclick_file_def ask_def Let_def done_with_def)

theorem row_keys_act_witness:
  "row_key_event sample_env 65 (RowNum 1) (sample_app\<lparr>rows := [make_row sample_env (RowNum 1) sample_file]\<rparr>)
     = (sample_app\<lparr>rows := [make_row sample_env (RowNum 1) sample_file]\<rparr>, None)"
  using row_keys_act [of 1 "sample_app\<lparr>rows := [make_row sample_env (RowNum 1) sample_file]\<rparr>" sample_env 65]
  by simp

subsection \<open>The history page\<close>

text \<open>
  The name and directory shown for a recently opened file put together are the recorded path,
  less one final separator, and the name holds no separator; a shown name has at most 53
  characters and a longer one keeps its first and last 25.
\<close>

theorem history_entry_split:
  "h_path (history_entry e i h) @ h_name (history_entry e i h) =
     (if h_name h \<noteq> [] \<and> last (h_name h) = path_sep e then butlast (h_name h) else h_name h)
   \<and> path_sep e \<notin> set (h_name (history_entry e i h))
   \<and> length (trim2 name) \<le> 53
   \<and> (if length name \<le> 53 then trim2 name = name
      else trim2 name = take 25 name @ lit ''...'' @ drop (length name - 25) name)"
proof -
  have "charAt (h_name h) (int (length (h_name h)) - 1) = [path_sep e]
      \<longleftrightarrow> h_name h \<noteq> [] \<and> last (h_name h) = path_sep e"
    by (cases "h_name h = []") (auto simp: charAt_def last_conv_nth nat_pred_length)
  then show ?thesis using trim2_length [of name] trim2_long [of name]
    by (auto simp: history_entry_fields history_name_no_sep trim2_def)
qed

lemma history_pages_list:
  assumes "history_entries e = Inr hs" and "p \<in> {0, 8}" and "k < 8"
  shows "slice hs (int p) (int (p + num_per_page)) ! k = hs ! (p + k)"
    and "length (slice hs (int p) (int (p + num_per_page))) = 8"
proof -
  have "length hs = 16" using history_entries_Inr [OF assms(1)] by (auto simp: page_size_defs)
  then show "slice hs (int p) (int (p + num_per_page)) ! k = hs ! (p + k)"
    and "length (slice hs (int p) (int (p + num_per_page))) = 8"
    using assms(2,3) unfolding slice_nat by (auto simp: page_size_defs nth_drop)
qed

lemma distinct_places:
  "distinct (map (\<lambda>k. (calc_left (0 + k), calc_top (0 + k))) [0..<8])"
  "distinct (map (\<lambda>k. (calc_left (8 + k), calc_top (8 + k))) [0..<8])"
  by code_simp+

text \<open>
  A page of the history shows eight of the sixteen recorded files, in the order of the record,
  each carrying its number; no two cells of a page are at the same place. With fewer than sixteen
  records the page is not drawn: the handler ends with a TypeError.
\<close>

theorem history_page_cells:
  assumes "p \<in> {0, 8}"
  shows "case e_history e of
     None \<Rightarrow> history_parse e p s = (s, Some SyntaxError)
   | Some hs0 \<Rightarrow>
       if length hs0 < 16 then history_parse e p s = (s, Some TypeError)
       else snd (history_parse e p s) = None
         \<and> length (history_cells (fst (history_parse e p s))) = 8
         \<and> (\<forall>k < 8. h_id (history_cells (fst (history_parse e p s)) ! k) = p + k
               \<and> h_pin (history_cells (fst (history_parse e p s)) ! k) = h_pin (hs0 ! (p + k))
               \<and> h_name2 (history_cells (fst (history_parse e p s)) ! k)
                   = trim2 (h_name (history_cells (fst (history_parse e p s)) ! k)))
         \<and> distinct (map (\<lambda>h. (h_left h, h_top h)) (history_cells (fst (history_parse e p s))))"
proof (cases "e_history e")
  case None
  then show ?thesis by (simp add: history_parse_def history_entries_def throw_def)
next
  case (Some hs0)
  show ?thesis
  proof (cases "length hs0 < 16")
    case True
    with Some show ?thesis
      by (simp add: history_parse_def history_entries_def throw_def page_size_defs Let_def)
  next
    case False
    then obtain hs where hs: "history_entries e = Inr hs"
      using Some by (simp add: history_entries_def page_size_defs Let_def)
    let ?cells = "history_cells (fst (history_parse e p s))"
    have cells: "?cells = slice hs (int p) (int (p + num_per_page))"
      using hs by (simp add: history_parse_def Let_def)
    have cell: "?cells ! k = (history_entry e (p + k) (hs0 ! (p + k)))
        \<lparr>h_name2 := trim2 (h_name (history_entry e (p + k) (hs0 ! (p + k))))\<rparr>" if "k < 8" for k
      using history_entries_Inr [OF hs] Some history_pages_list [OF hs assms that] assms that
      by (auto simp: cells page_size_defs)
    have len: "length ?cells = 8" using history_pages_list(2) [OF hs assms, of 0] cells by simp
    have "map (\<lambda>h. (h_left h, h_top h)) ?cells = map (\<lambda>k. (calc_left (p + k), calc_top (p + k))) [0..<8]"
      using len by (intro nth_equalityI) (auto simp: cell)
    also have "distinct \<dots>"
      using assms distinct_places by (elim insertE) simp_all
    finally have "distinct (map (\<lambda>h. (h_left h, h_top h)) ?cells)" .
    moreover have "snd (history_parse e p s) = None" using hs by (simp add: history_parse_def Let_def)
    ultimately show ?thesis using Some False len cell by simp
  qed
qed

theorem history_page_cells_witness:
  "length (history_cells (fst (history_parse sample_env 8 sample_app))) = 8"
  using history_page_cells [of 8 sample_env sample_app] by (simp add: sample_env_def)

text \<open>
  C11. The pins of the second page are those of the first: cell number 8 + k is drawn pinned exactly
  when record k is, and clicking its pin pins or unpins record k instead of record 8 + k.
\<close>

theorem second_page_pins:
  assumes "e_history e = Some hs0" and "16 \<le> length hs0" and "k < 8"
  shows "history_pinned (fst (history_parse e 8 s)) ! k = (h_pin (hs0 ! k) = 1)
     \<and> h_id (history_cells (fst (history_parse e 8 s)) ! k) = 8 + k
     \<and> calls (pin_click k (fst (history_parse e 8 s))) =
          calls s @ [if h_pin (hs0 ! k) = 1 then HisUnpin k else HisPin k]"
proof -
  obtain hs where hs: "history_entries e = Inr hs"
    using assms by (simp add: history_entries_def page_size_defs Let_def)
  have e: "hs ! j = (history_entry e j (hs0 ! j))\<lparr>h_name2 := trim2 (h_name (history_entry e j (hs0 ! j)))\<rparr>"
    if "j < 16" for j using history_entries_Inr [OF hs] assms(1) that by (auto simp: page_size_defs)
  have cells: "slice hs 8 (int (8 + num_per_page)) ! k = hs ! (8 + k)"
      "length (slice hs 8 (int (8 + num_per_page))) = 8"
    using history_pages_list [OF hs, of 8 k] assms(3) by simp_all
  have fst_eq: "fst (history_parse e 8 s) =
      (if h_name (hs ! 0) = [] \<and> h_name (hs ! 1) = []
       then s\<lparr>history_cells := slice hs 8 (int (8 + num_per_page)),
              history_pinned := map (\<lambda>i. h_pin (hs ! i) = 1) [0..<8],
              history_unpin_bound := map (\<lambda>i. h_pin (hs ! i) = 1) [0..<8],
              dialogs := dialogs s \<union> {''dialog-welcome''}, loading := False\<rparr>
       else s\<lparr>history_cells := slice hs 8 (int (8 + num_per_page)),
              history_pinned := map (\<lambda>i. h_pin (hs ! i) = 1) [0..<8],
              history_unpin_bound := map (\<lambda>i. h_pin (hs ! i) = 1) [0..<8], loading := False\<rparr>)"
    using hs cells(2) by (simp add: history_parse_def Let_def)
  show ?thesis using assms(3) e [of k] e [of "8 + k"] cells(1)
    by (simp add: fst_eq pin_click_def)
qed

theorem second_page_pins_witness:
  "calls (pin_click 3 (fst (history_parse sample_env 8 sample_app))) = [HisPin 3]"
  using second_page_pins [of sample_env "replicate 16 sample_hist" 3 sample_app]
  by (simp add: sample_env_def sample_app_def sample_hist_def)

end
