(* ===== verification/ServerProps.thy ===== *)
theory ServerProps
  imports OpsProps
begin

text \<open>
  Properties of what the page sends away: the exported result list, the requests for updates and
  the counts it receives.
\<close>

subsection \<open>Export\<close>

definition export_text :: "app \<Rightarrow> ustr" where
  "export_text s = concat (map (export_line (export_type s)) (files s))"

definition one_line :: "ustr \<Rightarrow> bool" where
  "one_line t \<longleftrightarrow> 10 \<notin> set t"

definition clean_entry :: "file_entry \<Rightarrow> bool" where
  "clean_entry f \<longleftrightarrow> one_line (f_path f) \<and> one_line (f_name f) \<and> one_line (f_time f)
     \<and> f_path2 f = None \<and> f_name2 f = None \<and> (\<forall>z. f_size f = Some z \<longrightarrow> one_line z)"

lemma split_lines:
  "(\<And>f. f \<in> set fs \<Longrightarrow> 10 \<notin> set (g f)) \<Longrightarrow>
     split_char 10 (concat (map (\<lambda>f. g f @ [10]) fs)) = map g fs @ [[]]"
  by (induction fs) (auto simp: split_char_append)

text \<open>
  The exported file has one line for each result, in order, each closed by carriage return and
  line feed; a line is the full path, followed in the detailed format by the size and the time in
  columns; the results themselves do not change.
\<close>

theorem export_lines:
  assumes "\<And>f. f \<in> set (files s) \<Longrightarrow> clean_entry f"
  shows "calls (do_export s) = calls s @ [SaveFile (export_filename s) (export_text s)]
     \<and> split_char 10 (export_text s) =
         map (\<lambda>f. full_path f @ (if export_type s = lit ''1''
                then [9] @ lit '','' @ (case f_size f of None \<Rightarrow> lit ''undefined'' | Some z \<Rightarrow> z) @ [9] @ lit '','' @ f_time f
                else []) @ [13]) (files s) @ [[]]
     \<and> files (do_export s) = files s"
proof -
  let ?g = "\<lambda>f. full_path f @ (if export_type s = lit ''1''
                then [9] @ lit '','' @ (case f_size f of None \<Rightarrow> lit ''undefined'' | Some z \<Rightarrow> z) @ [9] @ lit '','' @ f_time f
                else []) @ [13]"
  have "export_text s = concat (map (\<lambda>f. ?g f @ [10]) (files s))"
    unfolding export_text_def using assms
    by (intro arg_cong [of _ _ concat] map_cong) (auto simp: export_line_def truthy_def clean_entry_def full_path_def)
  moreover have "10 \<notin> set (?g f)" if "f \<in> set (files s)" for f
    using assms [OF that] by (auto simp: clean_entry_def one_line_def full_path_def js_simps split: option.splits)
  ultimately have "split_char 10 (export_text s) = map ?g (files s) @ [[]]"
    using split_lines [of "files s" ?g] by simp
  then show ?thesis by (simp add: do_export_def export_text_def Let_def)
qed

theorem export_lines_witness:
  "split_char 10 (export_text (sample_app\<lparr>files := [sample_file, sample_file]\<rparr>))
     = [[67, 58, backslash] @ lit ''a.txt'' @ [13], [67, 58, backslash] @ lit ''a.txt'' @ [13], []]"
  using export_lines [of "sample_app\<lparr>files := [sample_file, sample_file]\<rparr>"]
  by (simp add: clean_entry_def one_line_def sample_file_def full_path_def sample_app_def js_simps)

subsection \<open>Updates\<close>

definition posts :: "call list \<Rightarrow> ustr list" where
  "posts cs = concat (map (\<lambda>c. case c of AjaxPost u b \<Rightarrow> [u] | _ \<Rightarrow> []) cs)"

lemma posts_append [simp]: "posts (cs @ ds) = posts cs @ posts ds"
  by (simp add: posts_def)

lemma upgrade_req_posts:
  "posts (calls (upgrade_req e u s)) = posts (calls s) @ [u @ lit ''/upgrades.js'']"
  "ajax_open (upgrade_req e u s) = ajax_open s @ [u]"
  by (simp_all add: upgrade_req_def Let_def posts_def)

lemma hosts_differ: "host_main \<noteq> host_backup"
  by (simp add: host_main_def host_backup_def js_simps)

text \<open>
  One check for updates asks at most two servers: the main one and, when it fails, the backup
  one; when that fails too no request is left open and none is sent. Nothing is asked when the
  check is automatic and the server process is already dealing with an update.
\<close>

theorem upgrade_asks_twice_at_most:
  assumes "ajax_open s = []"
  shows "let s1 = fst (check_upgrade e by_hand s); s2 = upgrade_error e host_main s1;
            s3 = upgrade_error e host_backup s2;
            asks = (by_hand = Some True \<or> to_number (e_upgrade_status e) = Some 0)
     in posts (calls s1) = posts (calls s) @ (if asks then [host_main @ lit ''/upgrades.js''] else [])
      \<and> ajax_open s1 = (if asks then [host_main] else [])
      \<and> (asks \<longrightarrow> posts (calls s2) = posts (calls s1) @ [host_backup @ lit ''/upgrades.js'']
            \<and> ajax_open s2 = [host_backup] \<and> calls s3 = calls s2 \<and> ajax_open s3 = [])"
proof -
  have mann: "(case by_hand of None \<Rightarrow> False | Some b \<Rightarrow> b) = (by_hand = Some True)"
    by (cases by_hand) auto
  show ?thesis
    using assms hosts_differ
    by (auto simp: check_upgrade_def upgrade_error_def show_upgrade_def mann Let_def upgrade_req_posts)
qed

theorem upgrade_asks_twice_at_most_witness:
  "let s1 = fst (check_upgrade sample_env (Some True) sample_app) in
     ajax_open (upgrade_error sample_env host_backup (upgrade_error sample_env host_main s1)) = []"
  using upgrade_asks_twice_at_most [of sample_app sample_env "Some True"]
  by (simp add: sample_app_def Let_def)



subsection \<open>Counts\<close>

lemma fold_counts:
  "fold (\<lambda>k c. case st k of None \<Rightarrow> c | Some n \<Rightarrow> c(k := int_str n)) ks c =
     (\<lambda>k. if k \<in> set ks then (case st k of None \<Rightarrow> c k | Some n \<Rightarrow> int_str n) else c k)"
  for st :: "string \<Rightarrow> int option"
  by (induction ks arbitrary: c) (auto simp: fun_eq_iff split: option.splits)

text \<open>
  The counts are asked for exactly when the text in the box is still the query that was sent and
  is not empty; a readable answer then sets each of the nineteen counters to the number it holds
  for that kind of file and leaves the counters it does not mention.
\<close>

theorem counts_follow_answer:
  "stat_search e s =
     (if changed s \<or> cur_search s = None \<or> cur_search s = Some [] then (s, None)
      else case e_stat e (the (cur_search s)) of
             None \<Rightarrow> restart_when_error e (native (Stat (the (cur_search s))) s)
           | Some st \<Rightarrow> ((native (Stat (the (cur_search s))) s)\<lparr>counts := (\<lambda>k.
               if k \<in> set stat_keys then (case st k of None \<Rightarrow> counts s k | Some n \<Rightarrow> int_str n)
               else counts s k)\<rparr>, None))"
proof -
  have set_counts: "stat_num_set st u = u\<lparr>counts := (\<lambda>k.
      if k \<in> set stat_keys then (case st k of None \<Rightarrow> counts u k | Some n \<Rightarrow> int_str n) else counts u k)\<rparr>"
    for st u
    unfolding stat_num_set_def fold_counts by (rule refl)
  have "counts (native x s) = counts s" for x by (simp add: native_def)
  note answer = set_counts [of _ "native x s" for x, unfolded this]
  show ?thesis
  proof (cases "changed s")
    case True
    then show ?thesis by (simp add: stat_search_def done_with_def)
  next
    case False
    show ?thesis
    proof (cases "cur_search s")
      case None
      with False show ?thesis by (simp add: stat_search_def done_with_def)
    next
      case (Some q)
      with False show ?thesis
        by (cases q; cases "e_stat e q") (simp_all only: stat_search_def done_with_def Let_def answer
            option.case list.case option.sel option.simps list.simps if_False if_True simp_thms)
    qed
  qed
qed

end
