(* ===== verification/DriveProps.thy ===== *)
theory DriveProps
  imports Sample
begin

text \<open>Properties of the volume lists (\<open>Drives\<close>) and of the index-status dialog (\<open>IndexStatus\<close>).\<close>

subsection \<open>Which volumes are still to be scanned\<close>

lemma fold_splice_out: "fold splice_out xs ys = fold remove1 xs ys"
  by (induction xs arbitrary: ys) simp_all

lemma todo_dirves_eq:
  assumes "e_index_status e = Some done_list" and "e_get_drives e = Some drives"
  shows "todo_dirves e = Inr (filter (\<lambda>sn. sn \<noteq> [] \<and> sn \<noteq> lit ''0'')
           (fold remove1 (map d_serialNumber done_list) (map d_serialNumber drives)))"
  using assms by (simp add: todo_dirves_def fold_splice_out)

text \<open>
  C9. The volumes still to be scanned are, as a multiset of serial numbers, the connected
  volumes minus the indexed ones, without the empty and the zero serial number; the scan counts
  as finished exactly when nothing of that multiset remains.
\<close>

theorem todo_dirves_multiset:
  assumes "e_index_status e = Some done_list" and "e_get_drives e = Some drives"
  shows "(\<exists>ret. todo_dirves e = Inr ret \<and>
            mset ret = filter_mset (\<lambda>sn. sn \<noteq> [] \<and> sn \<noteq> lit ''0'')
              (mset (map d_serialNumber drives) - mset (map d_serialNumber done_list)))
       \<and> is_scan_finished e = Inr (filter_mset (\<lambda>sn. sn \<noteq> [] \<and> sn \<noteq> lit ''0'')
              (mset (map d_serialNumber drives) - mset (map d_serialNumber done_list)) = {#})"
proof -
  let ?ret = "filter (\<lambda>sn. sn \<noteq> [] \<and> sn \<noteq> lit ''0'')
           (fold remove1 (map d_serialNumber done_list) (map d_serialNumber drives))"
  have m: "mset ?ret = filter_mset (\<lambda>sn. sn \<noteq> [] \<and> sn \<noteq> lit ''0'')
      (mset (map d_serialNumber drives) - mset (map d_serialNumber done_list))"
    by (simp add: mset_remove1_list)
  have "is_scan_finished e = Inr (mset ?ret = {#})"
    by (simp only: is_scan_finished_def todo_dirves_eq [OF assms] rbind_Inr length_0_conv mset_zero_iff)
  with m todo_dirves_eq [OF assms] show ?thesis by (metis (no_types, lifting))
qed

theorem todo_dirves_multiset_witness:
  "is_scan_finished (sample_env\<lparr>e_index_status := Some [sample_drive (lit ''2'') (lit ''ab'')],
        e_get_drives := Some [sample_drive (lit ''2'') (lit ''ab''), sample_drive (lit ''3'') (lit ''0'')]\<rparr>)
     = Inr True"
  using todo_dirves_multiset
    [of "sample_env\<lparr>e_index_status := Some [sample_drive (lit ''2'') (lit ''ab'')],
        e_get_drives := Some [sample_drive (lit ''2'') (lit ''ab''), sample_drive (lit ''3'') (lit ''0'')]\<rparr>"
      "[sample_drive (lit ''2'') (lit ''ab'')]"
      "[sample_drive (lit ''2'') (lit ''ab''), sample_drive (lit ''3'') (lit ''0'')]"]
  by (simp add: sample_env_def sample_drive_def)

subsection \<open>Removed volumes\<close>

text \<open>
  Every loaded index is either that of a connected volume or listed as an offline one, never
  both, and the cached databases that belong to no connected volume are, as a multiset of
  names, the cached names minus one name per connected volume.
\<close>

theorem offline_volumes_partition:
  assumes "e_index_status e = Some done_list" and "e_get_drives e = Some drives"
    and "e_cache_dbs e = Some dbs"
  shows "\<exists>off names. get_loaded_offline_dbs e = Inr off \<and> get_offline_dbs e = Inr names
      \<and> set off \<union> {d \<in> set done_list. contain (d_id d) drives} = set done_list
      \<and> set off \<inter> {d. contain (d_id d) drives} = {}
      \<and> mset names = mset (map db_name dbs)
            - mset (map (\<lambda>d. d_serialNumber d @ lit ''.db'') drives)"
proof -
  have "get_loaded_offline_dbs e = Inr (filter (\<lambda>d. \<not> contain (d_id d) drives) done_list)"
    using assms by (simp add: get_loaded_offline_dbs_def)
  moreover have "get_offline_dbs e =
      Inr (fold remove1 (map (\<lambda>d. d_serialNumber d @ lit ''.db'') drives) (map db_name dbs))"
    using assms fold_remove1_map [of "\<lambda>d. d_serialNumber d @ lit ''.db''" drives "map db_name dbs"]
    by (simp add: get_offline_dbs_def Let_def)
  moreover have "set (filter (\<lambda>d. \<not> contain (d_id d) drives) done_list)
        \<union> {d \<in> set done_list. contain (d_id d) drives} = set done_list"
    and "set (filter (\<lambda>d. \<not> contain (d_id d) drives) done_list) \<inter> {d. contain (d_id d) drives} = {}"
    by fastforce+
  ultimately show ?thesis
    by (intro exI [of _ "filter (\<lambda>d. \<not> contain (d_id d) drives) done_list"]
          exI [of _ "fold remove1 (map (\<lambda>d. d_serialNumber d @ lit ''.db'') drives) (map db_name dbs)"]
          conjI mset_remove1_list)
qed

theorem offline_volumes_partition_witness:
  "\<exists>off names. get_loaded_offline_dbs (sample_env\<lparr>e_index_status := Some [sample_drive (lit ''30'') (lit ''ab'')],
        e_cache_dbs := Some [\<lparr>db_name = lit ''ab.db'', db_time = lit ''7''\<rparr>]\<rparr>) = Inr off
     \<and> get_offline_dbs (sample_env\<lparr>e_index_status := Some [sample_drive (lit ''30'') (lit ''ab'')],
        e_cache_dbs := Some [\<lparr>db_name = lit ''ab.db'', db_time = lit ''7''\<rparr>]\<rparr>) = Inr names
     \<and> off \<noteq> [] \<and> mset names = {#lit ''ab.db''#}"
  using offline_volumes_partition
    [of "sample_env\<lparr>e_index_status := Some [sample_drive (lit ''30'') (lit ''ab'')],
        e_cache_dbs := Some [\<lparr>db_name = lit ''ab.db'', db_time = lit ''7''\<rparr>]\<rparr>"
      "[sample_drive (lit ''30'') (lit ''ab'')]" "[]" "[\<lparr>db_name = lit ''ab.db'', db_time = lit ''7''\<rparr>]"]
  by (auto simp: sample_env_def)

definition offline_id :: "file_entry \<Rightarrow> bool" where
  "offline_id f \<longleftrightarrow> (\<exists>n. to_number (substring (f_path f) 0 2) = Some n \<and> 26 \<le> n \<and> n < 78)"

lemma gen_offline_Inl:
  "gen_offline_dir_name f ds = Inl x \<longleftrightarrow>
     offline_id f \<and> \<not> contain (substring (f_path f) 0 2) ds \<and> x = TypeError"
  by (auto simp: gen_offline_dir_name_def Let_def offline_id_def get_drive_info_None [symmetric]
      split: option.splits if_splits)

lemma gen_offline_Inr:
  "gen_offline_dir_name f ds = Inr f' \<Longrightarrow>
     f' = f\<lparr>f_path := f_path f'\<rparr> \<and> (\<not> offline_id f \<longrightarrow> f' = f) \<and>
     (offline_id f \<longrightarrow> (\<exists>label. f_path f' = lit ''['' @ label @ lit '']'' @ drop 2 (f_path f)))"
  using substring_suffix [of "f_path f" 2]
  by (auto simp: gen_offline_dir_name_def Let_def offline_id_def split: option.splits if_splits)

text \<open>
  C12. Renaming the results of an offline search succeeds exactly when the volume of every result
  with an offline volume id is among the loaded ones; then no result is lost, only paths
  change, and the path below the volume is kept. Otherwise it ends with a TypeError.
\<close>

theorem offline_renaming:
  "(snd (gen_offline_all ds fs) = None \<longleftrightarrow>
      (\<forall>f. f \<in> set fs \<and> offline_id f \<longrightarrow> contain (substring (f_path f) 0 2) ds))
   \<and> snd (gen_offline_all ds fs) \<in> {None, Some TypeError}
   \<and> map f_name (fst (gen_offline_all ds fs)) = map f_name fs
   \<and> (snd (gen_offline_all ds fs) = None \<longrightarrow>
        list_all2 (\<lambda>f f'. if offline_id f
            then \<exists>label. f_path f' = lit ''['' @ label @ lit '']'' @ drop 2 (f_path f) else f' = f)
          fs (fst (gen_offline_all ds fs)))"
proof (induction fs)
  case (Cons f fs)
  show ?case
  proof (cases "gen_offline_dir_name f ds")
    case (Inl x)
    then show ?thesis using gen_offline_Inl [of f ds x] by auto
  next
    case (Inr f')
    have "f_name f' = f_name f" using gen_offline_Inr [OF Inr] by (metis file_entry.select_convs(1) file_entry.surjective file_entry.update_convs(2))
    moreover have "offline_id f \<longrightarrow> contain (substring (f_path f) 0 2) ds"
      using gen_offline_Inl [of f ds TypeError] Inr by auto
    ultimately show ?thesis using Cons.IH gen_offline_Inr [OF Inr] Inr
      by (auto simp: case_prod_beta Let_def)
  qed
qed simp

theorem offline_renaming_witness:
  "map f_path (fst (gen_offline_all [sample_drive (lit ''26'') (lit ''ab'')]
       [sample_file\<lparr>f_path := lit ''26/x''\<rparr>]))
     = [lit ''['' @ drive_type_name (lit ''3'') @ lit '':data]/x'']
   \<and> snd (gen_offline_all [sample_drive (lit ''26'') (lit ''ab'')] [sample_file\<lparr>f_path := lit ''26/x''\<rparr>]) = None"
proof -
  have n: "to_number (lit ''26'') = Some 26"
    by (simp add: to_number_def strip_left_def strip_right_def is_ws_def unsigned_number_def is_digit_def js_simps)
  have i: "substring (lit ''26/x'') 0 2 = lit ''26''"
    by (simp add: substring_def js_simps)
  have "snd (gen_offline_all [sample_drive (lit ''26'') (lit ''ab'')] [sample_file\<lparr>f_path := lit ''26/x''\<rparr>]) = None"
    using offline_renaming [of "[sample_drive (lit ''26'') (lit ''ab'')]" "[sample_file\<lparr>f_path := lit ''26/x''\<rparr>]"] i
    by (simp add: sample_drive_def Let_def)
  then show ?thesis
    using i n by (simp add: gen_offline_dir_name_def Let_def sample_drive_def substring_def js_simps)
qed

subsection \<open>Sizes\<close>

definition rounds_to :: "int \<Rightarrow> int \<Rightarrow> int \<Rightarrow> bool" where
  "rounds_to u q n \<longleftrightarrow> 2 * \<bar>u * q - n\<bar> \<le> u"

text \<open>
  A volume's size is printed in whole gigabytes above 9000 MB, in tenths of a gigabyte above
  900 MB and in multiples of ten megabytes below, with the free space in the unit of the total,
  and every printed number is within half a unit of the server's figure.
\<close>

theorem parse_space_rounds:
  assumes "to_number (d_totalMB d) = Some n" and "to_number (d_totalFreeMB d) = Some m"
  shows "\<exists>q p. d_totalMB (parse_space1 d) =
        (if n > 9000 then int_str q @ lit ''GB''
         else if n > 900 then tenths_str q @ lit ''GB'' else int_str (q * 10) @ lit ''MB'')
     \<and> d_totalFreeMB (parse_space1 d) =
        (if n > 9000 then int_str p @ lit ''GB''
         else if n > 900 then tenths_str p @ lit ''GB'' else int_str (p * 10) @ lit ''MB'')
     \<and> rounds_to (if n > 9000 then 1000 else if n > 900 then 100 else 10) q n
     \<and> rounds_to (if n > 9000 then 1000 else if n > 900 then 100 else 10) p m
     \<and> d_serialNumber (parse_space1 d) = d_serialNumber d"
proof -
  have r: "rounds_to u (round_div x u) x" if "0 < u" for u x
    using round_div_bounds [OF that, of x] by (simp add: rounds_to_def)
  consider "n > 9000" | "n \<le> 9000" "n > 900" | "n \<le> 900" by linarith
  then show ?thesis
  proof cases
    case 1
    then show ?thesis using assms r [of 1000 n] r [of 1000 m]
      by (intro exI [of _ "round_div n 1000"] exI [of _ "round_div m 1000"])
         (simp add: parse_space1_def num_gt_def num_str_def space_gb_def)
  next
    case 2
    then show ?thesis using assms r [of 100 n] r [of 100 m]
      by (intro exI [of _ "round_div n 100"] exI [of _ "round_div m 100"])
         (simp add: parse_space1_def num_gt_def num_str_def space_gb1_def)
  next
    case 3
    then show ?thesis using assms r [of 10 n] r [of 10 m]
      by (intro exI [of _ "round_div n 10"] exI [of _ "round_div m 10"])
         (simp add: parse_space1_def num_gt_def num_str_def space_mb_def)
  qed
qed

lemma sample_total: "to_number (lit ''9500'') = Some 9500" "to_number (lit ''420'') = Some 420"
  by (simp_all add: to_number_def strip_left_def strip_right_def is_ws_def unsigned_number_def
      is_digit_def js_simps)

theorem parse_space_rounds_witness:
  "\<exists>q. d_totalMB (parse_space1 (sample_drive (lit ''2'') (lit ''ab''))) = int_str q @ lit ''GB''
     \<and> rounds_to 1000 q 9500"
  using parse_space_rounds [of "sample_drive (lit ''2'') (lit ''ab'')" 9500 420]
  by (auto simp: sample_drive_def sample_total)

subsection \<open>The index-status dialog\<close>

lemma parse_space1_frame [simp]:
  "d_indexed (parse_space1 d) = d_indexed d" "d_id (parse_space1 d) = d_id d"
  "d_serialNumber (parse_space1 d) = d_serialNumber d"
  by (simp_all add: parse_space1_def Let_def)

lemma status_row_frame:
  "d_id (status_row done_list d) = d_id d"
  "d_indexed (status_row done_list d) =
     Some (if contain (d_id d) done_list then lit ''images/tick.png''
           else if length (d_serialNumber d) > 1 then lit ''images/spinner.gif'' else [])"
  by (simp_all add: status_row_def Let_def)

text \<open>
  When the server's three lists can be read the dialog opens with one row per connected
  volume, in the server's order, and a row carries the tick exactly when the volume is indexed;
  when one of them cannot be read the dialog ends with an exception and nothing is shown.
\<close>

theorem index_status_rows:
  "case (e_index_status e, e_get_drives e, e_cache_dbs e) of
     (Some done_list, Some drives, Some dbs) \<Rightarrow>
       snd (show_index_status e s) = None
       \<and> ''dialog-index-status'' \<in> dialogs (fst (show_index_status e s))
       \<and> map d_id (index_rows (fst (show_index_status e s))) = map d_id drives
       \<and> map d_indexed (index_rows (fst (show_index_status e s))) =
           map (\<lambda>d. Some (if contain (d_id d) done_list then lit ''images/tick.png''
              else if length (d_serialNumber d) > 1 then lit ''images/spinner.gif'' else [])) drives
   | _ \<Rightarrow> snd (show_index_status e s) = Some SyntaxError \<and> fst (show_index_status e s) = s"
proof -
  have "\<exists>out. add_time_info e objs = Inr out \<and> map d_id out = map d_id objs \<and> map d_indexed out = map d_indexed objs"
    if "e_cache_dbs e = Some dbs" for objs dbs
    using that by (auto simp: add_time_info_def Let_def o_def)
  note ati = this
  show ?thesis
  proof (cases "e_index_status e"; cases "e_get_drives e"; cases "e_cache_dbs e")
    fix done_list drives dbs
    assume r: "e_index_status e = Some done_list" "e_get_drives e = Some drives" "e_cache_dbs e = Some dbs"
    obtain off where off: "get_loaded_offline_dbs e = Inr off"
      using r by (simp add: get_loaded_offline_dbs_def)
    obtain o1 where o1: "add_time_info e (map (status_row done_list) drives) = Inr o1"
        "map d_id o1 = map d_id (map (status_row done_list) drives)"
        "map d_indexed o1 = map d_indexed (map (status_row done_list) drives)"
      using ati [OF r(3)] by blast
    obtain o2 where o2: "add_time_info e (map offline_row off) = Inr o2" using ati [OF r(3)] by blast
    show ?thesis using r off o1 o2
      by (simp add: show_index_status_def parse_space_def o_def status_row_frame)
  qed (auto simp: show_index_status_def get_loaded_offline_dbs_def add_time_info_def)
qed

end
