(* ===== verification/Uri.thy ===== *)
theory Uri
  imports JsNumber
begin

text \<open>
  \<open>encodeURIComponent\<close> and \<open>decodeURIComponent\<close> of the language, which the query strings and
  the cookies go through: a string of 16-bit code units is read as UTF-16, written as UTF-8, and
  every byte that is no letter, digit or mark is escaped. A surrogate without its partner, and
  an escape that is not the UTF-8 form of a character, are a URIError.
\<close>

subsection \<open>Encoding\<close>

definition unreserved :: "jchar \<Rightarrow> bool" where
  "unreserved c \<longleftrightarrow> (48 \<le> c \<and> c \<le> 57) \<or> (65 \<le> c \<and> c \<le> 90) \<or> (97 \<le> c \<and> c \<le> 122)
     \<or> c \<in> {45, 95, 46, 33, 126, 42, 39, 40, 41}"

definition hex_upper :: "nat \<Rightarrow> jchar" where
  "hex_upper d = (if d < 10 then 48 + d else 55 + d)"

definition percent_byte :: "nat \<Rightarrow> ustr" where
  "percent_byte b = [37, hex_upper (b div 16), hex_upper (b mod 16)]"

definition utf8 :: "nat \<Rightarrow> nat list" where
  "utf8 cp =
     (if cp < 0x80 then [cp]
      else if cp < 0x800 then [0xC0 + cp div 64, 0x80 + cp mod 64]
      else if cp < 0x10000 then [0xE0 + cp div 4096, 0x80 + cp div 64 mod 64, 0x80 + cp mod 64]
      else [0xF0 + cp div 262144, 0x80 + cp div 4096 mod 64, 0x80 + cp div 64 mod 64, 0x80 + cp mod 64])"

definition percent_char :: "nat \<Rightarrow> ustr" where
  "percent_char cp = concat (map percent_byte (utf8 cp))"

definition high_surrogate :: "jchar \<Rightarrow> bool" where
  "high_surrogate c \<longleftrightarrow> 0xD800 \<le> c \<and> c < 0xDC00"

definition low_surrogate :: "jchar \<Rightarrow> bool" where
  "low_surrogate c \<longleftrightarrow> 0xDC00 \<le> c \<and> c < 0xE000"

definition pair_point :: "jchar \<Rightarrow> jchar \<Rightarrow> nat" where
  "pair_point c d = (c - 0xD800) * 1024 + (d - 0xDC00) + 0x10000"

fun encodeURIComponent :: "ustr \<Rightarrow> ustr res" where
  "encodeURIComponent [] = Inr []"
| "encodeURIComponent (c # cs) =
     (if unreserved c then rbind (encodeURIComponent cs) (\<lambda>r. Inr (c # r))
      else if low_surrogate c then Inl URIError
      else if high_surrogate c then
        (case cs of
           [] \<Rightarrow> Inl URIError
         | d # ds \<Rightarrow>
             if low_surrogate d
             then rbind (encodeURIComponent ds) (\<lambda>r. Inr (percent_char (pair_point c d) @ r))
             else Inl URIError)
      else rbind (encodeURIComponent cs) (\<lambda>r. Inr (percent_char c @ r)))"

subsection \<open>Decoding\<close>

definition hex_value :: "jchar \<Rightarrow> nat option" where
  "hex_value c =
     (if 48 \<le> c \<and> c \<le> 57 then Some (c - 48)
      else if 65 \<le> c \<and> c \<le> 70 then Some (c - 55)
      else if 97 \<le> c \<and> c \<le> 102 then Some (c - 87) else None)"

fun read_byte :: "ustr \<Rightarrow> (nat \<times> ustr) option" where
  "read_byte (p # a # b # r) =
     (if p \<noteq> 37 then None
      else case hex_value a of None \<Rightarrow> None
         | Some h \<Rightarrow> (case hex_value b of None \<Rightarrow> None | Some l \<Rightarrow> Some (16 * h + l, r)))"
| "read_byte s = None"

definition read_cont :: "ustr \<Rightarrow> (nat \<times> ustr) option" where
  "read_cont s =
     (case read_byte s of None \<Rightarrow> None
      | Some (b, r) \<Rightarrow> if 0x80 \<le> b \<and> b < 0xC0 then Some (b - 0x80, r) else None)"

definition read_char :: "ustr \<Rightarrow> (nat \<times> ustr) option" where
  "read_char s =
     (case read_byte s of None \<Rightarrow> None
      | Some (b, r) \<Rightarrow>
          if b < 0x80 then Some (b, r)
          else if 0xC0 \<le> b \<and> b < 0xE0 then
            (case read_cont r of None \<Rightarrow> None
             | Some (b1, r1) \<Rightarrow>
                 let cp = (b - 0xC0) * 64 + b1 in if 0x80 \<le> cp then Some (cp, r1) else None)
          else if 0xE0 \<le> b \<and> b < 0xF0 then
            (case read_cont r of None \<Rightarrow> None
             | Some (b1, r1) \<Rightarrow>
                 (case read_cont r1 of None \<Rightarrow> None
                  | Some (b2, r2) \<Rightarrow>
                      let cp = (b - 0xE0) * 4096 + b1 * 64 + b2 in
                      if 0x800 \<le> cp \<and> \<not> (0xD800 \<le> cp \<and> cp < 0xE000) then Some (cp, r2) else None))
          else if 0xF0 \<le> b \<and> b < 0xF8 then
            (case read_cont r of None \<Rightarrow> None
             | Some (b1, r1) \<Rightarrow>
                 (case read_cont r1 of None \<Rightarrow> None
                  | Some (b2, r2) \<Rightarrow>
                      (case read_cont r2 of None \<Rightarrow> None
                       | Some (b3, r3) \<Rightarrow>
                           let cp = (b - 0xF0) * 262144 + b1 * 4096 + b2 * 64 + b3 in
                           if 0x10000 \<le> cp \<and> cp < 0x110000 then Some (cp, r3) else None)))
          else None)"

definition units :: "nat \<Rightarrow> ustr" where
  "units cp =
     (if cp < 0x10000 then [cp] else [0xD800 + (cp - 0x10000) div 1024, 0xDC00 + (cp - 0x10000) mod 1024])"

lemma read_byte_shorter: "read_byte s = Some (b, r) \<Longrightarrow> length r < length s"
  by (induction s rule: read_byte.induct) (auto split: if_splits option.splits)

lemma read_cont_shorter: "read_cont s = Some (b, r) \<Longrightarrow> length r < length s"
  by (auto simp: read_cont_def read_byte_shorter split: option.splits if_splits)

lemma read_char_shorter: "read_char s = Some (cp, r) \<Longrightarrow> length r < length s"
  by (auto simp: read_char_def Let_def split: option.splits if_splits
      dest!: read_byte_shorter read_cont_shorter)

function decodeURIComponent :: "ustr \<Rightarrow> ustr res" where
  "decodeURIComponent s =
     (case s of
        [] \<Rightarrow> Inr []
      | c # cs \<Rightarrow>
          if c \<noteq> 37 then rbind (decodeURIComponent cs) (\<lambda>t. Inr (c # t))
          else (case read_char s of
                  None \<Rightarrow> Inl URIError
                | Some (cp, r) \<Rightarrow> rbind (decodeURIComponent r) (\<lambda>t. Inr (units cp @ t))))"
  by pat_completeness auto
termination
  by (relation "measure length") (auto dest: read_char_shorter)

declare decodeURIComponent.simps [simp del]

subsection \<open>Round trip\<close>

lemma hex_value_upper [simp]: "d < 16 \<Longrightarrow> hex_value (hex_upper d) = Some d"
  by (auto simp: hex_value_def hex_upper_def)

lemma read_percent_byte [simp]: "b < 256 \<Longrightarrow> read_byte (percent_byte b @ r) = Some (b, r)"
  by (simp add: percent_byte_def less_mult_imp_div_less)

lemma read_percent_cont [simp]: "v < 64 \<Longrightarrow> read_cont (percent_byte (0x80 + v) @ r) = Some (v, r)"
  by (simp add: read_cont_def)

lemma join_digits2: "cp div 64 * 64 + cp mod 64 = (cp :: nat)"
  by simp

lemma join_digits3: "cp div 4096 * 4096 + cp div 64 mod 64 * 64 + cp mod 64 = (cp :: nat)"
proof -
  have d: "cp div 4096 = cp div 64 div 64" by (simp add: div_mult2_eq [symmetric])
  have "cp div 64 div 64 * 64 + cp div 64 mod 64 = cp div 64" by (rule div_mult_mod_eq)
  moreover have "cp div 64 * 64 + cp mod 64 = cp" by (rule div_mult_mod_eq)
  ultimately show ?thesis unfolding d by linarith
qed

lemma join_digits4:
  "cp div 262144 * 262144 + cp div 4096 mod 64 * 4096 + cp div 64 mod 64 * 64 + cp mod 64 = (cp :: nat)"
proof -
  have d: "cp div 262144 = cp div 4096 div 64" by (simp add: div_mult2_eq [symmetric])
  have "cp div 4096 div 64 * 64 + cp div 4096 mod 64 = cp div 4096" by (rule div_mult_mod_eq)
  with join_digits3 [of cp] show ?thesis unfolding d by linarith
qed

lemma read_percent_char:
  assumes "cp < 0x110000" and "\<not> (0xD800 \<le> cp \<and> cp < 0xE000)"
  shows "read_char (percent_char cp @ r) = Some (cp, r)"
proof -
  consider "cp < 0x80" | "0x80 \<le> cp" "cp < 0x800" | "0x800 \<le> cp" "cp < 0x10000" | "0x10000 \<le> cp"
    by linarith
  then show ?thesis
  proof cases
    case 1
    then show ?thesis by (simp add: percent_char_def utf8_def read_char_def)
  next
    case 2
    then have "cp div 64 < 32" by (simp add: less_mult_imp_div_less)
    with 2 show ?thesis
      by (simp add: percent_char_def utf8_def read_char_def Let_def)
  next
    case 3
    then have "cp div 4096 < 16" by (simp add: less_mult_imp_div_less)
    with 3 assms(2) show ?thesis
      using join_digits3 [of cp] by (simp add: percent_char_def utf8_def read_char_def Let_def)
  next
    case 4
    then have "cp div 262144 < 8" using assms(1) by (simp add: less_mult_imp_div_less)
    with 4 assms(1) show ?thesis
      using join_digits4 [of cp] by (simp add: percent_char_def utf8_def read_char_def Let_def)
  qed
qed

lemma units_pair:
  assumes "high_surrogate c" and "low_surrogate d"
  shows "units (pair_point c d) = [c, d]" and "0x10000 \<le> pair_point c d" and "pair_point c d < 0x110000"
proof -
  let ?k = "(c - 0xD800) * 1024 + (d - 0xDC00)"
  have d: "d - 0xDC00 < 1024" "0xD800 \<le> c" "c - 0xD800 < 1024" "0xDC00 \<le> d"
    using assms by (auto simp: high_surrogate_def low_surrogate_def)
  have "?k div 1024 = c - 0xD800" and "?k mod 1024 = d - 0xDC00"
    using d(1) by simp_all
  then show "units (pair_point c d) = [c, d]" using d by (simp add: units_def pair_point_def)
  show "0x10000 \<le> pair_point c d" by (simp add: pair_point_def)
  show "pair_point c d < 0x110000" using d by (simp add: pair_point_def)
qed

lemma percent_char_head: "percent_char cp = 37 # tl (percent_char cp)"
  by (simp add: percent_char_def utf8_def percent_byte_def)

lemma decode_percent_char:
  assumes "cp < 0x110000" and "\<not> (0xD800 \<le> cp \<and> cp < 0xE000)"
  shows "decodeURIComponent (percent_char cp @ r) = rbind (decodeURIComponent r) (\<lambda>t. Inr (units cp @ t))"
proof -
  obtain w where w: "percent_char cp = 37 # w" using percent_char_head by blast
  show ?thesis
    using read_percent_char [OF assms, of r] unfolding w by (subst decodeURIComponent.simps) simp
qed

lemma decode_encode_append:
  "encodeURIComponent s = Inr t \<Longrightarrow> (\<And>c. c \<in> set s \<Longrightarrow> c < 0x10000)
   \<Longrightarrow> decodeURIComponent (t @ u) = rbind (decodeURIComponent u) (\<lambda>v. Inr (s @ v))"
proof (induction s arbitrary: t rule: encodeURIComponent.induct)
  case 1
  then show ?case by (cases "decodeURIComponent u") simp_all
next
  case (2 c cs)
  show ?case
  proof (cases "unreserved c")
    case True
    then have "c \<noteq> 37" by (auto simp: unreserved_def)
    obtain r where r: "encodeURIComponent cs = Inr r" "t = c # r" using 2(4) True by (auto simp: res_iff)
    have "decodeURIComponent (r @ u) = rbind (decodeURIComponent u) (\<lambda>v. Inr (cs @ v))"
      using 2(1) [OF True r(1)] 2(5) by simp
    then show ?thesis using \<open>c \<noteq> 37\<close> r(2)
      by (subst decodeURIComponent.simps) (cases "decodeURIComponent u"; simp)
  next
    case nu: False
    show ?thesis
    proof (cases "high_surrogate c")
      case True
      then have nl: "\<not> low_surrogate c" by (simp add: high_surrogate_def low_surrogate_def)
      then obtain d ds r where d: "cs = d # ds" "low_surrogate d" "encodeURIComponent ds = Inr r"
          "t = percent_char (pair_point c d) @ r"
        using 2(4) nu True by (auto simp: res_iff split: list.splits if_splits)
      have "decodeURIComponent (r @ u) = rbind (decodeURIComponent u) (\<lambda>v. Inr (ds @ v))" using 2(2) [OF nu nl True d(1,2,3)] 2(5) d(1) by simp
      then show ?thesis
        using units_pair [OF True d(2)] d by (cases "decodeURIComponent u") (simp_all add: decode_percent_char)
    next
      case False
      then have nl: "\<not> low_surrogate c" using 2(4) nu by (auto split: if_splits)
      then obtain r where r: "encodeURIComponent cs = Inr r" "t = percent_char c @ r"
        using 2(4) nu False by (auto simp: res_iff)
      have c: "c < 0x10000" using 2(5) [of c] by simp
      then have "\<not> (0xD800 \<le> c \<and> c < 0xE000)" "c < 0x110000"
        using nl False by (auto simp: high_surrogate_def low_surrogate_def)
      moreover have "decodeURIComponent (r @ u) = rbind (decodeURIComponent u) (\<lambda>v. Inr (cs @ v))" using 2(3) [OF nu nl False r(1)] 2(5) by simp
      ultimately show ?thesis using r c
        by (cases "decodeURIComponent u") (simp_all add: decode_percent_char units_def)
    qed
  qed
qed

lemma decode_encode:
  "encodeURIComponent s = Inr t \<Longrightarrow> (\<And>c. c \<in> set s \<Longrightarrow> c < 0x10000) \<Longrightarrow> decodeURIComponent t = Inr s"
  using decode_encode_append [of s t "[]"] by (simp add: decodeURIComponent.simps [of "[]"])

text \<open>What an encoded string is made of.\<close>

definition uri_char :: "jchar \<Rightarrow> bool" where
  "uri_char c \<longleftrightarrow> unreserved c \<or> c = 37"

lemma percent_byte_chars: "b < 256 \<Longrightarrow> c \<in> set (percent_byte b) \<Longrightarrow> uri_char c"
proof -
  assume b: "b < 256" and c: "c \<in> set (percent_byte b)"
  have "unreserved (hex_upper d)" if "d < 16" for d
    using that by (auto simp: unreserved_def hex_upper_def)
  moreover have "b div 16 < 16" "b mod 16 < 16" using b by (simp_all add: less_mult_imp_div_less)
  ultimately show ?thesis using c by (auto simp: percent_byte_def uri_char_def)
qed

lemma utf8_bytes: "cp < 0x110000 \<Longrightarrow> b \<in> set (utf8 cp) \<Longrightarrow> b < 256"
proof -
  assume cp: "cp < 0x110000" and b: "b \<in> set (utf8 cp)"
  have "cp < 0x800 \<Longrightarrow> cp div 64 < 32" "cp < 0x10000 \<Longrightarrow> cp div 4096 < 16" "cp div 262144 < 8"
    using cp by (simp_all add: less_mult_imp_div_less)
  moreover have "x mod 64 < 64" for x :: nat by simp
  ultimately show ?thesis using b by (auto simp: utf8_def add_less_mono split: if_splits)
qed

lemma percent_char_chars: "cp < 0x110000 \<Longrightarrow> c \<in> set (percent_char cp) \<Longrightarrow> uri_char c"
  by (auto simp: percent_char_def dest: utf8_bytes percent_byte_chars)

lemma encode_chars:
  "encodeURIComponent s = Inr t \<Longrightarrow> (\<And>c. c \<in> set s \<Longrightarrow> c < 0x10000) \<Longrightarrow> list_all uri_char t"
proof (induction s arbitrary: t rule: encodeURIComponent.induct)
  case (2 x cs)
  have pc: "list_all uri_char (percent_char cp)" if "cp < 0x110000" for cp
    using that by (auto simp: list_all_iff dest: percent_char_chars)
  consider "unreserved x" | "\<not> unreserved x" "\<not> low_surrogate x" "\<not> high_surrogate x"
    | d ds where "\<not> unreserved x" "\<not> low_surrogate x" "high_surrogate x" "cs = d # ds" "low_surrogate d"
    using 2(4) by (auto split: if_splits list.splits)
  then show ?case
  proof cases
    case 1
    with 2(1) 2(4,5) show ?thesis by (auto simp: res_iff uri_char_def)
  next
    case 2
    moreover have "x < 0x110000" using "2.prems"(2) [of x] by simp
    ultimately show ?thesis using "2.IH"(3) "2.prems" pc [of x] by (auto simp: res_iff)
  next
    case 3
    then show ?thesis using "2.IH"(2) [OF 3] "2.prems" pc [OF units_pair(3) [OF 3(3,5)]]
      by (auto simp: res_iff)
  qed
qed simp

end
