(* ===== verification/JsValue.thy ===== *)
theory JsValue
  imports Uri
begin

text \<open>
  The values the Prototype library (\<open>gserver/public/javascripts/prototype.js\<close>) works on, its
  \<open>Object\<close> functions, and the two textual forms of a value: \<open>inspect\<close> and \<open>toJSON\<close>.
  A number is an integer or one of the texts \<open>NaN\<close>, \<open>Infinity\<close>, \<open>-Infinity\<close>; a function
  is its source text; an object is the list of its own properties in the order of insertion, the
  order in which the engines enumerate names that are no array indices. DOM elements are left out.
\<close>

datatype val =
    Undefined
  | Null
  | VBool bool
  | VNum int
  | VNonFinite ustr
  | VStr ustr
  | VArr "val list"
  | VObj "(ustr \<times> val) list"
  | VHash "(ustr \<times> val) list"
  | VFun ustr

type_synonym props = "(ustr \<times> val) list"

subsection \<open>Properties of an object\<close>

fun put :: "ustr \<Rightarrow> 'v \<Rightarrow> (ustr \<times> 'v) list \<Rightarrow> (ustr \<times> 'v) list" where
  "put k v [] = [(k, v)]"
| "put k v ((k', v') # ps) = (if k = k' then (k, v) # ps else (k', v') # put k v ps)"

definition del :: "ustr \<Rightarrow> (ustr \<times> 'v) list \<Rightarrow> (ustr \<times> 'v) list" where
  "del k ps = filter (\<lambda>p. fst p \<noteq> k) ps"

definition object_extend :: "(ustr \<times> 'v) list \<Rightarrow> (ustr \<times> 'v) list \<Rightarrow> (ustr \<times> 'v) list" where
  "object_extend destination source = fold (\<lambda>(k, v) d. put k v d) source destination"

definition object_keys :: "(ustr \<times> 'v) list \<Rightarrow> ustr list" where
  "object_keys ps = fold (\<lambda>(k, v) ks. ks @ [k]) ps []"

definition object_values :: "(ustr \<times> 'v) list \<Rightarrow> 'v list" where
  "object_values ps = fold (\<lambda>(k, v) vs. vs @ [v]) ps []"

definition object_clone :: "(ustr \<times> 'v) list \<Rightarrow> (ustr \<times> 'v) list" where
  "object_clone ps = object_extend [] ps"

definition wf_props :: "(ustr \<times> 'v) list \<Rightarrow> bool" where
  "wf_props ps \<longleftrightarrow> distinct (map fst ps)"

definition isArray :: "val \<Rightarrow> bool" where
  "isArray v = (case v of VArr _ \<Rightarrow> True | _ \<Rightarrow> False)"

definition isHash :: "val \<Rightarrow> bool" where
  "isHash v = (case v of VHash _ \<Rightarrow> True | _ \<Rightarrow> False)"

definition isFunction :: "val \<Rightarrow> bool" where
  "isFunction v = (case v of VFun _ \<Rightarrow> True | _ \<Rightarrow> False)"

definition isString :: "val \<Rightarrow> bool" where
  "isString v = (case v of VStr _ \<Rightarrow> True | _ \<Rightarrow> False)"

definition isNumber :: "val \<Rightarrow> bool" where
  "isNumber v = (case v of VNum _ \<Rightarrow> True | VNonFinite _ \<Rightarrow> True | _ \<Rightarrow> False)"

definition isUndefined :: "val \<Rightarrow> bool" where
  "isUndefined v = (case v of Undefined \<Rightarrow> True | _ \<Rightarrow> False)"

lemma map_of_put [simp]: "map_of (put k v ps) = (map_of ps)(k \<mapsto> v)"
  by (induction ps) (auto simp: fun_eq_iff)

lemma map_fst_put:
  "map fst (put k v ps) = (if k \<in> set (map fst ps) then map fst ps else map fst ps @ [k])"
proof (induction ps)
  case (Cons p ps)
  then show ?case by (cases p) simp
qed simp

lemma fst_put: "fst ` set (put k v ps) = insert k (fst ` set ps)"
  using arg_cong [OF map_fst_put [of k v ps], of set] by (auto split: if_splits)

lemma wf_put: "wf_props ps \<Longrightarrow> wf_props (put k v ps)"
  by (simp add: wf_props_def map_fst_put)

lemma put_new: "k \<notin> fst ` set ps \<Longrightarrow> put k v ps = ps @ [(k, v)]"
  by (induction ps) auto

lemma map_of_del [simp]: "map_of (del k ps) = (map_of ps)(k := None)"
  unfolding del_def by (induction ps) (auto simp: fun_eq_iff)

lemma wf_del: "wf_props ps \<Longrightarrow> wf_props (del k ps)"
  by (simp add: wf_props_def del_def distinct_map_filter)

lemma extend_map_of: "wf_props s \<Longrightarrow> map_of (object_extend d s) = map_of d ++ map_of s"
  unfolding object_extend_def
proof (induction s arbitrary: d)
  case (Cons p s)
  obtain k v where p: "p = (k, v)" by (cases p)
  from Cons.prems have k: "map_of s k = None" and w: "wf_props s"
    by (auto simp: p wf_props_def map_of_eq_None_iff)
  have "map_of (fold (\<lambda>(k, v) d. put k v d) s (put k v d)) = (map_of d)(k \<mapsto> v) ++ map_of s"
    using Cons.IH [OF w, of "put k v d"] by (simp only: map_of_put)
  also have "\<dots> = map_of d ++ (map_of s)(k \<mapsto> v)"
    using k by (intro ext) (simp add: map_add_def split: option.split)
  finally show ?case by (simp only: p fold_simps prod.case o_apply map_of.simps fst_conv snd_conv)
qed (simp add: map_add_def)

lemma wf_extend: "wf_props d \<Longrightarrow> wf_props (object_extend d s)"
  unfolding object_extend_def by (induction s arbitrary: d) (auto simp: wf_put)

lemma extend_new: "wf_props (d @ s) \<Longrightarrow> object_extend d s = d @ s"
  unfolding object_extend_def
proof (induction s arbitrary: d)
  case (Cons p s)
  then obtain k v where p: "p = (k, v)" by (cases p)
  with Cons.prems have "k \<notin> fst ` set d" by (auto simp: wf_props_def)
  with Cons.IH [of "d @ [(k, v)]"] Cons.prems show ?case by (simp add: p put_new)
qed simp

lemma object_clone_id: "wf_props ps \<Longrightarrow> object_clone ps = ps"
  using extend_new [of "[]" ps] by (simp add: object_clone_def)

lemma object_keys_eq: "object_keys ps = map fst ps"
proof -
  have "fold (\<lambda>(k, v) ks. ks @ [k]) ps acc = acc @ map fst ps" for acc
    by (induction ps arbitrary: acc) auto
  then show ?thesis by (simp add: object_keys_def)
qed

lemma object_values_eq: "object_values ps = map snd ps"
proof -
  have "fold (\<lambda>(k, v) vs. vs @ [v]) ps acc = acc @ map snd ps" for acc
    by (induction ps arbitrary: acc) auto
  then show ?thesis by (simp add: object_values_def)
qed

subsection \<open>Padding\<close>

text \<open>\<open>'0'.times(n)\<close> joins an array of \<open>n + 1\<close> holes with the string.\<close>

definition times :: "int \<Rightarrow> ustr \<Rightarrow> ustr" where
  "times n s = (if n < 1 then [] else join s (replicate (nat n + 1) []))"

definition toPaddedString :: "int \<Rightarrow> nat \<Rightarrow> nat \<Rightarrow> ustr" where
  "toPaddedString len radix n =
     (let str = radix_str radix n in times (len - int (length str)) [48] @ str)"

lemma join_replicate_Nil: "join s (replicate (Suc n) []) = concat (replicate n s)"
  by (induction n) auto

lemma times_eq: "times n s = concat (replicate (nat n) s)"
  by (simp add: times_def join_replicate_Nil del: replicate.simps)

lemma length_concat_replicate [simp]: "length (concat (replicate n s)) = n * length s"
  by (induction n) auto

text \<open>A padded number has at least the given length.\<close>

lemma length_toPaddedString:
  "length (toPaddedString len radix n) = max (nat len) (length (radix_str radix n))"
proof -
  have "nat (len - int m) + m = max (nat len) m" for m by arith
  then show ?thesis by (simp add: toPaddedString_def times_eq Let_def)
qed

subsection \<open>The quoted form of a string\<close>

fun special_char :: "jchar \<Rightarrow> ustr option" where
  "special_char c =
     (if c = 8 then Some [backslash, 98] else if c = 9 then Some [backslash, 116]
      else if c = 10 then Some [backslash, 110] else if c = 12 then Some [backslash, 102]
      else if c = 13 then Some [backslash, 114] else if c = backslash then Some [backslash, backslash]
      else None)"

definition inspect_char :: "jchar \<Rightarrow> ustr" where
  "inspect_char c =
     (if c < 32 \<or> c = backslash then
        (case special_char c of
           Some t \<Rightarrow> t
         | None \<Rightarrow> [backslash, 117, 48, 48] @ toPaddedString 2 16 c)
      else [c])"

definition inspect_string :: "bool \<Rightarrow> ustr \<Rightarrow> ustr" where
  "inspect_string useDoubleQuotes s =
     (let escapedString = concat (map inspect_char s) in
      if useDoubleQuotes then [quote] @ replace_char quote [backslash, quote] escapedString @ [quote]
      else [39] @ replace_char 39 [backslash, 39] escapedString @ [39])"

definition string_toJSON :: "ustr \<Rightarrow> ustr" where
  "string_toJSON s = inspect_string True s"

subsection \<open>The text of a value\<close>

text \<open>\<open>String(value)\<close>.\<close>

fun to_string :: "val \<Rightarrow> ustr" where
  "to_string Undefined = lit ''undefined''"
| "to_string Null = lit ''null''"
| "to_string (VBool b) = (if b then lit ''true'' else lit ''false'')"
| "to_string (VNum n) = int_str n"
| "to_string (VNonFinite t) = t"
| "to_string (VStr s) = s"
| "to_string (VArr vs) =
     join [44] (map (\<lambda>v. case v of Undefined \<Rightarrow> [] | Null \<Rightarrow> [] | _ \<Rightarrow> to_string v) vs)"
| "to_string (VObj ps) = lit ''[object Object]''"
| "to_string (VHash ps) = lit ''[object Object]''"
| "to_string (VFun t) = t"

definition interpret_val :: "val \<Rightarrow> ustr" where
  "interpret_val v = (case v of Undefined \<Rightarrow> [] | Null \<Rightarrow> [] | _ \<Rightarrow> to_string v)"

fun inspect_val :: "val \<Rightarrow> ustr" where
  "inspect_val (VStr s) = inspect_string False s"
| "inspect_val (VArr vs) = [91] @ join (lit '', '') (map inspect_val vs) @ [93]"
| "inspect_val (VHash ps) =
     lit ''#<Hash:{'' @ join (lit '', '') (map (\<lambda>p. join (lit '': '') [inspect_string False (fst p), inspect_val (snd p)]) ps)
       @ lit ''}>''"
| "inspect_val v = to_string v"

fun toJSON :: "val \<Rightarrow> ustr option" where
  "toJSON Undefined = None"
| "toJSON (VFun t) = None"
| "toJSON Null = Some (lit ''null'')"
| "toJSON (VBool b) = Some (if b then lit ''true'' else lit ''false'')"
| "toJSON (VNum n) = Some (int_str n)"
| "toJSON (VNonFinite t) = Some (lit ''null'')"
| "toJSON (VStr s) = Some (string_toJSON s)"
| "toJSON (VArr vs) =
     Some ([91] @ join (lit '', '') (concat (map (\<lambda>v. case toJSON v of None \<Rightarrow> [] | Some t \<Rightarrow> [t]) vs)) @ [93])"
| "toJSON (VObj ps) =
     Some ([123] @ join (lit '', '')
       (concat (map (\<lambda>p. case toJSON (snd p) of None \<Rightarrow> [] | Some t \<Rightarrow> [string_toJSON (fst p) @ lit '': '' @ t]) ps)) @ [125])"
| "toJSON (VHash ps) =
     Some ([123] @ join (lit '', '')
       (concat (map (\<lambda>p. case toJSON (snd p) of None \<Rightarrow> [] | Some t \<Rightarrow> [string_toJSON (fst p) @ lit '': '' @ t]) ps)) @ [125])"

subsection \<open>Reading a quoted string back\<close>

text \<open>
  The language's reading of the text after the opening quote: escapes are undone up to the closing
  quote; a line end inside the quotes, or an escape the language does not know in this form, is
  an error. The result is the string and the text after the closing quote.
\<close>

fun read_quoted :: "jchar \<Rightarrow> ustr \<Rightarrow> (ustr \<times> ustr) option" where
  "read_quoted q [] = None"
| "read_quoted q [c] = (if c = q then Some ([], []) else None)"
| "read_quoted q (c # d # s) =
     (if c = q then Some ([], d # s)
      else if c = 10 \<or> c = 13 then None
      else if c \<noteq> backslash then map_option (\<lambda>(t, r). (c # t, r)) (read_quoted q (d # s))
      else if d = 98 then map_option (\<lambda>(t, r). (8 # t, r)) (read_quoted q s)
      else if d = 116 then map_option (\<lambda>(t, r). (9 # t, r)) (read_quoted q s)
      else if d = 110 then map_option (\<lambda>(t, r). (10 # t, r)) (read_quoted q s)
      else if d = 102 then map_option (\<lambda>(t, r). (12 # t, r)) (read_quoted q s)
      else if d = 114 then map_option (\<lambda>(t, r). (13 # t, r)) (read_quoted q s)
      else if d = 117 then
        (case s of
           a # b # e # f # r0 \<Rightarrow>
             (case (hex_value a, hex_value b, hex_value e, hex_value f) of
                (Some va, Some vb, Some ve, Some vf) \<Rightarrow>
                  map_option (\<lambda>(t, r). ((va * 4096 + vb * 256 + ve * 16 + vf) # t, r)) (read_quoted q r0)
              | _ \<Rightarrow> None)
         | _ \<Rightarrow> None)
      else if d = 10 \<or> d = 13 \<or> d = 118 \<or> d = 120 \<or> (48 \<le> d \<and> d \<le> 57) then None
      else map_option (\<lambda>(t, r). (d # t, r)) (read_quoted q s))"

lemma hex_value_digit: "d < 16 \<Longrightarrow> hex_value (digit_char d) = Some d"
  by (auto simp: hex_value_def digit_char_def)

lemma padded_hex:
  assumes "c < 32"
  shows "\<exists>a b. toPaddedString 2 16 c = [a, b] \<and> hex_value a = Some (c div 16) \<and> hex_value b = Some (c mod 16)"
proof (cases "c < 16")
  case True
  then have "radix_str 16 c = [digit_char c]" by (subst radix_str.simps) simp
  then have "toPaddedString 2 16 c = [48, digit_char c]"
    by (simp add: toPaddedString_def times_eq)
  moreover have "hex_value 48 = Some 0" by (simp add: hex_value_def)
  ultimately show ?thesis using True by (simp add: hex_value_digit)
next
  case False
  have "c div 16 < 16" using assms by simp
  then have "radix_str 16 (c div 16) = [digit_char (c div 16)]" by (subst radix_str.simps) simp
  with False have "radix_str 16 c = [digit_char (c div 16), digit_char (c mod 16)]"
    by (subst radix_str.simps) simp
  then have "toPaddedString 2 16 c = [digit_char (c div 16), digit_char (c mod 16)]"
    by (simp add: toPaddedString_def times_eq)
  then show ?thesis using \<open>c div 16 < 16\<close> by (simp add: hex_value_digit)
qed

definition quoted_char :: "jchar \<Rightarrow> jchar \<Rightarrow> ustr" where
  "quoted_char q c = (if c = q then [backslash, q] else inspect_char c)"

lemma replace_in_inspect:
  assumes "q \<in> {39, 34}"
  shows "replace_char q [backslash, q] (inspect_char c) = quoted_char q c"
proof (cases "c < 32 \<or> c = backslash")
  case True
  have "q \<notin> set (inspect_char c)"
  proof (cases "special_char c")
    case None
    then have "c < 32" using True by auto
    then obtain a b where ab: "toPaddedString 2 16 c = [a, b]" "hex_value a = Some (c div 16)" "hex_value b = Some (c mod 16)"
      using padded_hex by blast
    then have "48 \<le> a" "48 \<le> b" by (auto simp: hex_value_def split: if_splits)
    with ab True None assms show ?thesis by (auto simp: inspect_char_def)
  next
    case (Some t)
    then show ?thesis using True assms by (auto simp: inspect_char_def split: if_splits)
  qed
  moreover have "c \<noteq> q" using True assms by auto
  ultimately show ?thesis by (simp add: replace_char_absent quoted_char_def)
next
  case False
  then show ?thesis by (auto simp: inspect_char_def quoted_char_def replace_char_def)
qed

lemma inspect_string_eq:
  "inspect_string d s = (let q = (if d then 34 else 39) in [q] @ concat (map (quoted_char q) s) @ [q])"
proof -
  have "replace_char q [backslash, q] (concat (map inspect_char s)) = concat (map (quoted_char q) s)"
    if "q \<in> {39, 34}" for q
    using replace_in_inspect [OF that] by (induction s) (simp_all add: replace_char_append)
  then show ?thesis by (simp add: inspect_string_def)
qed

lemma read_quoted_char:
  assumes "q \<in> {39, 34}"
  shows "read_quoted q (quoted_char q c @ s) = map_option (\<lambda>(t, r). (c # t, r)) (read_quoted q s)"
proof (cases "c < 32 \<or> c = backslash")
  case False
  then show ?thesis using assms
    by (cases s) (auto simp: quoted_char_def inspect_char_def)
next
  case True
  then have cq: "c \<noteq> q" using assms by auto
  show ?thesis
  proof (cases "special_char c")
    case None
    then have c: "c < 32" using True by auto
    obtain a b where ab: "toPaddedString 2 16 c = [a, b]" "hex_value a = Some (c div 16)" "hex_value b = Some (c mod 16)"
      using padded_hex [OF c] by blast
    have "hex_value 48 = Some 0" by (simp add: hex_value_def)
    then show ?thesis using ab True None cq assms
      by (auto simp: quoted_char_def inspect_char_def)
  next
    case (Some t)
    then show ?thesis using True cq assms
      by (auto simp: quoted_char_def inspect_char_def split: if_splits)
  qed
qed

lemma read_quoted_inspect:
  assumes "q \<in> {39, 34}"
  shows "read_quoted q (concat (map (quoted_char q) s) @ q # r) = Some (s, r)"
proof (induction s)
  case Nil
  then show ?case by (cases r) simp_all
next
  case (Cons c s)
  then show ?case using read_quoted_char [OF assms] by simp
qed

end
