(* ===== verification/ProtoString.thy ===== *)
theory ProtoString
  imports JsValue
begin

text \<open>
  The string functions of the Prototype library (\<open>prototype.js\<close>, lines 286 to 543), and the query
  strings of its hashes (lines 999 to 1003 and 1064 to 1074). A regular expression is the
  function that finds its first match: the position and the groups, group 0 being the whole match.
  \<open>gsub\<close> is a loop that need not end, so its value is an option.
\<close>

subsection \<open>Substitution\<close>

type_synonym groups = "ustr option list"
type_synonym matcher = "ustr \<Rightarrow> (nat \<times> groups) option"

definition group :: "nat \<Rightarrow> groups \<Rightarrow> ustr" where
  "group k gs = (if k < length gs then (case gs ! k of None \<Rightarrow> [] | Some t \<Rightarrow> t) else [])"

partial_function (option) gsub_loop ::
  "matcher \<Rightarrow> (groups \<Rightarrow> 's \<Rightarrow> ustr \<times> 's) \<Rightarrow> ustr \<Rightarrow> ustr \<Rightarrow> 's \<Rightarrow> (ustr \<times> 's) option"
where
  "gsub_loop pat rep source result st =
     (if source = [] then Some (result, st)
      else case pat source of
             None \<Rightarrow> Some (result @ source, st)
           | Some (i, gs) \<Rightarrow>
               gsub_loop pat rep (drop (i + length (group 0 gs)) source)
                 (result @ take i source @ fst (rep gs st)) (snd (rep gs st)))"

definition gsub :: "matcher \<Rightarrow> (groups \<Rightarrow> ustr) \<Rightarrow> ustr \<Rightarrow> ustr option" where
  "gsub pat rep s = map_option fst (gsub_loop pat (\<lambda>gs u. (rep gs, u)) s [] ())"

definition sub :: "matcher \<Rightarrow> (groups \<Rightarrow> ustr) \<Rightarrow> int \<Rightarrow> ustr \<Rightarrow> ustr option" where
  "sub pat rep cnt s =
     map_option fst (gsub_loop pat (\<lambda>gs n. let m = n - 1 in (if m < 0 then group 0 gs else rep gs, m)) s [] cnt)"

definition scan :: "matcher \<Rightarrow> (groups \<Rightarrow> 's \<Rightarrow> 's) \<Rightarrow> 's \<Rightarrow> ustr \<Rightarrow> (ustr \<times> 's) option" where
  "scan pat iterator st s =
     map_option (\<lambda>r. (s, snd r)) (gsub_loop pat (\<lambda>gs u. ([], iterator gs u)) s [] st)"

text \<open>The matcher of a class of characters.\<close>

definition class_matcher :: "(jchar \<Rightarrow> bool) \<Rightarrow> matcher" where
  "class_matcher P s =
     (case dropWhile (\<lambda>c. \<not> P c) s of
        [] \<Rightarrow> None | c # _ \<Rightarrow> Some (length (takeWhile (\<lambda>c. \<not> P c) s), [Some [c]]))"

definition consuming :: "matcher \<Rightarrow> bool" where
  "consuming pat \<longleftrightarrow> (\<forall>s i gs. s \<noteq> [] \<longrightarrow> pat s = Some (i, gs) \<longrightarrow> group 0 gs \<noteq> [])"

lemma gsub_loop_returns:
  assumes "consuming pat"
  shows "\<exists>r. gsub_loop pat rep source result st = Some r"
proof (induction "length source" arbitrary: source result st rule: less_induct)
  case less
  show ?case
  proof (cases "source = []")
    case True
    then show ?thesis by (subst gsub_loop.simps) simp
  next
    case False
    show ?thesis
    proof (cases "pat source")
      case None
      then show ?thesis using False by (subst gsub_loop.simps) simp
    next
      case (Some m)
      obtain i gs where m: "m = (i, gs)" by (cases m)
      have "group 0 gs \<noteq> []" using assms Some False unfolding consuming_def m by blast
      then have "length (drop (i + length (group 0 gs)) source) < length source"
        using False by (cases source) (auto simp: neq_Nil_conv)
      from less [OF this] show ?thesis
        using False Some m by (subst gsub_loop.simps) simp
    qed
  qed
qed

lemma gsub_loop_stuck:
  assumes "gsub_loop pat rep source result st = Some r"
  shows "source \<noteq> [] \<longrightarrow> (\<nexists>gs. pat source = Some (0, gs) \<and> group 0 gs = [])"
  using assms
proof (induction pat rep source result st r rule: gsub_loop.raw_induct [rotated, consumes 1])
  case (1 loop pat rep source result st r)
  show ?case
  proof (intro impI notI)
    assume ne: "source \<noteq> []" and "\<exists>gs. pat source = Some (0, gs) \<and> group 0 gs = []"
    then obtain gs where gs: "pat source = Some (0, gs)" "group 0 gs = []" by blast
    then have "loop pat rep source (result @ fst (rep gs st)) (snd (rep gs st)) = Some r"
      using 1(2) ne by simp
    from 1(1) [OF this] ne gs show False by blast
  qed
qed

lemma gsub_class_loop:
  "gsub_loop (class_matcher P) (\<lambda>gs u. (rep gs, u)) s result u =
     Some (result @ concat (map (\<lambda>c. if P c then rep [Some [c]] else [c]) s), u)"
proof (induction "length s" arbitrary: s result rule: less_induct)
  case less
  let ?f = "\<lambda>c. if P c then rep [Some [c]] else [c]"
  let ?a = "takeWhile (\<lambda>c. \<not> P c) s"
  have plain: "concat (map ?f xs) = xs" if "\<And>c. c \<in> set xs \<Longrightarrow> \<not> P c" for xs
    using that by (induction xs) auto
  show ?case
  proof (cases "dropWhile (\<lambda>c. \<not> P c) s")
    case Nil
    then have "\<And>c. c \<in> set s \<Longrightarrow> \<not> P c" by (auto simp: dropWhile_eq_Nil_conv)
    from plain [OF this] have "concat (map ?f s) = s" by simp
    moreover have "class_matcher P s = None" unfolding class_matcher_def Nil by simp
    ultimately show ?thesis by (subst gsub_loop.simps) simp
  next
    case (Cons c t)
    have s: "s = ?a @ c # t" using Cons by (metis takeWhile_dropWhile_id)
    have c: "P c" using Cons by (metis dropWhile_not_hd list.distinct(1) list.sel(1))
    have a: "concat (map ?f ?a) = ?a" by (rule plain) (auto dest: set_takeWhileD)
    have "length t < length s" by (subst s) simp
    from less [OF this, of "result @ ?a @ rep [Some [c]]"] have
      "gsub_loop (class_matcher P) (\<lambda>gs u. (rep gs, u)) t (result @ ?a @ rep [Some [c]]) u =
        Some (result @ ?a @ rep [Some [c]] @ concat (map ?f t), u)" by simp
    moreover have "drop (length ?a + 1) s = t" by (subst (2) s) simp
    moreover have "take (length ?a) s = ?a" by (metis takeWhile_eq_take)
    moreover have "concat (map ?f s) = ?a @ rep [Some [c]] @ concat (map ?f t)"
      using a c by (subst s) simp
    moreover have "s \<noteq> []" using Cons by auto
    ultimately show ?thesis using Cons
      by (subst gsub_loop.simps) (simp add: class_matcher_def group_def)
  qed
qed

lemma gsub_class: "gsub (class_matcher P) rep s = Some (concat (map (\<lambda>c. if P c then rep [Some [c]] else [c]) s))"
  by (simp add: gsub_def gsub_class_loop)

text \<open>The escaping of \<open>inspect\<close> is such a substitution.\<close>

lemma inspect_gsub:
  "gsub (class_matcher (\<lambda>c. c < 32 \<or> c = backslash)) (\<lambda>gs. inspect_char (hd (group 0 gs))) s
     = Some (concat (map inspect_char s))"
proof -
  have "(\<lambda>c. if c < 32 \<or> c = backslash then inspect_char (hd (group 0 [Some [c]])) else [c]) = inspect_char"
    by (auto simp: group_def inspect_char_def)
  then show ?thesis by (simp add: gsub_class)
qed

end
