(* ===== verification/ProtoText.thy ===== *)
theory ProtoText
  imports ProtoString
begin

text \<open>
  The other string functions of \<open>prototype.js\<close> (lines 288 to 543). Changing the case of
  characters beyond ASCII is a table of the Unicode standard, so the functions that change case
  take the conversions \<open>toUpperCase\<close> and \<open>toLowerCase\<close> as arguments; \<open>eval\<close> is an argument of
  \<open>evalJSON\<close>.
\<close>

text \<open>\<open>replace(/.../g, r)\<close>: \<open>here\<close> is the length of the match at the beginning of a string.\<close>

function replace_all :: "(ustr \<Rightarrow> nat option) \<Rightarrow> ustr \<Rightarrow> ustr \<Rightarrow> ustr" where
  "replace_all here r s =
     (case s of
        [] \<Rightarrow> []
      | c # cs \<Rightarrow>
          (case here s of
             Some (Suc n) \<Rightarrow> r @ replace_all here r (drop n cs)
           | _ \<Rightarrow> c # replace_all here r cs))"
  by pat_completeness auto
termination
  by (relation "measure (\<lambda>(h, r, s). length s)") auto

declare replace_all.simps [simp del]

definition regexp_escape :: "ustr \<Rightarrow> ustr" where
  "regexp_escape s =
     concat (map (\<lambda>c. if c \<in> set (lit ''.*+?^=!:${}()|[]/'') \<or> c = backslash then [backslash, c] else [c]) s)"

definition truncate :: "ustr \<Rightarrow> nat \<Rightarrow> ustr option \<Rightarrow> ustr" where
  "truncate s n truncation =
     (let len = (if n = 0 then 30 else n);
          tr = (case truncation of None \<Rightarrow> lit ''...'' | Some t \<Rightarrow> t)
      in if length s > len then slice s 0 (int len - int (length tr)) @ tr else s)"

definition strip :: "ustr \<Rightarrow> ustr" where
  "strip s = strip_right is_ws (strip_left is_ws s)"

definition tag_here :: "ustr \<Rightarrow> nat option" where
  "tag_here s =
     (case s of
        [] \<Rightarrow> None
      | c # cs \<Rightarrow>
          let body = takeWhile (\<lambda>x. x \<noteq> 62) cs in
          if c = 60 \<and> body \<noteq> [] \<and> length body < length cs then Some (length body + 2) else None)"

definition stripTags :: "ustr \<Rightarrow> ustr" where
  "stripTags s = replace_all tag_here [] s"

definition starts_ci :: "string \<Rightarrow> ustr \<Rightarrow> bool" where
  "starts_ci p s = starts_with (lit p) (map ascii_lower s)"

text \<open>A script element at the beginning of a string: the length of the opening tag, of the script.\<close>

definition script_here :: "ustr \<Rightarrow> (nat \<times> nat) option" where
  "script_here s =
     (if \<not> starts_ci ''<script'' s then None
      else let attrs = takeWhile (\<lambda>x. x \<noteq> 62) (drop 7 s);
               open_len = 8 + length attrs
           in if 7 + length attrs < length s then
                map_option (\<lambda>k. (open_len, k)) (find_sub (lit ''</script>'') (map ascii_lower (drop open_len s)))
              else None)"

definition stripScripts :: "ustr \<Rightarrow> ustr" where
  "stripScripts s = replace_all (\<lambda>t. map_option (\<lambda>(a, b). a + b + 9) (script_here t)) [] s"

function extractScripts :: "ustr \<Rightarrow> ustr list" where
  "extractScripts s =
     (case s of
        [] \<Rightarrow> []
      | c # cs \<Rightarrow>
          (case script_here s of
             None \<Rightarrow> extractScripts cs
           | Some (a, b) \<Rightarrow> take b (drop a s) # extractScripts (drop (a + b + 8) cs)))"
  by pat_completeness auto
termination
  by (relation "measure length") auto

declare extractScripts.simps [simp del]

definition evalScripts :: "(ustr \<Rightarrow> val res) \<Rightarrow> ustr \<Rightarrow> val list res" where
  "evalScripts ev s = rmap ev (extractScripts s)"

definition escapeHTML :: "ustr \<Rightarrow> ustr" where
  "escapeHTML s =
     replace_char 62 (lit ''&gt;'') (replace_char 60 (lit ''&lt;'') (replace_char 38 (lit ''&amp;'') s))"

definition lit_here :: "ustr \<Rightarrow> ustr \<Rightarrow> nat option" where
  "lit_here p s = (if starts_with p s then Some (length p) else None)"

definition unescapeHTML :: "ustr \<Rightarrow> ustr" where
  "unescapeHTML s =
     replace_all (lit_here (lit ''&gt;'')) [62]
       (replace_all (lit_here (lit ''&lt;'')) [60]
         (replace_all (lit_here (lit ''&amp;'')) [38] (stripTags s)))"

definition string_toArray :: "ustr \<Rightarrow> ustr list" where
  "string_toArray s = map (\<lambda>c. [c]) s"

text \<open>\<open>fromCharCode\<close> takes its argument modulo \<open>2 ^ 16\<close>; of the empty string it is NaN, read as 0.\<close>

definition string_succ :: "ustr \<Rightarrow> ustr" where
  "string_succ s =
     slice s 0 (int (length s) - 1) @ (if s = [] then [0] else [(last s + 1) mod 65536])"

definition camelize :: "(ustr \<Rightarrow> ustr) \<Rightarrow> ustr \<Rightarrow> ustr" where
  "camelize toUpper s =
     (let parts = split_char 45 s;
          cap = (\<lambda>p. toUpper (charAt p 0) @ drop 1 p)
      in if length parts = 1 then parts ! 0
         else (if charAt s 0 = [45] then cap (parts ! 0) else parts ! 0) @ concat (map cap (tl parts)))"

definition capitalize :: "(ustr \<Rightarrow> ustr) \<Rightarrow> (ustr \<Rightarrow> ustr) \<Rightarrow> ustr \<Rightarrow> ustr" where
  "capitalize toUpper toLower s = toUpper (charAt s 0) @ toLower (drop 1 s)"

definition is_upper :: "jchar \<Rightarrow> bool" where
  "is_upper c \<longleftrightarrow> 65 \<le> c \<and> c \<le> 90"

definition is_lower :: "jchar \<Rightarrow> bool" where
  "is_lower c \<longleftrightarrow> 97 \<le> c \<and> c \<le> 122"

definition colons_matcher :: matcher where
  "colons_matcher s = map_option (\<lambda>i. (i, [Some [58, 58]])) (find_sub [58, 58] s)"

text \<open>\<open>/([A-Z]+)([A-Z][a-z])/\<close>: all but the last capital of a run, when a small letter follows.\<close>

fun acronym_matcher :: matcher where
  "acronym_matcher [] = None"
| "acronym_matcher (c # cs) =
     (let run = takeWhile is_upper (c # cs); rest = drop (length run) (c # cs) in
      if length run \<ge> 2 \<and> rest \<noteq> [] \<and> is_lower (hd rest)
      then Some (0, [Some (run @ [hd rest]), Some (butlast run), Some [last run, hd rest]])
      else map_option (\<lambda>(i, gs). (Suc i, gs)) (acronym_matcher cs))"

fun word_matcher :: matcher where
  "word_matcher (c # d # cs) =
     (if (is_lower c \<or> is_digit c) \<and> is_upper d then Some (0, [Some [c, d], Some [c], Some [d]])
      else map_option (\<lambda>(i, gs). (Suc i, gs)) (word_matcher (d # cs)))"
| "word_matcher s = None"

definition underscored :: "groups \<Rightarrow> ustr" where
  "underscored gs = group 1 gs @ [95] @ group 2 gs"

definition underscore :: "(ustr \<Rightarrow> ustr) \<Rightarrow> ustr \<Rightarrow> ustr option" where
  "underscore toLower s =
     Option.bind (gsub colons_matcher (\<lambda>_. [47]) s) (\<lambda>a.
     Option.bind (gsub acronym_matcher underscored a) (\<lambda>b.
     Option.bind (gsub word_matcher underscored b) (\<lambda>c.
     Option.bind (gsub (class_matcher (\<lambda>x. x = 45)) (\<lambda>_. [95]) c) (\<lambda>d.
     Some (toLower d)))))"

definition dasherize :: "ustr \<Rightarrow> ustr option" where
  "dasherize s = gsub (class_matcher (\<lambda>x. x = 95)) (\<lambda>_. [45]) s"

subsection \<open>JSON\<close>

definition unfilterJSON :: "ustr \<Rightarrow> ustr" where
  "unfilterJSON s =
     (let head = lit ''/*-secure-''; body = strip_right is_ws (drop (length head) s) in
      if starts_with head s \<and> starts_with [47, 42] (rev body)
      then take (length body - 2) body else s)"

definition blank :: "ustr \<Rightarrow> bool" where
  "blank s \<longleftrightarrow> list_all is_ws s"

definition escaped_here :: "ustr \<Rightarrow> nat option" where
  "escaped_here s =
     (case s of c # d # _ \<Rightarrow> if c = backslash \<and> d \<notin> {10, 13, 0x2028, 0x2029} then Some 2 else None | _ \<Rightarrow> None)"

definition quoted_here :: "ustr \<Rightarrow> nat option" where
  "quoted_here s =
     (case s of
        [] \<Rightarrow> None
      | c # cs \<Rightarrow>
          let body = takeWhile (\<lambda>x. x \<notin> {quote, backslash, 10, 13}) cs; rest = drop (length body) cs in
          if c = quote \<and> rest \<noteq> [] \<and> hd rest = quote then Some (length body + 2) else None)"

definition json_char :: "jchar \<Rightarrow> bool" where
  "json_char c \<longleftrightarrow> c \<in> set (lit '',:{}[]'') \<or> is_digit c \<or> c \<in> set (lit ''.-+Eaefln'') \<or> (114 \<le> c \<and> c \<le> 117)
     \<or> c \<in> {32, 10, 13, 9}"

definition isJSON :: "ustr \<Rightarrow> bool" where
  "isJSON s =
     (if blank s then False
      else list_all json_char (replace_all quoted_here [] (replace_all escaped_here [64] s)))"

definition evalJSON :: "(ustr \<Rightarrow> val res) \<Rightarrow> bool \<Rightarrow> ustr \<Rightarrow> val res" where
  "evalJSON ev sanitize s =
     (let json = unfilterJSON s in
      if \<not> sanitize \<or> isJSON json then
        (case ev ([40] @ json @ [41]) of Inr v \<Rightarrow> Inr v | Inl _ \<Rightarrow> Inl SyntaxError)
      else Inl SyntaxError)"

subsection \<open>Tests\<close>

definition string_include :: "ustr \<Rightarrow> ustr \<Rightarrow> bool" where
  "string_include s pattern \<longleftrightarrow> indexOf s pattern > -1"

definition startsWith :: "ustr \<Rightarrow> ustr \<Rightarrow> bool" where
  "startsWith s pattern \<longleftrightarrow> indexOf s pattern = 0"

definition endsWith :: "ustr \<Rightarrow> ustr \<Rightarrow> bool" where
  "endsWith s pattern \<longleftrightarrow>
     (let d = int (length s) - int (length pattern) in d \<ge> 0 \<and> lastIndexOf s pattern = d)"

definition string_empty :: "ustr \<Rightarrow> bool" where
  "string_empty s \<longleftrightarrow> s = []"

subsection \<open>Facts\<close>

lemma startsWith_iff: "startsWith s p \<longleftrightarrow> (\<exists>r. s = p @ r)"
proof
  assume "startsWith s p"
  then have "find_sub p s = Some 0" by (auto simp: startsWith_def indexOf_def split: option.splits)
  from find_sub_Some_split [OF this] show "\<exists>r. s = p @ r" by simp
next
  assume "\<exists>r. s = p @ r"
  then have "starts_with p s" by (simp add: starts_with_iff)
  then have "find_sub p s = Some 0" by (cases s) (auto elim: starts_with.elims)
  then show "startsWith s p" by (simp add: startsWith_def indexOf_def)
qed

lemma endsWith_iff: "endsWith s p \<longleftrightarrow> (\<exists>r. s = r @ p)"
proof
  assume e: "endsWith s p"
  then have "find_sub (rev p) (rev s) = Some 0"
    by (auto simp: endsWith_def lastIndexOf_def Let_def split: option.splits)
  from find_sub_Some_split [OF this] obtain r where "rev s = rev p @ r" by auto
  then show "\<exists>r. s = r @ p" by (metis rev_append rev_rev_ident)
next
  assume "\<exists>r. s = r @ p"
  then obtain r where "rev s = rev p @ r" and s: "length p \<le> length s" by auto
  then have "starts_with (rev p) (rev s)" by (simp add: starts_with_iff)
  then have "find_sub (rev p) (rev s) = Some 0" by (cases "rev s") (auto elim: starts_with.elims)
  then show "endsWith s p" using s by (simp add: endsWith_def lastIndexOf_def)
qed

lemma truncate_length:
  assumes "length (case truncation of None \<Rightarrow> lit ''...'' | Some t \<Rightarrow> t) \<le> (if n = 0 then 30 else n)"
  shows "length (truncate s n truncation) = min (length s) (if n = 0 then 30 else n)"
proof -
  let ?len = "if n = 0 then 30 else n" and ?tr = "case truncation of None \<Rightarrow> lit ''...'' | Some t \<Rightarrow> t"
  have "slice s 0 (int ?len - int (length ?tr)) = take (?len - length ?tr) s"
    using slice_zero_nat [of s "?len - length ?tr"] assms by (simp add: of_nat_diff)
  then show ?thesis using assms by (auto simp: truncate_def Let_def)
qed

text \<open>With a mark longer than the limit the cut is counted from the end of the string.\<close>

lemma truncate_overlong:
  assumes "0 < n" and "n < length t" and "length t - n \<le> length s" and "n < length s"
  shows "truncate s n (Some t) = take (length s - (length t - n)) s @ t"
proof -
  have "rel_index (int n - int (length t)) s = length s - (length t - n)"
    using assms by (auto simp: rel_index_def clamp_def)
  moreover have "rel_index 0 s = 0" by (simp add: rel_index_def)
  ultimately show ?thesis using assms by (simp add: truncate_def slice_def)
qed

lemma consuming_matchers: "consuming colons_matcher" "consuming acronym_matcher" "consuming word_matcher"
    "consuming (class_matcher P)"
proof -
  show "consuming colons_matcher"
    by (auto simp: consuming_def colons_matcher_def group_def)
  have "acronym_matcher s = Some (i, gs) \<Longrightarrow> group 0 gs \<noteq> []" for s i gs
    by (induction s arbitrary: i) (auto simp: Let_def group_def split: if_splits)
  then show "consuming acronym_matcher" by (auto simp: consuming_def)
  have "word_matcher s = Some (i, gs) \<Longrightarrow> group 0 gs \<noteq> []" for s i gs
    by (induction s arbitrary: i rule: word_matcher.induct) (auto simp: group_def split: if_splits)
  then show "consuming word_matcher" by (auto simp: consuming_def)
  show "consuming (class_matcher P)"
    by (auto simp: consuming_def class_matcher_def group_def split: list.splits)
qed

lemma gsub_returns: "consuming pat \<Longrightarrow> \<exists>t. gsub pat rep s = Some t"
proof -
  assume c: "consuming pat"
  obtain r where "gsub_loop pat (\<lambda>gs u. (rep gs, u)) s [] () = Some r"
    using gsub_loop_returns [OF c, of "\<lambda>gs u. (rep gs, u)" s "[]" "()"] by auto
  then show ?thesis by (simp add: gsub_def)
qed

lemma escapeHTML_eq:
  "escapeHTML s = concat (map (\<lambda>c. if c = 38 then lit ''&amp;'' else if c = 60 then lit ''&lt;''
     else if c = 62 then lit ''&gt;'' else [c]) s)"
  unfolding escapeHTML_def
  by (induction s) (simp_all add: replace_char_Cons replace_char_append js_simps)

end
