(* ===== verification/ProtoQuery.thy ===== *)
theory ProtoQuery
  imports ProtoText
begin

text \<open>
  Query strings in the Prototype library: \<open>String.toQueryParams\<close> reads one into an object,
  \<open>Hash.toQueryString\<close> writes one. A property that every object inherits counts as present:
  \<open>key in hash\<close> is true of it.
\<close>

subsection \<open>Reading\<close>

text \<open>\<open>/([^?#]*)(#.*)?$/\<close>: the leftmost run without question mark and number sign that ends the
  string, or is followed by a number sign and no line end.\<close>

fun query_part :: "ustr \<Rightarrow> ustr" where
  "query_part [] = []"
| "query_part (c # cs) =
     (let run = takeWhile (\<lambda>x. x \<noteq> 63 \<and> x \<noteq> 35) (c # cs); rest = drop (length run) (c # cs) in
      if rest = [] \<or> (hd rest = 35 \<and> set rest \<inter> {10, 13, 0x2028, 0x2029} = {}) then run
      else query_part cs)"

definition object_names :: "ustr list" where
  "object_names = map lit [''constructor'', ''toString'', ''toLocaleString'', ''valueOf'',
     ''hasOwnProperty'', ''isPrototypeOf'', ''propertyIsEnumerable'']"

definition lookup_prop :: "ustr \<Rightarrow> props \<Rightarrow> val option" where
  "lookup_prop k h =
     (case map_of h k of
        Some v \<Rightarrow> Some v
      | None \<Rightarrow> if k \<in> set object_names then Some (VFun k) else None)"

definition add_param :: "ustr \<Rightarrow> val \<Rightarrow> props \<Rightarrow> props" where
  "add_param key v h =
     (case lookup_prop key h of
        Some old \<Rightarrow> put key (VArr ((case old of VArr vs \<Rightarrow> vs | _ \<Rightarrow> [old]) @ [v])) h
      | None \<Rightarrow> put key v h)"

definition read_pair :: "ustr \<Rightarrow> props \<Rightarrow> props res" where
  "read_pair p h =
     (let parts = split_char 61 p in
      if hd parts = [] then Inr h
      else rbind (decodeURIComponent (hd parts)) (\<lambda>key.
           rbind (case tl parts of
                    [] \<Rightarrow> Inr Undefined
                  | [v] \<Rightarrow> rbind (decodeURIComponent v) (\<lambda>t. Inr (VStr t))
                  | vs \<Rightarrow> rbind (decodeURIComponent (join [61] vs)) (\<lambda>t. Inr (VStr t)))
             (\<lambda>v. Inr (add_param key v h))))"

fun read_pairs :: "ustr list \<Rightarrow> props \<Rightarrow> props res" where
  "read_pairs [] h = Inr h"
| "read_pairs (p # ps) h = rbind (read_pair p h) (read_pairs ps)"

definition toQueryParams :: "jchar \<Rightarrow> ustr \<Rightarrow> props res" where
  "toQueryParams separator s = read_pairs (split_char separator (query_part (strip s))) []"

subsection \<open>Writing\<close>

definition toQueryPair :: "ustr \<Rightarrow> val \<Rightarrow> ustr res" where
  "toQueryPair key v =
     (if isUndefined v then Inr key
      else rbind (encodeURIComponent (interpret_val v)) (\<lambda>t. Inr (key @ [61] @ t)))"

definition query_pieces :: "ustr \<times> val \<Rightarrow> ustr list res" where
  "query_pieces p =
     rbind (encodeURIComponent (fst p)) (\<lambda>key.
       case snd p of
         VArr vs \<Rightarrow> rmap (toQueryPair key) vs
       | VObj _ \<Rightarrow> Inr []
       | VHash _ \<Rightarrow> Inr []
       | v \<Rightarrow> rbind (toQueryPair key v) (\<lambda>t. Inr [t]))"

definition toQueryString :: "props \<Rightarrow> ustr res" where
  "toQueryString h = rbind (rmap query_pieces h) (\<lambda>ts. Inr (join [38] (concat ts)))"

subsection \<open>Round trip\<close>

definition char_text :: "ustr \<Rightarrow> bool" where
  "char_text s \<longleftrightarrow> (\<forall>c. c \<in> set s \<longrightarrow> c < 0x10000)"

definition plain_value :: "val \<Rightarrow> bool" where
  "plain_value v \<longleftrightarrow> (case v of VStr s \<Rightarrow> char_text s | Undefined \<Rightarrow> True | _ \<Rightarrow> False)"

text \<open>Values that a query string can carry: a string, nothing, or a list of at least two of them.\<close>

definition query_value :: "val \<Rightarrow> bool" where
  "query_value v \<longleftrightarrow>
     (case v of VArr vs \<Rightarrow> 2 \<le> length vs \<and> list_all plain_value vs | _ \<Rightarrow> plain_value v)"

definition query_hash :: "props \<Rightarrow> bool" where
  "query_hash h \<longleftrightarrow> wf_props h \<and> (\<forall>p \<in> set h. fst p \<noteq> [] \<and> fst p \<notin> set object_names
     \<and> char_text (fst p) \<and> query_value (snd p))"

lemma uri_char_no: "list_all uri_char t \<Longrightarrow> c \<in> {61, 38, 63, 35, 59} \<Longrightarrow> c \<notin> set t"
  by (auto simp: list_all_iff uri_char_def unreserved_def)

lemma encode_not_Nil: "encodeURIComponent s = Inr t \<Longrightarrow> s \<noteq> [] \<Longrightarrow> t \<noteq> []"
  by (cases s) (auto simp: res_iff percent_char_def utf8_def percent_byte_def split: if_splits list.splits)

definition piece_chars :: "ustr \<Rightarrow> bool" where
  "piece_chars t \<longleftrightarrow> list_all (\<lambda>c. uri_char c \<or> c = 61) t"

lemma pair_piece:
  assumes "plain_value v" and "list_all uri_char key" and "toQueryPair key v = Inr t"
    and "key \<noteq> []" and "decodeURIComponent key = Inr k"
  shows "piece_chars t" and "read_pair t h = Inr (add_param k v h)"
proof -
  have nk: "61 \<notin> set key" using uri_char_no [OF assms(2)] by simp
  have "piece_chars t \<and> read_pair t h = Inr (add_param k v h)"
  proof (cases v)
    case Undefined
    then have t: "t = key" using assms(3) by (simp add: toQueryPair_def isUndefined_def)
    have "split_char 61 key = [key]" using nk by (rule split_char_no_sep)
    then show ?thesis using t assms(2,4,5) Undefined
      by (simp add: read_pair_def piece_chars_def list_all_iff)
  next
    case (VStr s)
    then obtain u where u: "encodeURIComponent s = Inr u" "t = key @ 61 # u"
      using assms(3) by (auto simp: toQueryPair_def isUndefined_def interpret_val_def res_iff)
    have s: "\<And>c. c \<in> set s \<Longrightarrow> c < 0x10000" using assms(1) VStr by (simp add: plain_value_def char_text_def)
    have uu: "list_all uri_char u" using encode_chars [OF u(1) s] .
    then have "61 \<notin> set u" using uri_char_no by blast
    then have "split_char 61 t = [key, u]" using nk u(2) by (simp add: split_char_append split_char_no_sep)
    moreover have "decodeURIComponent u = Inr s" using decode_encode [OF u(1) s] .
    ultimately show ?thesis using assms(2,4,5) VStr u(2) uu
      by (auto simp: read_pair_def piece_chars_def list_all_iff)
  qed (use assms(1) in \<open>simp_all add: plain_value_def\<close>)
  then show "piece_chars t" and "read_pair t h = Inr (add_param k v h)" by auto
qed

lemma read_pairs_append: "read_pairs (ps @ qs) h = rbind (read_pairs ps h) (read_pairs qs)"
  by (induction ps arbitrary: h) (auto simp: rbind_def split: sum.splits)

lemma put_put: "put k w (put k v h) = put k w h"
  by (induction h) auto

lemma add_params_array:
  assumes "rmap (toQueryPair key) vs = Inr ts" and "list_all plain_value vs" and "list_all uri_char key"
    and "key \<noteq> []" and "decodeURIComponent key = Inr k" and "map_of h k = Some (VArr us)"
  shows "list_all piece_chars ts \<and> read_pairs ts h = Inr (put k (VArr (us @ vs)) h)"
  using assms(1,2,6)
proof (induction vs arbitrary: ts us h)
  case Nil
  have "put k v h = h" if "map_of h k = Some v" for v :: val
    using that by (induction h) auto
  with Nil show ?case by simp
next
  case (Cons v vs)
  obtain t ts' where t: "toQueryPair key v = Inr t" "rmap (toQueryPair key) vs = Inr ts'" "ts = t # ts'"
    using Cons.prems(1) by (auto simp: res_iff)
  have v: "plain_value v" "list_all plain_value vs" using Cons.prems(2) by simp_all
  have "read_pair t h = Inr (put k (VArr (us @ [v])) h)" and p: "piece_chars t"
    using pair_piece [OF v(1) assms(3) t(1) assms(4,5)] Cons.prems(3)
    by (simp_all add: add_param_def lookup_prop_def)
  moreover have "list_all piece_chars ts' \<and>
      read_pairs ts' (put k (VArr (us @ [v])) h) = Inr (put k (VArr ((us @ [v]) @ vs)) (put k (VArr (us @ [v])) h))"
    by (rule Cons.IH [OF t(2) v(2)]) simp
  ultimately show ?case using t(3) p by (simp add: put_put)
qed

lemma query_pieces_read:
  assumes "query_pieces (k, v) = Inr ts" and "k \<noteq> []" and "char_text k" and "k \<notin> set object_names"
    and "query_value v" and "k \<notin> fst ` set h"
  shows "list_all piece_chars ts \<and> ts \<noteq> [] \<and> read_pairs ts h = Inr (h @ [(k, v)])"
proof -
  obtain key where key: "encodeURIComponent k = Inr key"
    using assms(1) by (auto simp: query_pieces_def res_iff)
  have kc: "\<And>c. c \<in> set k \<Longrightarrow> c < 0x10000" using assms(3) by (simp add: char_text_def)
  have dk: "decodeURIComponent key = Inr k" and uk: "list_all uri_char key" and nk: "key \<noteq> []"
    using decode_encode [OF key kc] encode_chars [OF key kc] encode_not_Nil [OF key assms(2)] by auto
  have m: "map_of h k = None" using assms(6) by (simp add: map_of_eq_None_iff)
  then have none: "map_of h k = None" "lookup_prop k h = None"
    using assms(4) by (simp_all only: lookup_prop_def option.case if_False)
  have first: "list_all piece_chars [t] \<and> read_pairs [t] h = Inr (h @ [(k, w)])"
    if "plain_value w" "toQueryPair key w = Inr t" for w t
    using pair_piece(1) [OF that(1) uk that(2) nk dk] pair_piece(2) [OF that(1) uk that(2) nk dk, of h]
      none(2) assms(6)
    by (simp add: add_param_def put_new)
  show ?thesis
  proof (cases "plain_value v")
    case True
    then obtain t where "toQueryPair key v = Inr t" "ts = [t]"
      using assms(1) key by (auto simp: query_pieces_def plain_value_def res_iff split: val.splits)
    with first [OF True] show ?thesis by simp
  next
    case False
    then obtain vs where v: "v = VArr vs" "2 \<le> length vs" "list_all plain_value vs"
      using assms(5) by (auto simp: query_value_def split: val.splits)
    then obtain v1 v2 ws where vs: "vs = v1 # v2 # ws"
      by (cases vs; cases "tl vs") auto
    obtain t1 t2 ts' where ts: "toQueryPair key v1 = Inr t1" "toQueryPair key v2 = Inr t2"
        "rmap (toQueryPair key) ws = Inr ts'" "ts = t1 # t2 # ts'"
      using assms(1) key v(1) vs by (auto simp: query_pieces_def res_iff)
    have p: "plain_value v1" "plain_value v2" "list_all plain_value ws" using v(3) vs by simp_all
    let ?h1 = "h @ [(k, v1)]" and ?h2 = "h @ [(k, VArr [v1, v2])]"
    have r1: "read_pair t1 h = Inr ?h1" and c1: "piece_chars t1" using first [OF p(1) ts(1)] by (auto simp: res_iff)
    have m1: "map_of ?h1 k = Some v1" using none(1) by (simp add: map_of_append map_add_def)
    have arr: "(case v1 of VArr us \<Rightarrow> us | _ \<Rightarrow> [v1]) = [v1]" using p(1) by (simp add: plain_value_def split: val.splits)
    have put_end: "put k w (h @ [(k, w')]) = h @ [(k, w)]" for w w'
      using assms(6) by (induction h) auto
    have r2: "read_pair t2 ?h1 = Inr ?h2" and c2: "piece_chars t2"
      using pair_piece(1) [OF p(2) uk ts(2) nk dk] pair_piece(2) [OF p(2) uk ts(2) nk dk, of ?h1] m1 arr put_end
      by (simp_all add: add_param_def lookup_prop_def)
    have m2: "map_of ?h2 k = Some (VArr [v1, v2])" using none(1) by (simp add: map_of_append map_add_def)
    have "list_all piece_chars ts' \<and> read_pairs ts' ?h2 = Inr (put k (VArr ([v1, v2] @ ws)) ?h2)"
      using add_params_array [OF ts(3) p(3) uk nk dk m2] .
    then show ?thesis using r1 r2 c1 c2 ts(4) v(1) vs put_end by simp
  qed
qed

lemma query_hash_read:
  assumes "rmap query_pieces qs = Inr tss" and "query_hash (h @ qs)"
  shows "list_all piece_chars (concat tss) \<and> read_pairs (concat tss) h = Inr (h @ qs)
     \<and> (qs \<noteq> [] \<longrightarrow> concat tss \<noteq> [])"
  using assms
proof (induction qs arbitrary: tss h)
  case (Cons q qs)
  obtain k v where q: "q = (k, v)" by (cases q)
  obtain ts tss' where ts: "query_pieces (k, v) = Inr ts" "rmap query_pieces qs = Inr tss'" "tss = ts # tss'"
    using Cons.prems(1) q by (auto simp: res_iff)
  have "k \<noteq> []" "char_text k" "k \<notin> set object_names" "query_value v" "k \<notin> fst ` set h"
    using Cons.prems(2) q by (auto simp: query_hash_def wf_props_def)
  from query_pieces_read [OF ts(1) this] have r: "list_all piece_chars ts" "ts \<noteq> []"
      "read_pairs ts h = Inr (h @ [(k, v)])" by auto
  have "list_all piece_chars (concat tss') \<and> read_pairs (concat tss') (h @ [(k, v)]) = Inr ((h @ [(k, v)]) @ qs)"
    using Cons.IH [OF ts(2), of "h @ [(k, v)]"] Cons.prems(2) q by simp
  with r ts(3) q show ?case by (simp add: read_pairs_append)
qed simp

lemma query_part_id:
  assumes "63 \<notin> set s" and "35 \<notin> set s"
  shows "query_part s = s"
proof (cases s)
  case (Cons c cs)
  have run: "takeWhile (\<lambda>x. x \<noteq> 63 \<and> x \<noteq> 35) (c # cs) = c # cs"
    using assms unfolding Cons by (intro takeWhile_all) auto
  show ?thesis unfolding Cons query_part.simps Let_def run by simp
qed simp

lemma strip_no_ws: "(\<And>c. c \<in> set s \<Longrightarrow> \<not> is_ws c) \<Longrightarrow> strip s = s"
  unfolding strip_def by (metis hd_in_set last_in_set strip_left_id strip_right_id)

lemma set_join: "set (join sep ws) \<subseteq> set sep \<union> \<Union> (set ` set ws)"
  by (induction sep ws rule: join.induct) auto

lemma query_round_trip_lemma:
  assumes "query_hash h" and "toQueryString h = Inr t"
  shows "toQueryParams 38 t = Inr h"
proof (cases "h = []")
  case True
  then have "t = []" using assms(2) by (simp add: toQueryString_def)
  then show ?thesis using True
    by (simp add: toQueryParams_def strip_def strip_left_def strip_right_def read_pair_def)
next
  case False
  obtain tss where tss: "rmap query_pieces h = Inr tss" "t = join [38] (concat tss)"
    using assms(2) by (auto simp: toQueryString_def res_iff)
  have r: "list_all piece_chars (concat tss)" "read_pairs (concat tss) [] = Inr h" "concat tss \<noteq> []"
    using query_hash_read [OF tss(1), of "[]"] assms(1) False by auto
  have chars: "uri_char c \<or> c = 61 \<or> c = 38" if "c \<in> set t" for c
    using that set_join [of "[38]" "concat tss"] r(1) unfolding tss(2)
    by (fastforce simp: list_all_iff piece_chars_def)
  have "\<not> is_ws c" if "c \<in> set t" for c
    using chars [OF that] by (auto simp: uri_char_def unreserved_def is_ws_def)
  then have "strip t = t" by (rule strip_no_ws)
  moreover have "63 \<notin> set t" "35 \<notin> set t"
    using chars by (force simp: uri_char_def unreserved_def)+
  moreover have "split_char 38 t = concat tss" unfolding tss(2)
  proof (rule split_char_join [OF r(3)])
    fix w assume "w \<in> set (concat tss)"
    then have "piece_chars w" using r(1) unfolding list_all_iff by blast
    moreover have "\<not> (uri_char 38 \<or> 38 = (61 :: nat))" by (simp add: uri_char_def unreserved_def)
    ultimately show "38 \<notin> set w" unfolding piece_chars_def list_all_iff by blast
  qed
  ultimately show ?thesis using r(2) by (simp add: toQueryParams_def query_part_id)
qed

subsection \<open>The type of what is read\<close>

definition read_value :: "val \<Rightarrow> bool" where
  "read_value v = (case v of VStr _ \<Rightarrow> True | Undefined \<Rightarrow> True | _ \<Rightarrow> False)"

text \<open>A property is a string, undefined for a name without a value, or a list of these; the list of a
  name that every object inherits starts with the inherited function.\<close>

definition query_typed :: "ustr \<times> val \<Rightarrow> bool" where
  "query_typed p =
     (case snd p of
        VArr vs \<Rightarrow> 2 \<le> length vs \<and> list_all read_value (tl vs)
          \<and> (read_value (hd vs) \<or> (fst p \<in> set object_names \<and> hd vs = VFun (fst p)))
      | v \<Rightarrow> read_value v)"

definition params_ok :: "props \<Rightarrow> bool" where
  "params_ok h \<longleftrightarrow> wf_props h \<and> list_all query_typed h"

lemma set_put: "set (put k v h) \<subseteq> insert (k, v) (set h)"
  by (induction k v h rule: put.induct) auto

lemma add_param_ok:
  assumes "params_ok h" and "read_value v"
  shows "params_ok (add_param k v h)"
proof -
  have put: "params_ok (put k w h)" if "query_typed (k, w)" for w
    using assms(1) that set_put [of k w h] by (auto simp: params_ok_def wf_put list_all_iff)
  show ?thesis
  proof (cases "map_of h k")
    case None
    then show ?thesis using assms(2)
      by (auto simp: add_param_def lookup_prop_def read_value_def query_typed_def intro!: put split: val.splits)
  next
    case (Some old)
    then have "query_typed (k, old)"
      using assms(1) by (auto simp: params_ok_def list_all_iff dest: map_of_SomeD)
    then have "query_typed (k, VArr ((case old of VArr vs \<Rightarrow> vs | _ \<Rightarrow> [old]) @ [v]))"
    proof (cases "\<exists>vs. old = VArr vs")
      case True
      then obtain vs where vs: "old = VArr vs" by blast
      then have "vs \<noteq> []" using \<open>query_typed (k, old)\<close> by (auto simp: query_typed_def)
      then show ?thesis using \<open>query_typed (k, old)\<close> assms(2) vs by (auto simp: query_typed_def tl_append2)
    next
      case False
      then have "read_value old" using \<open>query_typed (k, old)\<close> by (cases old) (auto simp: query_typed_def)
      moreover have "(case old of VArr vs \<Rightarrow> vs | _ \<Rightarrow> [old]) = [old]" using False by (cases old) auto
      ultimately show ?thesis using assms(2) by (simp add: query_typed_def)
    qed
    then show ?thesis using Some by (simp add: add_param_def lookup_prop_def put)
  qed
qed

lemma read_pair_ok: "params_ok h \<Longrightarrow> read_pair p h = Inr g \<Longrightarrow> params_ok g"
  by (auto simp: read_pair_def res_iff Let_def read_value_def intro!: add_param_ok split: if_splits list.splits)

lemma read_pairs_ok: "params_ok h \<Longrightarrow> read_pairs ps h = Inr g \<Longrightarrow> params_ok g"
  by (induction ps arbitrary: h) (auto simp: res_iff intro: read_pair_ok)

lemma toQueryParams_ok: "toQueryParams sep s = Inr h \<Longrightarrow> params_ok h"
  unfolding toQueryParams_def by (rule read_pairs_ok [where h = "[]"]) (simp_all add: params_ok_def wf_props_def)

end
