(* ===== verification/ProtoEnum.thy ===== *)
theory ProtoEnum
  imports ProtoQuery
begin

text \<open>
  \<open>Enumerable\<close>, the array functions, \<open>Hash\<close>, \<open>Number\<close> and \<open>ObjectRange\<close> of \<open>prototype.js\<close>
  (lines 595 to 1120). An iterator is a function of the value and the index that may throw; inside
  \<open>each\<close> it works on the local variables of the caller, the state \<open>'s\<close>, and it may throw
  \<open>$break\<close> to end the loop. Equality of the logic is \<open>===\<close>; the coercing \<open>==\<close> is an argument.
\<close>

subsection \<open>The loop\<close>

datatype 's signal = Next 's | Break 's | Raise js_error

fun each_loop :: "('a \<Rightarrow> nat \<Rightarrow> 's \<Rightarrow> 's signal) \<Rightarrow> nat \<Rightarrow> 'a list \<Rightarrow> 's \<Rightarrow> 's res" where
  "each_loop f index [] s = Inr s"
| "each_loop f index (x # xs) s =
     (case f x index s of
        Next s' \<Rightarrow> each_loop f (Suc index) xs s'
      | Break s' \<Rightarrow> Inr s'
      | Raise e \<Rightarrow> Inl e)"

definition each :: "('a \<Rightarrow> nat \<Rightarrow> 's \<Rightarrow> 's signal) \<Rightarrow> 'a list \<Rightarrow> 's \<Rightarrow> 's res" where
  "each f xs s = each_loop f 0 xs s"

definition call_it :: "'b res \<Rightarrow> ('b \<Rightarrow> 's signal) \<Rightarrow> 's signal" where
  "call_it r k = (case r of Inl e \<Rightarrow> Raise e | Inr y \<Rightarrow> k y)"

subsection \<open>Enumerable\<close>

definition collect :: "('a \<Rightarrow> nat \<Rightarrow> 'b res) \<Rightarrow> 'a list \<Rightarrow> 'b list res" where
  "collect it xs = each (\<lambda>v i results. call_it (it v i) (\<lambda>y. Next (results @ [y]))) xs []"

function slices_from :: "nat \<Rightarrow> nat \<Rightarrow> 'a list \<Rightarrow> 'a list list" where
  "slices_from n i xs =
     (if n = 0 \<or> length xs \<le> i then [] else take n (drop i xs) # slices_from n (i + n) xs)"
  by pat_completeness auto
termination
  by (relation "measure (\<lambda>(n, i, xs). length xs - i)") auto

declare slices_from.simps [simp del]

text \<open>With a number below 1 the elements themselves come back, ungrouped.\<close>

definition eachSlice :: "int \<Rightarrow> ('a list \<Rightarrow> nat \<Rightarrow> 'b res) \<Rightarrow> 'a list \<Rightarrow> ('a list + 'b list) res" where
  "eachSlice number it xs =
     (if number < 1 then Inr (Inl xs)
      else rbind (collect it (slices_from (nat number) 0 xs)) (\<lambda>ys. Inr (Inr ys)))"

definition enum_all :: "('a \<Rightarrow> nat \<Rightarrow> bool res) \<Rightarrow> 'a list \<Rightarrow> bool res" where
  "enum_all it xs =
     each (\<lambda>v i result. call_it (if result then it v i else Inr False)
             (\<lambda>b. if b then Next True else Break False)) xs True"

definition enum_any :: "('a \<Rightarrow> nat \<Rightarrow> bool res) \<Rightarrow> 'a list \<Rightarrow> bool res" where
  "enum_any it xs =
     each (\<lambda>v i result. call_it (it v i) (\<lambda>b. if b then Break True else Next False)) xs False"

definition detect :: "('a \<Rightarrow> nat \<Rightarrow> bool res) \<Rightarrow> 'a list \<Rightarrow> 'a option res" where
  "detect it xs =
     each (\<lambda>v i result. call_it (it v i) (\<lambda>b. if b then Break (Some v) else Next result)) xs None"

definition findAll :: "('a \<Rightarrow> nat \<Rightarrow> bool res) \<Rightarrow> 'a list \<Rightarrow> 'a list res" where
  "findAll it xs =
     each (\<lambda>v i results. call_it (it v i) (\<lambda>b. Next (if b then results @ [v] else results))) xs []"

definition grep :: "('a \<Rightarrow> bool res) \<Rightarrow> ('a \<Rightarrow> nat \<Rightarrow> 'b res) \<Rightarrow> 'a list \<Rightarrow> 'b list res" where
  "grep matches it xs =
     each (\<lambda>v i results. call_it (matches v)
             (\<lambda>b. if b then call_it (it v i) (\<lambda>y. Next (results @ [y])) else Next results)) xs []"

definition arr_indexOf :: "'a list \<Rightarrow> 'a \<Rightarrow> int \<Rightarrow> int" where
  "arr_indexOf xs item i =
     (let k = nat (if i < 0 then max 0 (int (length xs) + i) else i) in
      case find_sub [item] (drop k xs) of None \<Rightarrow> -1 | Some j \<Rightarrow> int k + int j)"

definition enum_include :: "('a \<Rightarrow> 'a \<Rightarrow> bool) \<Rightarrow> 'a list \<Rightarrow> 'a \<Rightarrow> bool res" where
  "enum_include loose xs object =
     (if arr_indexOf xs object 0 \<noteq> -1 then Inr True
      else each (\<lambda>v i found. if loose v object then Break True else Next found) xs False)"

definition inGroupsOf :: "nat \<Rightarrow> 'a \<Rightarrow> 'a list \<Rightarrow> ('a list + 'a list list) res" where
  "inGroupsOf number fillWith xs =
     eachSlice (int number) (\<lambda>s i. Inr (s @ replicate (number - length s) fillWith)) xs"

definition inject :: "'m \<Rightarrow> ('m \<Rightarrow> 'a \<Rightarrow> nat \<Rightarrow> 'm res) \<Rightarrow> 'a list \<Rightarrow> 'm res" where
  "inject memo it xs = each (\<lambda>v i m. call_it (it m v i) Next) xs memo"

definition invoke :: "('a \<Rightarrow> 'v list \<Rightarrow> 'b res) \<Rightarrow> 'v list \<Rightarrow> 'a list \<Rightarrow> 'b list res" where
  "invoke meth args xs = collect (\<lambda>v i. meth v args) xs"

definition enum_max :: "('a \<Rightarrow> nat \<Rightarrow> 'k :: linorder res) \<Rightarrow> 'a list \<Rightarrow> 'k option res" where
  "enum_max it xs =
     each (\<lambda>v i result. call_it (it v i)
             (\<lambda>y. Next (case result of None \<Rightarrow> Some y | Some r \<Rightarrow> if r \<le> y then Some y else result))) xs None"

definition enum_min :: "('a \<Rightarrow> nat \<Rightarrow> 'k :: linorder res) \<Rightarrow> 'a list \<Rightarrow> 'k option res" where
  "enum_min it xs =
     each (\<lambda>v i result. call_it (it v i)
             (\<lambda>y. Next (case result of None \<Rightarrow> Some y | Some r \<Rightarrow> if y < r then Some y else result))) xs None"

definition enum_partition :: "('a \<Rightarrow> nat \<Rightarrow> bool res) \<Rightarrow> 'a list \<Rightarrow> ('a list \<times> 'a list) res" where
  "enum_partition it xs =
     each (\<lambda>v i (trues, falses). call_it (it v i)
             (\<lambda>b. Next (if b then (trues @ [v], falses) else (trues, falses @ [v])))) xs ([], [])"

definition pluck :: "('a \<Rightarrow> 'b) \<Rightarrow> 'a list \<Rightarrow> 'b list res" where
  "pluck prop xs = each (\<lambda>v i results. Next (results @ [prop v])) xs []"

definition reject :: "('a \<Rightarrow> nat \<Rightarrow> bool res) \<Rightarrow> 'a list \<Rightarrow> 'a list res" where
  "reject it xs =
     each (\<lambda>v i results. call_it (it v i) (\<lambda>b. Next (if \<not> b then results @ [v] else results))) xs []"

text \<open>\<open>Array.sort\<close> with a comparator, as a stable sort.\<close>

fun insert_by :: "('a \<Rightarrow> 'a \<Rightarrow> int) \<Rightarrow> 'a \<Rightarrow> 'a list \<Rightarrow> 'a list" where
  "insert_by cmp x [] = [x]"
| "insert_by cmp x (y # ys) = (if cmp x y \<le> 0 then x # y # ys else y # insert_by cmp x ys)"

definition array_sort :: "('a \<Rightarrow> 'a \<Rightarrow> int) \<Rightarrow> 'a list \<Rightarrow> 'a list" where
  "array_sort cmp xs = foldr (insert_by cmp) xs []"

definition by_criteria :: "'a \<times> 'k :: linorder \<Rightarrow> 'a \<times> 'k \<Rightarrow> int" where
  "by_criteria left right =
     (let a = snd left; b = snd right in if a < b then -1 else if b < a then 1 else 0)"

definition sortBy :: "('a \<Rightarrow> nat \<Rightarrow> 'k :: linorder res) \<Rightarrow> 'a list \<Rightarrow> 'a list res" where
  "sortBy it xs =
     rbind (collect (\<lambda>v i. rbind (it v i) (\<lambda>c. Inr (v, c))) xs)
       (\<lambda>ps. pluck fst (array_sort by_criteria ps))"

definition at_index :: "'a list \<Rightarrow> nat \<Rightarrow> 'a option" where
  "at_index xs i = (if i < length xs then Some (xs ! i) else None)"

definition enum_zip :: "('a option list \<Rightarrow> 'b res) \<Rightarrow> 'a list list \<Rightarrow> 'a list \<Rightarrow> 'b list res" where
  "enum_zip it args xs =
     collect (\<lambda>v i. rbind (pluck (\<lambda>c. at_index c i) (xs # args)) it) xs"

definition enum_size :: "'a list \<Rightarrow> nat" where
  "enum_size xs = length xs"

subsection \<open>Arrays\<close>

definition arr_first :: "'a list \<Rightarrow> 'a option" where
  "arr_first xs = at_index xs 0"

definition arr_last :: "'a list \<Rightarrow> 'a option" where
  "arr_last xs = (if xs = [] then None else at_index xs (length xs - 1))"

definition compact :: "val list \<Rightarrow> val list res" where
  "compact xs = findAll (\<lambda>v i. Inr (v \<noteq> Null \<and> v \<noteq> Undefined)) xs"

fun flatten :: "val list \<Rightarrow> val list" where
  "flatten [] = []"
| "flatten (VArr vs # xs) = flatten vs @ flatten xs"
| "flatten (v # xs) = v # flatten xs"

definition without :: "('a \<Rightarrow> 'a \<Rightarrow> bool) \<Rightarrow> 'a list \<Rightarrow> 'a list \<Rightarrow> 'a list res" where
  "without loose values xs =
     findAll (\<lambda>v i. rbind (enum_include loose values v) (\<lambda>b. Inr (\<not> b))) xs"

definition uniq :: "('a \<Rightarrow> 'a \<Rightarrow> bool) \<Rightarrow> bool \<Rightarrow> 'a list \<Rightarrow> 'a list res" where
  "uniq loose sorted_arg xs =
     inject [] (\<lambda>array v i.
       if i = 0 then Inr (array @ [v])
       else if sorted_arg then
         Inr (case arr_last array of
                None \<Rightarrow> array @ [v] | Some l \<Rightarrow> if \<not> loose l v then array @ [v] else array)
       else rbind (enum_include loose array v) (\<lambda>b. Inr (if \<not> b then array @ [v] else array))) xs"

text \<open>\<open>intersect\<close> tests the element \<open>detect\<close> returns, so a falsy common element is dropped.\<close>

definition intersect :: "('a \<Rightarrow> bool) \<Rightarrow> ('a \<Rightarrow> 'a \<Rightarrow> bool) \<Rightarrow> 'a list \<Rightarrow> 'a list \<Rightarrow> 'a list res" where
  "intersect is_true loose array xs =
     rbind (uniq loose False xs) (\<lambda>us.
       findAll (\<lambda>item i. rbind (detect (\<lambda>v j. Inr (item = v)) array)
                   (\<lambda>r. Inr (case r of None \<Rightarrow> False | Some v \<Rightarrow> is_true v))) us)"

definition arr_lastIndexOf :: "'a list \<Rightarrow> 'a \<Rightarrow> int option \<Rightarrow> int" where
  "arr_lastIndexOf xs item i =
     (let i' = (case i of None \<Rightarrow> int (length xs) | Some k \<Rightarrow> (if k < 0 then int (length xs) + k else k) + 1);
          n = arr_indexOf (rev (slice xs 0 i')) item 0
      in if n < 0 then n else i' - n - 1)"

text \<open>\<open>$w\<close>: the words of a string; splitting at runs of white space.\<close>

function split_ws :: "ustr \<Rightarrow> ustr list" where
  "split_ws s =
     (case s of
        [] \<Rightarrow> [[]]
      | c # cs \<Rightarrow>
          if is_ws c then [] # split_ws (dropWhile is_ws cs)
          else (case split_ws cs of [] \<Rightarrow> [[c]] | w # ws \<Rightarrow> (c # w) # ws))"
  by pat_completeness auto
termination
  by (relation "measure length") (auto simp: length_dropWhile_le less_Suc_eq_le)

declare split_ws.simps [simp del]

definition dollar_w :: "ustr \<Rightarrow> ustr list" where
  "dollar_w s = (let t = strip s in if t = [] then [] else split_ws t)"

subsection \<open>Numbers and ranges\<close>

record range =
  range_start :: int
  range_end :: int
  range_exclusive :: bool

definition range_include :: "range \<Rightarrow> int \<Rightarrow> bool" where
  "range_include r v =
     (if v < range_start r then False
      else if range_exclusive r then v < range_end r else v \<le> range_end r)"

function range_values :: "range \<Rightarrow> int \<Rightarrow> int list" where
  "range_values r v = (if range_include r v then v # range_values r (v + 1) else [])"
  by pat_completeness auto
termination
  by (relation "measure (\<lambda>(r, v). nat (range_end r + 1 - v))")
     (auto simp: range_include_def split: if_splits)

declare range_values.simps [simp del]

definition range_toArray :: "range \<Rightarrow> int list" where
  "range_toArray r = range_values r (range_start r)"

definition number_times :: "int \<Rightarrow> (int \<Rightarrow> nat \<Rightarrow> 's \<Rightarrow> 's signal) \<Rightarrow> 's \<Rightarrow> 's res" where
  "number_times n it s =
     each it (range_toArray \<lparr>range_start = 0, range_end = n, range_exclusive = True\<rparr>) s"

definition toColorPart :: "nat \<Rightarrow> ustr" where
  "toColorPart n = toPaddedString 2 16 n"

subsection \<open>Hashes\<close>

definition hash_get :: "props \<Rightarrow> ustr \<Rightarrow> val" where
  "hash_get h k =
     (case map_of h k of
        None \<Rightarrow> Undefined
      | Some v \<Rightarrow> if k \<in> set object_names \<and> v = VFun k then Undefined else v)"

definition hash_set :: "props \<Rightarrow> ustr \<Rightarrow> val \<Rightarrow> props" where
  "hash_set h k v = put k v h"

definition hash_unset :: "props \<Rightarrow> ustr \<Rightarrow> val \<times> props" where
  "hash_unset h k = ((case lookup_prop k h of None \<Rightarrow> Undefined | Some v \<Rightarrow> v), del k h)"

definition hash_keys :: "props \<Rightarrow> ustr list res" where
  "hash_keys h = pluck fst h"

definition hash_values :: "props \<Rightarrow> val list res" where
  "hash_values h = pluck snd h"

definition hash_index :: "props \<Rightarrow> val \<Rightarrow> ustr option res" where
  "hash_index h v = rbind (detect (\<lambda>p i. Inr (snd p = v)) h) (\<lambda>r. Inr (map_option fst r))"

definition hash_update :: "props \<Rightarrow> props \<Rightarrow> props res" where
  "hash_update h object =
     inject h (\<lambda>result p i. Inr (hash_set result (fst p) (snd p))) (object_clone object)"

definition hash_merge :: "props \<Rightarrow> props \<Rightarrow> props res" where
  "hash_merge h object = hash_update (object_clone h) object"

subsection \<open>Facts\<close>

lemma each_loop_append:
  assumes "each_loop f i xs s = Inr s'" and "\<And>x j t t'. f x j t \<noteq> Break t'"
  shows "each_loop f i (xs @ ys) s = each_loop f (i + length xs) ys s'"
  using assms
proof (induction xs arbitrary: i s)
  case (Cons x xs)
  then show ?case by (cases "f x i s") auto
qed simp

lemma each_loop_pure:
  assumes "\<And>x i s. f x i s = Next (g x i s)"
  shows "each_loop f i xs s = Inr (fold (\<lambda>(j, x). g x j) (enumerate i xs) s)"
  by (induction xs arbitrary: i s) (simp_all add: assms)

lemma collect_from:
  "each_loop (\<lambda>v i results. call_it (it v i) (\<lambda>y. Next (results @ [y]))) k xs acc =
     rbind (rmap (\<lambda>(i, v). it v i) (enumerate k xs)) (\<lambda>ys. Inr (acc @ ys))"
proof (induction xs arbitrary: k acc)
  case (Cons x xs)
  show ?case
  proof (cases "it x k")
    case (Inr y)
    then show ?thesis using Cons [of "Suc k" "acc @ [y]"]
      by (cases "rmap (\<lambda>(i, v). it v i) (enumerate (Suc k) xs)") (simp_all add: call_it_def)
  qed (simp add: call_it_def)
qed simp

lemma collect_rmap: "collect it xs = rmap (\<lambda>(i, v). it v i) (enumerate 0 xs)"
  unfolding collect_def each_def collect_from
  by (cases "rmap (\<lambda>(i, v). it v i) (enumerate 0 xs)") simp_all

lemma collect_pure: "collect (\<lambda>v i. Inr (f v)) xs = Inr (map f xs)"
proof -
  have "rmap (\<lambda>(i, v). Inr (f v)) (enumerate 0 xs) = Inr (map (\<lambda>(i, v). f v) (enumerate 0 xs))"
    by (rule rmap_pure) auto
  also have "map (\<lambda>(i, v). f v) (enumerate 0 xs) = map f xs"
    by (rule nth_equalityI) (auto simp: enumerate_eq_zip)
  finally show ?thesis by (simp add: collect_rmap)
qed

lemma pluck_map: "pluck f xs = Inr (map f xs)"
proof -
  have "each_loop (\<lambda>v i results. Next (results @ [f v])) k xs acc = Inr (acc @ map f xs)" for k acc
    by (induction xs arbitrary: k acc) auto
  then show ?thesis by (simp add: pluck_def each_def)
qed

lemma findAll_pure: "findAll (\<lambda>v i. Inr (P v)) xs = Inr (filter P xs)"
proof -
  have "each_loop (\<lambda>v i results. call_it (Inr (P v)) (\<lambda>b. Next (if b then results @ [v] else results))) k xs acc
      = Inr (acc @ filter P xs)" for k acc
    by (induction xs arbitrary: k acc) (auto simp: call_it_def)
  then show ?thesis by (simp add: findAll_def each_def)
qed

text \<open>\<open>detect\<close> stops at the first hit: nothing behind it is looked at.\<close>

lemma detect_from:
  assumes "\<And>k. k < length ys \<Longrightarrow> it (ys ! k) (i + k) = Inr False"
  shows "each_loop (\<lambda>v i result. call_it (it v i) (\<lambda>b. if b then Break (Some v) else Next result)) i (ys @ zs) r
    = each_loop (\<lambda>v i result. call_it (it v i) (\<lambda>b. if b then Break (Some v) else Next result)) (i + length ys) zs r"
  using assms
proof (induction ys arbitrary: i)
  case (Cons y ys)
  have "it y i = Inr False" using Cons.prems [of 0] by simp
  moreover have "it (ys ! k) (Suc i + k) = Inr False" if "k < length ys" for k
    using Cons.prems [of "Suc k"] that by simp
  ultimately show ?case using Cons.IH [of "Suc i"] by (simp add: call_it_def)
qed simp

lemma detect_hit:
  assumes "\<And>k. k < length ys \<Longrightarrow> it (ys ! k) k = Inr False" and "it v (length ys) = Inr True"
  shows "detect it (ys @ v # zs) = Inr (Some v)"
  using detect_from [of ys it 0 "v # zs" None] assms by (simp add: detect_def each_def call_it_def)

lemma detect_miss:
  assumes "\<And>k. k < length ys \<Longrightarrow> it (ys ! k) k = Inr False"
  shows "detect it ys = Inr None"
  using detect_from [of ys it 0 "[]" None] assms by (simp add: detect_def each_def)

lemma detect_throws:
  assumes "\<And>k. k < length ys \<Longrightarrow> it (ys ! k) k = Inr False" and "it v (length ys) = Inl e"
  shows "detect it (ys @ v # zs) = Inl e"
  using detect_from [of ys it 0 "v # zs" None] assms by (simp add: detect_def each_def call_it_def)

lemma insert_by_criteria: "insert_by by_criteria (v, c) ps = insort_key snd (v, c) ps"
  by (induction ps) (auto simp: by_criteria_def Let_def)

lemma array_sort_criteria: "array_sort by_criteria ps = sort_key snd ps"
proof -
  have "insert_by by_criteria = (insort_key snd :: 'a \<times> 'b \<Rightarrow> _)"
    by (intro ext) (metis insert_by_criteria prod.exhaust)
  then show ?thesis by (simp add: array_sort_def sort_key_def)
qed

lemma insort_key_map_fst:
  "insort_key snd (v, f v) (map (\<lambda>v. (v, f v)) xs) = map (\<lambda>v. (v, f v)) (insort_key f v xs)"
  by (induction xs) auto

lemma sort_key_pairs: "sort_key snd (map (\<lambda>v. (v, f v)) xs) = map (\<lambda>v. (v, f v)) (sort_key f xs)"
  by (induction xs) (simp_all add: insort_key_map_fst)

lemma sortBy_sort_key: "sortBy (\<lambda>v i. Inr (f v)) xs = Inr (sort_key f xs)"
  using collect_pure [of "\<lambda>v. (v, f v)" xs]
  by (simp add: sortBy_def array_sort_criteria sort_key_pairs pluck_map o_def)

lemma slices_concat: "0 < n \<Longrightarrow> concat (slices_from n i xs) = drop i xs"
proof (induction n i xs rule: slices_from.induct)
  case (1 n i xs)
  have "take n (drop i xs) @ drop (i + n) xs = drop i xs"
    by (metis append_take_drop_id drop_drop add.commute)
  with 1 show ?case by (subst slices_from.simps) auto
qed

lemma slices_length: "s \<in> set (slices_from n i xs) \<Longrightarrow> s \<noteq> [] \<and> length s \<le> n"
proof (induction n i xs rule: slices_from.induct)
  case (1 n i xs)
  then show ?case by (subst (asm) slices_from.simps) (auto split: if_splits)
qed

lemma slices_full:
  "0 < n \<Longrightarrow> s \<in> set (butlast (slices_from n i xs)) \<Longrightarrow> length s = n"
proof (induction n i xs rule: slices_from.induct)
  case (1 n i xs)
  show ?case
  proof (cases "length xs \<le> i + n")
    case True
    then have "slices_from n (i + n) xs = []" by (subst slices_from.simps) simp
    with 1 show ?thesis by (subst (asm) slices_from.simps) (auto split: if_splits)
  next
    case False
    then have "slices_from n (i + n) xs \<noteq> []" using 1(2) by (subst slices_from.simps) simp
    with 1 False show ?thesis by (subst (asm) slices_from.simps) (auto split: if_splits)
  qed
qed

lemma arr_indexOf_found: "arr_indexOf xs x 0 \<noteq> -1 \<longleftrightarrow> x \<in> set xs"
  by (simp add: arr_indexOf_def find_sub_single)

lemma enum_include_eq:
  assumes "\<And>a b. loose a b \<longleftrightarrow> a = b"
  shows "enum_include loose xs v = Inr (v \<in> set xs)"
proof -
  have "each_loop (\<lambda>w i found. if loose w v then Break True else Next found) k xs False = Inr (v \<in> set xs)" for k
    by (induction xs arbitrary: k) (auto simp: assms)
  then show ?thesis using arr_indexOf_found [of xs v] by (auto simp: enum_include_def each_def)
qed

lemma uniq_from:
  assumes "\<And>a b. loose a b \<longleftrightarrow> a = b"
  shows "each_loop (\<lambda>v i m. call_it (if i = 0 then Inr (m @ [v])
       else rbind (enum_include loose m v) (\<lambda>b. Inr (if \<not> b then m @ [v] else m))) Next) (Suc k) xs acc
     = Inr (fold (\<lambda>v m. if v \<in> set m then m else m @ [v]) xs acc)"
  by (induction xs arbitrary: k acc) (auto simp: call_it_def enum_include_eq [OF assms])

lemma uniq_fold:
  assumes "\<And>a b. loose a b \<longleftrightarrow> a = b"
  shows "uniq loose False xs = Inr (fold (\<lambda>v m. if v \<in> set m then m else m @ [v]) xs [])"
proof (cases xs)
  case Nil
  then show ?thesis by (simp add: uniq_def inject_def each_def)
next
  case (Cons x ys)
  then show ?thesis using uniq_from [OF assms, of 0 ys "[x]"]
    by (simp only: uniq_def inject_def each_def if_False) (simp add: call_it_def)
qed

lemma fold_uniq:
  "distinct acc \<Longrightarrow>
     distinct (fold (\<lambda>v m. if v \<in> set m then m else m @ [v]) xs acc)
   \<and> set (fold (\<lambda>v m. if v \<in> set m then m else m @ [v]) xs acc) = set acc \<union> set xs
   \<and> (\<exists>t. fold (\<lambda>v m. if v \<in> set m then m else m @ [v]) xs acc = acc @ t)"
proof (induction xs arbitrary: acc)
  case (Cons x xs)
  show ?case
  proof (cases "x \<in> set acc")
    case True
    with Cons show ?thesis by auto
  next
    case False
    then have "distinct (acc @ [x])" using Cons.prems by simp
    from Cons.IH [OF this] False show ?thesis by auto
  qed
qed simp

lemma range_values_eq:
  "range_start r \<le> v \<Longrightarrow>
     range_values r v = (if range_exclusive r then [v..range_end r - 1] else [v..range_end r])"
proof (induction r v rule: range_values.induct)
  case (1 r v)
  show ?case
  proof (cases "range_include r v")
    case True
    then have "range_values r (v + 1) = (if range_exclusive r then [v + 1..range_end r - 1] else [v + 1..range_end r])"
      using 1 by simp
    with True show ?thesis
      by (subst range_values.simps) (auto simp: range_include_def upto_rec1 split: if_splits)
  next
    case False
    with 1(2) show ?thesis by (subst range_values.simps) (auto simp: range_include_def)
  qed
qed

lemma range_toArray_eq:
  "range_toArray r = (if range_exclusive r then [range_start r..range_end r - 1] else [range_start r..range_end r])"
  by (simp add: range_toArray_def range_values_eq)

lemma hash_update_extend: "hash_update h object = Inr (object_extend h (object_clone object))"
proof -
  have "each_loop (\<lambda>p i m. call_it (Inr (hash_set m (fst p) (snd p))) Next) k ps acc
      = Inr (fold (\<lambda>(k, v) d. put k v d) ps acc)" for k ps acc
    by (induction ps arbitrary: k acc) (auto simp: call_it_def hash_set_def case_prod_beta)
  then show ?thesis by (simp add: hash_update_def inject_def each_def object_extend_def)
qed

end
