(* ===== verification/ProtoFun.thy ===== *)
theory ProtoFun
  imports ProtoEnum
begin

text \<open>
  Functions and classes of \<open>prototype.js\<close> (lines 43 to 102, 203 to 259 and 270 to 327): binding
  and currying, inheritance with \<open>$super\<close>, \<open>Try.these\<close>, and the periodical executer. A function
  takes the object it is called on and its arguments, and may throw.
\<close>

subsection \<open>Functions\<close>

type_synonym 'v jsfun = "'v \<Rightarrow> 'v list \<Rightarrow> 'v res"

text \<open>\<open>undef\<close> recognises the undefined value. Without an argument, or with the undefined value as
  the only one, \<open>bind\<close> returns the function itself.\<close>

definition bind_fun :: "('v \<Rightarrow> bool) \<Rightarrow> 'v jsfun \<Rightarrow> 'v list \<Rightarrow> 'v jsfun" where
  "bind_fun undef f args =
     (case args of
        [] \<Rightarrow> f
      | obj # rest \<Rightarrow> if rest = [] \<and> undef obj then f else (\<lambda>this actual. f obj (rest @ actual)))"

definition bindAsEventListener :: "('v \<Rightarrow> bool) \<Rightarrow> 'v \<Rightarrow> 'v jsfun \<Rightarrow> 'v \<Rightarrow> 'v list \<Rightarrow> 'v \<Rightarrow> 'v \<Rightarrow> 'v res" where
  "bindAsEventListener is_true window_event f obj args this event =
     f obj ((if is_true event then event else window_event) # args)"

definition curry_fun :: "'v jsfun \<Rightarrow> 'v list \<Rightarrow> 'v jsfun" where
  "curry_fun f args = (if args = [] then f else (\<lambda>this actual. f this (args @ actual)))"

definition wrap :: "('v jsfun \<Rightarrow> 'v jsfun) \<Rightarrow> ('v \<Rightarrow> bool) \<Rightarrow> 'v jsfun \<Rightarrow> 'v jsfun" where
  "wrap wrapper undef f = (\<lambda>this args. wrapper (bind_fun undef f [this]) this args)"

definition methodize :: "'v \<Rightarrow> 'v jsfun \<Rightarrow> 'v jsfun" where
  "methodize null f = (\<lambda>this args. f null (this # args))"

text \<open>\<open>delay\<close> and \<open>defer\<close>: the time in milliseconds and what runs then (\<open>self\<close> is the function
  itself as the object of the call). The time of \<open>delay\<close> is in hundredths of a second here.\<close>

definition delay_fun :: "'v jsfun \<Rightarrow> 'v \<Rightarrow> int \<Rightarrow> 'v list \<Rightarrow> int \<times> 'v res" where
  "delay_fun f self hundredths args = (hundredths * 10, f self args)"

definition defer_fun :: "'v jsfun \<Rightarrow> 'v \<Rightarrow> 'v list \<Rightarrow> int \<times> 'v res" where
  "defer_fun f self args = delay_fun f self 1 args"

text \<open>\<open>/^[\s\(]*function[^(]*\(([^\)]*)\)/\<close> on the source text of a function.\<close>

definition argumentNames :: "ustr \<Rightarrow> ustr list res" where
  "argumentNames text =
     (let t1 = dropWhile (\<lambda>c. is_ws c \<or> c = 40) text;
          t2 = drop 8 t1;
          t3 = dropWhile (\<lambda>c. c \<noteq> 40) t2;
          params = takeWhile (\<lambda>c. c \<noteq> 41) (drop 1 t3)
      in if \<not> starts_with (lit ''function'') t1 \<or> t3 = [] \<or> length params = length (drop 1 t3)
         then Inl TypeError
         else (let names = split_char 44 (filter (\<lambda>c. \<not> is_ws c) params)
               in Inr (if length names = 1 \<and> names ! 0 = [] then [] else names)))"

definition try_these :: "('v \<Rightarrow> 'v res) list \<Rightarrow> 'v \<Rightarrow> 'v \<Rightarrow> 'v" where
  "try_these fs arg undefined_value =
     foldr (\<lambda>f other. case f arg of Inr v \<Rightarrow> v | Inl e \<Rightarrow> other) fs undefined_value"

lemma bind_bind:
  assumes "\<not> undef a"
  shows "bind_fun undef (bind_fun undef f (a # xs)) (b # ys) =
    (if ys = [] \<and> undef b then bind_fun undef f (a # xs) else (\<lambda>this args. f a (xs @ ys @ args)))"
  using assms by (simp add: bind_fun_def)

lemma curry_curry: "curry_fun (curry_fun f xs) ys = curry_fun f (xs @ ys)"
  by (auto simp: curry_fun_def)

lemma try_these_first:
  assumes "\<forall>f \<in> set fs. \<exists>e. f x = Inl e" and "g x = Inr v"
  shows "try_these (fs @ g # gs) x u = v"
  using assms by (induction fs) (auto simp: try_these_def)

subsection \<open>Classes\<close>

text \<open>
  A class is the list of the sources passed to \<open>Class.create\<close> and its superclass. A method is a
  function and whether its first parameter is called \<open>$super\<close>; then \<open>addMethods\<close> wraps it, so
  that it gets the inherited method of the same name as its first argument.
\<close>

record 'v meth =
  m_fun :: "'v jsfun option \<Rightarrow> 'v jsfun"
  m_super :: bool

datatype 'v klass = Klass (superclass: "'v klass option") (methods: "(ustr \<times> 'v meth) list")

definition addMethods :: "'v klass \<Rightarrow> (ustr \<times> 'v meth) list \<Rightarrow> 'v klass" where
  "addMethods k source = Klass (superclass k) (fold (\<lambda>(n, m) ms. put n m ms) source (methods k))"

definition class_create :: "'v klass option \<Rightarrow> (ustr \<times> 'v meth) list list \<Rightarrow> 'v klass" where
  "class_create parent sources = fold (\<lambda>src k. addMethods k src) sources (Klass parent [])"

text \<open>The function a name resolves to on an instance: through the prototypes of the ancestors.\<close>

fun resolve :: "'v klass \<Rightarrow> ustr \<Rightarrow> 'v jsfun option" where
  "resolve (Klass parent ms) name =
     (case map_of ms name of
        None \<Rightarrow> (case parent of None \<Rightarrow> None | Some p \<Rightarrow> resolve p name)
      | Some m \<Rightarrow>
          (case parent of
             None \<Rightarrow> Some (m_fun m None)
           | Some p \<Rightarrow> if m_super m then Some (m_fun m (resolve p name)) else Some (m_fun m None)))"

lemma superclass_add [simp]: "superclass (addMethods k src) = superclass k"
  by (simp add: addMethods_def)

lemma map_of_fold_put: "map_of (fold (\<lambda>(n, m) ms. put n m ms) src ms) n =
    (case map_of (rev src) n of None \<Rightarrow> map_of ms n | Some m \<Rightarrow> Some m)"
  by (induction src arbitrary: ms) (auto simp: map_add_def split: option.splits)

lemma class_create_super [simp]: "superclass (class_create parent sources) = parent"
proof -
  have "superclass (fold (\<lambda>src k. addMethods k src) sources k) = superclass k" for k :: "'a klass"
    by (induction sources arbitrary: k) auto
  then show ?thesis by (simp add: class_create_def)
qed

lemma class_create_methods:
  "map_of (methods (class_create parent sources)) n = map_of (rev (concat sources)) n"
proof -
  have "map_of (methods (fold (\<lambda>src k. addMethods k src) sources k)) n =
      (case map_of (rev (concat sources)) n of None \<Rightarrow> map_of (methods k) n | Some m \<Rightarrow> Some m)" for k :: "'a klass"
    by (induction sources arbitrary: k)
       (auto simp: addMethods_def map_of_fold_put map_add_def split: option.splits)
  from this [of "Klass parent []"] show ?thesis
    by (auto simp: class_create_def split: option.splits)
qed

lemma resolve_create:
  "resolve (class_create parent sources) n =
     (case map_of (rev (concat sources)) n of
        None \<Rightarrow> Option.bind parent (\<lambda>p. resolve p n)
      | Some m \<Rightarrow> Some (m_fun m (if m_super m then Option.bind parent (\<lambda>p. resolve p n) else None)))"
proof -
  let ?k = "class_create parent sources"
  have k: "?k = Klass parent (methods ?k)"
    by (metis class_create_super klass.collapse)
  show ?thesis
    by (subst k) (auto simp: class_create_methods split: option.splits)
qed

subsection \<open>The periodical executer\<close>

record 's executer =
  pe_timer :: bool
  pe_executing :: bool
  pe_client :: 's
  pe_calls :: nat

text \<open>\<open>cb\<close> is the callback: it gets the executer, may stop it, may run the event loop again, may
  throw. \<open>finally\<close> resets the flag in every case.\<close>

definition pe_stop :: "'s executer \<Rightarrow> 's executer" where
  "pe_stop p = (if \<not> pe_timer p then p else p\<lparr>pe_timer := False\<rparr>)"

definition pe_execute :: "('s executer \<Rightarrow> 's executer \<times> js_error option) \<Rightarrow> 's executer \<Rightarrow> 's executer \<times> js_error option" where
  "pe_execute cb p = cb (p\<lparr>pe_calls := Suc (pe_calls p)\<rparr>)"

definition pe_onTimerEvent :: "('s executer \<Rightarrow> 's executer \<times> js_error option) \<Rightarrow> 's executer \<Rightarrow> 's executer \<times> js_error option" where
  "pe_onTimerEvent cb p =
     (if \<not> pe_executing p then
        (let (p1, x) = pe_execute cb (p\<lparr>pe_executing := True\<rparr>) in (p1\<lparr>pe_executing := False\<rparr>, x))
      else (p, None))"

definition pe_init :: "'s \<Rightarrow> 's executer" where
  "pe_init s = \<lparr>pe_timer = True, pe_executing = False, pe_client = s, pe_calls = 0\<rparr>"

text \<open>The interval fires: nothing happens once the timer is cleared.\<close>

definition pe_tick :: "('s executer \<Rightarrow> 's executer \<times> js_error option) \<Rightarrow> 's executer \<Rightarrow> 's executer" where
  "pe_tick cb p = (if pe_timer p then fst (pe_onTimerEvent cb p) else p)"

lemma pe_reentrant:
  "pe_executing p \<Longrightarrow> pe_onTimerEvent cb p = (p, None)"
  by (simp add: pe_onTimerEvent_def)

lemma pe_idle_after: "\<not> pe_executing p \<Longrightarrow> \<not> pe_executing (fst (pe_onTimerEvent cb p))"
  by (simp add: pe_onTimerEvent_def case_prod_beta)

lemma pe_ticks_idle: "\<not> pe_executing p \<Longrightarrow> \<not> pe_executing ((pe_tick cb ^^ n) p)"
  by (induction n) (auto simp: pe_tick_def pe_idle_after)

lemma pe_stopped_silent: "\<not> pe_timer p \<Longrightarrow> (pe_tick cb ^^ n) p = p"
  by (induction n) (auto simp: pe_tick_def)

end
