(* ===== verification/ProtoTemplate.thy ===== *)
theory ProtoTemplate
  imports ProtoEnum
begin

text \<open>
  \<open>Template\<close> of \<open>prototype.js\<close> (lines 545 to 549 and 560 to 593): every \<open>#{path}\<close> of a text is
  replaced by the value the path leads to in an object. The pattern takes the character before
  along: a backslash there keeps the placeholder as text.
\<close>

definition line_end :: "jchar \<Rightarrow> bool" where
  "line_end c \<longleftrightarrow> c \<in> {10, 13, 0x2028, 0x2029}"

text \<open>\<open>#\{(.*?)\}\<close> at the beginning of a string: the text between the braces.\<close>

definition expr_here :: "ustr \<Rightarrow> ustr option" where
  "expr_here s =
     (case s of
        c # d # r \<Rightarrow>
          (let body = takeWhile (\<lambda>x. x \<noteq> 125 \<and> \<not> line_end x) r; rest = drop (length body) r in
           if c = 35 \<and> d = 123 \<and> rest \<noteq> [] \<and> hd rest = 125 then Some body else None)
      | _ \<Rightarrow> None)"

definition placeholder :: "ustr \<Rightarrow> ustr" where
  "placeholder body = [35, 123] @ body @ [125]"

text \<open>\<open>/(^|.|\r|\n)(#\{(.*?)\})/\<close>: behind the first character that one of the alternatives takes.\<close>

fun behind_char :: "ustr \<Rightarrow> (nat \<times> groups) option" where
  "behind_char [] = None"
| "behind_char (c # cs) =
     (case (if c = 0x2028 \<or> c = 0x2029 then None else expr_here cs) of
        Some body \<Rightarrow> Some (0, [Some (c # placeholder body), Some [c], Some (placeholder body), Some body])
      | None \<Rightarrow> map_option (\<lambda>(i, gs). (Suc i, gs)) (behind_char cs))"

definition template_matcher :: matcher where
  "template_matcher s =
     (case expr_here s of
        Some body \<Rightarrow> Some (0, [Some (placeholder body), Some [], Some (placeholder body), Some body])
      | None \<Rightarrow> behind_char s)"

subsection \<open>Paths\<close>

text \<open>
  One component of a path, \<open>/^([^.[]+|\[((?:.*?[^\\])?)\])(\.|\[|$)/\<close>: its text, the delimiter
  behind it and what is left of the path. In brackets the content is the shortest one that is
  empty or does not end in a backslash and whose bracket is followed by a delimiter.
\<close>

definition delimiter_ok :: "ustr \<Rightarrow> bool" where
  "delimiter_ok r \<longleftrightarrow> r = [] \<or> hd r = 46 \<or> hd r = 91"

definition bracket_ok :: "ustr \<Rightarrow> nat \<Rightarrow> bool" where
  "bracket_ok r k \<longleftrightarrow> k < length r \<and> r ! k = 93 \<and> delimiter_ok (drop (Suc k) r)
     \<and> (k = 0 \<or> (r ! (k - 1) \<noteq> backslash \<and> list_all (\<lambda>c. \<not> line_end c) (take (k - 1) r)))"

definition after_delimiter :: "ustr \<Rightarrow> ustr" where
  "after_delimiter r = (if take 1 r = [91] then r else drop 1 r)"

definition path_step :: "ustr \<Rightarrow> (ustr \<times> ustr \<times> ustr) option" where
  "path_step expr =
     (case expr of
        [] \<Rightarrow> None
      | c # r \<Rightarrow>
          if c = 46 then None
          else if c = 91 then
            (case filter (bracket_ok r) [0..<length r] of
               [] \<Rightarrow> None
             | k # _ \<Rightarrow>
                 Some (replace_all (lit_here [backslash, 93]) [93] (take k r), take 1 (drop (Suc k) r),
                       after_delimiter (drop (Suc k) r)))
          else
            (let run = takeWhile (\<lambda>x. x \<noteq> 46 \<and> x \<noteq> 91) r; left = drop (length run) r
             in Some (c # run, take 1 left, after_delimiter left)))"

text \<open>\<open>ctx[cname]\<close> of a value that is neither null nor undefined.\<close>

definition index_of_text :: "ustr \<Rightarrow> nat option" where
  "index_of_text t =
     (case unsigned_number t of None \<Rightarrow> None | Some n \<Rightarrow> if nat_str (nat n) = t then Some (nat n) else None)"

definition member :: "val \<Rightarrow> ustr \<Rightarrow> val" where
  "member ctx cname =
     (case ctx of
        VObj ps \<Rightarrow> (case lookup_prop cname ps of None \<Rightarrow> Undefined | Some v \<Rightarrow> v)
      | VArr vs \<Rightarrow>
          if cname = lit ''length'' then VNum (int (length vs))
          else (case index_of_text cname of
                  Some i \<Rightarrow> if i < length vs then vs ! i else Undefined | None \<Rightarrow> Undefined)
      | VStr t \<Rightarrow>
          if cname = lit ''length'' then VNum (int (length t))
          else (case index_of_text cname of
                  Some i \<Rightarrow> if i < length t then VStr [t ! i] else Undefined | None \<Rightarrow> Undefined)
      | _ \<Rightarrow> Undefined)"

lemma path_step_shorter: "path_step expr = Some (cname, d, rest) \<Longrightarrow> d \<noteq> [] \<Longrightarrow> length rest < length expr"
  by (auto simp: path_step_def Let_def after_delimiter_def split: list.splits if_splits)

function walk :: "val \<Rightarrow> ustr \<Rightarrow> val" where
  "walk ctx expr =
     (case path_step expr of
        None \<Rightarrow> ctx
      | Some (cname, d, rest) \<Rightarrow>
          let v = member ctx cname in
          if v = Null \<or> v = Undefined \<or> d = [] then v else walk v rest)"
  by pat_completeness auto
termination
  by (relation "measure (\<lambda>(c, e). length e)") (auto dest: path_step_shorter)

declare walk.simps [simp del]

subsection \<open>Evaluation\<close>

definition template_value :: "val \<Rightarrow> groups \<Rightarrow> ustr" where
  "template_value object gs =
     (if object = Null \<or> object = Undefined then []
      else
        let before = group 1 gs in
        if before = [backslash] then group 2 gs
        else if path_step (group 3 gs) = None then before
        else before @ interpret_val (walk object (group 3 gs)))"

definition to_replacements :: "val \<Rightarrow> val" where
  "to_replacements v = (case v of VHash ps \<Rightarrow> VObj (object_clone ps) | _ \<Rightarrow> v)"

definition template_evaluate :: "ustr \<Rightarrow> val \<Rightarrow> ustr option" where
  "template_evaluate template object = gsub template_matcher (template_value (to_replacements object)) template"

subsection \<open>Facts\<close>

lemma behind_char_consumes: "behind_char s = Some (i, gs) \<Longrightarrow> group 0 gs \<noteq> []"
  by (induction s arbitrary: i) (auto simp: group_def split: option.splits if_splits)

lemma template_matcher_consuming: "consuming template_matcher"
  by (auto simp: consuming_def template_matcher_def group_def placeholder_def dest: behind_char_consumes
      split: option.splits)

lemma template_returns: "\<exists>t. template_evaluate template object = Some t"
  unfolding template_evaluate_def using template_matcher_consuming by (rule gsub_returns)

lemma expr_here_None: "35 \<notin> set s \<Longrightarrow> expr_here s = None"
  by (auto simp: expr_here_def Let_def split: list.splits)

lemma behind_char_None: "35 \<notin> set s \<Longrightarrow> behind_char s = None"
  by (induction s) (auto simp: expr_here_None)

lemma template_no_placeholder: "35 \<notin> set s \<Longrightarrow> template_evaluate s object = Some s"
  unfolding template_evaluate_def gsub_def
  by (subst gsub_loop.simps) (simp add: template_matcher_def expr_here_None behind_char_None)

definition plain_name :: "ustr \<Rightarrow> bool" where
  "plain_name n \<longleftrightarrow> n \<noteq> [] \<and> (\<forall>c \<in> set n. c \<notin> {46, 91, 125} \<and> \<not> line_end c)"

lemma expr_here_placeholder:
  assumes "plain_name n"
  shows "expr_here (placeholder n @ rest) = Some n"
proof -
  have "takeWhile (\<lambda>x. x \<noteq> 125 \<and> \<not> line_end x) (n @ 125 # rest) = n"
    using assms unfolding plain_name_def by (induction n) auto
  then show ?thesis by (simp add: expr_here_def placeholder_def Let_def)
qed

lemma path_step_name:
  assumes "plain_name n"
  shows "path_step n = Some (n, [], [])"
proof -
  obtain c r where n: "n = c # r" using assms by (cases n) (auto simp: plain_name_def)
  have run: "takeWhile (\<lambda>x. x \<noteq> 46 \<and> x \<noteq> 91) r = r"
    using assms unfolding plain_name_def n by (intro takeWhile_all) auto
  have "c \<noteq> 46" "c \<noteq> 91" using assms by (simp_all add: plain_name_def n)
  then show ?thesis unfolding n path_step_def list.case Let_def run by (simp add: after_delimiter_def)
qed

lemma template_value_name:
  assumes "plain_name n" and "b \<noteq> [backslash]" and "35 \<notin> set b"
  shows "template_value (VObj ps) [w, Some b, p, Some n] = b @ interpret_val (member (VObj ps) n)"
  using path_step_name [OF assms(1)] assms(2)
  by (simp add: template_value_def group_def Let_def walk.simps [of "VObj ps" n])

lemma behind_char_placeholder:
  assumes "35 \<notin> set a" and "c \<noteq> 35" and "c \<notin> {0x2028, 0x2029}" and "plain_name n"
  shows "behind_char (a @ c # placeholder n @ rest) =
    Some (length a, [Some (c # placeholder n), Some [c], Some (placeholder n), Some n])"
  using assms(1)
proof (induction a)
  case Nil
  then show ?case using assms(3) expr_here_placeholder [OF assms(4), of rest] by simp
next
  case (Cons x a)
  have "expr_here (a @ c # placeholder n @ rest) = None"
  proof (cases a)
    case Nil
    then show ?thesis using assms(2) by (simp add: expr_here_def split: list.split)
  next
    case (Cons y b)
    then have "y \<noteq> 35" using Cons.prems by auto
    then show ?thesis using Cons by (simp add: expr_here_def split: list.split)
  qed
  then show ?case using Cons by simp
qed

end
