(* ===== verification/ProtoAjax.thy ===== *)
theory ProtoAjax
  imports ProtoTemplate
begin

text \<open>
  \<open>Ajax\<close> of \<open>prototype.js\<close> (lines 1122 to 1512): the responders and their count of active
  requests, the life of one request as a state machine driven by the transport, the
  interpretation of the answer, and the periodical updater. \<open>callback\<close> says of a name such as
  \<open>onSuccess\<close> whether the options hold a callback of that name and how it ends.
\<close>

subsection \<open>Responders\<close>

definition register_responder :: "'r \<Rightarrow> 'r list \<Rightarrow> 'r list" where
  "register_responder r rs =
     (case enum_include (=) rs r of Inr True \<Rightarrow> rs | _ \<Rightarrow> rs @ [r])"

definition unregister_responder :: "'r \<Rightarrow> 'r list \<Rightarrow> 'r list" where
  "unregister_responder r rs = (case without (=) [r] rs of Inr ys \<Rightarrow> ys | Inl e \<Rightarrow> rs)"

text \<open>\<open>dispatch\<close>: each responder in turn; what one throws is dropped.\<close>

definition dispatch :: "('r \<Rightarrow> 's \<Rightarrow> 's \<times> js_error option) \<Rightarrow> 'r list \<Rightarrow> 's \<Rightarrow> 's" where
  "dispatch act rs s = fold (\<lambda>r t. fst (act r t)) rs s"

lemma register_set: "set (register_responder r rs) = insert r (set rs)"
  by (auto simp: register_responder_def enum_include_eq split: sum.split bool.split)

lemma register_distinct: "distinct rs \<Longrightarrow> distinct (register_responder r rs)"
  by (auto simp: register_responder_def enum_include_eq split: sum.split bool.split)

lemma unregister_set: "set (unregister_responder r rs) = set rs - {r}"
proof -
  have "without (=) [r] rs = findAll (\<lambda>v i. Inr (v \<noteq> r)) rs"
    by (simp add: without_def enum_include_eq)
  then show ?thesis by (auto simp: unregister_responder_def findAll_pure)
qed

subsection \<open>Options and the request\<close>

record ajax_options =
  o_method :: ustr
  o_asynchronous :: bool
  o_contentType :: ustr
  o_encoding :: ustr
  o_parameters :: props
  o_evalJSON :: "ustr option"
  o_evalJS :: "ustr option"
  o_postBody :: "ustr option"
  o_requestHeaders :: "(ustr \<times> ustr) list"
  o_sanitizeJSON :: bool

datatype parameters_arg = ParamText ustr | ParamHash props | ParamObject props

definition base_parameters :: "parameters_arg \<Rightarrow> props res" where
  "base_parameters p =
     (case p of
        ParamText t \<Rightarrow> toQueryParams 38 t
      | ParamHash h \<Rightarrow> Inr (object_clone h)
      | ParamObject h \<Rightarrow> Inr h)"

definition base_options :: "(ustr \<Rightarrow> ustr) \<Rightarrow> parameters_arg \<Rightarrow> ajax_options \<Rightarrow> ajax_options res" where
  "base_options toLower p opts =
     rbind (base_parameters p) (\<lambda>h. Inr (opts\<lparr>o_method := toLower (o_method opts), o_parameters := h\<rparr>))"

record prepared =
  p_method :: ustr
  p_url :: ustr
  p_body :: "ustr option"
  p_parameters :: props

text \<open>The first part of \<open>request\<close>: method, address and body. \<open>webkit\<close> is the test of the user
  agent.\<close>

definition prepare :: "bool \<Rightarrow> ustr \<Rightarrow> ajax_options \<Rightarrow> prepared res" where
  "prepare webkit url opts =
     (let known = o_method opts \<in> {lit ''get'', lit ''post''};
          meth = (if known then o_method opts else lit ''post'');
          params = (if known then object_clone (o_parameters opts)
                    else put (lit ''_method'') (VStr (o_method opts)) (object_clone (o_parameters opts)))
      in rbind (toQueryString params) (\<lambda>q.
         let url' = (if q \<noteq> [] \<and> meth = lit ''get''
                     then url @ (if string_include url [63] then [38] else [63]) @ q else url);
             q' = (if q \<noteq> [] \<and> meth \<noteq> lit ''get'' \<and> webkit then q @ lit ''&_='' else q)
         in Inr \<lparr>p_method = meth, p_url = url',
                 p_body = (if meth = lit ''post''
                           then Some (case o_postBody opts of None \<Rightarrow> q' | Some b \<Rightarrow> if b = [] then q' else b)
                           else None),
                 p_parameters = params\<rparr>))"

text \<open>\<open>old_gecko\<close>: the transport can override the MIME type and the browser is older than 2005.\<close>

definition request_headers :: "bool \<Rightarrow> ustr \<Rightarrow> ajax_options \<Rightarrow> (ustr \<times> ustr) list" where
  "request_headers old_gecko meth opts =
     (let h0 = [(lit ''X-Requested-With'', lit ''XMLHttpRequest''), (lit ''X-Prototype-Version'', lit ''1.6.0.3''),
                (lit ''Accept'', lit ''text/javascript, text/html, application/xml, text/xml, */*'')];
          h1 = (if meth = lit ''post''
                then put (lit ''Content-type'')
                       (o_contentType opts @ (if o_encoding opts \<noteq> [] then lit ''; charset='' @ o_encoding opts else [])) h0
                else h0);
          h2 = (if meth = lit ''post'' \<and> old_gecko then put (lit ''Connection'') (lit ''close'') h1 else h1)
      in object_extend h2 (o_requestHeaders opts))"

subsection \<open>The life of a request\<close>

record conn =
  c_status :: int
  c_complete :: bool
  c_attached :: bool
  c_active :: int
  c_log :: "ustr list"

type_synonym callbacks = "ustr \<Rightarrow> js_error option option"

definition state_name :: "nat \<Rightarrow> ustr" where
  "state_name n = map lit [''Uninitialized'', ''Loading'', ''Loaded'', ''Interactive'', ''Complete''] ! n"

definition log_cb :: "ustr \<Rightarrow> conn \<Rightarrow> conn" where
  "log_cb name s = s\<lparr>c_log := c_log s @ [name]\<rparr>"

text \<open>A callback that the options do not hold is the empty function.\<close>

definition run_cb :: "callbacks \<Rightarrow> ustr \<Rightarrow> conn \<Rightarrow> conn \<times> js_error option" where
  "run_cb callback name s =
     (case callback name of None \<Rightarrow> (s, None) | Some x \<Rightarrow> (log_cb name s, x))"

text \<open>The global responder counts requests; an exception of \<open>onException\<close> itself is not caught.\<close>

definition dispatchException :: "callbacks \<Rightarrow> conn \<Rightarrow> conn \<times> js_error option" where
  "dispatchException callback s = run_cb callback (lit ''onException'') s"

definition catching :: "callbacks \<Rightarrow> conn \<times> js_error option \<Rightarrow> conn \<times> js_error option" where
  "catching callback r = (case snd r of None \<Rightarrow> r | Some e \<Rightarrow> dispatchException callback (fst r))"

definition success :: "int \<Rightarrow> bool" where
  "success status \<longleftrightarrow> status = 0 \<or> (200 \<le> status \<and> status < 300)"

definition outcome_cb :: "callbacks \<Rightarrow> conn \<Rightarrow> ustr" where
  "outcome_cb callback s =
     (if callback (lit ''on'' @ int_str (c_status s)) \<noteq> None then lit ''on'' @ int_str (c_status s)
      else if success (c_status s) then lit ''onSuccess'' else lit ''onFailure'')"

text \<open>\<open>script\<close>: whether the answer is a script to be evaluated, and how that ends.\<close>

definition respondToReadyState :: "callbacks \<Rightarrow> js_error option option \<Rightarrow> nat \<Rightarrow> conn \<Rightarrow> conn \<times> js_error option" where
  "respondToReadyState callback script readyState s =
     (let first = (if readyState \<noteq> 4 then (s, None)
                   else let s1 = s\<lparr>c_complete := True\<rparr>;
                            r1 = catching callback (run_cb callback (outcome_cb callback s1) s1)
                        in case snd r1 of
                             Some e \<Rightarrow> r1
                           | None \<Rightarrow> (case script of None \<Rightarrow> r1 | Some x \<Rightarrow> catching callback (fst r1, x)))
      in case snd first of
           Some e \<Rightarrow> first
         | None \<Rightarrow>
             (let r2 = run_cb callback (lit ''on'' @ state_name readyState) (fst first);
                  r3 = (case snd r2 of
                          Some e \<Rightarrow> dispatchException callback (fst r2)
                        | None \<Rightarrow> (if readyState = 4 then (fst r2)\<lparr>c_active := c_active (fst r2) - 1\<rparr> else fst r2, None))
              in case snd r3 of
                   Some e \<Rightarrow> r3
                 | None \<Rightarrow> (if readyState = 4 then (fst r3)\<lparr>c_attached := False\<rparr> else fst r3, None)))"

definition onStateChange :: "callbacks \<Rightarrow> js_error option option \<Rightarrow> nat \<Rightarrow> conn \<Rightarrow> conn" where
  "onStateChange callback script readyState s =
     (if readyState > 1 \<and> \<not> (readyState = 4 \<and> c_complete s)
      then fst (respondToReadyState callback script readyState s) else s)"

text \<open>What happens to a request: the transport reports a state, or the deferred first call runs.\<close>

datatype ajax_event = Report nat | DeferredLoading

definition ajax_step :: "callbacks \<Rightarrow> js_error option option \<Rightarrow> ajax_event \<Rightarrow> conn \<Rightarrow> conn" where
  "ajax_step callback script ev s =
     (case ev of
        Report n \<Rightarrow> if c_attached s then onStateChange callback script n s else s
      | DeferredLoading \<Rightarrow> fst (respondToReadyState callback script 1 s))"

definition created :: "int \<Rightarrow> int \<Rightarrow> conn" where
  "created status active =
     \<lparr>c_status = status, c_complete = False, c_attached = True, c_active = active + 1, c_log = []\<rparr>"

lemma run_cb_frame [simp]:
  "c_active (fst (run_cb cb n s)) = c_active s" "c_complete (fst (run_cb cb n s)) = c_complete s"
  "c_attached (fst (run_cb cb n s)) = c_attached s" "c_status (fst (run_cb cb n s)) = c_status s"
  by (simp_all add: run_cb_def log_cb_def split: option.split)

lemma catching_frame [simp]:
  "c_active (fst (catching cb r)) = c_active (fst r)" "c_complete (fst (catching cb r)) = c_complete (fst r)"
  "c_attached (fst (catching cb r)) = c_attached (fst r)" "c_status (fst (catching cb r)) = c_status (fst r)"
  by (simp_all add: catching_def dispatchException_def split: option.split)

lemma respond_early:
  assumes "n \<noteq> 4"
  shows "c_active (fst (respondToReadyState cb script n s)) = c_active s"
    and "c_complete (fst (respondToReadyState cb script n s)) = c_complete s"
    and "c_attached (fst (respondToReadyState cb script n s)) = c_attached s"
  using assms by (simp_all add: respondToReadyState_def dispatchException_def Let_def split: option.split)

lemma respond_complete:
  "c_complete (fst (respondToReadyState cb script 4 s))"
  "c_active s - 1 \<le> c_active (fst (respondToReadyState cb script 4 s))"
  "c_active (fst (respondToReadyState cb script 4 s)) \<le> c_active s"
  by (simp_all add: respondToReadyState_def dispatchException_def Let_def split: option.split)

definition counted :: "int \<Rightarrow> conn \<Rightarrow> bool" where
  "counted base s \<longleftrightarrow> (if c_complete s then base \<le> c_active s \<and> c_active s \<le> base + 1 else c_active s = base + 1)"

lemma ajax_step_counted: "counted base s \<Longrightarrow> counted base (ajax_step cb script ev s)"
proof (cases ev)
  case (Report n)
  assume c: "counted base s"
  show ?thesis
  proof (cases "n = 4")
    case True
    show ?thesis
    proof (cases "c_complete s")
      case True
      with c Report \<open>n = 4\<close> show ?thesis by (simp add: ajax_step_def onStateChange_def)
    next
      case False
      then have "c_active s = base + 1" using c by (simp add: counted_def)
      then have "counted base (fst (respondToReadyState cb script 4 s))"
        using respond_complete [where cb = cb and script = script and s = s] by (simp add: counted_def)
      with False c Report \<open>n = 4\<close> show ?thesis by (simp add: ajax_step_def onStateChange_def)
    qed
  next
    case False
    then show ?thesis using c Report respond_early [OF False, where cb = cb and script = script and s = s]
      by (simp add: ajax_step_def onStateChange_def counted_def)
  qed
next
  case DeferredLoading
  assume "counted base s"
  then show ?thesis using DeferredLoading respond_early [where n = 1 and cb = cb and script = script and s = s]
    by (simp add: ajax_step_def counted_def)
qed

text \<open>How often \<open>onComplete\<close> has been called.\<close>

definition complete_calls :: "conn \<Rightarrow> nat" where
  "complete_calls s = length (filter (\<lambda>n. n = lit ''onComplete'') (c_log s))"

lemma calls_run_cb:
  "complete_calls (fst (run_cb cb n s))
     = complete_calls s + (if cb n \<noteq> None \<and> n = lit ''onComplete'' then 1 else 0)"
  by (cases "cb n") (auto simp: run_cb_def log_cb_def complete_calls_def)

lemma calls_dispatch [simp]: "complete_calls (fst (dispatchException cb s)) = complete_calls s"
  by (simp add: dispatchException_def calls_run_cb js_simps)

lemma calls_catching [simp]: "complete_calls (fst (catching cb r)) = complete_calls (fst r)"
  by (simp add: catching_def split: option.split)

lemma calls_frame [simp]:
  "complete_calls (s\<lparr>c_active := a\<rparr>) = complete_calls s" "complete_calls (s\<lparr>c_attached := b\<rparr>) = complete_calls s"
  "complete_calls (s\<lparr>c_complete := b\<rparr>) = complete_calls s"
  by (simp_all add: complete_calls_def)

lemma status_not_complete: "lit ''on'' @ int_str i \<noteq> lit ''onComplete''"
proof
  assume "lit ''on'' @ int_str i = lit ''onComplete''"
  then have i: "int_str i = lit ''Complete''" by (simp add: js_simps)
  then have "67 \<in> set (int_str i)" by (simp add: js_simps)
  then show False by (auto simp: int_str_def dest: nat_str_digits split: if_splits)
qed

lemma outcome_not_complete: "outcome_cb cb s \<noteq> lit ''onComplete''"
  using status_not_complete [of "c_status s"] by (auto simp: outcome_cb_def js_simps)

lemma calls_early:
  assumes "n < 4"
  shows "complete_calls (fst (respondToReadyState cb script n s)) = complete_calls s"
proof -
  have "n \<in> {0, 1, 2, 3}" using assms by auto
  then have n: "lit ''on'' @ state_name n \<noteq> lit ''onComplete''"
    by (auto simp: state_name_def js_simps numeral_2_eq_2 numeral_3_eq_3)
  have "fst (respondToReadyState cb script n s) =
      (let r = run_cb cb (lit ''on'' @ state_name n) s
       in case snd r of None \<Rightarrow> fst r | Some e \<Rightarrow> fst (dispatchException cb (fst r)))"
    using assms by (simp add: respondToReadyState_def Let_def split: option.split)
  then show ?thesis using n by (simp add: calls_run_cb Let_def split: option.split)
qed

lemma calls_complete: "complete_calls (fst (respondToReadyState cb script 4 s)) \<le> Suc (complete_calls s)"
  using outcome_not_complete [of cb "s\<lparr>c_complete := True\<rparr>"]
  by (auto simp: respondToReadyState_def calls_run_cb Let_def split: option.split)

definition request_ok :: "int \<Rightarrow> conn \<Rightarrow> bool" where
  "request_ok base s \<longleftrightarrow> counted base s \<and> complete_calls s \<le> (if c_complete s then 1 else 0)"

definition transport_event :: "ajax_event \<Rightarrow> bool" where
  "transport_event ev = (case ev of Report n \<Rightarrow> n \<le> 4 | DeferredLoading \<Rightarrow> True)"

lemma request_step_ok:
  assumes r: "request_ok base s" and ev: "transport_event ev"
  shows "request_ok base (ajax_step cb script ev s)"
proof -
  have c: "counted base (ajax_step cb script ev s)" using r by (simp add: request_ok_def ajax_step_counted)
  have e: "request_ok base (fst (respondToReadyState cb script n s))" if "n < 4" for n
    using r that respond_early [of n cb script s]
    by (simp add: request_ok_def calls_early counted_def)
  show ?thesis
  proof (cases ev)
    case DeferredLoading
    then show ?thesis using e by (simp add: ajax_step_def)
  next
    case (Report n)
    consider "n < 4" | "n = 4" using ev Report by (fastforce simp: transport_event_def)
    then show ?thesis
    proof cases
      case 1
      then show ?thesis using e r Report by (simp add: ajax_step_def onStateChange_def)
    next
      case 2
      show ?thesis
      proof (cases "c_attached s \<and> \<not> c_complete s")
        case True
        then have "ajax_step cb script ev s = fst (respondToReadyState cb script 4 s)"
          by (simp add: ajax_step_def onStateChange_def Report 2)
        moreover have "complete_calls s = 0" using r True by (simp add: request_ok_def)
        ultimately show ?thesis using c calls_complete [of cb script s] respond_complete(1) [of cb script s]
          by (simp add: request_ok_def)
      next
        case False
        then have "ajax_step cb script ev s = s" by (auto simp: ajax_step_def onStateChange_def Report 2)
        then show ?thesis using r by simp
      qed
    qed
  qed
qed

interpretation request: event_machine "ajax_step cb script" "request_ok base" transport_event for cb script base
  by unfold_locales (rule request_step_ok)

lemma created_ok: "request_ok base (created status base)"
  by (simp add: request_ok_def counted_def created_def complete_calls_def)

text \<open>The count goes back unless a callback throws.\<close>

lemma complete_releases:
  assumes "cb (lit ''onComplete'') \<in> {None, Some None}" and "cb (lit ''onException'') \<in> {None, Some None}"
  shows "c_active (fst (respondToReadyState cb script 4 s)) = c_active s - 1"
proof -
  have x: "snd (dispatchException cb t) = None" for t
    using assms(2) by (auto simp: dispatchException_def run_cb_def split: option.split)
  have c: "snd (catching cb r) = None" for r
    using x by (simp add: catching_def split: option.split)
  have n: "snd (run_cb cb (lit ''on'' @ state_name 4) t) = None" for t
    using assms(1) by (auto simp: run_cb_def state_name_def js_simps split: option.split)
  show ?thesis by (simp add: respondToReadyState_def c n Let_def split: option.split)
qed

lemma complete_leaks:
  assumes "cb (lit ''onComplete'') = Some (Some e)"
  shows "c_active (fst (respondToReadyState cb script 4 s)) = c_active s"
proof -
  have n: "snd (run_cb cb (lit ''on'' @ state_name 4) t) = Some e" for t
    using assms by (simp add: run_cb_def state_name_def js_simps)
  show ?thesis by (simp add: respondToReadyState_def dispatchException_def n Let_def split: option.split)
qed

subsection \<open>The answer\<close>

text \<open>\<open>/^\s*https?:\/\/[^\/]*/\<close>: protocol and host of an address.\<close>

definition origin_of :: "ustr \<Rightarrow> ustr option" where
  "origin_of url =
     (let ws = takeWhile is_ws url; u = dropWhile is_ws url;
          p = (if starts_with (lit ''https://'') u then Some (8 :: nat)
               else if starts_with (lit ''http://'') u then Some 7 else None)
      in map_option (\<lambda>k. ws @ take k u @ takeWhile (\<lambda>c. c \<noteq> 47) (drop k u)) p)"

definition isSameOrigin :: "ustr \<Rightarrow> ustr \<Rightarrow> ustr \<Rightarrow> ustr \<Rightarrow> bool" where
  "isSameOrigin protocol domain port url =
     (case origin_of url of
        None \<Rightarrow> True
      | Some m \<Rightarrow> m = protocol @ lit ''//'' @ domain @ (if port \<noteq> [] then [58] @ port else []))"

definition response_json :: "(ustr \<Rightarrow> val res) \<Rightarrow> ajax_options \<Rightarrow> bool \<Rightarrow> ustr \<Rightarrow> ustr \<Rightarrow> val res" where
  "response_json ev opts same_origin content_type text =
     (if o_evalJSON opts = None
         \<or> (o_evalJSON opts \<noteq> Some (lit ''force'') \<and> \<not> string_include content_type (lit ''application/json''))
         \<or> blank text
      then Inr Null
      else evalJSON ev (o_sanitizeJSON opts \<or> \<not> same_origin) text)"

text \<open>The container of an updater: one element, or one for each outcome.\<close>

datatype 'd container = Single 'd | ByOutcome 'd "'d option"

definition receiver_of :: "'d container \<Rightarrow> bool \<Rightarrow> 'd option" where
  "receiver_of cont ok =
     (case cont of
        Single d \<Rightarrow> Some d
      | ByOutcome s f \<Rightarrow> if ok then Some s else f)"

definition update_text :: "bool \<Rightarrow> ustr \<Rightarrow> ustr" where
  "update_text eval_scripts responseText = (if eval_scripts then responseText else stripScripts responseText)"

subsection \<open>The periodical updater\<close>

datatype updater_phase = Waiting int | InFlight | Stopped

record updater =
  u_decay :: int
  u_option_decay :: int
  u_frequency :: int
  u_lastText :: "ustr option"
  u_phase :: updater_phase
  u_requests :: nat

text \<open>Zero stands for an option that is missing.\<close>

definition updater_request :: "updater \<Rightarrow> updater" where
  "updater_request u = u\<lparr>u_phase := InFlight, u_requests := Suc (u_requests u)\<rparr>"

definition updater_init :: "int \<Rightarrow> int \<Rightarrow> updater" where
  "updater_init frequency decay =
     updater_request \<lparr>u_decay = (if decay = 0 then 1 else decay), u_option_decay = decay,
       u_frequency = (if frequency = 0 then 2 else frequency), u_lastText = None, u_phase = Stopped, u_requests = 0\<rparr>"

definition updateComplete :: "ustr \<Rightarrow> updater \<Rightarrow> updater" where
  "updateComplete text u =
     (let u1 = (if u_option_decay u \<noteq> 0
                then u\<lparr>u_decay := (if Some text = u_lastText u then u_decay u * u_option_decay u else 1),
                       u_lastText := Some text\<rparr>
                else u)
      in u1\<lparr>u_phase := Waiting (u_decay u1 * u_frequency u1)\<rparr>)"

definition updater_stop :: "updater \<Rightarrow> updater" where
  "updater_stop u = u\<lparr>u_phase := Stopped\<rparr>"

datatype updater_event = Timer | Answer ustr | Stop

text \<open>The timer matters while one is set, an answer while a request is under way: stopping takes
  the callback out of the request and clears the timer.\<close>

definition updater_step :: "updater_event \<Rightarrow> updater \<Rightarrow> updater" where
  "updater_step ev u =
     (case ev of
        Timer \<Rightarrow> (case u_phase u of Waiting d \<Rightarrow> updater_request u | _ \<Rightarrow> u)
      | Answer text \<Rightarrow> (case u_phase u of InFlight \<Rightarrow> updateComplete text u | _ \<Rightarrow> u)
      | Stop \<Rightarrow> updater_stop u)"

definition polls :: "ustr \<Rightarrow> nat \<Rightarrow> updater_event list" where
  "polls text n = concat (replicate n [Timer, Answer text])"

lemma polls_Suc: "polls text (Suc n) = polls text n @ [Timer, Answer text]"
  by (induction n) (auto simp: polls_def)

lemma polls_decay:
  assumes "u_phase u = InFlight" and "u_option_decay u \<noteq> 0" and "u_lastText u \<noteq> Some text"
  shows "let v = fold updater_step (Answer text # polls text n) u in
     u_decay v = u_option_decay u ^ n \<and> u_phase v = Waiting (u_option_decay u ^ n * u_frequency u)
     \<and> u_lastText v = Some text \<and> u_option_decay v = u_option_decay u \<and> u_frequency v = u_frequency u
     \<and> u_requests v = u_requests u + n"
proof (induction n)
  case 0
  then show ?case using assms by (auto simp: polls_def updater_step_def updateComplete_def Let_def)
next
  case (Suc n)
  then show ?case using assms(2)
    by (auto simp: polls_Suc updater_step_def updateComplete_def updater_request_def Let_def mult.commute)
qed

lemma stopped_stays: "u_phase u = Stopped \<Longrightarrow> fold updater_step evs u = u"
proof (induction evs)
  case (Cons ev evs)
  then have "updater_step ev u = u" by (cases ev) (auto simp: updater_step_def updater_stop_def)
  with Cons show ?case by simp
qed simp

end
