(* ===== verification/HashMaps.thy ===== *)
theory HashMaps
  imports ProtoEnum
begin

text \<open>
  \<open>Hash\<close> of \<open>prototype.js\<close> as an implementation of finite maps. The interface \<open>lookup_table\<close> states
  what a client of a table relies on, \<open>enumerable_table\<close> adds the enumeration of its keys; the
  clients, bulk insertion and removal, are proved once in them. Both are interpreted on hashes.
\<close>

locale lookup_table =
  fixes invar :: "'t \<Rightarrow> bool"
    and lookup :: "'t \<Rightarrow> 'k \<Rightarrow> 'v option"
    and insert :: "'k \<Rightarrow> 'v \<Rightarrow> 't \<Rightarrow> 't"
    and remove :: "'k \<Rightarrow> 't \<Rightarrow> 't"
  assumes invar_insert: "invar t \<Longrightarrow> invar (insert k v t)"
    and invar_remove: "invar t \<Longrightarrow> invar (remove k t)"
    and lookup_insert: "invar t \<Longrightarrow> lookup (insert k v t) = (lookup t)(k \<mapsto> v)"
    and lookup_remove: "invar t \<Longrightarrow> lookup (remove k t) = (lookup t)(k := None)"
begin

lemma insert_all:
  "invar t \<Longrightarrow> invar (fold (\<lambda>(k, v). insert k v) kvs t)
     \<and> lookup (fold (\<lambda>(k, v). insert k v) kvs t) = lookup t ++ map_of (rev kvs)"
proof (induction kvs arbitrary: t)
  case (Cons kv kvs)
  obtain k v where kv: "kv = (k, v)" by (cases kv)
  have "lookup (insert k v t) ++ map_of (rev kvs) = lookup t ++ map_of (rev (kv # kvs))"
    using Cons.prems by (intro ext) (simp add: kv lookup_insert map_add_def split: option.split)
  with Cons.IH [of "insert k v t"] Cons.prems show ?case by (simp add: kv invar_insert)
qed simp

lemma remove_all:
  "invar t \<Longrightarrow> invar (fold remove ks t) \<and> lookup (fold remove ks t) = lookup t |` (- set ks)"
proof (induction ks arbitrary: t)
  case (Cons k ks)
  have "lookup (remove k t) |` (- set ks) = lookup t |` (- set (k # ks))"
    using Cons.prems by (intro ext) (auto simp: lookup_remove restrict_map_def)
  with Cons.IH [of "remove k t"] Cons.prems show ?case by (simp add: invar_remove)
qed (auto simp: restrict_map_def)

lemma remove_insert: "invar t \<Longrightarrow> lookup (remove k (insert k v t)) = lookup (remove k t)"
  by (simp add: lookup_insert lookup_remove invar_insert)

end

locale enumerable_table = lookup_table invar lookup insert remove
  for invar :: "'t \<Rightarrow> bool" and lookup :: "'t \<Rightarrow> 'k \<Rightarrow> 'v option"
    and insert :: "'k \<Rightarrow> 'v \<Rightarrow> 't \<Rightarrow> 't" and remove :: "'k \<Rightarrow> 't \<Rightarrow> 't" +
  fixes keys :: "'t \<Rightarrow> 'k list"
  assumes keys_dom: "invar t \<Longrightarrow> set (keys t) = dom (lookup t)"
    and keys_distinct: "invar t \<Longrightarrow> distinct (keys t)"
begin

lemma finite_lookup: "invar t \<Longrightarrow> finite (dom (lookup t))"
  using keys_dom by (metis finite_set)

lemma length_keys: "invar t \<Longrightarrow> length (keys t) = card (dom (lookup t))"
  by (metis keys_dom keys_distinct distinct_card)

lemma remove_keys: "invar t \<Longrightarrow> lookup (fold remove (keys t) t) = Map.empty"
  by (simp add: remove_all keys_dom restrict_map_def dom_def fun_eq_iff)

end

text \<open>The keys in the order of the enumeration, as \<open>pluck\<close> collects them.\<close>

definition hash_key_list :: "props \<Rightarrow> ustr list" where
  "hash_key_list h = (case hash_keys h of Inr ks \<Rightarrow> ks | Inl e \<Rightarrow> [])"

lemma hash_key_list_eq: "hash_key_list h = map fst h"
  by (simp add: hash_key_list_def hash_keys_def pluck_map)

interpretation hash: enumerable_table wf_props map_of "\<lambda>k v h. hash_set h k v" "\<lambda>k h. snd (hash_unset h k)" hash_key_list
proof
  fix h :: props and k v
  assume h: "wf_props h"
  show "wf_props (hash_set h k v)" using h by (simp add: hash_set_def wf_put)
  show "wf_props (snd (hash_unset h k))" using h by (simp add: hash_unset_def wf_del)
  show "map_of (hash_set h k v) = (map_of h)(k \<mapsto> v)" by (simp add: hash_set_def)
  show "map_of (snd (hash_unset h k)) = (map_of h)(k := None)" by (simp add: hash_unset_def)
  show "set (hash_key_list h) = dom (map_of h)" by (simp add: hash_key_list_eq dom_map_of_conv_image_fst)
  show "distinct (hash_key_list h)" using h by (simp add: hash_key_list_eq wf_props_def)
qed

lemma hash_update_fold: "hash_update h object = Inr (fold (\<lambda>(k, v) g. hash_set g k v) (object_clone object) h)"
  by (simp add: hash_update_extend object_extend_def hash_set_def)

lemma map_of_rev_wf: "wf_props ps \<Longrightarrow> map_of (rev ps) = map_of ps"
proof (induction ps)
  case (Cons p ps)
  obtain k v where p: "p = (k, v)" by (cases p)
  have "map_of (rev (p # ps)) = [k \<mapsto> v] ++ map_of ps" using Cons by (simp add: p wf_props_def)
  moreover have "map_of ps k = None" using Cons.prems by (simp add: p wf_props_def map_of_eq_None_iff)
  ultimately show ?case by (intro ext) (simp add: p map_add_def split: option.split)
qed simp

lemma hash_update_map:
  assumes "wf_props h" and "wf_props object" and "hash_update h object = Inr g"
  shows "wf_props g" and "map_of g = map_of h ++ map_of object"
proof -
  have g: "g = fold (\<lambda>(k, v) g. hash_set g k v) object h"
    using assms by (simp add: hash_update_fold object_clone_id)
  have "map_of (rev object) = map_of object" using assms(2) by (rule map_of_rev_wf)
  then show "wf_props g" and "map_of g = map_of h ++ map_of object"
    using hash.insert_all [OF assms(1), of object] by (simp_all add: g)
qed

end
