(* ===== verification/ProtoEvent.thy ===== *)
theory ProtoEvent
  imports ProtoEnum "HOL-Library.AList"
begin

text \<open>
  The registry of event handlers in \<open>prototype.js\<close> (lines 3932 to 4079), the event that tells that
  the document is loaded (4096 to 4114), and the class names of an element (4285 to 4314). An
  element and a handler are numbers. The browser keeps the list of listeners and calls them in the
  order of their registration; a wrapper is the triple of element, name of the event and handler.
  A name that is missing or empty is \<open>None\<close> for \<open>stopObserving\<close>; that handlers change the registry
  while they run is not modelled.
\<close>

subsection \<open>The registry\<close>

type_synonym wrapper = "nat \<times> ustr \<times> nat"

record registry =
  r_counter :: nat
  r_ids :: "(nat \<times> nat) list"
  r_cache :: "(nat \<times> (ustr \<times> wrapper list) list) list"
  r_listeners :: "(nat \<times> ustr \<times> wrapper) list"

definition no_handlers :: registry where
  "no_handlers = \<lparr>r_counter = 1, r_ids = [], r_cache = [], r_listeners = []\<rparr>"

definition getEventID :: "nat \<Rightarrow> registry \<Rightarrow> nat \<times> registry" where
  "getEventID el s =
     (case map_of (r_ids s) el of
        Some i \<Rightarrow> (i, s)
      | None \<Rightarrow> (Suc (r_counter s), s\<lparr>r_counter := Suc (r_counter s), r_ids := (el, Suc (r_counter s)) # r_ids s\<rparr>))"

definition getDOMEventName :: "ustr \<Rightarrow> ustr" where
  "getDOMEventName eventName =
     (if eventName \<noteq> [] \<and> string_include eventName [58] then lit ''dataavailable'' else eventName)"

definition cache_of :: "nat \<Rightarrow> registry \<Rightarrow> (ustr \<times> wrapper list) list" where
  "cache_of i s = (case map_of (r_cache s) i of None \<Rightarrow> [] | Some c \<Rightarrow> c)"

definition getCacheForID :: "nat \<Rightarrow> registry \<Rightarrow> (ustr \<times> wrapper list) list \<times> registry" where
  "getCacheForID i s = (let c = cache_of i s in (c, s\<lparr>r_cache := AList.update i c (r_cache s)\<rparr>))"

definition wrappers_of :: "nat \<Rightarrow> ustr \<Rightarrow> registry \<Rightarrow> wrapper list" where
  "wrappers_of i eventName s = (case map_of (cache_of i s) eventName of None \<Rightarrow> [] | Some ws \<Rightarrow> ws)"

definition set_wrappers :: "nat \<Rightarrow> ustr \<Rightarrow> wrapper list \<Rightarrow> registry \<Rightarrow> registry" where
  "set_wrappers i eventName ws s =
     (let (c, s1) = getCacheForID i s
      in s1\<lparr>r_cache := AList.update i (AList.update eventName ws c) (r_cache s1)\<rparr>)"

definition getWrappersForEventName :: "nat \<Rightarrow> ustr \<Rightarrow> registry \<Rightarrow> wrapper list \<times> registry" where
  "getWrappersForEventName i eventName s =
     (let ws = wrappers_of i eventName s in (ws, set_wrappers i eventName ws s))"

definition w_handler :: "wrapper \<Rightarrow> nat" where
  "w_handler w = snd (snd w)"

definition createWrapper :: "nat \<Rightarrow> ustr \<Rightarrow> nat \<Rightarrow> registry \<Rightarrow> wrapper option \<times> registry" where
  "createWrapper el eventName handler s =
     (let (i, s1) = getEventID el s; (c, s2) = getWrappersForEventName i eventName s1
      in if handler \<in> set (map w_handler c) then (None, s2)
         else let w = (el, eventName, handler) in (Some w, set_wrappers i eventName (c @ [w]) s2))"

definition findWrapper :: "nat \<Rightarrow> ustr \<Rightarrow> nat \<Rightarrow> registry \<Rightarrow> wrapper option \<times> registry" where
  "findWrapper i eventName handler s =
     (let (c, s1) = getWrappersForEventName i eventName s
      in (case filter (\<lambda>w. w_handler w = handler) c of [] \<Rightarrow> None | w # _ \<Rightarrow> Some w, s1))"

definition destroyWrapper :: "nat \<Rightarrow> ustr \<Rightarrow> nat \<Rightarrow> registry \<Rightarrow> registry" where
  "destroyWrapper i eventName handler s =
     (let (c, s1) = getCacheForID i s
      in case map_of c eventName of
           None \<Rightarrow> s1
         | Some ws \<Rightarrow>
             let (w, s2) = findWrapper i eventName handler s1
             in set_wrappers i eventName (filter (\<lambda>x. Some x \<noteq> w) ws) s2)"

definition observe :: "nat \<Rightarrow> ustr \<Rightarrow> nat \<Rightarrow> registry \<Rightarrow> registry" where
  "observe el eventName handler s =
     (let (w, s1) = createWrapper el eventName handler s
      in case w of
           None \<Rightarrow> s1
         | Some w \<Rightarrow> s1\<lparr>r_listeners := r_listeners s1 @ [(el, getDOMEventName eventName, w)]\<rparr>)"

text \<open>\<open>stopObserving\<close> with a handler, with a name only, and with neither.\<close>

definition stop_handler :: "nat \<Rightarrow> ustr \<Rightarrow> nat \<Rightarrow> registry \<Rightarrow> registry" where
  "stop_handler el eventName handler s =
     (let (i, s1) = getEventID el s; (w, s2) = findWrapper i eventName handler s1
      in case w of
           None \<Rightarrow> s2
         | Some w \<Rightarrow>
             destroyWrapper i eventName handler
               (s2\<lparr>r_listeners := filter (\<lambda>l. l \<noteq> (el, getDOMEventName eventName, w)) (r_listeners s2)\<rparr>))"

definition stop_name :: "nat \<Rightarrow> ustr \<Rightarrow> registry \<Rightarrow> registry" where
  "stop_name el eventName s =
     (let (i, s1) = getEventID el s; (c, s2) = getWrappersForEventName i eventName s1
      in fold (\<lambda>w. stop_handler el eventName (w_handler w)) c s2)"

definition stopObserving :: "nat \<Rightarrow> ustr option \<Rightarrow> nat option \<Rightarrow> registry \<Rightarrow> registry" where
  "stopObserving el eventName handler s =
     (case eventName of
        Some name \<Rightarrow> (case handler of Some h \<Rightarrow> stop_handler el name h s | None \<Rightarrow> stop_name el name s)
      | None \<Rightarrow>
          (let (i, s1) = getEventID el s; (c, s2) = getCacheForID i s1
           in fold (stop_name el) (map fst c) s2))"

text \<open>An event at the elements of a path, from its target to the root: the handlers that run. A
  native event has no \<open>eventName\<close> of its own.\<close>

definition dispatch_event :: "nat list \<Rightarrow> ustr \<Rightarrow> ustr option \<Rightarrow> registry \<Rightarrow> (nat \<times> nat) list" where
  "dispatch_event path domName eventName s =
     concat (map (\<lambda>el.
       map (\<lambda>(_, _, w). (el, w_handler w))
         (filter (\<lambda>(e, d, w). e = el \<and> d = domName \<and> (case eventName of None \<Rightarrow> True | Some n \<Rightarrow> n = [] \<or> n = fst (snd w)))
           (r_listeners s))) path)"

definition fire :: "nat list \<Rightarrow> ustr \<Rightarrow> registry \<Rightarrow> (nat \<times> nat) list" where
  "fire path eventName s = dispatch_event path (lit ''dataavailable'') (Some eventName) s"

subsection \<open>The document is loaded\<close>

record load_state =
  ld_loaded :: bool
  ld_timer :: bool
  ld_fired :: nat

definition fireContentLoadedEvent :: "load_state \<Rightarrow> load_state" where
  "fireContentLoadedEvent s =
     (if ld_loaded s then s else s\<lparr>ld_timer := False, ld_fired := Suc (ld_fired s), ld_loaded := True\<rparr>)"

definition poll_loaded :: "bool \<Rightarrow> load_state \<Rightarrow> load_state" where
  "poll_loaded ready s = (if ld_timer s \<and> ready then fireContentLoadedEvent s else s)"

subsection \<open>Class names\<close>

definition class_names :: "ustr \<Rightarrow> ustr list" where
  "class_names className = filter (\<lambda>n. length n > 0) (split_ws className)"

definition class_add :: "ustr \<Rightarrow> ustr \<Rightarrow> ustr" where
  "class_add n className =
     (if n \<in> set (class_names className) then className else join [32] (class_names className @ [n]))"

definition class_remove :: "ustr \<Rightarrow> ustr \<Rightarrow> ustr" where
  "class_remove n className =
     (if n \<notin> set (class_names className) then className
      else join [32] (filter (\<lambda>m. m \<noteq> n) (class_names className)))"

definition class_toString :: "ustr \<Rightarrow> ustr" where
  "class_toString className = join [32] (class_names className)"

subsection \<open>Facts\<close>

lemma cache_update [simp]:
  "cache_of j (s\<lparr>r_cache := AList.update i c (r_cache s)\<rparr>) = (if j = i then c else cache_of j s)"
  by (simp add: cache_of_def update_conv)

lemma cache_frame [simp]:
  "cache_of j (s\<lparr>r_listeners := ls\<rparr>) = cache_of j s" "cache_of j (s\<lparr>r_counter := n, r_ids := is\<rparr>) = cache_of j s"
  by (simp_all add: cache_of_def)

lemma get_cache [simp]:
  "fst (getCacheForID i s) = cache_of i s" "cache_of j (snd (getCacheForID i s)) = cache_of j s"
  "r_listeners (snd (getCacheForID i s)) = r_listeners s" "r_ids (snd (getCacheForID i s)) = r_ids s"
  "r_counter (snd (getCacheForID i s)) = r_counter s"
  by (simp_all add: getCacheForID_def Let_def)

lemma wrappers_frame [simp]:
  "wrappers_of j ev (s\<lparr>r_listeners := ls\<rparr>) = wrappers_of j ev s"
  "wrappers_of j ev (s\<lparr>r_counter := n, r_ids := is\<rparr>) = wrappers_of j ev s"
  "wrappers_of j ev (snd (getCacheForID i s)) = wrappers_of j ev s"
  by (simp_all add: wrappers_of_def)

lemma set_wrappers_frame [simp]:
  "wrappers_of j e (set_wrappers i ev ws s) = (if j = i \<and> e = ev then ws else wrappers_of j e s)"
  "r_listeners (set_wrappers i ev ws s) = r_listeners s" "r_ids (set_wrappers i ev ws s) = r_ids s"
  "r_counter (set_wrappers i ev ws s) = r_counter s"
proof -
  have "cache_of j (set_wrappers i ev ws s) = (if j = i then AList.update ev ws (cache_of i s) else cache_of j s)" for j
    by (simp add: set_wrappers_def case_prod_beta)
  then show "wrappers_of j e (set_wrappers i ev ws s) = (if j = i \<and> e = ev then ws else wrappers_of j e s)"
    by (auto simp: wrappers_of_def update_conv)
qed (simp_all add: set_wrappers_def case_prod_beta)

lemma get_wrappers [simp]:
  "fst (getWrappersForEventName i ev s) = wrappers_of i ev s"
  "wrappers_of j e (snd (getWrappersForEventName i ev s)) = wrappers_of j e s"
  "r_listeners (snd (getWrappersForEventName i ev s)) = r_listeners s"
  "r_ids (snd (getWrappersForEventName i ev s)) = r_ids s"
  "r_counter (snd (getWrappersForEventName i ev s)) = r_counter s"
  by (auto simp: getWrappersForEventName_def Let_def)

paragraph \<open>The registry as the list of what is registered\<close>

definition registered :: "registry \<Rightarrow> wrapper list" where
  "registered s = map (\<lambda>l. snd (snd l)) (r_listeners s)"

definition ids_ok :: "registry \<Rightarrow> bool" where
  "ids_ok s \<longleftrightarrow> (\<forall>a b i. map_of (r_ids s) a = Some i \<longrightarrow> map_of (r_ids s) b = Some i \<longrightarrow> a = b)
     \<and> (\<forall>a i. map_of (r_ids s) a = Some i \<longrightarrow> i \<le> r_counter s)"

definition wrapper_ok :: "registry \<Rightarrow> nat \<Rightarrow> ustr \<Rightarrow> wrapper \<Rightarrow> bool" where
  "wrapper_ok s i ev w \<longleftrightarrow> fst (snd w) = ev \<and> map_of (r_ids s) (fst w) = Some i"

definition listener_of :: "wrapper \<Rightarrow> nat \<times> ustr \<times> wrapper" where
  "listener_of w = (fst w, getDOMEventName (fst (snd w)), w)"

definition reg_ok :: "registry \<Rightarrow> bool" where
  "reg_ok s \<longleftrightarrow> ids_ok s
     \<and> (\<forall>i ev. distinct (wrappers_of i ev s) \<and> (\<forall>w \<in> set (wrappers_of i ev s). wrapper_ok s i ev w))
     \<and> r_listeners s = map listener_of (registered s) \<and> distinct (registered s)
     \<and> (\<forall>w. w \<in> set (registered s) \<longleftrightarrow> (\<exists>i. w \<in> set (wrappers_of i (fst (snd w)) s)))"

lemma reg_okD:
  assumes "reg_ok s"
  shows "ids_ok s" and "distinct (wrappers_of i ev s)" and "w \<in> set (wrappers_of i ev s) \<Longrightarrow> wrapper_ok s i ev w"
    and "r_listeners s = map listener_of (registered s)" and "distinct (registered s)"
    and "w \<in> set (registered s) \<longleftrightarrow> (\<exists>i. w \<in> set (wrappers_of i (fst (snd w)) s))"
  using assms unfolding reg_ok_def by blast+

lemma reg_ok_init: "reg_ok no_handlers"
  by (simp add: reg_ok_def ids_ok_def no_handlers_def registered_def wrappers_of_def cache_of_def)

text \<open>What the registry depends on.\<close>

lemma reg_ok_cong:
  assumes "reg_ok s" and "r_ids t = r_ids s" and "r_counter t = r_counter s" and "r_listeners t = r_listeners s"
    and "\<And>i ev. wrappers_of i ev t = wrappers_of i ev s"
  shows "reg_ok t" and "registered t = registered s"
proof -
  show r: "registered t = registered s" using assms(4) by (simp add: registered_def)
  show "reg_ok t" using assms(1) unfolding reg_ok_def ids_ok_def wrapper_ok_def r by (simp add: assms(2-5))
qed

lemma event_id:
  assumes ok: "reg_ok s" and e: "getEventID el s = (i, t)"
  shows "reg_ok t \<and> registered t = registered s \<and> map_of (r_ids t) el = Some i"
proof (cases "map_of (r_ids s) el")
  case (Some j)
  then show ?thesis using assms by (simp add: getEventID_def)
next
  case None
  let ?i = "Suc (r_counter s)"
  have "getEventID el s = (?i, s\<lparr>r_counter := ?i, r_ids := (el, ?i) # r_ids s\<rparr>)"
    using None by (simp add: getEventID_def)
  then have i: "i = ?i" and t: "t = s\<lparr>r_counter := ?i, r_ids := (el, ?i) # r_ids s\<rparr>"
    unfolding e by blast+
  have r: "registered t = registered s" by (simp add: t registered_def)
  have old: "map_of (r_ids s) a = Some k \<Longrightarrow> k \<noteq> ?i \<and> a \<noteq> el" for a k
    using ok None by (fastforce simp: reg_ok_def ids_ok_def)
  have le: "map_of (r_ids s) a = Some k \<Longrightarrow> k \<le> r_counter s" for a k
    using ok by (simp add: reg_ok_def ids_ok_def)
  have "ids_ok t" using ok old le
    by (auto simp: reg_ok_def ids_ok_def t le_SucI split: if_splits)
  moreover have "wrapper_ok t j ev w" if "wrapper_ok s j ev w" for j ev w
    using that old by (auto simp: wrapper_ok_def t)
  ultimately have "reg_ok t" using ok unfolding reg_ok_def r by (simp add: t)
  then show ?thesis using r i by (simp add: t)
qed

lemma handler_registered:
  assumes ok: "reg_ok s" and i: "map_of (r_ids s) el = Some i"
  shows "h \<in> set (map w_handler (wrappers_of i ev s)) \<longleftrightarrow> (el, ev, h) \<in> set (registered s)"
    and "w \<in> set (wrappers_of i ev s) \<Longrightarrow> w = (el, ev, w_handler w)"
proof -
  show w: "w = (el, ev, w_handler w)" if "w \<in> set (wrappers_of i ev s)" for w
  proof -
    have "wrapper_ok s i ev w" using ok that by (simp add: reg_ok_def)
    then have "fst w = el" "fst (snd w) = ev"
      using ok i by (auto simp: reg_ok_def ids_ok_def wrapper_ok_def)
    then show ?thesis by (cases w) (auto simp: w_handler_def)
  qed
  show "h \<in> set (map w_handler (wrappers_of i ev s)) \<longleftrightarrow> (el, ev, h) \<in> set (registered s)"
  proof
    assume "h \<in> set (map w_handler (wrappers_of i ev s))"
    then obtain w where m: "w \<in> set (wrappers_of i ev s)" and h: "w_handler w = h" by auto
    have e: "w = (el, ev, h)" using w [OF m] h by simp
    have "(el, ev, h) \<in> set (wrappers_of i (fst (snd (el, ev, h))) s)" using m unfolding e by simp
    then show "(el, ev, h) \<in> set (registered s)" using ok unfolding reg_ok_def by blast
  next
    assume "(el, ev, h) \<in> set (registered s)"
    then obtain j where j: "(el, ev, h) \<in> set (wrappers_of j ev s)" using ok by (auto simp: reg_ok_def)
    then have "wrapper_ok s j ev (el, ev, h)" using ok by (simp add: reg_ok_def)
    then have "j = i" using i by (simp add: wrapper_ok_def)
    then show "h \<in> set (map w_handler (wrappers_of i ev s))" using j by (force simp: w_handler_def)
  qed
qed

lemma observe_registered:
  assumes ok: "reg_ok s"
  shows "reg_ok (observe el ev h s)
    \<and> registered (observe el ev h s) = (if (el, ev, h) \<in> set (registered s) then registered s else registered s @ [(el, ev, h)])"
proof -
  obtain i t where e: "getEventID el s = (i, t)" by fastforce
  have t: "reg_ok t" "registered t = registered s" "map_of (r_ids t) el = Some i" using event_id [OF ok e] by auto
  let ?u = "snd (getWrappersForEventName i ev t)" and ?c = "wrappers_of i ev t" and ?w = "(el, ev, h)"
  have u: "reg_ok ?u" "registered ?u = registered s" using reg_ok_cong [OF t(1), of ?u] t(2) by simp_all
  note mem = handler_registered(1) [OF t(1,3), of h ev]
  show ?thesis
  proof (cases "?w \<in> set (registered s)")
    case True
    then have "observe el ev h s = ?u" using e mem t(2)
      by (simp add: observe_def createWrapper_def case_prod_beta Let_def)
    then show ?thesis using u True by simp
  next
    case False
    let ?v = "(set_wrappers i ev (?c @ [?w]) ?u)\<lparr>r_listeners := r_listeners t @ [listener_of ?w]\<rparr>"
    have o: "observe el ev h s = ?v" using e mem t(2) False
      by (simp add: observe_def createWrapper_def case_prod_beta Let_def listener_of_def)
    have r: "registered ?v = registered s @ [?w]" using t(2) by (simp add: registered_def listener_of_def)
    have nw: "?w \<notin> set ?c" using mem False t(2) by (force simp: w_handler_def)
    have l: "r_listeners t = map listener_of (registered t)" using t(1) by (simp add: reg_ok_def)
    have ids: "ids_ok ?v" using t(1) by (simp add: reg_ok_def ids_ok_def)
    have ws: "wrappers_of j e ?v = (if j = i \<and> e = ev then ?c @ [?w] else wrappers_of j e t)" for j e by simp
    have wok: "wrapper_ok ?v j e x \<longleftrightarrow> wrapper_ok t j e x" for j e x by (simp add: wrapper_ok_def)
    have d: "distinct (wrappers_of j e ?v) \<and> (\<forall>x \<in> set (wrappers_of j e ?v). wrapper_ok ?v j e x)" for j e
      using reg_okD(2,3) [OF t(1)] t(3) nw unfolding ws wok by (auto simp: wrapper_ok_def)
    have m: "x \<in> set (registered ?v) \<longleftrightarrow> (\<exists>j. x \<in> set (wrappers_of j (fst (snd x)) ?v))" for x
    proof -
      have "x \<in> set (registered s) \<longleftrightarrow> (\<exists>j. x \<in> set (wrappers_of j (fst (snd x)) t))"
        using reg_okD(6) [OF t(1)] t(2) by simp
      then show ?thesis unfolding r ws by auto
    qed
    have "r_listeners ?v = map listener_of (registered ?v)" using l t(2) unfolding r by simp
    moreover have "distinct (registered ?v)" using t(1,2) False unfolding r by (simp add: reg_ok_def)
    ultimately have "reg_ok ?v" using ids d m unfolding reg_ok_def by blast
    then show ?thesis using o r False by simp
  qed
qed

lemma stop_handler_registered:
  assumes ok: "reg_ok s"
  shows "reg_ok (stop_handler el ev h s)
    \<and> registered (stop_handler el ev h s) = filter (\<lambda>w. w \<noteq> (el, ev, h)) (registered s)"
proof -
  obtain i t where e: "getEventID el s = (i, t)" by fastforce
  have t: "reg_ok t" "registered t = registered s" "map_of (r_ids t) el = Some i" using event_id [OF ok e] by auto
  let ?u = "snd (getWrappersForEventName i ev t)" and ?c = "wrappers_of i ev t" and ?w = "(el, ev, h)"
  have u: "reg_ok ?u" "registered ?u = registered s" using reg_ok_cong [OF t(1), of ?u] t(2) by simp_all
  note mem = handler_registered(1) [OF t(1,3), of h ev] and form = handler_registered(2) [OF t(1,3), of _ ev]
  show ?thesis
  proof (cases "?w \<in> set (registered s)")
    case False
    then have "filter (\<lambda>w. w_handler w = h) ?c = []" using mem t(2) by (auto simp: filter_empty_conv)
    then have "stop_handler el ev h s = ?u" using e
      by (simp add: stop_handler_def findWrapper_def case_prod_beta Let_def)
    moreover have "filter (\<lambda>w. w \<noteq> ?w) (registered s) = registered s" using False by (auto simp: filter_id_conv)
    ultimately show ?thesis using u by simp
  next
    case True
    then have "h \<in> set (map w_handler ?c)" using mem t(2) by simp
    then obtain w ws where f: "filter (\<lambda>w. w_handler w = h) ?c = w # ws" by (cases "filter (\<lambda>w. w_handler w = h) ?c") (auto simp: filter_empty_conv)
    then have "w \<in> set (filter (\<lambda>w. w_handler w = h) ?c)" by simp
    then have w: "w = ?w" using form [of w] by simp
    let ?v = "?u\<lparr>r_listeners := filter (\<lambda>l. l \<noteq> listener_of ?w) (r_listeners t)\<rparr>"
    have s1: "stop_handler el ev h s = destroyWrapper i ev h ?v" using e f w
      by (simp add: stop_handler_def findWrapper_def case_prod_beta Let_def listener_of_def)
    have c: "map_of (cache_of i ?v) ev = Some ?c"
    proof -
      have "wrappers_of i ev ?v \<noteq> []" using f by auto
      moreover have "wrappers_of i ev ?v = ?c" by simp
      ultimately show ?thesis by (auto simp: wrappers_of_def split: option.splits)
    qed
    let ?x = "stop_handler el ev h s"
    have fr: "r_ids ?x = r_ids t" "r_counter ?x = r_counter t"
        "r_listeners ?x = filter (\<lambda>l. l \<noteq> listener_of ?w) (r_listeners t)"
        "wrappers_of j e ?x = (if j = i \<and> e = ev then filter (\<lambda>y. y \<noteq> ?w) ?c else wrappers_of j e t)" for j e
      unfolding s1 destroyWrapper_def using c f w by (simp_all add: findWrapper_def case_prod_beta Let_def)
    have l: "r_listeners t = map listener_of (registered t)" using t(1) by (simp add: reg_ok_def)
    have inj: "listener_of a = listener_of b \<longleftrightarrow> a = b" for a b by (auto simp: listener_of_def)
    have lx: "r_listeners ?x = map listener_of (filter (\<lambda>y. y \<noteq> ?w) (registered s))"
      unfolding fr(3) l t(2) by (simp add: filter_map comp_def inj)
    have r: "registered ?x = filter (\<lambda>y. y \<noteq> ?w) (registered s)"
      unfolding registered_def [of ?x] lx by (simp add: comp_def listener_of_def)
    have "ids_ok ?x" using t(1) by (simp add: reg_ok_def ids_ok_def fr)
    moreover have "distinct (wrappers_of j e ?x) \<and> (\<forall>x \<in> set (wrappers_of j e ?x). wrapper_ok ?x j e x)" for j e
      using reg_okD(2,3) [OF t(1)] unfolding fr(4) wrapper_ok_def fr(1) by (auto split: if_splits)
    moreover have "x \<in> set (registered ?x) \<longleftrightarrow> (\<exists>j. x \<in> set (wrappers_of j (fst (snd x)) ?x))" for x
    proof -
      have x: "x \<in> set (registered s) \<longleftrightarrow> (\<exists>j. x \<in> set (wrappers_of j (fst (snd x)) t))"
        using reg_okD(6) [OF t(1)] t(2) by simp
      have one: "j = i" if "?w \<in> set (wrappers_of j ev t)" for j
        using reg_okD(3) [OF t(1) that] t(3) by (simp add: wrapper_ok_def)
      show ?thesis
      proof (cases "x = ?w")
        case True
        then show ?thesis unfolding r fr(4) using one by (auto split: if_splits)
      next
        case False
        then have "x \<in> set (if j = i \<and> fst (snd x) = ev then filter (\<lambda>y. y \<noteq> ?w) ?c else wrappers_of j (fst (snd x)) t)
            \<longleftrightarrow> x \<in> set (wrappers_of j (fst (snd x)) t)" for j by auto
        then show ?thesis unfolding r fr(4) using x False by simp
      qed
    qed
    moreover have "distinct (registered ?x)" using ok unfolding r by (simp add: reg_ok_def)
    ultimately have "reg_ok ?x" unfolding reg_ok_def using lx r by simp
    then show ?thesis using r by simp
  qed
qed

lemma stop_handlers_registered:
  "reg_ok s \<Longrightarrow> reg_ok (fold (\<lambda>w. stop_handler el ev (w_handler w)) c s)
    \<and> registered (fold (\<lambda>w. stop_handler el ev (w_handler w)) c s)
      = filter (\<lambda>w. w \<notin> (\<lambda>x. (el, ev, w_handler x)) ` set c) (registered s)"
proof (induction c arbitrary: s)
  case (Cons w c)
  note one = stop_handler_registered [OF Cons.prems, of el ev "w_handler w"]
  have "reg_ok (stop_handler el ev (w_handler w) s)" using one by simp
  from Cons.IH [OF this] show ?case using one by (simp add: conj_commute)
qed (simp add: filter_id_conv)

lemma stop_name_registered:
  assumes ok: "reg_ok s"
  shows "reg_ok (stop_name el ev s)
    \<and> registered (stop_name el ev s) = filter (\<lambda>w. \<not> (fst w = el \<and> fst (snd w) = ev)) (registered s)"
proof -
  obtain i t where e: "getEventID el s = (i, t)" by fastforce
  have t: "reg_ok t" "registered t = registered s" "map_of (r_ids t) el = Some i" using event_id [OF ok e] by auto
  let ?u = "snd (getWrappersForEventName i ev t)" and ?c = "wrappers_of i ev t"
  have u: "reg_ok ?u" "registered ?u = registered s" using reg_ok_cong [OF t(1), of ?u] t(2) by simp_all
  have n: "stop_name el ev s = fold (\<lambda>w. stop_handler el ev (w_handler w)) ?c ?u"
    using e by (simp add: stop_name_def case_prod_beta)
  have "w \<in> (\<lambda>x. (el, ev, w_handler x)) ` set ?c \<longleftrightarrow> fst w = el \<and> fst (snd w) = ev"
    if "w \<in> set (registered s)" for w
  proof (cases w)
    case (fields a b h)
    have "h \<in> set (map w_handler ?c) \<longleftrightarrow> (el, ev, h) \<in> set (registered s)"
      using handler_registered(1) [OF t(1,3), of h ev] t(2) by simp
    then show ?thesis using that fields by auto
  qed
  then have "filter (\<lambda>w. w \<notin> (\<lambda>x. (el, ev, w_handler x)) ` set ?c) (registered s)
      = filter (\<lambda>w. \<not> (fst w = el \<and> fst (snd w) = ev)) (registered s)"
    by (intro filter_cong refl) blast
  then show ?thesis using stop_handlers_registered [OF u(1), of el ev ?c] u(2) n by simp
qed

lemma stop_names_registered:
  "reg_ok s \<Longrightarrow> reg_ok (fold (stop_name el) names s)
    \<and> registered (fold (stop_name el) names s)
      = filter (\<lambda>w. \<not> (fst w = el \<and> fst (snd w) \<in> set names)) (registered s)"
proof (induction names arbitrary: s)
  case (Cons n names)
  note one = stop_name_registered [OF Cons.prems, of el n]
  have "reg_ok (stop_name el n s)" using one by simp
  from Cons.IH [OF this] one show ?case
    by (auto intro!: filter_cong)
qed (simp add: filter_id_conv)

text \<open>What is left of the registrations when an element stops observing.\<close>

definition kept :: "nat \<Rightarrow> ustr option \<Rightarrow> nat option \<Rightarrow> wrapper \<Rightarrow> bool" where
  "kept el name handler w \<longleftrightarrow>
     fst w \<noteq> el \<or> (case name of None \<Rightarrow> False
       | Some n \<Rightarrow> fst (snd w) \<noteq> n \<or> (case handler of None \<Rightarrow> False | Some h \<Rightarrow> w_handler w \<noteq> h))"

lemma stopObserving_registered:
  assumes ok: "reg_ok s"
  shows "reg_ok (stopObserving el name handler s)
    \<and> registered (stopObserving el name handler s) = filter (kept el name handler) (registered s)"
proof (cases name)
  case (Some n)
  show ?thesis
  proof (cases handler)
    case None
    have "filter (kept el name handler) (registered s) = filter (\<lambda>w. \<not> (fst w = el \<and> fst (snd w) = n)) (registered s)"
      by (intro filter_cong refl) (auto simp: kept_def Some None)
    then show ?thesis using stop_name_registered [OF ok] by (simp add: stopObserving_def Some None)
  next
    case (Some h)
    have "filter (kept el name handler) (registered s) = filter (\<lambda>w. w \<noteq> (el, n, h)) (registered s)"
      by (intro filter_cong refl) (auto simp: kept_def \<open>name = Some n\<close> Some w_handler_def)
    then show ?thesis using stop_handler_registered [OF ok] by (simp add: stopObserving_def \<open>name = Some n\<close> Some)
  qed
next
  case None
  obtain i t where e: "getEventID el s = (i, t)" by fastforce
  have t: "reg_ok t" "registered t = registered s" "map_of (r_ids t) el = Some i" using event_id [OF ok e] by auto
  let ?u = "snd (getCacheForID i t)" and ?names = "map fst (cache_of i t)"
  have u: "reg_ok ?u" "registered ?u = registered s" using reg_ok_cong [OF t(1), of ?u] t(2) by simp_all
  have n: "stopObserving el name handler s = fold (stop_name el) ?names ?u"
    using e by (simp add: stopObserving_def None case_prod_beta)
  have "fst (snd w) \<in> set ?names" if "w \<in> set (registered s)" "fst w = el" for w
  proof -
    obtain j where j: "w \<in> set (wrappers_of j (fst (snd w)) t)" using reg_okD(6) [OF t(1), of w] t(2) \<open>w \<in> set (registered s)\<close> by auto
    then have "j = i" using reg_okD(3) [OF t(1) j] t(3) \<open>fst w = el\<close> by (simp add: wrapper_ok_def)
    then have "map_of (cache_of i t) (fst (snd w)) \<noteq> None"
      using j by (cases "map_of (cache_of i t) (fst (snd w))") (simp_all add: wrappers_of_def)
    then show ?thesis by (auto simp: map_of_eq_None_iff)
  qed
  then have "filter (\<lambda>w. \<not> (fst w = el \<and> fst (snd w) \<in> set ?names)) (registered s) = filter (kept el name handler) (registered s)"
    by (intro filter_cong refl) (auto simp: kept_def None)
  then show ?thesis using stop_names_registered [OF u(1), of el ?names] u(2) n by simp
qed

datatype registry_op = Observe nat ustr nat | StopObserving nat "ustr option" "nat option"

definition registry_step :: "registry_op \<Rightarrow> registry \<Rightarrow> registry" where
  "registry_step step s =
     (case step of Observe el name h \<Rightarrow> observe el name h s | StopObserving el name h \<Rightarrow> stopObserving el name h s)"

text \<open>Names of events are not empty: \<open>stopObserving\<close> takes an empty one for a missing one.\<close>

definition named_op :: "registry_op \<Rightarrow> bool" where
  "named_op step \<longleftrightarrow>
     (case step of Observe _ name _ \<Rightarrow> name \<noteq> [] | StopObserving _ name _ \<Rightarrow> name \<noteq> Some [])"

text \<open>The specification: a list without repetitions.\<close>

definition spec_step :: "registry_op \<Rightarrow> wrapper list \<Rightarrow> wrapper list" where
  "spec_step step ws =
     (case step of
        Observe el name h \<Rightarrow> if (el, name, h) \<in> set ws then ws else ws @ [(el, name, h)]
      | StopObserving el name h \<Rightarrow> filter (kept el name h) ws)"

lemma registry_step_refines:
  "reg_ok s \<Longrightarrow> reg_ok (registry_step step s) \<and> registered (registry_step step s) = spec_step step (registered s)"
  by (cases step) (simp_all add: registry_step_def spec_step_def observe_registered stopObserving_registered)

interpretation handlers: event_machine registry_step reg_ok named_op
  by unfold_locales (simp add: registry_step_refines)

lemma registry_refines:
  "reg_ok s \<Longrightarrow> registered (fold registry_step steps s) = fold spec_step steps (registered s)"
  by (induction steps arbitrary: s) (simp_all add: registry_step_refines)

text \<open>A custom event, whose name has a colon, runs the handlers registered for it.\<close>

definition handlers_for :: "nat list \<Rightarrow> ustr \<Rightarrow> wrapper list \<Rightarrow> (nat \<times> nat) list" where
  "handlers_for path name ws =
     concat (map (\<lambda>el. map (\<lambda>w. (el, w_handler w)) (filter (\<lambda>w. fst w = el \<and> fst (snd w) = name) ws)) path)"

lemma custom_name: "58 \<in> set n \<Longrightarrow> getDOMEventName n = lit ''dataavailable''"
proof -
  assume c: "58 \<in> set n"
  then obtain a b where "n = a @ 58 # b" by (meson split_list)
  then have "n = a @ [58] @ b" by simp
  then have "find_sub [58] n \<noteq> None" unfolding find_sub_None_iff by blast
  then have "indexOf n [58] > -1" by (auto simp: indexOf_def)
  then show ?thesis using c by (auto simp: getDOMEventName_def string_include_def)
qed

lemma fire_registered:
  assumes "reg_ok s" and "58 \<in> set name"
  shows "fire path name s = handlers_for path name (registered s)"
proof -
  have d: "getDOMEventName name = lit ''dataavailable''" using assms(2) by (rule custom_name)
  have ne: "name \<noteq> []" using assms(2) by auto
  have "map (\<lambda>(_, _, w). (el, w_handler w))
         (filter (\<lambda>(e, d, w). e = el \<and> d = lit ''dataavailable''
             \<and> (case Some name of None \<Rightarrow> True | Some n \<Rightarrow> n = [] \<or> n = fst (snd w))) (map listener_of ws))
      = map (\<lambda>w. (el, w_handler w)) (filter (\<lambda>w. fst w = el \<and> fst (snd w) = name) ws)" for el ws
    using d ne by (induction ws) (auto simp: listener_of_def)
  then show ?thesis
    unfolding fire_def dispatch_event_def handlers_for_def reg_okD(4) [OF assms(1)] by simp
qed

paragraph \<open>Class names\<close>

definition class_name :: "ustr \<Rightarrow> bool" where
  "class_name n \<longleftrightarrow> n \<noteq> [] \<and> (\<forall>c \<in> set n. \<not> is_ws c)"

lemma split_ws_word: "list_all (\<lambda>c. \<not> is_ws c) n \<Longrightarrow> split_ws n = [n]"
  by (induction n) (subst split_ws.simps, simp)+

lemma split_ws_append:
  "list_all (\<lambda>c. \<not> is_ws c) n \<Longrightarrow> split_ws (n @ 32 # r) = n # split_ws (dropWhile is_ws r)"
  by (induction n) (subst split_ws.simps, simp add: is_ws_def)+

lemma class_names_join:
  assumes "list_all class_name ns"
  shows "class_names (join [32] ns) = ns"
  using assms
proof (induction ns)
  case Nil
  then show ?case by (simp add: class_names_def split_ws.simps)
next
  case (Cons n ns)
  have n: "list_all (\<lambda>c. \<not> is_ws c) n" "n \<noteq> []" using Cons.prems by (auto simp: class_name_def list_all_iff)
  show ?case
  proof (cases ns)
    case Nil
    then show ?thesis using n by (simp add: class_names_def split_ws_word)
  next
    case (Cons m ms)
    have "dropWhile is_ws (join [32] ns) = join [32] ns"
      using Cons.prems by (cases ms) (auto simp: Cons class_name_def neq_Nil_conv)
    then show ?thesis using n Cons.IH Cons.prems \<open>ns = m # ms\<close>
      by (simp add: class_names_def join_Cons split_ws_append)
  qed
qed

end
