(* ===== verification/Cookie.thy ===== *)
theory Cookie
  imports ProtoTemplate
begin

text \<open>
  \<open>browser/web/jquery.cookie.js\<close>. Setting a cookie assigns a text to \<open>document.cookie\<close>; reading
  searches the text the browser gives for all cookies with a regular expression made of the
  encoded key. In that expression a dot of the key matches every character but a line end; the
  model reads the other characters of the key literally, so it holds for keys without star and
  parentheses (the encoding escapes all other special characters). \<open>utc n\<close> is the date in \<open>n\<close> days.
\<close>

datatype expiry = NoExpiry | Days int | AtDate ustr

record cookie_options =
  co_expires :: expiry
  co_path :: ustr
  co_domain :: ustr
  co_secure :: bool
  co_raw :: bool

definition no_options :: cookie_options where
  "no_options = \<lparr>co_expires = NoExpiry, co_path = [], co_domain = [], co_secure = False, co_raw = False\<rparr>"

definition attribute :: "string \<Rightarrow> ustr \<Rightarrow> ustr" where
  "attribute name v = (if v = [] then [] else lit ''; '' @ lit name @ lit ''='' @ v)"

definition cookie_text :: "(int \<Rightarrow> ustr) \<Rightarrow> ustr \<Rightarrow> val \<Rightarrow> cookie_options \<Rightarrow> ustr res" where
  "cookie_text utc key value options =
     (let expires = (if value = Null \<or> value = Undefined then Days (-1) else co_expires options);
          date = (case expires of NoExpiry \<Rightarrow> [] | Days n \<Rightarrow> utc n | AtDate d \<Rightarrow> d);
          text = to_string value
      in rbind (encodeURIComponent key) (\<lambda>k.
         rbind (if co_raw options then Inr text else encodeURIComponent text) (\<lambda>v.
           Inr (k @ [61] @ v @ attribute ''expires'' date @ attribute ''path'' (co_path options)
                @ attribute ''domain'' (co_domain options)
                @ (if co_secure options then lit ''; secure'' else [])))))"

text \<open>The suffixes of a text at which the expression can start: the text, and behind each \<open>; \<close>.\<close>

fun starts_of :: "ustr \<Rightarrow> ustr list" where
  "starts_of (c # d # s) = (if c = 59 \<and> d = 32 then s # starts_of (d # s) else starts_of (d # s))"
| "starts_of s = []"

fun dot_prefix :: "ustr \<Rightarrow> ustr \<Rightarrow> ustr option" where
  "dot_prefix [] s = Some s"
| "dot_prefix (p # ps) [] = None"
| "dot_prefix (p # ps) (c # cs) =
     (if p = c \<or> (p = 46 \<and> \<not> line_end c) then dot_prefix ps cs else None)"

definition value_here :: "ustr \<Rightarrow> ustr \<Rightarrow> ustr option" where
  "value_here pattern s =
     (case dot_prefix pattern s of
        Some (c # r) \<Rightarrow> if c = 61 then Some (takeWhile (\<lambda>x. x \<noteq> 59) r) else None
      | _ \<Rightarrow> None)"

fun first_value :: "ustr \<Rightarrow> ustr list \<Rightarrow> ustr option" where
  "first_value pattern [] = None"
| "first_value pattern (s # ss) =
     (case value_here pattern s of Some v \<Rightarrow> Some v | None \<Rightarrow> first_value pattern ss)"

definition cookie_read :: "ustr \<Rightarrow> bool \<Rightarrow> ustr \<Rightarrow> val res" where
  "cookie_read key raw document_cookie =
     rbind (encodeURIComponent key) (\<lambda>k.
       case first_value k (document_cookie # starts_of document_cookie) of
         None \<Rightarrow> Inr Null
       | Some v \<Rightarrow> if raw then Inr (VStr v) else rbind (decodeURIComponent v) (\<lambda>t. Inr (VStr t)))"

text \<open>With a value, or with an option object as the second argument.\<close>

definition cookie_call :: "(int \<Rightarrow> ustr) \<Rightarrow> ustr \<Rightarrow> val option \<Rightarrow> cookie_options \<Rightarrow> ustr \<Rightarrow> ustr res + val res" where
  "cookie_call utc key value options document_cookie =
     (case value of
        Some v \<Rightarrow> (if to_string v \<noteq> lit ''[object Object]'' then Inl (cookie_text utc key v options)
                   else Inr (cookie_read key (co_raw options) document_cookie))
      | None \<Rightarrow> Inr (cookie_read key (co_raw options) document_cookie))"

subsection \<open>Facts\<close>

definition no_semicolon :: "ustr \<Rightarrow> bool" where
  "no_semicolon s \<longleftrightarrow> 59 \<notin> set s"

lemma starts_of_none: "59 \<notin> set p \<Longrightarrow> starts_of p = []"
  by (induction p rule: starts_of.induct) auto

lemma starts_of_append:
  "59 \<notin> set p \<Longrightarrow> starts_of (p @ 59 # 32 # s) = s # starts_of s"
proof (induction p)
  case Nil
  then show ?case by (cases s) auto
next
  case (Cons c p)
  then show ?case by (cases p) auto
qed

definition join_from :: "ustr list \<Rightarrow> nat \<Rightarrow> ustr" where
  "join_from ps i = join [59, 32] (drop i ps)"

lemma starts_of_join:
  assumes "\<And>p. p \<in> set ps \<Longrightarrow> 59 \<notin> set p" and "ps \<noteq> []"
  shows "join [59, 32] ps # starts_of (join [59, 32] ps) = map (join_from ps) [0..<length ps]"
  using assms
proof (induction ps)
  case (Cons p ps)
  have p: "59 \<notin> set p" using Cons.prems(1) by simp
  show ?case
  proof (cases "ps = []")
    case True
    then show ?thesis using starts_of_none [OF p] by (simp add: join_from_def)
  next
    case False
    have j: "join [59, 32] (p # ps) = p @ 59 # 32 # join [59, 32] ps" using join_Cons [OF False] by simp
    have ih: "join [59, 32] ps # starts_of (join [59, 32] ps) = map (join_from ps) [0..<length ps]"
      using Cons.IH Cons.prems(1) False by simp
    have "starts_of (p @ 59 # 32 # join [59, 32] ps) = map (join_from ps) [0..<length ps]"
      unfolding starts_of_append [OF p] by (rule ih)
    moreover have "[0..<length (p # ps)] = 0 # map Suc [0..<length ps]"
      by (simp add: upt_conv_Cons map_Suc_upt del: upt_Suc)
    moreover have "join_from (p # ps) 0 = join [59, 32] (p # ps)"
      and "map (join_from (p # ps)) (map Suc [0..<length ps]) = map (join_from ps) [0..<length ps]"
      by (simp_all add: join_from_def)
    ultimately show ?thesis unfolding j by (simp only: list.map)
  qed
qed simp

lemma dot_prefix_app: "dot_prefix p (p @ s) = Some s"
  by (induction p) auto

lemma dot_prefix_literal:
  "46 \<notin> set p \<Longrightarrow> dot_prefix p s = Some r \<longleftrightarrow> s = p @ r"
  by (induction p s rule: dot_prefix.induct) auto

text \<open>A piece is read for the key exactly when it starts with the key and an equals sign.\<close>

lemma value_here_piece:
  assumes "46 \<notin> set k" and "59 \<notin> set p" and "59 \<notin> set k"
  shows "value_here k (join [59, 32] (p # ps)) = (if \<exists>v. p = k @ 61 # v then Some (drop (Suc (length k)) p) else None)"
proof -
  obtain t where j: "join [59, 32] (p # ps) = p @ t" and t: "t = [] \<or> (\<exists>u. t = 59 # u)"
  proof (cases "ps = []")
    case True
    then show ?thesis using that [of "[]"] by simp
  next
    case False
    then have "join [59, 32] (p # ps) = p @ 59 # 32 # join [59, 32] ps" by (simp add: join_Cons)
    then show ?thesis by (rule that) simp
  qed
  show ?thesis
  proof (cases "\<exists>v. p = k @ 61 # v")
    case True
    then obtain v where p: "p = k @ 61 # v" by blast
    then have "59 \<notin> set v" using assms(2) by auto
    then have "takeWhile (\<lambda>x. x \<noteq> 59) v = v" by (intro takeWhile_all) auto
    then have "takeWhile (\<lambda>x. x \<noteq> 59) (v @ t) = v" using t \<open>59 \<notin> set v\<close>
      by (elim disjE exE) (auto simp: takeWhile_append)
    then show ?thesis unfolding j using p by (simp add: value_here_def dot_prefix_app)
  next
    case False
    have "\<not> (\<exists>r. p @ t = k @ 61 # r)"
    proof
      assume "\<exists>r. p @ t = k @ 61 # r"
      then obtain r where r: "p @ t = k @ 61 # r" by blast
      then consider u where "p = k @ u" "u @ t = 61 # r" | u where "p @ u = k" "t = u @ 61 # r"
        unfolding append_eq_append_conv2 by blast
      then show False
      proof cases
        case 1
        with False t show ?thesis by (cases u) auto
      next
        case 2
        then have "59 \<notin> set u" using assms(3) by auto
        with 2 t show ?thesis by (cases u) auto
      qed
    qed
    then have "dot_prefix k (p @ t) \<noteq> Some (61 # r)" for r
      using dot_prefix_literal [OF assms(1)] by blast
    then show ?thesis unfolding j using False
      by (auto simp: value_here_def split: option.splits list.splits)
  qed
qed

lemma first_value_found:
  assumes "\<And>i. i < n \<Longrightarrow> value_here k (ss ! i) = None" and "n < length ss" and "value_here k (ss ! n) = Some v"
  shows "first_value k ss = Some v"
  using assms
proof (induction ss arbitrary: n)
  case (Cons s ss)
  show ?case
  proof (cases n)
    case 0
    with Cons.prems(3) show ?thesis by simp
  next
    case (Suc m)
    have "value_here k s = None" using Cons.prems(1) [of 0] Suc by simp
    moreover have "first_value k ss = Some v"
      using Cons.IH [of m] Cons.prems Suc by (metis Suc_less_eq length_Cons nth_Cons_Suc)
    ultimately show ?thesis by simp
  qed
qed simp

lemma first_value_join:
  assumes "46 \<notin> set k" and "59 \<notin> set k" and "\<And>q. q \<in> set (ps @ p # qs) \<Longrightarrow> 59 \<notin> set q"
    and "\<And>q. q \<in> set ps \<Longrightarrow> \<nexists>v. q = k @ 61 # v" and "p = k @ 61 # v"
  shows "first_value k (join [59, 32] (ps @ p # qs) # starts_of (join [59, 32] (ps @ p # qs))) = Some v"
proof -
  let ?all = "ps @ p # qs"
  have at: "value_here k (join [59, 32] (drop i ?all)) = (if \<exists>w. ?all ! i = k @ 61 # w then Some (drop (Suc (length k)) (?all ! i)) else None)"
    if "i < length ?all" for i
  proof -
    have "drop i ?all = ?all ! i # drop (Suc i) ?all" using that by (simp only: Cons_nth_drop_Suc)
    moreover have "59 \<notin> set (?all ! i)" using that assms(3) nth_mem by blast
    ultimately show ?thesis using value_here_piece [OF assms(1) _ assms(2)] by (simp only:)
  qed
  have "first_value k (map (join_from ?all) [0..<length ?all]) = Some v"
  proof (rule first_value_found [where n = "length ps"])
    fix i assume i: "i < length ps"
    then have "?all ! i \<in> set ps" by (simp add: nth_append)
    then have "\<not> (\<exists>w. ?all ! i = k @ 61 # w)" using assms(4) by blast
    moreover have "i < length ?all" using i by simp
    moreover have "map (join_from ?all) [0..<length ?all] ! i = join_from ?all i"
      using i by (simp del: upt_Suc)
    ultimately show "value_here k (map (join_from ?all) [0..<length ?all] ! i) = None"
      using at [of i] unfolding join_from_def by (simp only: if_False)
  next
    have "map (join_from ?all) [0..<length ?all] ! length ps = join_from ?all (length ps)"
      by (simp del: upt_Suc)
    moreover have "?all ! length ps = k @ 61 # v" using assms(5) by simp
    ultimately show "value_here k (map (join_from ?all) [0..<length ?all] ! length ps) = Some v"
      using at [of "length ps"] by (simp add: join_from_def)
  qed simp
  moreover have "join [59, 32] ?all # starts_of (join [59, 32] ?all) = map (join_from ?all) [0..<length ?all]"
    using assms(3) by (intro starts_of_join) auto
  ultimately show ?thesis by (simp only:)
qed

end
