(* ===== verification/LibProps.thy ===== *)
theory LibProps
  imports ProtoFun ProtoAjax HashMaps ProtoEvent Cookie
begin

text \<open>
  Properties of the libraries the pages are built on: query strings and cookies survive a round
  trip, a hash is a finite map, templates, inheritance, and the life of a request.
\<close>

subsection \<open>Query strings and cookies\<close>

text \<open>What evaluates the escaping of concrete texts.\<close>

lemmas uri_eval = percent_char_def percent_byte_def utf8_def hex_upper_def unreserved_def low_surrogate_def
  high_surrogate_def

text \<open>
  C15. An object whose values are strings, absent values or lists of at least two of these, and
  whose names no object inherits, is read back from its query string, names and values in order,
  whatever characters they contain.
\<close>

theorem query_round_trip:
  assumes "query_hash h" and "toQueryString h = Inr t"
  shows "toQueryParams 38 t = Inr h"
  using assms by (rule query_round_trip_lemma)

theorem query_round_trip_witness:
  "toQueryParams 38 (lit ''a%26b=%3D&c=x&c'') =
     Inr [(lit ''a&b'', VStr (lit ''='')), (lit ''c'', VArr [VStr (lit ''x''), Undefined])]"
proof (rule query_round_trip)
  let ?h = "[(lit ''a&b'', VStr (lit ''='')), (lit ''c'', VArr [VStr (lit ''x''), Undefined])]"
  show "query_hash ?h"
    by (auto simp: query_hash_def wf_props_def object_names_def char_text_def query_value_def plain_value_def js_simps)
  show "toQueryString ?h = Inr (lit ''a%26b=%3D&c=x&c'')"
    by (simp add: toQueryString_def query_pieces_def toQueryPair_def isUndefined_def interpret_val_def js_simps uri_eval)
qed

text \<open>
  Whatever text is read, the parameters have distinct names, and each is a string, undefined
  (a name without an equals sign) or a list of at least two of these; only the list of a name
  that every object inherits starts with the inherited function.
\<close>

theorem toQueryParams_typed:
  assumes "toQueryParams sep s = Inr h"
  shows "distinct (map fst h) \<and> (\<forall>p \<in> set h. query_typed p)"
  using toQueryParams_ok [OF assms] by (simp add: params_ok_def wf_props_def list_all_iff)

theorem toQueryParams_typed_witness:
  "query_typed (lit ''toString'', VArr [VFun (lit ''toString''), VStr (lit ''1'')])"
proof -
  have "toQueryParams 38 (lit ''?q&toString=1'') =
      Inr [(lit ''q'', Undefined), (lit ''toString'', VArr [VFun (lit ''toString''), VStr (lit ''1'')])]"
    by (simp add: toQueryParams_def strip_def strip_left_def strip_right_def is_ws_def js_simps read_pair_def
        add_param_def lookup_prop_def object_names_def decodeURIComponent.simps read_char_def hex_value_def)
  from toQueryParams_typed [OF this] show ?thesis by simp
qed

text \<open>
  A cookie written without options is read back: if no earlier cookie of the document has its
  name, and the encoded name has no dot, reading gives the value that was written, whatever its
  characters are.
\<close>

theorem cookie_round_trip:
  assumes written: "cookie_text utc key (VStr value) no_options = Inr piece"
    and name: "encodeURIComponent key = Inr k" "46 \<notin> set k" "char_text key"
    and chars: "char_text value"
    and jar: "\<And>q. q \<in> set (ps @ qs) \<Longrightarrow> 59 \<notin> set q" "\<And>q v. q \<in> set ps \<Longrightarrow> q \<noteq> k @ 61 # v"
  shows "cookie_read key False (join [59, 32] (ps @ piece # qs)) = Inr (VStr value)"
proof -
  obtain v where v: "encodeURIComponent value = Inr v" and piece: "piece = k @ 61 # v"
    using written name(1) by (auto simp: cookie_text_def no_options_def attribute_def res_iff Let_def)
  have ku: "list_all uri_char k" using name(3) by (intro encode_chars [OF name(1)]) (simp add: char_text_def)
  have vu: "list_all uri_char v" using chars by (intro encode_chars [OF v]) (simp add: char_text_def)
  have no: "59 \<notin> set k" "59 \<notin> set v" using uri_char_no [OF ku] uri_char_no [OF vu] by simp_all
  have "first_value k (join [59, 32] (ps @ piece # qs) # starts_of (join [59, 32] (ps @ piece # qs))) = Some v"
    using jar no by (intro first_value_join [OF name(2) no(1) _ _ piece]) (auto simp: piece)
  moreover have "decodeURIComponent v = Inr value"
    using chars by (intro decode_encode [OF v]) (simp add: char_text_def)
  ultimately show ?thesis by (simp add: cookie_read_def name(1))
qed

theorem cookie_round_trip_witness:
  "cookie_read (lit ''font'') False (lit ''a=1; font=16%3Bpx; b=2'') = Inr (VStr (lit ''16;px''))"
proof -
  have j: "join [59, 32] ([lit ''a=1''] @ lit ''font=16%3Bpx'' # [lit ''b=2'']) = lit ''a=1; font=16%3Bpx; b=2''"
    by (simp add: js_simps)
  have t: "cookie_text (\<lambda>_. []) (lit ''font'') (VStr (lit ''16;px'')) no_options = Inr (lit ''font=16%3Bpx'')"
    by (simp add: cookie_text_def no_options_def attribute_def js_simps uri_eval)
  have n: "encodeURIComponent (lit ''font'') = Inr (lit ''font'')" by (simp add: js_simps uri_eval)
  have "cookie_read (lit ''font'') False (join [59, 32] ([lit ''a=1''] @ lit ''font=16%3Bpx'' # [lit ''b=2'']))
      = Inr (VStr (lit ''16;px''))"
    by (rule cookie_round_trip [OF t n]) (auto simp: char_text_def js_simps)
  then show ?thesis by (simp only: j)
qed

subsection \<open>Hashes\<close>

text \<open>
  C16. A hash implements a finite map from names to values: setting, unsetting, updating with an
  object and merging act on the map it stands for as the map operations do, the enumeration lists
  each name of the map once, and the well-formedness of the representation is kept.
\<close>

theorem hash_refines_map:
  assumes "wf_props h" and "wf_props object"
  shows "(map_of (hash_set h k v) = (map_of h)(k \<mapsto> v) \<and> wf_props (hash_set h k v))
    \<and> (map_of (snd (hash_unset h k)) = (map_of h)(k := None) \<and> wf_props (snd (hash_unset h k)))
    \<and> (\<exists>g. hash_update h object = Inr g \<and> hash_merge h object = Inr g
         \<and> map_of g = map_of h ++ map_of object \<and> wf_props g)
    \<and> (\<exists>ks. hash_keys h = Inr ks \<and> distinct ks \<and> set ks = dom (map_of h))
    \<and> hash_get (hash_set h k v) k = (if k \<in> set object_names \<and> v = VFun k then Undefined else v)"
proof (intro conjI)
  show "map_of (hash_set h k v) = (map_of h)(k \<mapsto> v)" "wf_props (hash_set h k v)"
    using hash.lookup_insert hash.invar_insert assms(1) by blast+
  show "map_of (snd (hash_unset h k)) = (map_of h)(k := None)" "wf_props (snd (hash_unset h k))"
    using hash.lookup_remove hash.invar_remove assms(1) by blast+
  show "\<exists>g. hash_update h object = Inr g \<and> hash_merge h object = Inr g
      \<and> map_of g = map_of h ++ map_of object \<and> wf_props g"
    using hash_update_map [OF assms] assms(1)
    by (auto simp: hash_merge_def hash_update_fold object_clone_id)
  show "\<exists>ks. hash_keys h = Inr ks \<and> distinct ks \<and> set ks = dom (map_of h)"
    using hash.keys_dom [OF assms(1)] hash.keys_distinct [OF assms(1)]
    by (auto simp: hash_key_list_def hash_keys_def pluck_map)
  show "hash_get (hash_set h k v) k = (if k \<in> set object_names \<and> v = VFun k then Undefined else v)"
    by (simp add: hash_get_def hash_set_def)
qed

theorem hash_refines_map_witness:
  "map_of (hash_set [(lit ''a'', VNum 1)] (lit ''b'') (VNum 2)) = [lit ''a'' \<mapsto> VNum 1, lit ''b'' \<mapsto> VNum 2]"
  using hash_refines_map [of "[(lit ''a'', VNum 1)]" "[]" "lit ''b''" "VNum 2"]
  by (simp add: wf_props_def)

subsection \<open>Classes\<close>

text \<open>
  A method of a class made from a parent and sources is the one of the last source that
  defines the name, else the inherited one; a method whose first parameter is \<open>$super\<close> gets the
  method the parent resolves the name to, any other gets none.
\<close>

theorem super_resolution:
  "resolve (class_create (Some parent) sources) n =
     (case map_of (rev (concat sources)) n of
        None \<Rightarrow> resolve parent n
      | Some m \<Rightarrow> Some (m_fun m (if m_super m then resolve parent n else None)))"
  by (simp add: resolve_create split: option.split)

subsection \<open>Templates\<close>

lemma gsub_step:
  assumes "s \<noteq> []" and "pat s = Some (i, gs)"
  shows "gsub_loop pat rep s result st =
     gsub_loop pat rep (drop (i + length (group 0 gs)) s) (result @ take i s @ fst (rep gs st)) (snd (rep gs st))"
  using assms by (subst gsub_loop.simps) simp

lemma gsub_rest:
  assumes "35 \<notin> set s"
  shows "gsub_loop template_matcher rep s result st = Some (result @ s, st)"
  using assms by (subst gsub_loop.simps) (simp add: template_matcher_def expr_here_None behind_char_None)

lemma template_matcher_at:
  assumes "35 \<notin> set (a @ [c])" and "c \<notin> {0x2028, 0x2029}" and "plain_name n"
  shows "template_matcher (a @ c # placeholder n @ rest) =
     Some (length a, [Some (c # placeholder n), Some [c], Some (placeholder n), Some n])"
proof -
  have "expr_here (a @ c # placeholder n @ rest) = None"
    using assms(1) by (cases a) (auto simp: expr_here_def split: list.split)
  then show ?thesis using behind_char_placeholder [of a c n rest] assms by (simp add: template_matcher_def)
qed

text \<open>
  Evaluating a template always returns. A placeholder whose path is one name is replaced by the
  text of that property, the text around it stays as it is; behind a backslash the placeholder
  itself stays and the backslash goes.
\<close>

theorem template_fills:
  assumes "35 \<notin> set (a @ [c] @ b)" and "c \<notin> {0x2028, 0x2029}" and "plain_name n"
  shows "template_evaluate (a @ c # placeholder n @ b) (VObj ps) =
       Some (if c = backslash then a @ placeholder n @ b
             else a @ c # interpret_val (member (VObj ps) n) @ b)
     \<and> (\<exists>t. template_evaluate template object = Some t)"
proof (intro conjI)
  let ?s = "a @ c # placeholder n @ b"
  let ?gs = "[Some (c # placeholder n), Some [c], Some (placeholder n), Some n]"
  have m: "template_matcher ?s = Some (length a, ?gs)"
    using assms by (intro template_matcher_at) simp_all
  have d: "drop (length a + length (group 0 ?gs)) ?s = b" by (simp add: group_def)
  have r: "template_value (VObj ps) ?gs = (if c = backslash then placeholder n else c # interpret_val (member (VObj ps) n))"
  proof (cases "c = backslash")
    case True
    then show ?thesis by (simp add: template_value_def group_def)
  next
    case False
    then show ?thesis using template_value_name [OF assms(3), of "[c]"] assms(1) by simp
  qed
  have "gsub template_matcher (template_value (VObj ps)) ?s = Some (a @ template_value (VObj ps) ?gs @ b)"
  proof -
    have "gsub_loop template_matcher (\<lambda>gs u. (template_value (VObj ps) gs, u)) ?s [] ()
        = gsub_loop template_matcher (\<lambda>gs u. (template_value (VObj ps) gs, u)) b
            ([] @ take (length a) ?s @ template_value (VObj ps) ?gs) ()"
      using gsub_step [where pat = template_matcher and s = ?s and i = "length a" and gs = ?gs
          and rep = "\<lambda>gs u. (template_value (VObj ps) gs, u)" and result = "[]" and st = "()"] m
      unfolding d by simp
    also have "\<dots> = Some (a @ template_value (VObj ps) ?gs @ b, ())"
      using assms(1) by (simp add: gsub_rest)
    finally show ?thesis by (simp add: gsub_def)
  qed
  then show "template_evaluate ?s (VObj ps) =
       Some (if c = backslash then a @ placeholder n @ b else a @ c # interpret_val (member (VObj ps) n) @ b)"
    by (simp add: template_evaluate_def to_replacements_def r)
  show "\<exists>t. template_evaluate template object = Some t" by (rule template_returns)
qed

theorem template_fills_witness:
  "template_evaluate (lit ''x #{n}!'') (VObj [(lit ''n'', VNum 7)]) = Some (lit ''x 7!'')"
proof -
  have "plain_name (lit ''n'')" by (simp add: plain_name_def line_end_def js_simps)
  moreover have "member (VObj [(lit ''n'', VNum 7)]) (lit ''n'') = VNum 7" by code_simp
  moreover have "interpret_val (VNum 7) = lit ''7''" by code_simp
  moreover have "lit ''x'' @ 32 # placeholder (lit ''n'') @ lit ''!'' = lit ''x #{n}!''"
    by (simp add: placeholder_def js_simps)
  ultimately show ?thesis
    using template_fills [of "lit ''x''" 32 "lit ''!''" "lit ''n''" "[(lit ''n'', VNum 7)]"]
    by (simp add: js_simps)
qed

subsection \<open>Requests\<close>

text \<open>
  C14. Whatever the transport reports, in whatever order and however often, the completion callback
  of a request is called at most once, and the count of active requests is one above its value
  before the request until the request completes, and at that value or one above it afterwards.
  The completion itself takes the request out of the count if no callback throws; if the
  completion callback throws, the request stays in the count for good.
\<close>

theorem request_life:
  assumes "\<forall>ev \<in> set evs. transport_event ev"
    and "s = fold (ajax_step callback script) evs (created status active)"
  shows "complete_calls s \<le> 1
    \<and> (if c_complete s then active \<le> c_active s \<and> c_active s \<le> active + 1
         else c_active s = active + 1 \<and> complete_calls s = 0)
    \<and> (callback (lit ''onComplete'') \<in> {None, Some None} \<and> callback (lit ''onException'') \<in> {None, Some None} \<longrightarrow>
         c_active (fst (respondToReadyState callback script 4 s)) = c_active s - 1)
    \<and> (callback (lit ''onComplete'') = Some (Some e) \<longrightarrow>
         c_active (fst (respondToReadyState callback script 4 s)) = c_active s)"
proof (intro conjI)
  have ok: "request_ok active s"
    unfolding assms(2) using request.inv_run [OF created_ok] assms(1) by (simp add: list_all_iff)
  show "complete_calls s \<le> 1" using ok by (auto simp: request_ok_def split: if_splits)
  show "if c_complete s then active \<le> c_active s \<and> c_active s \<le> active + 1
         else c_active s = active + 1 \<and> complete_calls s = 0"
    using ok by (auto simp: request_ok_def counted_def split: if_splits)
qed (use complete_releases [of callback] complete_leaks [of callback e] in blast)+

theorem request_life_witness:
  "complete_calls (fold (ajax_step (\<lambda>n. if n = lit ''onComplete'' then Some None else None) None)
     [Report 2, Report 4, Report 4, DeferredLoading, Report 4] (created 200 0)) \<le> 1"
  using request_life [OF _ refl, of "[Report 2, Report 4, Report 4, DeferredLoading, Report 4]"]
  by (simp add: transport_event_def)

subsection \<open>Handlers of events\<close>

text \<open>
  C22. Whatever elements start and stop observing, in whatever order, the caches of wrappers and the
  listeners of the browser stand for one list of registrations: observing appends a registration
  that is not there yet, \<open>stopObserving\<close> takes out those that its arguments name, and a custom
  event runs exactly the handlers registered for its name along its path, in this order.
\<close>

theorem event_registry:
  assumes "list_all named_op steps"
  shows "reg_ok (fold registry_step steps no_handlers)
    \<and> registered (fold registry_step steps no_handlers) = fold spec_step steps []
    \<and> (58 \<in> set name \<longrightarrow>
         fire path name (fold registry_step steps no_handlers) = handlers_for path name (fold spec_step steps []))"
proof -
  have "registered no_handlers = []" by (simp add: registered_def no_handlers_def)
  then show ?thesis
    using handlers.inv_run [OF reg_ok_init assms] registry_refines [OF reg_ok_init, of steps] fire_registered [of _ name path]
    by simp
qed

theorem event_registry_witness:
  "fire [2, 1] (lit ''a:b'') (fold registry_step
     [Observe 1 (lit ''a:b'') 7, Observe 2 (lit ''a:b'') 8, Observe 2 (lit ''a:b'') 9, Observe 2 (lit ''a:b'') 8,
      StopObserving 2 (Some (lit ''a:b'')) (Some 9)] no_handlers) = [(2, 8), (1, 7)]"
proof -
  have "58 \<in> set (lit ''a:b'')" by (simp add: js_simps)
  then show ?thesis
    using event_registry [of "[Observe 1 (lit ''a:b'') 7, Observe 2 (lit ''a:b'') 8, Observe 2 (lit ''a:b'') 9,
        Observe 2 (lit ''a:b'') 8, StopObserving 2 (Some (lit ''a:b'')) (Some 9)]" "lit ''a:b''" "[2, 1]"]
    by (simp add: named_op_def spec_step_def kept_def w_handler_def handlers_for_def)
qed

end
