(* ===== verification/Effects.thy ===== *)
theory Effects
  imports Complex_Main ProtoEnum
begin

text \<open>
  The core of \<open>gserver/public/javascripts/effects.js\<close>: \<open>parseColor\<close> (lines 12 to 24), the text of
  an element (28 to 40), effects on several elements (124 to 156), the queue of effects (163 to
  226), the life of one effect (228 to 311) and parallel effects (313 to 330). Times are exact
  rationals, in milliseconds; the transition is an argument. The hooks of an effect and the
  callbacks of its options are the events an effect logs; they do not use the queue themselves.
\<close>

subsection \<open>Colours\<close>

text \<open>\<open>parseInt\<close> without a radix: white space, a sign, \<open>0x\<close> and hexadecimal or decimal digits; what
  follows the digits does not matter, and without any the number is NaN.\<close>

definition is_hex :: "jchar \<Rightarrow> bool" where
  "is_hex c \<longleftrightarrow> is_digit c \<or> (65 \<le> c \<and> c \<le> 70) \<or> (97 \<le> c \<and> c \<le> 102)"

definition hex_digit :: "jchar \<Rightarrow> nat" where
  "hex_digit c = (if is_digit c then c - 48 else if c \<le> 70 then c - 55 else c - 87)"

definition hex_start :: "ustr \<Rightarrow> bool" where
  "hex_start s \<longleftrightarrow> take 2 s = [48, 120] \<or> take 2 s = [48, 88]"

definition parseInt :: "ustr \<Rightarrow> int option" where
  "parseInt s =
     (let t = dropWhile is_ws s;
          neg = (t \<noteq> [] \<and> hd t = 45);
          u = (if t \<noteq> [] \<and> (hd t = 45 \<or> hd t = 43) then tl t else t);
          hex = hex_start u;
          ds = (if hex then takeWhile is_hex (drop 2 u) else takeWhile is_digit u);
          n = (if hex then fold (\<lambda>c a. 16 * a + hex_digit c) ds 0 else digits_value 0 ds)
      in if ds = [] then None else Some (if neg then - int n else int n))"

text \<open>\<open>toColorPart\<close> of any number: NaN and negative numbers are padded like the others.\<close>

definition color_part :: "int option \<Rightarrow> ustr" where
  "color_part n =
     (case n of
        None \<Rightarrow> lit ''NaN''
      | Some i \<Rightarrow> if 0 \<le> i then toColorPart (nat i)
                  else (let t = 45 # radix_str 16 (nat (- i)) in times (2 - int (length t)) [48] @ t))"

definition parseColor :: "(ustr \<Rightarrow> ustr) \<Rightarrow> ustr option \<Rightarrow> ustr \<Rightarrow> ustr" where
  "parseColor toLower fallback s =
     (let color =
        (if slice s 0 4 = lit ''rgb('' then
           (let cols = split_char 44 (slice s 4 (int (length s) - 1)) in
            [35] @ concat (map (\<lambda>i. color_part (if i < length cols then parseInt (cols ! i) else None)) [0..<3]))
         else if slice s 0 1 = [35] then
           (if length s = 4 then [35] @ concat (map (\<lambda>i. toLower (charAt s (int i) @ charAt s (int i))) [1..<4])
            else if length s = 7 then toLower s else [35])
         else [35])
      in if length color = 7 then color
         else case fallback of None \<Rightarrow> s | Some f \<Rightarrow> if f = [] then s else f)"

subsection \<open>The text of an element\<close>

datatype node = Text ustr | Elem "ustr list" "node list"

fun collectTextNodes :: "node list \<Rightarrow> ustr" where
  "collectTextNodes [] = []"
| "collectTextNodes (Text t # ns) = t @ collectTextNodes ns"
| "collectTextNodes (Elem cls ks # ns) = collectTextNodes ks @ collectTextNodes ns"

fun collectTextNodesIgnoreClass :: "ustr \<Rightarrow> node list \<Rightarrow> ustr" where
  "collectTextNodesIgnoreClass c [] = []"
| "collectTextNodesIgnoreClass c (Text t # ns) = t @ collectTextNodesIgnoreClass c ns"
| "collectTextNodesIgnoreClass c (Elem cls ks # ns) =
     (if c \<in> set cls then [] else collectTextNodesIgnoreClass c ks) @ collectTextNodesIgnoreClass c ns"

subsection \<open>One effect\<close>

datatype queue_position = AtFront | WithLast | AtEnd | InParallel

record eff_options =
  eo_delay :: rat
  eo_duration :: rat
  eo_fps :: rat
  eo_from :: rat
  eo_to :: rat
  eo_queue :: queue_position
  eo_limit :: nat
  eo_sync :: bool

definition DefaultOptions :: eff_options where
  "DefaultOptions =
     \<lparr>eo_delay = 0, eo_duration = 1, eo_fps = 100, eo_from = 0, eo_to = 1, eo_queue = InParallel,
      eo_limit = 0, eo_sync = False\<rparr>"

datatype eff_state = Idle | Running | Finished

datatype eff_event =
  BeforeStart | BeforeSetup | Setup | AfterSetup | BeforeUpdate rat | Update rat | AfterUpdate
| BeforeFinish | Finish | AfterFinish

record effect =
  ef_id :: nat
  ef_options :: eff_options
  ef_startOn :: rat
  ef_finishOn :: rat
  ef_frame :: int
  ef_state :: eff_state
  ef_position :: "rat option"
  ef_log :: "eff_event list"

definition totalTime :: "effect \<Rightarrow> rat" where
  "totalTime e = eo_duration (ef_options e) * 1000"

definition totalFrames :: "effect \<Rightarrow> rat" where
  "totalFrames e = eo_fps (ef_options e) * eo_duration (ef_options e)"

definition fromToDelta :: "effect \<Rightarrow> rat" where
  "fromToDelta e = eo_to (ef_options e) - eo_from (ef_options e)"

definition ef_event :: "eff_event \<Rightarrow> effect \<Rightarrow> effect" where
  "ef_event ev e = e\<lparr>ef_log := ef_log e @ [ev]\<rparr>"

definition effect_start :: "nat \<Rightarrow> eff_options \<Rightarrow> effect" where
  "effect_start i opts =
     ef_event BeforeStart
       \<lparr>ef_id = i, ef_options = opts, ef_startOn = eo_delay opts * 1000,
        ef_finishOn = eo_delay opts * 1000 + eo_duration opts * 1000, ef_frame = 0, ef_state = Idle,
        ef_position = None, ef_log = []\<rparr>"

definition effect_render :: "(rat \<Rightarrow> rat) \<Rightarrow> rat \<Rightarrow> effect \<Rightarrow> effect" where
  "effect_render transition pos e =
     (let e1 = (if ef_state e = Idle
                then ef_event AfterSetup (ef_event Setup (ef_event BeforeSetup (e\<lparr>ef_state := Running\<rparr>)))
                else e)
      in if ef_state e1 = Running
         then (let p = transition pos * fromToDelta e1 + eo_from (ef_options e1)
               in ef_event AfterUpdate (ef_event (Update p) (ef_event (BeforeUpdate p) (e1\<lparr>ef_position := Some p\<rparr>))))
         else e1)"

definition effect_finish :: "(rat \<Rightarrow> rat) \<Rightarrow> effect \<Rightarrow> effect" where
  "effect_finish transition e =
     (let e1 = effect_render transition 1 e; e2 = e1\<lparr>ef_state := Finished\<rparr>
      in ef_event AfterFinish (ef_event Finish (ef_event BeforeFinish e2)))"

text \<open>\<open>loop\<close>: the effect after one tick, and whether the tick ended it.\<close>

definition effect_loop :: "(rat \<Rightarrow> rat) \<Rightarrow> rat \<Rightarrow> effect \<Rightarrow> effect \<times> bool" where
  "effect_loop transition timePos e =
     (if timePos \<ge> ef_startOn e then
        if timePos \<ge> ef_finishOn e then (effect_finish transition e, True)
        else (let pos = (timePos - ef_startOn e) / totalTime e;
                  frame = \<lfloor>pos * totalFrames e + 1 / 2\<rfloor>
              in if frame > ef_frame e then ((effect_render transition pos e)\<lparr>ef_frame := frame\<rparr>, False)
                 else (e, False))
      else (e, False))"

subsection \<open>The queue\<close>

text \<open>\<open>q_ended\<close> are the effects that have left the queue.\<close>

record equeue =
  q_effects :: "effect list"
  q_interval :: bool
  q_ended :: "effect list"

definition empty_queue :: equeue where
  "empty_queue = \<lparr>q_effects = [], q_interval = False, q_ended = []\<rparr>"

definition shift :: "rat \<Rightarrow> effect \<Rightarrow> effect" where
  "shift d e = e\<lparr>ef_startOn := ef_startOn e + d, ef_finishOn := ef_finishOn e + d\<rparr>"

text \<open>\<open>max() || timestamp\<close>: without effects, or when the maximum is 0, the time of the call.\<close>

definition max_or :: "rat list \<Rightarrow> rat \<Rightarrow> rat" where
  "max_or ts now = (if ts = [] \<or> Max (set ts) = 0 then now else Max (set ts))"

text \<open>\<open>front\<close>: the effects that have not started move behind the new one.\<close>

definition front_shift :: "effect \<Rightarrow> effect list \<Rightarrow> effect list" where
  "front_shift e es =
     (if eo_queue (ef_options e) = AtFront
      then map (\<lambda>f. if ef_state f = Idle then shift (ef_finishOn e) f else f) es else es)"

definition queue_add :: "rat \<Rightarrow> effect \<Rightarrow> equeue \<Rightarrow> equeue" where
  "queue_add now e q =
     (let opts = ef_options e;
          es = front_shift e (q_effects q);
          timestamp = (case eo_queue opts of
                         WithLast \<Rightarrow> max_or (map ef_startOn es) now
                       | AtEnd \<Rightarrow> max_or (map ef_finishOn es) now
                       | _ \<Rightarrow> now);
          e1 = shift timestamp e;
          es1 = (if eo_limit opts = 0 \<or> length es < eo_limit opts then es @ [e1] else es)
      in if \<not> q_interval q then q\<lparr>q_effects := es1, q_interval := True\<rparr> else q\<lparr>q_effects := es1\<rparr>)"

definition queue_remove :: "nat \<Rightarrow> equeue \<Rightarrow> equeue" where
  "queue_remove i q =
     (let es = filter (\<lambda>e. ef_id e \<noteq> i) (q_effects q)
      in if es = [] then q\<lparr>q_effects := es, q_interval := False\<rparr> else q\<lparr>q_effects := es\<rparr>)"

text \<open>The effect at one index of the loop. The queue is replaced by a shorter one when the effect
  ends, while the index of the loop goes on.\<close>

definition loop_at :: "(rat \<Rightarrow> rat) \<Rightarrow> rat \<Rightarrow> nat \<Rightarrow> equeue \<Rightarrow> equeue" where
  "loop_at transition timePos i q =
     (if i < length (q_effects q) then
        (let e = q_effects q ! i; (e1, ended) = effect_loop transition timePos e
         in if ended then (queue_remove (ef_id e) q)\<lparr>q_ended := q_ended q @ [e1]\<rparr>
            else q\<lparr>q_effects := (q_effects q)[i := e1]\<rparr>)
      else q)"

definition queue_loop :: "(rat \<Rightarrow> rat) \<Rightarrow> rat \<Rightarrow> equeue \<Rightarrow> equeue" where
  "queue_loop transition timePos q = fold (loop_at transition timePos) [0..<length (q_effects q)] q"

text \<open>The timer runs the loop as long as its interval is set.\<close>

definition queue_tick :: "(rat \<Rightarrow> rat) \<Rightarrow> rat \<Rightarrow> equeue \<Rightarrow> equeue" where
  "queue_tick transition timePos q = (if q_interval q then queue_loop transition timePos q else q)"

subsection \<open>Parallel effects, effects on several elements\<close>

definition parallel_update :: "(rat \<Rightarrow> rat) \<Rightarrow> rat \<Rightarrow> effect list \<Rightarrow> effect list" where
  "parallel_update transition pos es = map (effect_render transition pos) es"

definition parallel_finish :: "(rat \<Rightarrow> rat) \<Rightarrow> effect list \<Rightarrow> effect list" where
  "parallel_finish transition es = map (effect_finish transition) es"

text \<open>\<open>multiple\<close>: the delays of the effects that are created for the elements.\<close>

definition multiple_options :: "rat \<Rightarrow> eff_options \<Rightarrow> nat \<Rightarrow> eff_options list" where
  "multiple_options speed opts n =
     map (\<lambda>index. opts\<lparr>eo_delay := of_nat index * speed + eo_delay opts\<rparr>) [0..<n]"

definition pairs :: "(ustr \<times> ustr \<times> ustr) list" where
  "pairs = [(lit ''slide'', lit ''SlideDown'', lit ''SlideUp''), (lit ''blind'', lit ''BlindDown'', lit ''BlindUp''),
            (lit ''appear'', lit ''Appear'', lit ''Fade'')]"

definition toggle_effect :: "(ustr \<Rightarrow> ustr) \<Rightarrow> bool \<Rightarrow> ustr \<Rightarrow> ustr res" where
  "toggle_effect toLower visible name =
     (case map_of pairs (toLower (if name = [] then lit ''appear'' else name)) of
        None \<Rightarrow> Inl TypeError
      | Some (appearing, vanishing) \<Rightarrow> Inr (if visible then vanishing else appearing))"

subsection \<open>Facts\<close>

lemma effect_frames [simp]:
  "ef_id (ef_event ev e) = ef_id e" "ef_state (ef_event ev e) = ef_state e"
  "ef_startOn (ef_event ev e) = ef_startOn e" "ef_finishOn (ef_event ev e) = ef_finishOn e"
  "ef_options (ef_event ev e) = ef_options e" "ef_log (ef_event ev e) = ef_log e @ [ev]"
  by (simp_all add: ef_event_def)

lemma render_frames [simp]:
  "ef_id (effect_render tr pos e) = ef_id e" "ef_options (effect_render tr pos e) = ef_options e"
  by (simp_all add: effect_render_def Let_def)

lemma finish_frames [simp]:
  "ef_id (effect_finish tr e) = ef_id e" "ef_state (effect_finish tr e) = Finished"
  "ef_options (effect_finish tr e) = ef_options e"
  by (simp_all add: effect_finish_def Let_def)

lemma loop_frames [simp]:
  "ef_id (fst (effect_loop tr t e)) = ef_id e" "ef_options (fst (effect_loop tr t e)) = ef_options e"
  by (simp_all add: effect_loop_def Let_def)

lemma shift_frames [simp]:
  "ef_id (shift d e) = ef_id e" "ef_state (shift d e) = ef_state e" "ef_options (shift d e) = ef_options e"
  "ef_log (shift d e) = ef_log e" "ef_startOn (shift d e) = ef_startOn e + d"
  "ef_finishOn (shift d e) = ef_finishOn e + d"
  by (simp_all add: shift_def)

paragraph \<open>The life of one effect\<close>

definition updates :: "rat list \<Rightarrow> eff_event list" where
  "updates ps = concat (map (\<lambda>p. [BeforeUpdate p, Update p, AfterUpdate]) ps)"

definition setup_log :: "eff_event list" where
  "setup_log = [BeforeStart, BeforeSetup, Setup, AfterSetup]"

definition end_position :: "(rat \<Rightarrow> rat) \<Rightarrow> effect \<Rightarrow> rat" where
  "end_position tr e = tr 1 * (eo_to (ef_options e) - eo_from (ef_options e)) + eo_from (ef_options e)"

definition life_ok :: "(rat \<Rightarrow> rat) \<Rightarrow> effect \<Rightarrow> bool" where
  "life_ok tr e \<longleftrightarrow>
     (case ef_state e of
        Idle \<Rightarrow> ef_log e = [BeforeStart]
      | Running \<Rightarrow> \<exists>ps. ef_log e = setup_log @ updates ps
      | Finished \<Rightarrow> \<exists>ps. ef_log e = setup_log @ updates (ps @ [end_position tr e]) @ [BeforeFinish, Finish, AfterFinish])"

lemma updates_snoc: "updates (ps @ [p]) = updates ps @ [BeforeUpdate p, Update p, AfterUpdate]"
  by (simp add: updates_def)

lemma render_log:
  assumes "life_ok tr e" and "ef_state e \<noteq> Finished"
  shows "ef_state (effect_render tr pos e) = Running
    \<and> (\<exists>ps. ef_log (effect_render tr pos e) = setup_log @ updates (ps @ [tr pos * fromToDelta e + eo_from (ef_options e)]))"
proof (cases "ef_state e")
  case Idle
  then have "ef_log (effect_render tr pos e)
      = setup_log @ updates ([] @ [tr pos * fromToDelta e + eo_from (ef_options e)])"
    using assms by (simp add: life_ok_def effect_render_def setup_log_def updates_def fromToDelta_def Let_def)
  moreover have "ef_state (effect_render tr pos e) = Running" using Idle by (simp add: effect_render_def Let_def)
  ultimately show ?thesis by blast
next
  case Running
  then obtain ps where "ef_log e = setup_log @ updates ps" using assms by (auto simp: life_ok_def)
  then have "ef_log (effect_render tr pos e)
      = setup_log @ updates (ps @ [tr pos * fromToDelta e + eo_from (ef_options e)])"
    using Running by (simp add: effect_render_def updates_snoc fromToDelta_def Let_def)
  moreover have "ef_state (effect_render tr pos e) = Running" using Running by (simp add: effect_render_def Let_def)
  ultimately show ?thesis by blast
qed (use assms in simp)

lemma finish_life:
  assumes "life_ok tr e" and "ef_state e \<noteq> Finished"
  shows "life_ok tr (effect_finish tr e)"
proof -
  obtain ps where "ef_log (effect_render tr 1 e) = setup_log @ updates (ps @ [end_position tr e])"
    using render_log [OF assms, of 1] by (auto simp: end_position_def fromToDelta_def)
  then have "ef_log (effect_finish tr e)
      = setup_log @ updates (ps @ [end_position tr e]) @ [BeforeFinish, Finish, AfterFinish]"
    by (simp add: effect_finish_def Let_def)
  moreover have "end_position tr (effect_finish tr e) = end_position tr e" by (simp add: end_position_def)
  ultimately show ?thesis by (auto simp: life_ok_def)
qed

lemma loop_life:
  assumes "life_ok tr e" and "ef_state e \<noteq> Finished" and "effect_loop tr t e = (e1, ended)"
  shows "life_ok tr e1 \<and> (ended \<longleftrightarrow> ef_state e1 = Finished)"
proof (cases "ef_startOn e \<le> t \<and> ef_finishOn e \<le> t")
  case True
  then have "e1 = effect_finish tr e" "ended" using assms(3) by (simp_all add: effect_loop_def)
  then show ?thesis using finish_life [OF assms(1,2)] by simp
next
  case False
  note r = render_log [OF assms(1,2), of "(t - ef_startOn e) / totalTime e"]
  have "\<not> ended" and "e1 = e \<or> (\<exists>f. e1 = (effect_render tr ((t - ef_startOn e) / totalTime e) e)\<lparr>ef_frame := f\<rparr>)"
    using assms(3) False by (auto simp: effect_loop_def Let_def split: if_splits)
  then show ?thesis using assms(1,2) r by (auto simp: life_ok_def)
qed

paragraph \<open>The queue\<close>

text \<open>The interval runs exactly while effects wait, no effect is in the queue twice, and none in it
  is finished; the ones that have left it are.\<close>

definition queue_ok :: "(rat \<Rightarrow> rat) \<Rightarrow> equeue \<Rightarrow> bool" where
  "queue_ok tr q \<longleftrightarrow>
     (q_interval q \<longleftrightarrow> q_effects q \<noteq> [])
     \<and> distinct (map ef_id (q_effects q @ q_ended q))
     \<and> (\<forall>e \<in> set (q_effects q). life_ok tr e \<and> ef_state e \<noteq> Finished)
     \<and> (\<forall>e \<in> set (q_ended q). life_ok tr e \<and> ef_state e = Finished)"

definition queue_ids :: "equeue \<Rightarrow> nat set" where
  "queue_ids q = ef_id ` set (q_effects q @ q_ended q)"

lemma queue_ok_empty: "queue_ok tr empty_queue"
  by (simp add: queue_ok_def empty_queue_def)

lemma life_shift [simp]: "life_ok tr (shift d e) = life_ok tr e"
  by (simp add: life_ok_def end_position_def split: eff_state.split)

lemma life_start: "life_ok tr (effect_start i opts)"
  by (simp add: life_ok_def effect_start_def ef_event_def)

lemma start_frames [simp]:
  "ef_id (effect_start i opts) = i" "ef_options (effect_start i opts) = opts"
  "ef_state (effect_start i opts) = Idle" "ef_startOn (effect_start i opts) = eo_delay opts * 1000"
  "ef_finishOn (effect_start i opts) = eo_delay opts * 1000 + eo_duration opts * 1000"
  by (simp_all add: effect_start_def ef_event_def)

lemma front_shift_frame:
  "map ef_id (front_shift e es) = map ef_id es" "length (front_shift e es) = length es"
  "(\<forall>f \<in> set es. life_ok tr f \<and> ef_state f \<noteq> Finished) \<Longrightarrow>
     \<forall>f \<in> set (front_shift e es). life_ok tr f \<and> ef_state f \<noteq> Finished"
  by (auto simp: front_shift_def)

lemma queue_add_eq:
  "\<exists>d. q_effects (queue_add now e q) = front_shift e (q_effects q)
         @ (if eo_limit (ef_options e) = 0 \<or> length (q_effects q) < eo_limit (ef_options e) then [shift d e] else [])"
  "q_interval (queue_add now e q)" "q_ended (queue_add now e q) = q_ended q"
  by (auto simp: queue_add_def front_shift_frame Let_def)

lemma queue_add_ok:
  assumes q: "queue_ok tr q" and e: "life_ok tr e" "ef_state e \<noteq> Finished" "ef_id e \<notin> queue_ids q"
  shows "queue_ok tr (queue_add now e q)"
proof -
  let ?es = "front_shift e (q_effects q)"
  have ids: "ef_id ` set ?es = ef_id ` set (q_effects q)"
    using front_shift_frame(1) [of e "q_effects q"] by (metis set_map)
  have "\<forall>f \<in> set ?es. life_ok tr f \<and> ef_state f \<noteq> Finished"
    using q by (intro front_shift_frame(3)) (simp add: queue_ok_def)
  moreover have "distinct (map ef_id ?es)" "ef_id ` set ?es \<inter> ef_id ` set (q_ended q) = {}"
    using q ids front_shift_frame(1) [of e "q_effects q"] by (simp_all add: queue_ok_def)
  moreover have "?es = [] \<longleftrightarrow> q_effects q = []"
    using front_shift_frame(2) [of e "q_effects q"] by (metis length_0_conv)
  moreover obtain d where "q_effects (queue_add now e q) = ?es
         @ (if eo_limit (ef_options e) = 0 \<or> length (q_effects q) < eo_limit (ef_options e) then [shift d e] else [])"
    using queue_add_eq(1) by blast
  ultimately show ?thesis
    using q e ids by (auto simp: queue_ok_def queue_ids_def queue_add_eq)
qed

lemma queue_add_ids: "queue_ids (queue_add now e q) \<subseteq> insert (ef_id e) (queue_ids q)"
proof -
  have "ef_id ` set (front_shift e (q_effects q)) = ef_id ` set (q_effects q)"
    using front_shift_frame(1) [of e "q_effects q"] by (metis set_map)
  moreover obtain d where "q_effects (queue_add now e q) = front_shift e (q_effects q)
         @ (if eo_limit (ef_options e) = 0 \<or> length (q_effects q) < eo_limit (ef_options e) then [shift d e] else [])"
    using queue_add_eq(1) by blast
  ultimately show ?thesis by (auto simp: queue_ids_def queue_add_eq)
qed

lemma remove_one:
  assumes "distinct (map ef_id es)" and "i < length es"
  shows "filter (\<lambda>e. ef_id e \<noteq> ef_id (es ! i)) es = take i es @ drop (Suc i) es"
proof -
  have es: "es = take i es @ es ! i # drop (Suc i) es" using assms(2) by (rule id_take_nth_drop)
  then have "distinct (map ef_id (take i es @ es ! i # drop (Suc i) es))" using assms(1) by simp
  then have "\<forall>e \<in> set (take i es @ drop (Suc i) es). ef_id e \<noteq> ef_id (es ! i)" by (auto simp: image_iff)
  then have "filter (\<lambda>e. ef_id e \<noteq> ef_id (es ! i)) (take i es @ es ! i # drop (Suc i) es) = take i es @ drop (Suc i) es"
    by (simp add: filter_id_conv)
  then show ?thesis using es by simp
qed

lemma loop_at_cases:
  assumes q: "queue_ok tr q" and i: "i < length (q_effects q)"
  defines "e \<equiv> q_effects q ! i"
  shows "(fst (effect_loop tr t e), snd (effect_loop tr t e)) = effect_loop tr t e"
    and "snd (effect_loop tr t e) \<Longrightarrow> q_effects (loop_at tr t i q) = take i (q_effects q) @ drop (Suc i) (q_effects q)
           \<and> q_ended (loop_at tr t i q) = q_ended q @ [fst (effect_loop tr t e)]
           \<and> (q_interval (loop_at tr t i q) \<longleftrightarrow> q_effects (loop_at tr t i q) \<noteq> [])"
    and "\<not> snd (effect_loop tr t e) \<Longrightarrow>
           loop_at tr t i q = q\<lparr>q_effects := (q_effects q)[i := fst (effect_loop tr t e)]\<rparr>"
proof -
  have int: "q_interval q" using q i by (auto simp: queue_ok_def)
  have f: "filter (\<lambda>f. ef_id f \<noteq> ef_id e) (q_effects q) = take i (q_effects q) @ drop (Suc i) (q_effects q)"
    unfolding e_def using q i by (intro remove_one) (simp_all add: queue_ok_def)
  show "snd (effect_loop tr t e) \<Longrightarrow> q_effects (loop_at tr t i q) = take i (q_effects q) @ drop (Suc i) (q_effects q)
           \<and> q_ended (loop_at tr t i q) = q_ended q @ [fst (effect_loop tr t e)]
           \<and> (q_interval (loop_at tr t i q) \<longleftrightarrow> q_effects (loop_at tr t i q) \<noteq> [])"
    using i int f unfolding loop_at_def e_def [symmetric]
    by (simp add: case_prod_beta queue_remove_def Let_def)
  show "\<not> snd (effect_loop tr t e) \<Longrightarrow>
           loop_at tr t i q = q\<lparr>q_effects := (q_effects q)[i := fst (effect_loop tr t e)]\<rparr>"
    using i unfolding loop_at_def e_def [symmetric] by (simp add: case_prod_beta Let_def)
qed simp

lemma loop_at_ok:
  assumes q: "queue_ok tr q"
  shows "queue_ok tr (loop_at tr t i q) \<and> queue_ids (loop_at tr t i q) = queue_ids q"
proof (cases "i < length (q_effects q)")
  case False
  then show ?thesis using q by (simp add: loop_at_def)
next
  case i: True
  let ?es = "q_effects q" and ?e = "q_effects q ! i"
  let ?e1 = "fst (effect_loop tr t ?e)"
  have mem: "?e \<in> set ?es" using i by simp
  have life: "life_ok tr ?e1" "snd (effect_loop tr t ?e) \<longleftrightarrow> ef_state ?e1 = Finished"
    using loop_life [of tr ?e t ?e1 "snd (effect_loop tr t ?e)"] q mem by (simp_all add: queue_ok_def)
  have es: "?es = take i ?es @ ?e # drop (Suc i) ?es" using i by (rule id_take_nth_drop)
  have d: "distinct (map ef_id ((take i ?es @ ?e # drop (Suc i) ?es) @ q_ended q))"
    using q es by (simp add: queue_ok_def)
  have sub: "set (take i ?es) \<subseteq> set ?es" "set (drop (Suc i) ?es) \<subseteq> set ?es"
    by (rule set_take_subset, rule set_drop_subset)
  have ids: "queue_ids q = ef_id ` set ((take i ?es @ ?e # drop (Suc i) ?es) @ q_ended q)"
    using es by (simp add: queue_ids_def)
  show ?thesis
  proof (cases "snd (effect_loop tr t ?e)")
    case True
    note c = loop_at_cases(2) [OF q i True]
    show ?thesis using q c d life True sub ids by (auto simp: queue_ok_def queue_ids_def)
  next
    case False
    note c = loop_at_cases(3) [OF q i False]
    have u: "?es[i := ?e1] = take i ?es @ ?e1 # drop (Suc i) ?es" using i by (rule upd_conv_take_nth_drop)
    show ?thesis using q d life False sub ids by (auto simp: c u queue_ok_def queue_ids_def)
  qed
qed

lemma queue_loop_ok: "queue_ok tr q \<Longrightarrow> queue_ok tr (queue_loop tr t q) \<and> queue_ids (queue_loop tr t q) = queue_ids q"
  unfolding queue_loop_def
  by (rule fold_invariant_list [where P = "\<lambda>r. queue_ok tr r \<and> queue_ids r = queue_ids q"])
     (simp_all add: loop_at_ok)

paragraph \<open>A whole run\<close>

datatype queue_op = Add rat eff_options | Tick rat

text \<open>Starting an effect puts it into the queue, unless it is synchronised by another effect.\<close>

definition queue_step :: "(rat \<Rightarrow> rat) \<Rightarrow> queue_op \<Rightarrow> nat \<times> equeue \<Rightarrow> nat \<times> equeue" where
  "queue_step tr step s =
     (case step of
        Add now opts \<Rightarrow>
          (Suc (fst s), if eo_sync opts then snd s else queue_add now (effect_start (fst s) opts) (snd s))
      | Tick t \<Rightarrow> (fst s, queue_tick tr t (snd s)))"

definition queue_run :: "(rat \<Rightarrow> rat) \<Rightarrow> queue_op list \<Rightarrow> nat \<times> equeue" where
  "queue_run tr steps = fold (queue_step tr) steps (0, empty_queue)"

lemma queue_tick_ok: "queue_ok tr q \<Longrightarrow> queue_ok tr (queue_tick tr t q) \<and> queue_ids (queue_tick tr t q) = queue_ids q"
  by (simp add: queue_tick_def queue_loop_ok)

definition run_ok :: "(rat \<Rightarrow> rat) \<Rightarrow> nat \<times> equeue \<Rightarrow> bool" where
  "run_ok tr s \<longleftrightarrow> queue_ok tr (snd s) \<and> queue_ids (snd s) \<subseteq> {..<fst s}"

lemma queue_step_ok:
  assumes s: "run_ok tr s"
  shows "run_ok tr (queue_step tr step s)"
proof (cases step)
  case (Add now opts)
  let ?e = "effect_start (fst s) opts"
  have "queue_ok tr (queue_add now ?e (snd s))"
    using s by (intro queue_add_ok) (auto simp: run_ok_def life_start)
  moreover have "queue_ids (queue_add now ?e (snd s)) \<subseteq> {..<Suc (fst s)}"
    using s queue_add_ids [of now ?e "snd s"] by (auto simp: run_ok_def less_Suc_eq)
  ultimately show ?thesis using s by (auto simp: Add queue_step_def run_ok_def less_Suc_eq)
next
  case (Tick t)
  then show ?thesis using s queue_tick_ok [of tr "snd s" t] by (simp add: run_ok_def queue_step_def)
qed

interpretation effects: event_machine "queue_step tr" "run_ok tr" "\<lambda>_. True" for tr
  by unfold_locales (rule queue_step_ok)

lemma queue_run_ok: "run_ok tr (queue_run tr steps)"
  unfolding queue_run_def
proof (rule effects.inv_run)
  show "run_ok tr (0, empty_queue)"
    using queue_ok_empty [of tr] by (simp add: run_ok_def queue_ids_def empty_queue_def)
qed (simp add: list_all_iff)

paragraph \<open>The end of effects\<close>

definition due :: "rat \<Rightarrow> effect \<Rightarrow> bool" where
  "due t e \<longleftrightarrow> ef_startOn e \<le> t \<and> ef_finishOn e \<le> t"

lemma due_ends: "due t e \<Longrightarrow> effect_loop tr t e = (effect_finish tr e, True)"
  by (simp add: due_def effect_loop_def)

lemma due_steps:
  assumes q: "queue_ok tr q" and d: "\<forall>e \<in> set (q_effects q). due t e"
  defines "n \<equiv> length (q_effects q)" and "r \<equiv> \<lambda>k. fold (loop_at tr t) [0..<k] q"
  shows "set (q_effects (r k)) \<subseteq> set (q_effects q) \<and> queue_ok tr (r k)
    \<and> length (q_effects (r k)) = n - min k (n - n div 2)"
proof (induction k)
  case 0
  then show ?case using q by (simp add: r_def n_def)
next
  case (Suc k)
  have r: "r (Suc k) = loop_at tr t k (r k)" by (simp add: r_def)
  have ok: "queue_ok tr (r (Suc k))" using Suc.IH loop_at_ok r by simp
  show ?case
  proof (cases "k < length (q_effects (r k))")
    case True
    then have "due t (q_effects (r k) ! k)" using d Suc.IH nth_mem by blast
    then have "q_effects (r (Suc k)) = take k (q_effects (r k)) @ drop (Suc k) (q_effects (r k))"
      using loop_at_cases(2) [of tr "r k" k t] Suc.IH True by (simp add: r due_ends)
    moreover from this have "length (q_effects (r (Suc k))) = length (q_effects (r k)) - 1"
      using True by simp
    moreover have "k < n - n div 2" using True Suc.IH by linarith
    ultimately show ?thesis using Suc.IH ok set_take_subset set_drop_subset by fastforce
  next
    case False
    then have "r (Suc k) = r k" by (simp add: r loop_at_def)
    moreover have "n - n div 2 \<le> k" using False Suc.IH by linarith
    ultimately show ?thesis using Suc.IH by simp
  qed
qed

lemma due_halves:
  assumes "queue_ok tr q" and "\<forall>e \<in> set (q_effects q). due t e"
  shows "length (q_effects (queue_tick tr t q)) = length (q_effects q) div 2"
    and "set (q_effects (queue_tick tr t q)) \<subseteq> set (q_effects q)"
proof -
  have "q_interval q \<or> q_effects q = []" using assms(1) by (simp add: queue_ok_def)
  then have "queue_tick tr t q = fold (loop_at tr t) [0..<length (q_effects q)] q"
    by (auto simp: queue_tick_def queue_loop_def)
  then show "length (q_effects (queue_tick tr t q)) = length (q_effects q) div 2"
    and "set (q_effects (queue_tick tr t q)) \<subseteq> set (q_effects q)"
    using due_steps [OF assms, of "length (q_effects q)"] by simp_all
qed

lemma due_ticks:
  assumes "queue_ok tr q" and "\<And>t e. t \<in> set ts \<Longrightarrow> e \<in> set (q_effects q) \<Longrightarrow> due t e"
  shows "length (q_effects (fold (queue_tick tr) ts q)) = length (q_effects q) div 2 ^ length ts
    \<and> queue_ok tr (fold (queue_tick tr) ts q) \<and> queue_ids (fold (queue_tick tr) ts q) = queue_ids q"
  using assms
proof (induction ts arbitrary: q)
  case (Cons t ts)
  have h: "length (q_effects (queue_tick tr t q)) = length (q_effects q) div 2"
    "set (q_effects (queue_tick tr t q)) \<subseteq> set (q_effects q)"
    using due_halves [OF Cons.prems(1), of t] Cons.prems(2) by auto
  have ok: "queue_ok tr (queue_tick tr t q)" "queue_ids (queue_tick tr t q) = queue_ids q"
    using queue_tick_ok [OF Cons.prems(1)] by simp_all
  have "due t' e" if "t' \<in> set ts" "e \<in> set (q_effects (queue_tick tr t q))" for t' e
    using that h(2) Cons.prems(2) by auto
  from Cons.IH [OF ok(1) this] show ?case using h(1) ok(2) by (simp add: div_mult2_eq)
qed simp

paragraph \<open>Effects one after the other\<close>

definition one_after_other :: "effect list \<Rightarrow> bool" where
  "one_after_other es \<longleftrightarrow> sorted_wrt (\<lambda>a b. ef_finishOn a \<le> ef_startOn b) es
     \<and> (\<forall>e \<in> set es. 0 < ef_finishOn e)"

lemma add_at_end:
  assumes "one_after_other (q_effects q)" and "eo_queue opts = AtEnd" and "0 \<le> eo_delay opts"
    and "0 \<le> eo_duration opts" and "0 < now"
  shows "one_after_other (q_effects (queue_add now (effect_start i opts) q))"
proof -
  let ?es = "q_effects q" and ?e = "effect_start i opts"
  let ?m = "max_or (map ef_finishOn ?es) now"
  have f: "front_shift ?e ?es = ?es" using assms(2) by (simp add: front_shift_def)
  have m: "0 < ?m \<and> (\<forall>e \<in> set ?es. ef_finishOn e \<le> ?m)"
  proof (cases "?es = []")
    case True
    then show ?thesis using assms(5) by (simp add: max_or_def)
  next
    case False
    have le: "\<forall>e \<in> set ?es. ef_finishOn e \<le> Max (ef_finishOn ` set ?es)" by simp
    moreover obtain e where "e \<in> set ?es" using False by (cases ?es) auto
    then have "0 < Max (ef_finishOn ` set ?es)"
      using assms(1) le unfolding one_after_other_def by (meson less_le_trans)
    ultimately show ?thesis using False by (simp add: max_or_def)
  qed
  have "q_effects (queue_add now ?e q)
      = ?es @ (if eo_limit opts = 0 \<or> length ?es < eo_limit opts then [shift ?m ?e] else [])"
    using f assms(2) by (simp add: queue_add_def Let_def)
  moreover have "ef_startOn (shift ?m ?e) \<ge> ?m" "ef_finishOn (shift ?m ?e) > 0"
    using m assms(3,4) by simp_all
  ultimately show ?thesis using assms(1) m
    unfolding one_after_other_def by (auto simp: sorted_wrt_append intro: order_trans)
qed

end
