(* ===== verification/InPlaceEditor.thy ===== *)
theory InPlaceEditor
  imports ProtoAjax
begin

text \<open>
  The editors in place of \<open>gserver/public/javascripts/controls.js\<close> (lines 479 to 962): the text of an
  element is edited in a form that takes its place, sent to the server, and replaced by the answer.
  A handler returns the editor it leaves and the exception that ended it, if any. The callbacks of
  the options are entries of \<open>ie_log\<close>; \<open>ie_saves\<close> and \<open>ie_loads\<close> count the requests under way.
\<close>

subsection \<open>Options\<close>

datatype control = ButtonControl | LinkControl | NoControl

record ie_options =
  io_id :: ustr
  io_autoRows :: nat
  io_cancelControl :: control
  io_cols :: nat
  io_externalControl :: bool
  io_fieldPostCreation :: bool
  io_hoverClass :: bool
  io_htmlResponse :: bool
  io_loadTextURL :: bool
  io_loadingText :: ustr
  io_okControl :: control
  io_rows :: nat
  io_savingText :: ustr
  io_size :: nat
  io_stripLoadedTextTags :: bool
  io_submitOnBlur :: bool
  io_textAfter :: ustr
  io_textBefore :: ustr
  io_textBetween :: ustr

definition ie_defaults :: "ustr \<Rightarrow> ie_options" where
  "ie_defaults i =
     \<lparr>io_id = i, io_autoRows = 3, io_cancelControl = LinkControl, io_cols = 0, io_externalControl = False,
      io_fieldPostCreation = True, io_hoverClass = False, io_htmlResponse = True, io_loadTextURL = False,
      io_loadingText = lit ''Loading...'', io_okControl = ButtonControl, io_rows = 1,
      io_savingText = lit ''Saving...'', io_size = 0, io_stripLoadedTextTags = False,
      io_submitOnBlur = False, io_textAfter = [], io_textBefore = [], io_textBetween = []\<rparr>"

text \<open>\<open>dealWithDeprecatedOptions\<close>, for the options that choose the controls. Of two values that are
  both false, \<open>==\<close> holds within undefined and null, and within false, 0 and the empty string.\<close>

definition val_true :: "val \<Rightarrow> bool" where
  "val_true v = (case v of
      Undefined \<Rightarrow> False | Null \<Rightarrow> False | VBool b \<Rightarrow> b | VNum n \<Rightarrow> n \<noteq> 0
    | VNonFinite t \<Rightarrow> t \<noteq> lit ''NaN'' | VStr s \<Rightarrow> s \<noteq> [] | _ \<Rightarrow> True)"

definition falsy_eq :: "val \<Rightarrow> val \<Rightarrow> bool" where
  "falsy_eq a b \<longleftrightarrow> (a \<in> {Undefined, Null} \<and> b \<in> {Undefined, Null})
     \<or> (a \<in> {VBool False, VNum 0, VStr []} \<and> b \<in> {VBool False, VNum 0, VStr []})"

definition prop_of :: "props \<Rightarrow> string \<Rightarrow> val" where
  "prop_of options name = (case lookup_prop (lit name) options of None \<Rightarrow> Undefined | Some v \<Rightarrow> v)"

definition fallback :: "string \<Rightarrow> val \<Rightarrow> props \<Rightarrow> props" where
  "fallback name expr options =
     (if lookup_prop (lit name) options \<noteq> None \<or> expr = Undefined then options
      else put (lit name) expr options)"

definition control_expr :: "val \<Rightarrow> val \<Rightarrow> val" where
  "control_expr link button =
     (if val_true link then VStr (lit ''link'')
      else if val_true button then VStr (lit ''button'')
      else if \<not> falsy_eq link button then VBool False else Undefined)"

definition dealWithDeprecatedOptions :: "props \<Rightarrow> props" where
  "dealWithDeprecatedOptions options =
     (let o1 = fallback ''cancelControl'' (control_expr (prop_of options ''cancelLink'') (prop_of options ''cancelButton'')) options;
          o2 = fallback ''okControl'' (control_expr (prop_of o1 ''okLink'') (prop_of o1 ''okButton'')) o1;
          o3 = fallback ''highlightColor'' (prop_of o2 ''highlightcolor'') o2
      in fallback ''highlightEndColor'' (prop_of o3 ''highlightendcolor'') o3)"

subsection \<open>The form\<close>

datatype mode = OkMode | CancelMode

datatype form_item =
  Field | LineBreak | PlainText ustr | ButtonItem mode | LinkItem mode bool

record field =
  f_textarea :: bool
  f_rows :: nat
  f_width :: nat
  f_value :: ustr
  f_disabled :: bool
  f_submits :: bool

record ie_form =
  fm_items :: "form_item list"
  fm_field :: field
  fm_loading :: bool

record ipe =
  ie_editing :: bool
  ie_saving :: bool
  ie_form :: "ie_form option"
  ie_html :: ustr
  ie_shown :: bool
  ie_old :: "ustr option"
  ie_saving_class :: bool
  ie_hover_class :: bool
  ie_control_shown :: bool
  ie_listening :: bool
  ie_saves :: nat
  ie_loads :: nat
  ie_requests :: "props list"
  ie_log :: "string list"

definition getText :: "ipe \<Rightarrow> ustr" where
  "getText s = unescapeHTML (ie_html s)"

definition triggerCallback :: "string \<Rightarrow> ipe \<Rightarrow> ipe" where
  "triggerCallback name s = s\<lparr>ie_log := ie_log s @ [name]\<rparr>"

definition createControl :: "mode \<Rightarrow> control \<Rightarrow> bool \<Rightarrow> form_item list" where
  "createControl md c extra =
     (case c of ButtonControl \<Rightarrow> [ButtonItem md] | LinkControl \<Rightarrow> [LinkItem md extra] | NoControl \<Rightarrow> [])"

definition createEditField :: "ie_options \<Rightarrow> ipe \<Rightarrow> field" where
  "createEditField opts s =
     (let text = (if io_loadTextURL opts then io_loadingText opts else getText s);
          single = (io_rows opts \<le> 1 \<and> list_all (\<lambda>c. c \<noteq> 13 \<and> c \<noteq> 10) (getText s))
      in \<lparr>f_textarea = \<not> single,
          f_rows = (if single then 1 else if io_rows opts \<le> 1 then io_autoRows opts else io_rows opts),
          f_width = (if single then (if io_size opts \<noteq> 0 then io_size opts else io_cols opts)
                     else if io_cols opts \<noteq> 0 then io_cols opts else 40),
          f_value = text, f_disabled = io_loadTextURL opts, f_submits = io_submitOnBlur opts\<rparr>)"

definition add_text :: "ustr \<Rightarrow> bool \<Rightarrow> form_item list" where
  "add_text text condition = (if text = [] \<or> \<not> condition then [] else [PlainText text])"

definition createForm :: "ie_options \<Rightarrow> ipe \<Rightarrow> ie_form" where
  "createForm opts s =
     (let fld = createEditField opts s;
          ok = io_okControl opts \<noteq> NoControl; cancel = io_cancelControl opts \<noteq> NoControl
      in \<lparr>fm_items = [Field] @ (if f_textarea fld then [LineBreak] else [])
            @ add_text (io_textBefore opts) (ok \<or> cancel)
            @ createControl OkMode (io_okControl opts) False
            @ add_text (io_textBetween opts) (ok \<and> cancel)
            @ createControl CancelMode (io_cancelControl opts) True
            @ add_text (io_textAfter opts) (ok \<or> cancel),
          fm_field = fld, fm_loading = io_loadTextURL opts\<rparr>)"

definition removeForm :: "ipe \<Rightarrow> ipe" where
  "removeForm s = s\<lparr>ie_form := None\<rparr>"

subsection \<open>Handlers\<close>

definition postProcessEditField :: "ie_options \<Rightarrow> ipe \<Rightarrow> ipe" where
  "postProcessEditField opts s =
     (if io_fieldPostCreation opts then s\<lparr>ie_log := ie_log s @ [''focus'']\<rparr> else s)"

definition enterEditMode :: "ie_options \<Rightarrow> ipe \<Rightarrow> ipe" where
  "enterEditMode opts s =
     (if ie_saving s \<or> ie_editing s then s
      else
        let s1 = triggerCallback ''onEnterEditMode'' (s\<lparr>ie_editing := True\<rparr>);
            s2 = (if io_externalControl opts then s1\<lparr>ie_control_shown := False\<rparr> else s1);
            s3 = s2\<lparr>ie_shown := False\<rparr>;
            s4 = s3\<lparr>ie_form := Some (createForm opts s3),
                    ie_loads := (if io_loadTextURL opts then Suc (ie_loads s3) else ie_loads s3)\<rparr>
        in if io_loadTextURL opts then s4 else postProcessEditField opts s4)"

definition enterHover :: "ie_options \<Rightarrow> ipe \<Rightarrow> ipe" where
  "enterHover opts s =
     (let s1 = (if io_hoverClass opts then s\<lparr>ie_hover_class := True\<rparr> else s)
      in if ie_saving s1 then s1 else triggerCallback ''onEnterHover'' s1)"

definition leaveHover :: "ie_options \<Rightarrow> ipe \<Rightarrow> ipe" where
  "leaveHover opts s =
     (let s1 = (if io_hoverClass opts then s\<lparr>ie_hover_class := False\<rparr> else s)
      in if ie_saving s1 then s1 else triggerCallback ''onLeaveHover'' s1)"

definition leaveEditMode :: "ie_options \<Rightarrow> ipe \<Rightarrow> ipe" where
  "leaveEditMode opts s =
     (let s1 = leaveHover opts (removeForm (s\<lparr>ie_saving_class := False\<rparr>));
          s2 = s1\<lparr>ie_shown := True\<rparr>;
          s3 = (if io_externalControl opts then s2\<lparr>ie_control_shown := True\<rparr> else s2);
          s4 = s3\<lparr>ie_saving := False, ie_editing := False, ie_old := None\<rparr>
      in triggerCallback ''onLeaveEditMode'' s4)"

definition wrapUp :: "ie_options \<Rightarrow> ipe \<Rightarrow> ipe" where
  "wrapUp opts s = triggerCallback ''onComplete'' (leaveEditMode opts s)"

definition handleFormCancellation :: "ie_options \<Rightarrow> ipe \<Rightarrow> ipe" where
  "handleFormCancellation opts s = wrapUp opts s"

definition showSaving :: "ie_options \<Rightarrow> ipe \<Rightarrow> ipe" where
  "showSaving opts s =
     s\<lparr>ie_old := Some (ie_html s), ie_html := io_savingText opts, ie_saving_class := True, ie_shown := True\<rparr>"

definition prepareSubmission :: "ie_options \<Rightarrow> ipe \<Rightarrow> ipe" where
  "prepareSubmission opts s = showSaving opts (leaveHover opts (removeForm (s\<lparr>ie_saving := True\<rparr>)))"

text \<open>Without a form there is no field to read. \<open>callback\<close> makes the parameters of the value.\<close>

definition handleFormSubmission :: "(ustr \<Rightarrow> ustr) \<Rightarrow> ie_options \<Rightarrow> ipe \<Rightarrow> ipe \<times> js_error option" where
  "handleFormSubmission callback opts s =
     (case ie_form s of
        None \<Rightarrow> (s, Some TypeError)
      | Some form \<Rightarrow>
          (let s1 = prepareSubmission opts s
           in case toQueryParams 38 (callback (f_value (fm_field form))) of
                Inl e \<Rightarrow> (s1, Some e)
              | Inr params \<Rightarrow>
                  (s1\<lparr>ie_requests := ie_requests s1 @ [put (lit ''editorId'') (VStr (io_id opts)) params],
                      ie_saves := Suc (ie_saves s1)\<rparr>, None)))"

datatype ie_key = EscKey | ReturnKey | OtherKey

definition checkForEscapeOrReturn :: "(ustr \<Rightarrow> ustr) \<Rightarrow> ie_options \<Rightarrow> bool \<Rightarrow> ie_key \<Rightarrow> ipe \<Rightarrow> ipe \<times> js_error option" where
  "checkForEscapeOrReturn callback opts modified k s =
     (if \<not> ie_editing s \<or> modified then (s, None)
      else case k of
             EscKey \<Rightarrow> (handleFormCancellation opts s, None)
           | ReturnKey \<Rightarrow> handleFormSubmission callback opts s
           | OtherKey \<Rightarrow> (s, None))"

text \<open>The saved text is put back only if it is not empty.\<close>

definition restore_old :: "ipe \<Rightarrow> ipe" where
  "restore_old s = (case ie_old s of None \<Rightarrow> s | Some t \<Rightarrow> if t = [] then s else s\<lparr>ie_html := t\<rparr>)"

definition handleAJAXFailure :: "ipe \<Rightarrow> ipe" where
  "handleAJAXFailure s =
     (let s1 = triggerCallback ''onFailure'' s
      in case ie_old s1 of
           None \<Rightarrow> s1
         | Some t \<Rightarrow> if t = [] then s1 else (restore_old s1)\<lparr>ie_old := None\<rparr>)"

text \<open>The end of a request that saves: the failure callback, then the updater, which puts the text of
  a successful answer into the element without its scripts, then \<open>wrapUp\<close>.\<close>

definition saved :: "ie_options \<Rightarrow> bool \<Rightarrow> ustr \<Rightarrow> ipe \<Rightarrow> ipe" where
  "saved opts ok text s =
     (let s1 = (if ok then s else handleAJAXFailure s);
          s2 = (if ok \<and> io_htmlResponse opts then s1\<lparr>ie_html := stripScripts text\<rparr> else s1)
      in wrapUp opts s2)"

definition text_loaded :: "ie_options \<Rightarrow> ustr \<Rightarrow> ipe \<Rightarrow> ipe \<times> js_error option" where
  "text_loaded opts text s =
     (case ie_form s of
        None \<Rightarrow> (s, Some TypeError)
      | Some form \<Rightarrow>
          (let fld = (fm_field form)\<lparr>f_value := (if io_stripLoadedTextTags opts then stripTags text else text),
                        f_disabled := False\<rparr>
           in (postProcessEditField opts (s\<lparr>ie_form := Some (form\<lparr>fm_loading := False, fm_field := fld\<rparr>)\<rparr>), None)))"

definition ie_destroy :: "ie_options \<Rightarrow> ipe \<Rightarrow> ipe" where
  "ie_destroy opts s = (leaveEditMode opts (restore_old s))\<lparr>ie_listening := False\<rparr>"

definition ie_init :: "ustr \<Rightarrow> ipe" where
  "ie_init html =
     \<lparr>ie_editing = False, ie_saving = False, ie_form = None, ie_html = html, ie_shown = True, ie_old = None,
      ie_saving_class = False, ie_hover_class = False, ie_control_shown = True, ie_listening = True,
      ie_saves = 0, ie_loads = 0, ie_requests = [], ie_log = []\<rparr>"

subsection \<open>Events\<close>

text \<open>The form can be used while it is there; an answer needs a request under way.\<close>

datatype ie_event =
  IeClick | IeKey bool ie_key | IeOver | IeOut | IeType ustr | IeSubmit | IeCancel | IeBlur
| IeSaved bool ustr | IeLoaded bool ustr

definition ie_step :: "(ustr \<Rightarrow> ustr) \<Rightarrow> ie_options \<Rightarrow> ie_event \<Rightarrow> ipe \<Rightarrow> ipe \<times> js_error option" where
  "ie_step callback opts ev s =
     (case ev of
        IeClick \<Rightarrow> (if ie_listening s then enterEditMode opts s else s, None)
      | IeKey m k \<Rightarrow> if ie_listening s then checkForEscapeOrReturn callback opts m k s else (s, None)
      | IeOver \<Rightarrow> (if ie_listening s then enterHover opts s else s, None)
      | IeOut \<Rightarrow> (if ie_listening s then leaveHover opts s else s, None)
      | IeType v \<Rightarrow>
          (case ie_form s of
             None \<Rightarrow> (s, None)
           | Some form \<Rightarrow> (s\<lparr>ie_form := Some (form\<lparr>fm_field := (fm_field form)\<lparr>f_value := v\<rparr>\<rparr>)\<rparr>, None))
      | IeSubmit \<Rightarrow> if ie_form s = None then (s, None) else handleFormSubmission callback opts s
      | IeCancel \<Rightarrow> (if ie_form s = None then s else handleFormCancellation opts s, None)
      | IeBlur \<Rightarrow>
          if ie_form s \<noteq> None \<and> io_submitOnBlur opts then handleFormSubmission callback opts s else (s, None)
      | IeSaved ok text \<Rightarrow>
          (if ie_saves s = 0 then s else saved opts ok text (s\<lparr>ie_saves := ie_saves s - 1\<rparr>), None)
      | IeLoaded ok text \<Rightarrow>
          if ie_loads s = 0 then (s, None)
          else (let s1 = s\<lparr>ie_loads := ie_loads s - 1\<rparr>
                in if ok then text_loaded opts text s1 else (handleAJAXFailure s1, None)))"

definition ie_run :: "(ustr \<Rightarrow> ustr) \<Rightarrow> ie_options \<Rightarrow> ie_event list \<Rightarrow> ipe \<Rightarrow> ipe" where
  "ie_run callback opts evs s = fold (\<lambda>ev t. fst (ie_step callback opts ev t)) evs s"

subsection \<open>The collection editor\<close>

text \<open>An entry of the collection is a string or an array; two code units or two elements are taken
  as value and text.\<close>

datatype entry = One ustr | Several "ustr list"

definition as_pair :: "entry \<Rightarrow> ustr list" where
  "as_pair e =
     (case e of
        One t \<Rightarrow> if length t = 2 then map (\<lambda>c. [c]) t else [t, t]
      | Several ts \<Rightarrow> if length ts = 2 then ts else ts @ ts)"

record option_item =
  op_value :: "ustr option"
  op_text :: "ustr option"
  op_selected :: bool

definition buildOptionList :: "ustr \<Rightarrow> entry list \<Rightarrow> option_item list" where
  "buildOptionList marker collection =
     (let coll = map as_pair collection;
          textFound = list_ex (\<lambda>e. at_index e 0 = Some marker) coll
      in map (\<lambda>(index, e). \<lparr>op_value = at_index e 0, op_text = at_index e 1,
             op_selected = (if textFound then at_index e 0 = Some marker else index = 0)\<rparr>)
           (enumerate 0 coll))"

text \<open>\<open>/^\[.*\]$/\<close> on the stripped answer; \<open>ev\<close> evaluates it.\<close>

definition loadCollection :: "(ustr \<Rightarrow> entry list res) \<Rightarrow> ustr \<Rightarrow> entry list res" where
  "loadCollection ev responseText =
     (let js = strip responseText
      in if length js \<ge> 2 \<and> hd js = 91 \<and> last js = 93 \<and> list_all (\<lambda>c. \<not> line_end c) js then ev js
         else Inl ThrownValue)"

subsection \<open>The delayed observer\<close>

record delayed =
  d_value :: ustr
  d_lastValue :: ustr
  d_timer :: bool
  d_calls :: "ustr list"

datatype delayed_event = KeyUp ustr | Elapsed

definition delayed_init :: "ustr \<Rightarrow> delayed" where
  "delayed_init v = \<lparr>d_value = v, d_lastValue = v, d_timer = False, d_calls = []\<rparr>"

definition delayedListener :: "delayed \<Rightarrow> delayed" where
  "delayedListener s =
     (if d_lastValue s = d_value s then s else s\<lparr>d_timer := True, d_lastValue := d_value s\<rparr>)"

definition delayed_onTimerEvent :: "delayed \<Rightarrow> delayed" where
  "delayed_onTimerEvent s = s\<lparr>d_timer := False, d_calls := d_calls s @ [d_value s]\<rparr>"

definition delayed_step :: "delayed_event \<Rightarrow> delayed \<Rightarrow> delayed" where
  "delayed_step ev s =
     (case ev of
        KeyUp v \<Rightarrow> delayedListener (s\<lparr>d_value := v\<rparr>)
      | Elapsed \<Rightarrow> if d_timer s then delayed_onTimerEvent s else s)"

subsection \<open>Facts\<close>

text \<open>The invariant of the editor: the form is there exactly while editing and not saving, it hides
  the element, and a saved text exists only while saving.\<close>

definition ie_ok :: "ipe \<Rightarrow> bool" where
  "ie_ok s \<longleftrightarrow> (ie_form s \<noteq> None \<longleftrightarrow> ie_editing s \<and> \<not> ie_saving s)
     \<and> (ie_saving s \<longrightarrow> ie_editing s) \<and> (ie_shown s \<longleftrightarrow> ie_form s = None)
     \<and> (ie_old s \<noteq> None \<longrightarrow> ie_saving s) \<and> (ie_saving_class s \<longleftrightarrow> ie_saving s)"

lemma ie_init_ok: "ie_ok (ie_init html)"
  by (simp add: ie_ok_def ie_init_def)

lemma trigger_frame [simp]: "ie_ok (triggerCallback n s) = ie_ok s"
  by (simp add: ie_ok_def triggerCallback_def)

lemma post_frame [simp]: "ie_ok (postProcessEditField opts s) = ie_ok s"
  by (simp add: ie_ok_def postProcessEditField_def)

lemma hover_ok [simp]: "ie_ok (enterHover opts s) = ie_ok s" "ie_ok (leaveHover opts s) = ie_ok s"
  by (simp_all add: enterHover_def leaveHover_def triggerCallback_def ie_ok_def Let_def)

lemma enter_ok: "ie_ok s \<Longrightarrow> ie_ok (enterEditMode opts s)"
  by (auto simp: enterEditMode_def Let_def) (auto simp: ie_ok_def triggerCallback_def)

lemma leave_ok: "ie_ok (leaveEditMode opts s)"
  by (simp add: leaveEditMode_def leaveHover_def removeForm_def triggerCallback_def ie_ok_def Let_def)

lemma wrap_ok: "ie_ok (wrapUp opts s)"
  by (simp add: wrapUp_def leave_ok)

lemma prepare_ok: "ie_ok s \<Longrightarrow> ie_form s \<noteq> None \<Longrightarrow> ie_ok (prepareSubmission opts s)"
  by (auto simp: prepareSubmission_def showSaving_def leaveHover_def removeForm_def triggerCallback_def ie_ok_def Let_def)

lemma submit_ok: "ie_ok s \<Longrightarrow> ie_ok (fst (handleFormSubmission cb opts s))"
proof (cases "ie_form s")
  case (Some form)
  assume "ie_ok s"
  then have "ie_ok (prepareSubmission opts s)" using Some by (intro prepare_ok) simp_all
  then show ?thesis using Some
    by (cases "toQueryParams 38 (cb (f_value (fm_field form)))")
       (simp_all add: handleFormSubmission_def ie_ok_def Let_def)
qed (simp add: handleFormSubmission_def)

lemma failure_ok: "ie_ok s \<Longrightarrow> ie_ok (handleAJAXFailure s)"
  by (auto simp: handleAJAXFailure_def restore_old_def triggerCallback_def ie_ok_def Let_def split: option.split)

lemma key_ok: "ie_ok s \<Longrightarrow> ie_ok (fst (checkForEscapeOrReturn cb opts m k s))"
  by (auto simp: checkForEscapeOrReturn_def handleFormCancellation_def wrap_ok submit_ok split: ie_key.split)

lemma loaded_ok: "ie_ok s \<Longrightarrow> ie_ok (fst (text_loaded opts text s))"
  by (auto simp: text_loaded_def Let_def split: option.split) (auto simp: ie_ok_def)

lemma ie_step_ok:
  assumes "ie_ok s"
  shows "ie_ok (fst (ie_step cb opts ev s))"
proof (cases ev)
  case (IeType v)
  then show ?thesis using assms by (auto simp: ie_step_def ie_ok_def split: option.split)
next
  case (IeSaved ok t)
  then show ?thesis using assms by (simp add: ie_step_def saved_def Let_def wrap_ok)
next
  case (IeLoaded ok t)
  have "ie_ok (s\<lparr>ie_loads := ie_loads s - 1\<rparr>)" using assms by (simp add: ie_ok_def)
  then show ?thesis using IeLoaded assms by (simp add: ie_step_def loaded_ok failure_ok Let_def)
qed (use assms in \<open>simp_all add: ie_step_def enter_ok key_ok submit_ok handleFormCancellation_def wrap_ok\<close>)

interpretation editor: event_machine "\<lambda>ev t. fst (ie_step cb opts ev t)" ie_ok "\<lambda>_. True" for cb opts
  by unfold_locales (rule ie_step_ok)

lemma ie_run_ok: "ie_ok s \<Longrightarrow> ie_ok (ie_run cb opts evs s)"
  unfolding ie_run_def by (rule editor.inv_run) (simp_all add: list_all_iff)

lemma options_selected:
  assumes "distinct (map (\<lambda>e. at_index (as_pair e) 0) collection)" and "collection \<noteq> []"
  shows "length (filter op_selected (buildOptionList marker collection)) = 1"
proof -
  let ?val = "\<lambda>e. at_index (as_pair e) 0"
  let ?found = "list_ex (\<lambda>e. ?val e = Some marker) collection"
  have sel: "op_selected (buildOptionList marker collection ! i)
      = (if ?found then ?val (collection ! i) = Some marker else i = 0)" if "i < length collection" for i
    using that by (simp add: buildOptionList_def nth_enumerate_eq list_ex_iff image_iff Let_def)
  have "length (buildOptionList marker collection) = length collection"
    by (simp add: buildOptionList_def Let_def)
  then have "length (filter op_selected (buildOptionList marker collection))
      = card {i. i < length collection \<and> op_selected (buildOptionList marker collection ! i)}"
    by (simp add: length_filter_conv_card)
  also have "{i. i < length collection \<and> op_selected (buildOptionList marker collection ! i)}
      = {i. i < length collection \<and> (if ?found then ?val (collection ! i) = Some marker else i = 0)}"
    using sel by (intro Collect_cong conj_cong refl)
  also have "card \<dots> = 1"
  proof (cases ?found)
    case True
    then obtain k where k: "k < length collection" "?val (collection ! k) = Some marker"
      by (auto simp: list_ex_iff in_set_conv_nth)
    have "i = k" if "i < length collection" "?val (collection ! i) = Some marker" for i
    proof -
      have "map ?val collection ! i = map ?val collection ! k" using that k by simp
      moreover have "i < length (map ?val collection)" "k < length (map ?val collection)" using that(1) k(1) by simp_all
      ultimately show ?thesis using nth_eq_iff_index_eq [OF assms(1)] by blast
    qed
    then have "{i. i < length collection \<and> ?val (collection ! i) = Some marker} = {k}" using k by blast
    with True show ?thesis by simp
  next
    case False
    then have "{i. i < length collection \<and> (if ?found then ?val (collection ! i) = Some marker else i = 0)} = {0}"
      using assms(2) by auto
    then show ?thesis by simp
  qed
  finally show ?thesis .
qed

end
