(* ===== verification/Autocompleter.thy ===== *)
theory Autocompleter
  imports ProtoAjax
begin

text \<open>
  The autocompleter of \<open>gserver/public/javascripts/controls.js\<close> (lines 41 to 465): the part of the
  field's text that is being typed (the token), the list of choices and the marked one, and the
  local source of choices. The text an entry stands for is the text collected from its nodes;
  showing and hiding the list is the flag \<open>ac_shown\<close>, the timer the flag \<open>ac_observer\<close>.
\<close>

subsection \<open>The token\<close>

text \<open>\<open>lastIndexOf\<close> with a position: the last occurrence that starts at it or before; a negative
  position counts as 0.\<close>

definition lastIndexOf_from :: "ustr \<Rightarrow> ustr \<Rightarrow> int \<Rightarrow> int" where
  "lastIndexOf_from s p n =
     (case filter (\<lambda>i. starts_with p (drop i s)) (rev [0..<Suc (min (nat (max n 0)) (length s))]) of
        [] \<Rightarrow> -1 | i # _ \<Rightarrow> int i)"

fun getFirstDifferencePos :: "ustr \<Rightarrow> ustr \<Rightarrow> nat" where
  "getFirstDifferencePos (x # xs) (y # ys) = (if x \<noteq> y then 0 else Suc (getFirstDifferencePos xs ys))"
| "getFirstDifferencePos xs ys = 0"

definition token_step :: "ustr \<Rightarrow> int \<Rightarrow> ustr \<Rightarrow> int \<times> int \<Rightarrow> int \<times> int" where
  "token_step val at token b =
     (let tp = lastIndexOf_from val token (at - 1);
          prev = (if tp > fst b then tp else fst b);
          tn = indexOf_from val token at;
          nxt = (if tn \<noteq> -1 \<and> tn < snd b then tn else snd b)
      in (prev, nxt))"

definition find_token_bounds :: "ustr list \<Rightarrow> ustr \<Rightarrow> ustr \<Rightarrow> int \<times> int" where
  "find_token_bounds tokens val old =
     (let diff = getFirstDifferencePos val old;
          offset = (if diff = length old then 1 else 0);
          b = fold (token_step val (int (diff + offset))) tokens (-1, int (length val))
      in (fst b + 1, snd b))"

subsection \<open>The state\<close>

record ac_options =
  ac_tokens :: "ustr list"
  ac_minChars :: nat
  ac_autoSelect :: bool

record ac =
  ac_hasFocus :: bool
  ac_changed :: bool
  ac_active :: bool
  ac_index :: int
  ac_entries :: "ustr list"
  ac_entryCount :: nat
  ac_value :: ustr
  ac_old :: ustr
  ac_bounds :: "(int \<times> int) option"
  ac_observer :: bool
  ac_shown :: bool
  ac_marked :: "bool list"
  ac_queries :: nat

text \<open>\<open>baseInitialize\<close>: the options with their defaults, a line feed always among the tokens.\<close>

definition ac_base_options :: "ustr list option \<Rightarrow> nat \<Rightarrow> bool \<Rightarrow> ac_options" where
  "ac_base_options tokens minChars autoSelect =
     (let ts = (case tokens of None \<Rightarrow> [] | Some l \<Rightarrow> l)
      in \<lparr>ac_tokens = (if [10] \<in> set ts then ts else ts @ [[10]]),
          ac_minChars = (if minChars = 0 then 1 else minChars), ac_autoSelect = autoSelect\<rparr>)"

definition ac_init :: "ustr \<Rightarrow> ac" where
  "ac_init v =
     \<lparr>ac_hasFocus = False, ac_changed = False, ac_active = False, ac_index = 0, ac_entries = [],
      ac_entryCount = 0, ac_value = v, ac_old = v, ac_bounds = None, ac_observer = False,
      ac_shown = False, ac_marked = [], ac_queries = 0\<rparr>"

definition getTokenBounds :: "ac_options \<Rightarrow> ac \<Rightarrow> (int \<times> int) \<times> ac" where
  "getTokenBounds opts s =
     (case ac_bounds s of
        Some b \<Rightarrow> (b, s)
      | None \<Rightarrow>
          if strip (ac_value s) = [] then ((-1, 0), s)
          else let b = find_token_bounds (ac_tokens opts) (ac_value s) (ac_old s)
               in (b, s\<lparr>ac_bounds := Some b\<rparr>))"

definition getToken :: "ac_options \<Rightarrow> ac \<Rightarrow> ustr \<times> ac" where
  "getToken opts s =
     (let (b, s1) = getTokenBounds opts s in (strip (substring (ac_value s1) (fst b) (snd b)), s1))"

definition ac_hide :: "ac \<Rightarrow> ac" where
  "ac_hide s = s\<lparr>ac_shown := False\<rparr>"

definition getEntry :: "ac \<Rightarrow> int \<Rightarrow> ustr res" where
  "getEntry s i =
     (if 0 \<le> i \<and> i < int (length (ac_entries s)) then Inr (ac_entries s ! nat i) else Inl TypeError)"

definition ac_render :: "ac \<Rightarrow> ac" where
  "ac_render s =
     (if ac_entryCount s > 0 then
        (let s1 = s\<lparr>ac_marked := map (\<lambda>i. ac_index s = int i) [0..<ac_entryCount s]\<rparr>
         in if ac_hasFocus s1 then s1\<lparr>ac_shown := True, ac_active := True\<rparr> else s1)
      else ac_hide (s\<lparr>ac_active := False\<rparr>))"

text \<open>Marking scrolls to the entry, which must exist.\<close>

definition markPrevious :: "ac \<Rightarrow> ac res" where
  "markPrevious s =
     (let s1 = s\<lparr>ac_index := (if ac_index s > 0 then ac_index s - 1 else int (ac_entryCount s) - 1)\<rparr>
      in rbind (getEntry s1 (ac_index s1)) (\<lambda>_. Inr s1))"

definition markNext :: "ac \<Rightarrow> ac res" where
  "markNext s =
     (let s1 = s\<lparr>ac_index := (if ac_index s < int (ac_entryCount s) - 1 then ac_index s + 1 else 0)\<rparr>
      in rbind (getEntry s1 (ac_index s1)) (\<lambda>_. Inr s1))"

definition replace_token :: "ustr \<Rightarrow> int \<times> int \<Rightarrow> ustr \<Rightarrow> ustr" where
  "replace_token val b entry =
     (if fst b \<noteq> -1 then
        substr val 0 (fst b) @ takeWhile is_ws (drop (rel_index (fst b) val) val) @ entry
          @ drop (rel_index (snd b) val) val
      else entry)"

definition updateElement :: "ac_options \<Rightarrow> ustr \<Rightarrow> ac \<Rightarrow> ac" where
  "updateElement opts entry s =
     (let (b, s1) = getTokenBounds opts s;
          v = replace_token (ac_value s1) b entry
      in s1\<lparr>ac_value := v, ac_old := v\<rparr>)"

definition selectEntry :: "ac_options \<Rightarrow> ac \<Rightarrow> ac res" where
  "selectEntry opts s =
     (let s1 = s\<lparr>ac_active := False\<rparr>
      in rbind (getEntry s1 (ac_index s1)) (\<lambda>e. Inr (updateElement opts e s1)))"

text \<open>\<open>choices\<close> are the entries of the list in the answer. An answer without a list leaves
  nothing for \<open>cleanWhitespace\<close> to clean, which fails.\<close>

definition updateChoices :: "ac_options \<Rightarrow> ustr list option \<Rightarrow> ac \<Rightarrow> ac res" where
  "updateChoices opts answer s =
     (if \<not> ac_changed s \<and> ac_hasFocus s then
        (case answer of
           None \<Rightarrow> Inl TypeError
         | Some choices \<Rightarrow>
             (let s1 = s\<lparr>ac_entries := choices, ac_entryCount := length choices, ac_index := 0\<rparr>
              in if ac_entryCount s1 = 1 \<and> ac_autoSelect opts
                 then rbind (selectEntry opts s1) (\<lambda>s2. Inr (ac_hide s2))
                 else Inr (ac_render s1)))
      else Inr s)"

subsection \<open>Events\<close>

datatype ac_key = KTab | KReturn | KEsc | KLeft | KRight | KUp | KDown | KOther

definition ac_note_change :: "ac \<Rightarrow> ac" where
  "ac_note_change s = s\<lparr>ac_changed := True, ac_hasFocus := True, ac_observer := True\<rparr>"

definition onKeyPress :: "ac_options \<Rightarrow> ac_key \<Rightarrow> ac \<Rightarrow> ac res" where
  "onKeyPress opts k s =
     (if ac_active s then
        (case k of
           KTab \<Rightarrow> rbind (selectEntry opts s) (\<lambda>s1. Inr ((ac_hide s1)\<lparr>ac_active := False\<rparr>))
         | KReturn \<Rightarrow> rbind (selectEntry opts s) (\<lambda>s1. Inr ((ac_hide s1)\<lparr>ac_active := False\<rparr>))
         | KEsc \<Rightarrow> Inr ((ac_hide s)\<lparr>ac_active := False\<rparr>)
         | KLeft \<Rightarrow> Inr s
         | KRight \<Rightarrow> Inr s
         | KUp \<Rightarrow> rbind (markPrevious s) (\<lambda>s1. Inr (ac_render s1))
         | KDown \<Rightarrow> rbind (markNext s) (\<lambda>s1. Inr (ac_render s1))
         | KOther \<Rightarrow> Inr (ac_note_change s))
      else if k = KTab \<or> k = KReturn then Inr s
      else Inr (ac_note_change s))"

text \<open>\<open>getUpdatedChoices\<close> of the Ajax autocompleter sends a request with the token.\<close>

definition ac_query :: "ac_options \<Rightarrow> ac \<Rightarrow> ac" where
  "ac_query opts s = (let (t, s1) = getToken opts s in s1\<lparr>ac_queries := Suc (ac_queries s1)\<rparr>)"

definition ac_query_text :: "ustr \<Rightarrow> ustr \<Rightarrow> ustr option \<Rightarrow> ustr res" where
  "ac_query_text paramName token defaultParams =
     rbind (encodeURIComponent paramName) (\<lambda>p. rbind (encodeURIComponent token) (\<lambda>t.
       Inr (p @ [61] @ t @ (case defaultParams of None \<Rightarrow> [] | Some [] \<Rightarrow> [] | Some d \<Rightarrow> [38] @ d))))"

definition ac_activate :: "ac_options \<Rightarrow> ac \<Rightarrow> ac" where
  "ac_activate opts s = ac_query opts (s\<lparr>ac_changed := False, ac_hasFocus := True\<rparr>)"

definition onHover :: "nat \<Rightarrow> ac \<Rightarrow> ac" where
  "onHover i s = (if ac_index s \<noteq> int i then ac_render (s\<lparr>ac_index := int i\<rparr>) else s)"

definition onClick :: "ac_options \<Rightarrow> nat \<Rightarrow> ac \<Rightarrow> ac res" where
  "onClick opts i s = rbind (selectEntry opts (s\<lparr>ac_index := int i\<rparr>)) (\<lambda>s1. Inr (ac_hide s1))"

definition onBlur :: "ac \<Rightarrow> ac" where
  "onBlur s = s\<lparr>ac_hasFocus := False, ac_active := False\<rparr>"

definition onObserverEvent :: "ac_options \<Rightarrow> ac \<Rightarrow> ac" where
  "onObserverEvent opts s =
     (let s1 = s\<lparr>ac_changed := False, ac_bounds := None, ac_observer := False\<rparr>;
          (t, s2) = getToken opts s1;
          s3 = (if length t \<ge> ac_minChars opts then ac_query opts s2
                else ac_hide (s2\<lparr>ac_active := False\<rparr>))
      in s3\<lparr>ac_old := ac_value s3\<rparr>)"

datatype ac_event =
    Key ac_key | TypeText ustr | Activate | Hover nat | Click nat | Blur | HideTimer | ObserverTimer
  | Choices "ustr list option"

text \<open>The mouse can only be over, or click on, an entry that is in the list.\<close>

definition ac_step :: "ac_options \<Rightarrow> ac_event \<Rightarrow> ac \<Rightarrow> ac res" where
  "ac_step opts ev s =
     (case ev of
        Key k \<Rightarrow> onKeyPress opts k s
      | TypeText v \<Rightarrow> Inr (s\<lparr>ac_value := v\<rparr>)
      | Activate \<Rightarrow> Inr (ac_activate opts s)
      | Hover i \<Rightarrow> Inr (if i < length (ac_entries s) then onHover i s else s)
      | Click i \<Rightarrow> if i < length (ac_entries s) then onClick opts i s else Inr s
      | Blur \<Rightarrow> Inr (onBlur s)
      | HideTimer \<Rightarrow> Inr (ac_hide s)
      | ObserverTimer \<Rightarrow> Inr (if ac_observer s then onObserverEvent opts s else s)
      | Choices cs \<Rightarrow> updateChoices opts cs s)"

subsection \<open>The local source of choices\<close>

record local_options =
  l_choices :: nat
  l_partialSearch :: bool
  l_partialChars :: nat
  l_ignoreCase :: bool
  l_fullSearch :: bool

datatype hit = Beginning | Inside nat

definition find_entry :: "(ustr \<Rightarrow> ustr) \<Rightarrow> local_options \<Rightarrow> ustr \<Rightarrow> ustr \<Rightarrow> int \<Rightarrow> int" where
  "find_entry toLower lo elem entry from =
     (if l_ignoreCase lo then indexOf_from (toLower elem) (toLower entry) from else indexOf_from elem entry from)"

text \<open>The loop over the occurrences in one element; it need not end when the entry is empty.\<close>

partial_function (option) scan_elem ::
  "(ustr \<Rightarrow> ustr) \<Rightarrow> local_options \<Rightarrow> ustr \<Rightarrow> ustr \<Rightarrow> int \<Rightarrow> hit option option"
where
  "scan_elem toLower lo elem entry foundPos =
     (if foundPos = -1 then Some None
      else if foundPos = 0 \<and> length elem \<noteq> length entry then Some (Some Beginning)
      else if length entry \<ge> l_partialChars lo \<and> l_partialSearch lo
           \<and> (l_fullSearch lo \<or> \<not> list_all (\<lambda>c. \<not> is_ws c) (substr elem (foundPos - 1) 1))
      then Some (Some (Inside (nat foundPos)))
      else scan_elem toLower lo elem entry (find_entry toLower lo elem entry (foundPos + 1)))"

definition choice_html :: "ustr \<Rightarrow> ustr \<Rightarrow> nat \<Rightarrow> ustr" where
  "choice_html elem entry p =
     lit ''<li>'' @ take p elem @ lit ''<strong>'' @ take (length entry) (drop p elem) @ lit ''</strong>''
       @ drop (p + length entry) elem @ lit ''</li>''"

fun scan_array ::
  "(ustr \<Rightarrow> ustr) \<Rightarrow> local_options \<Rightarrow> ustr \<Rightarrow> ustr list \<Rightarrow> ustr list \<Rightarrow> ustr list \<Rightarrow> (ustr list \<times> ustr list) option"
where
  "scan_array toLower lo entry [] ret part = Some (ret, part)"
| "scan_array toLower lo entry (elem # es) ret part =
     (if \<not> length ret < l_choices lo then Some (ret, part)
      else Option.bind (scan_elem toLower lo elem entry (find_entry toLower lo elem entry 0)) (\<lambda>h.
        case h of
          None \<Rightarrow> scan_array toLower lo entry es ret part
        | Some Beginning \<Rightarrow> scan_array toLower lo entry es (ret @ [choice_html elem entry 0]) part
        | Some (Inside p) \<Rightarrow> scan_array toLower lo entry es ret (part @ [choice_html elem entry p])))"

definition local_choices :: "(ustr \<Rightarrow> ustr) \<Rightarrow> local_options \<Rightarrow> ustr \<Rightarrow> ustr list \<Rightarrow> ustr list option" where
  "local_choices toLower lo entry array =
     map_option (\<lambda>(ret, part). if part \<noteq> [] then ret @ take (l_choices lo - length ret) part else ret)
       (scan_array toLower lo entry array [] [])"

definition local_selector :: "(ustr \<Rightarrow> ustr) \<Rightarrow> local_options \<Rightarrow> ustr \<Rightarrow> ustr list \<Rightarrow> ustr option" where
  "local_selector toLower lo entry array =
     map_option (\<lambda>cs. lit ''<ul>'' @ concat cs @ lit ''</ul>'') (local_choices toLower lo entry array)"

subsection \<open>Facts\<close>

definition ac_ok :: "ac \<Rightarrow> bool" where
  "ac_ok s \<longleftrightarrow> ac_entryCount s = length (ac_entries s)
     \<and> (ac_active s \<longrightarrow> ac_entries s \<noteq> [])
     \<and> (ac_entries s \<noteq> [] \<longrightarrow> 0 \<le> ac_index s \<and> ac_index s < int (length (ac_entries s)))"

lemma getTokenBounds_frame [simp]:
  "ac_entries (snd (getTokenBounds opts s)) = ac_entries s" "ac_index (snd (getTokenBounds opts s)) = ac_index s"
  "ac_active (snd (getTokenBounds opts s)) = ac_active s" "ac_entryCount (snd (getTokenBounds opts s)) = ac_entryCount s"
  "ac_value (snd (getTokenBounds opts s)) = ac_value s" "ac_old (snd (getTokenBounds opts s)) = ac_old s"
  by (simp_all add: getTokenBounds_def Let_def split: option.split)

lemma getToken_frame [simp]:
  "ac_entries (snd (getToken opts s)) = ac_entries s" "ac_index (snd (getToken opts s)) = ac_index s"
  "ac_active (snd (getToken opts s)) = ac_active s" "ac_entryCount (snd (getToken opts s)) = ac_entryCount s"
  by (simp_all add: getToken_def Let_def case_prod_beta)

lemma ac_query_frame [simp]:
  "ac_entries (ac_query opts s) = ac_entries s" "ac_index (ac_query opts s) = ac_index s"
  "ac_active (ac_query opts s) = ac_active s" "ac_entryCount (ac_query opts s) = ac_entryCount s"
  by (simp_all add: ac_query_def Let_def case_prod_beta)

lemma updateElement_frame [simp]:
  "ac_entries (updateElement opts e s) = ac_entries s" "ac_index (updateElement opts e s) = ac_index s"
  "ac_active (updateElement opts e s) = ac_active s" "ac_entryCount (updateElement opts e s) = ac_entryCount s"
  by (simp_all add: updateElement_def Let_def case_prod_beta)

lemma ac_ok_hide [simp]: "ac_ok (ac_hide s) = ac_ok s"
  by (simp add: ac_ok_def ac_hide_def)

lemma ac_ok_note [simp]: "ac_ok (ac_note_change s) = ac_ok s"
  by (simp add: ac_ok_def ac_note_change_def)

lemma ac_ok_inactive: "ac_ok s \<Longrightarrow> ac_ok (s\<lparr>ac_active := False\<rparr>)"
  by (simp add: ac_ok_def)

lemma ac_ok_render: "ac_ok s \<Longrightarrow> ac_ok (ac_render s)"
  by (auto simp: ac_ok_def ac_render_def ac_hide_def Let_def)

lemma selectEntry_ok:
  assumes "ac_ok s" and "ac_entries s \<noteq> []"
  shows "\<exists>t. selectEntry opts s = Inr t \<and> ac_ok t \<and> \<not> ac_active t"
  using assms by (auto simp: selectEntry_def getEntry_def ac_ok_def Let_def)

lemma mark_ok:
  assumes "ac_ok s" and "ac_entries s \<noteq> []"
  shows "\<exists>t. markNext s = Inr t \<and> ac_ok t \<and> ac_index t = (ac_index s + 1) mod int (length (ac_entries s))"
    and "\<exists>t. markPrevious s = Inr t \<and> ac_ok t \<and> ac_index t = (ac_index s - 1) mod int (length (ac_entries s))"
proof -
  let ?n = "int (length (ac_entries s))"
  have i: "0 \<le> ac_index s" "ac_index s < ?n" "ac_entryCount s = length (ac_entries s)"
    using assms by (auto simp: ac_ok_def)
  have n: "0 < ?n" using assms(2) by simp
  show "\<exists>t. markNext s = Inr t \<and> ac_ok t \<and> ac_index t = (ac_index s + 1) mod ?n"
  proof (cases "ac_index s < ?n - 1")
    case True
    then show ?thesis using assms i by (simp add: markNext_def getEntry_def ac_ok_def Let_def)
  next
    case False
    then have e: "ac_index s + 1 = ?n" using i by simp
    then have "(ac_index s + 1) mod ?n = 0" by simp
    then show ?thesis using assms i n False by (simp add: markNext_def getEntry_def ac_ok_def Let_def)
  qed
  show "\<exists>t. markPrevious s = Inr t \<and> ac_ok t \<and> ac_index t = (ac_index s - 1) mod ?n"
  proof (cases "ac_index s > 0")
    case True
    then show ?thesis using assms i by (simp add: markPrevious_def getEntry_def ac_ok_def Let_def)
  next
    case False
    then have z: "ac_index s = 0" using i by simp
    have "(-1) mod ?n = ?n - 1" using n by (simp add: zmod_minus1)
    then show ?thesis using assms i n z by (simp add: markPrevious_def getEntry_def ac_ok_def Let_def)
  qed
qed

lemma key_press_ok:
  assumes ok: "ac_ok s"
  shows "\<exists>t. onKeyPress opts k s = Inr t \<and> ac_ok t"
proof (cases "ac_active s")
  case True
  then have ne: "ac_entries s \<noteq> []" using ok by (simp add: ac_ok_def)
  obtain t where t: "selectEntry opts s = Inr t" "ac_ok t" using selectEntry_ok [OF ok ne] by blast
  obtain u where u: "markNext s = Inr u" "ac_ok u" using mark_ok(1) [OF ok ne] by blast
  obtain v where v: "markPrevious s = Inr v" "ac_ok v" using mark_ok(2) [OF ok ne] by blast
  show ?thesis
    by (cases k) (simp_all add: onKeyPress_def True ok t u v ac_ok_render ac_ok_inactive)
qed (simp add: onKeyPress_def ok)

lemma ac_step_ok:
  assumes "ac_ok s" and "ev \<noteq> Choices None"
  shows "\<exists>t. ac_step opts ev s = Inr t \<and> ac_ok t"
  using assms
proof (cases ev)
  case (Key k)
  then show ?thesis using key_press_ok [OF assms(1)] by (simp add: ac_step_def)
next
  case (Click i)
  note ok = \<open>ac_ok s\<close>
  show ?thesis
  proof (cases "i < length (ac_entries s)")
    case True
    then have "ac_ok (s\<lparr>ac_index := int i\<rparr>)" "ac_entries (s\<lparr>ac_index := int i\<rparr>) \<noteq> []"
      using ok by (auto simp: ac_ok_def)
    from selectEntry_ok [OF this, of opts] show ?thesis using Click True
      by (auto simp: ac_step_def onClick_def ac_hide_def ac_ok_def)
  qed (use ok Click in \<open>simp add: ac_step_def\<close>)
next
  case (Hover i)
  note ok = \<open>ac_ok s\<close>
  have "ac_ok (s\<lparr>ac_index := int i\<rparr>)" if "i < length (ac_entries s)"
    using that ok by (auto simp: ac_ok_def)
  then show ?thesis using Hover ok by (auto simp: ac_step_def onHover_def ac_ok_render)
next
  case (Choices answer)
  then obtain cs where cs: "answer = Some cs" using assms(2) by (cases answer) auto
  note ok = \<open>ac_ok s\<close>
  let ?s1 = "s\<lparr>ac_entries := cs, ac_entryCount := length cs, ac_index := 0\<rparr>"
  show ?thesis
  proof (cases "\<not> ac_changed s \<and> ac_hasFocus s")
    case True
    show ?thesis
    proof (cases "cs = []")
      case True
      then show ?thesis using Choices cs \<open>\<not> ac_changed s \<and> ac_hasFocus s\<close>
        by (simp add: ac_step_def updateChoices_def ac_render_def ac_hide_def ac_ok_def)
    next
      case False
      then have ok1: "ac_ok ?s1" by (simp add: ac_ok_def)
      obtain t where "selectEntry opts ?s1 = Inr t" "ac_ok t"
        using selectEntry_ok [OF ok1] False by auto
      then show ?thesis using Choices cs True ok1
        by (cases "length cs = 1 \<and> ac_autoSelect opts")
          (auto simp: ac_step_def updateChoices_def ac_ok_render Let_def)
    qed
  qed (use ok Choices cs in \<open>auto simp: ac_step_def updateChoices_def\<close>)
qed (auto simp: ac_step_def ac_ok_def ac_activate_def onBlur_def ac_hide_def onObserverEvent_def Let_def
    case_prod_beta)

fun ac_run :: "ac_options \<Rightarrow> ac_event list \<Rightarrow> ac \<Rightarrow> ac res" where
  "ac_run opts [] s = Inr s"
| "ac_run opts (ev # evs) s = rbind (ac_step opts ev s) (ac_run opts evs)"

lemma ac_run_ok: "ac_ok s \<Longrightarrow> Choices None \<notin> set evs \<Longrightarrow> \<exists>t. ac_run opts evs s = Inr t \<and> ac_ok t"
proof (induction evs arbitrary: s)
  case (Cons ev evs)
  then have "ev \<noteq> Choices None" by auto
  from ac_step_ok [OF Cons.prems(1) this, of opts] Cons.IH Cons.prems(2) show ?case by auto
qed simp

end
