(* ===== verification/FormPlugin.thy ===== *)
theory FormPlugin
  imports ProtoEnum
begin

text \<open>
  \<open>gserver/public/javascripts/jquery.form.js\<close>: which fields of a form are sent and with which
  values (lines 647 to 823), clearing, enabling and selecting fields (833 to 905), the submission
  (46 to 186), and the element that submitted the form (579 to 634). jQuery itself is an argument
  where it computes something: \<open>param\<close> writes the query string. The transports are not modelled.
\<close>

subsection \<open>Elements\<close>

record opt =
  op_chosen :: bool
  op_val :: ustr
  op_content :: ustr
  op_has_value :: bool

record elem =
  el_id :: nat
  el_name :: ustr
  el_type :: ustr
  el_tag :: ustr
  el_disabled :: bool
  el_checked :: bool
  el_in_form :: bool
  el_index :: int
  el_options :: "opt list"
  el_value :: ustr

datatype field_value = NoValue | SingleValue ustr | ValueList "ustr list"

text \<open>The form: the element that submitted it, and where an image was clicked.\<close>

record clicked =
  ck_elem :: elem
  ck_x :: int
  ck_y :: int

type_synonym clk = "clicked option"

definition is_clk :: "clk \<Rightarrow> elem \<Rightarrow> bool" where
  "is_clk clk el = (case clk of None \<Rightarrow> False | Some c \<Rightarrow> el_id (ck_elem c) = el_id el)"

definition type_in :: "string list \<Rightarrow> elem \<Rightarrow> bool" where
  "type_in ts el \<longleftrightarrow> el_type el \<in> set (map lit ts)"

text \<open>\<open>specified\<close> tells a missing value attribute from an empty one; then the text counts.\<close>

definition option_value :: "opt \<Rightarrow> ustr" where
  "option_value op = (if op_val op = [] \<and> \<not> op_has_value op then op_content op else op_val op)"

definition unsuccessful :: "clk \<Rightarrow> elem \<Rightarrow> bool" where
  "unsuccessful clk el \<longleftrightarrow>
     el_name el = [] \<or> el_disabled el \<or> type_in [''reset''] el \<or> type_in [''button''] el
     \<or> (type_in [''checkbox'', ''radio''] el \<and> \<not> el_checked el)
     \<or> (type_in [''submit'', ''image''] el \<and> el_in_form el \<and> \<not> is_clk clk el)
     \<or> (el_tag el = lit ''select'' \<and> el_index el = -1)"

definition select_value :: "elem \<Rightarrow> field_value" where
  "select_value el =
     (if el_index el < 0 then NoValue
      else
        let index = nat (el_index el); one = type_in [''select-one''] el;
            ops = (if one then take 1 (drop index (el_options el)) else el_options el);
            vals = map option_value (filter op_chosen ops)
        in if one \<and> vals \<noteq> [] then SingleValue (hd vals) else ValueList vals)"

definition fieldValue :: "bool \<Rightarrow> clk \<Rightarrow> elem \<Rightarrow> field_value" where
  "fieldValue successful clk el =
     (if successful \<and> unsuccessful clk el then NoValue
      else if el_tag el = lit ''select'' then select_value el
      else SingleValue (el_value el))"

definition fieldValues :: "bool \<Rightarrow> clk \<Rightarrow> elem list \<Rightarrow> ustr list" where
  "fieldValues successful clk els =
     fold (\<lambda>el val. case fieldValue successful clk el of
             NoValue \<Rightarrow> val | SingleValue v \<Rightarrow> val @ [v] | ValueList vs \<Rightarrow> val @ vs) els []"

subsection \<open>The data of a form\<close>

type_synonym pairs_list = "(ustr \<times> ustr) list"

definition image_pairs :: "clicked \<Rightarrow> ustr \<Rightarrow> pairs_list" where
  "image_pairs c n = [(n, el_value (ck_elem c)), (n @ lit ''.x'', int_str (ck_x c)), (n @ lit ''.y'', int_str (ck_y c))]"

definition pairs_of :: "ustr \<Rightarrow> field_value \<Rightarrow> pairs_list" where
  "pairs_of n v = (case v of NoValue \<Rightarrow> [] | SingleValue t \<Rightarrow> [(n, t)] | ValueList ts \<Rightarrow> map (Pair n) ts)"

fun form_loop :: "bool \<Rightarrow> clk \<Rightarrow> elem list \<Rightarrow> pairs_list \<Rightarrow> pairs_list" where
  "form_loop semantic clk [] a = a"
| "form_loop semantic clk (el # els) a =
     form_loop semantic clk els
       (if el_name el = [] then a
        else if semantic \<and> clk \<noteq> None \<and> type_in [''image''] el then
          (case clk of
             None \<Rightarrow> a
           | Some c \<Rightarrow> if \<not> el_disabled el \<and> is_clk clk el then a @ image_pairs (c\<lparr>ck_elem := el\<rparr>) (el_name el) else a)
        else a @ pairs_of (el_name el) (fieldValue True clk el))"

text \<open>Without \<open>semantic\<close> the image that was clicked is not among the elements; it comes last.\<close>

definition formToArray :: "bool \<Rightarrow> clk \<Rightarrow> elem list \<Rightarrow> pairs_list" where
  "formToArray semantic clk els =
     (let a = form_loop semantic clk els []
      in case clk of
           None \<Rightarrow> a
         | Some c \<Rightarrow>
             let input = ck_elem c in
             if \<not> semantic \<and> el_name input \<noteq> [] \<and> \<not> el_disabled input \<and> type_in [''image''] input
             then a @ image_pairs c (el_name input) else a)"

definition formSerialize :: "(pairs_list \<Rightarrow> ustr) \<Rightarrow> bool \<Rightarrow> clk \<Rightarrow> elem list \<Rightarrow> ustr" where
  "formSerialize param semantic clk els = param (formToArray semantic clk els)"

definition field_pairs :: "bool \<Rightarrow> clk \<Rightarrow> elem list \<Rightarrow> pairs_list" where
  "field_pairs successful clk els =
     fold (\<lambda>el a. if el_name el = [] then a else a @ pairs_of (el_name el) (fieldValue successful clk el)) els []"

definition fieldSerialize :: "(pairs_list \<Rightarrow> ustr) \<Rightarrow> bool \<Rightarrow> clk \<Rightarrow> elem list \<Rightarrow> ustr" where
  "fieldSerialize param successful clk els = param (field_pairs successful clk els)"

subsection \<open>Changing fields\<close>

definition text_types :: "string list" where
  "text_types = [''color'', ''date'', ''datetime'', ''email'', ''month'', ''number'', ''password'', ''range'',
     ''search'', ''tel'', ''text'', ''time'', ''url'', ''week'']"

text \<open>An index of -1 leaves no option selected. The case of a type does not matter.\<close>

definition clear_field :: "elem \<Rightarrow> elem" where
  "clear_field el =
     (if map ascii_lower (el_type el) \<in> set (map lit text_types) \<or> el_tag el = lit ''textarea''
      then el\<lparr>el_value := []\<rparr>
      else if type_in [''checkbox'', ''radio''] el then el\<lparr>el_checked := False\<rparr>
      else if el_tag el = lit ''select''
      then el\<lparr>el_index := -1, el_options := map (\<lambda>p. p\<lparr>op_chosen := False\<rparr>) (el_options el)\<rparr>
      else el)"

definition clearFields :: "elem list \<Rightarrow> elem list" where
  "clearFields els = map clear_field els"

definition clearForm :: "elem list \<Rightarrow> elem list" where
  "clearForm els =
     map (\<lambda>el. if el_tag el \<in> {lit ''input'', lit ''select'', lit ''textarea''} then clear_field el else el) els"

definition enable_fields :: "bool \<Rightarrow> elem list \<Rightarrow> elem list" where
  "enable_fields b els = map (\<lambda>el. el\<lparr>el_disabled := \<not> b\<rparr>) els"

definition selected_box :: "bool \<Rightarrow> elem \<Rightarrow> elem" where
  "selected_box select el = (if type_in [''checkbox'', ''radio''] el then el\<lparr>el_checked := select\<rparr> else el)"

text \<open>\<open>selected\<close> on the option with index \<open>i\<close> of a list: in a list for one choice all options are
  deselected first.\<close>

definition selected_option :: "bool \<Rightarrow> nat \<Rightarrow> elem \<Rightarrow> elem" where
  "selected_option select i sel =
     (let ops = (if select \<and> type_in [''select-one''] sel
                 then map (\<lambda>p. p\<lparr>op_chosen := False\<rparr>) (el_options sel) else el_options sel)
      in if i < length ops then sel\<lparr>el_options := ops[i := (ops ! i)\<lparr>op_chosen := select\<rparr>]\<rparr> else sel)"

subsection \<open>Submission\<close>

datatype extra = ExtraList "ustr list" | ExtraText ustr

record submit_options =
  so_url :: "ustr option"
  so_type :: "ustr option"
  so_semantic :: bool
  so_data :: "(ustr \<times> extra) list"
  so_dataType :: bool
  so_target :: bool
  so_replaceTarget :: bool
  so_success :: bool
  so_resetForm :: bool
  so_clearForm :: bool
  so_iframe :: "bool option"
  so_closeKeepAlive :: bool

text \<open>What the page's hooks answer: each may veto the submission.\<close>

record submit_hooks =
  h_pre_serialize :: bool
  h_before_serialize :: bool
  h_before_submit :: "pairs_list \<Rightarrow> bool"
  h_validate :: "pairs_list \<Rightarrow> bool"

datatype success_callback = ResetForm | ClearForm | LoadTarget bool | CallSuccess

datatype transport = Upload | UploadAfterKeepAlive | AjaxCall

record sent =
  s_url :: "ustr option"
  s_data :: "ustr option"
  s_callbacks :: "success_callback list"
  s_transport :: transport

datatype submission = Skipped | PreSerializeVeto | SerializeAborted | SubmitAborted | ValidateVeto | Sent sent

definition clean_url :: "ustr \<Rightarrow> ustr option" where
  "clean_url url = (let t = takeWhile (\<lambda>c. c \<noteq> 35) url in if url = [] then Some [] else if t = [] then None else Some t)"

definition form_url :: "ustr option \<Rightarrow> ustr \<Rightarrow> ustr option" where
  "form_url action href =
     (let url = (case action of None \<Rightarrow> [] | Some t \<Rightarrow> strip t); url = (if url = [] then href else url)
      in clean_url url)"

definition extra_pairs :: "(ustr \<times> extra) list \<Rightarrow> pairs_list" where
  "extra_pairs d = concat (map (\<lambda>(n, x). case x of ExtraList vs \<Rightarrow> map (Pair n) vs | ExtraText v \<Rightarrow> [(n, v)]) d)"

definition submit_callbacks :: "submit_options \<Rightarrow> success_callback list" where
  "submit_callbacks opts =
     (if so_resetForm opts then [ResetForm] else []) @ (if so_clearForm opts then [ClearForm] else [])
     @ (if \<not> so_dataType opts \<and> so_target opts then [LoadTarget (so_replaceTarget opts)]
        else if so_success opts then [CallSuccess] else [])"

definition submit_transport :: "bool \<Rightarrow> bool \<Rightarrow> submit_options \<Rightarrow> transport" where
  "submit_transport files multipart opts =
     (if so_iframe opts \<noteq> Some False \<and> (files \<or> so_iframe opts = Some True \<or> multipart)
      then (if so_closeKeepAlive opts then UploadAfterKeepAlive else Upload)
      else AjaxCall)"

text \<open>\<open>n_forms\<close> is the length of the jQuery object. Properties that are undefined do not enter the
  options, so \<open>options.url\<close> may be missing; then reading its index fails.\<close>

definition ajaxSubmit ::
  "(ustr \<Rightarrow> ustr) \<Rightarrow> (pairs_list \<Rightarrow> ustr) \<Rightarrow> submit_hooks \<Rightarrow> submit_options \<Rightarrow> nat \<Rightarrow> ustr option \<Rightarrow> ustr option
     \<Rightarrow> ustr \<Rightarrow> bool \<Rightarrow> bool \<Rightarrow> clk \<Rightarrow> elem list \<Rightarrow> submission res"
where
  "ajaxSubmit toUpper param hooks opts n_forms meth action href files multipart clk els =
     (if n_forms = 0 then Inr Skipped
      else
        let url = (case so_url opts of Some u \<Rightarrow> Some u | None \<Rightarrow> form_url action href);
            type = (case so_type opts of
                      Some t \<Rightarrow> t
                    | None \<Rightarrow> (case meth of None \<Rightarrow> lit ''GET'' | Some m \<Rightarrow> if m = [] then lit ''GET'' else m))
        in if h_pre_serialize hooks then Inr PreSerializeVeto
           else if h_before_serialize hooks then Inr SerializeAborted
           else
             let a = formToArray (so_semantic opts) clk els @ extra_pairs (so_data opts) in
             if h_before_submit hooks a then Inr SubmitAborted
             else if h_validate hooks a then Inr ValidateVeto
             else
               let q = param a; send = (\<lambda>u d. Inr (Sent \<lparr>s_url = u, s_data = d,
                     s_callbacks = submit_callbacks opts, s_transport = submit_transport files multipart opts\<rparr>)) in
               if toUpper type = lit ''GET'' then
                 (case url of
                    None \<Rightarrow> Inl TypeError
                  | Some u \<Rightarrow> send (Some (u @ (if indexOf u [63] \<ge> 0 then [38] else [63]) @ q)) None)
               else send url (Some q))"

subsection \<open>The element that submits\<close>

text \<open>A click on the form. The element, or the submit button around it, is remembered; each click
  sets a timer that forgets whatever is remembered then.\<close>

record click_state =
  cs_clk :: clk
  cs_timers :: nat

datatype form_event = ClickOn "elem option" int int | ForgetTimer

definition form_step :: "form_event \<Rightarrow> click_state \<Rightarrow> click_state" where
  "form_step ev s =
     (case ev of
        ClickOn target x y \<Rightarrow>
          (case target of
             None \<Rightarrow> s
           | Some el \<Rightarrow>
               let image = type_in [''image''] el;
                   keep = (case cs_clk s of None \<Rightarrow> (0, 0) | Some c \<Rightarrow> (ck_x c, ck_y c))
               in s\<lparr>cs_clk := Some \<lparr>ck_elem = el, ck_x = (if image then x else fst keep),
                                       ck_y = (if image then y else snd keep)\<rparr>,
                    cs_timers := Suc (cs_timers s)\<rparr>)
      | ForgetTimer \<Rightarrow>
          if cs_timers s = 0 then s else s\<lparr>cs_clk := None, cs_timers := cs_timers s - 1\<rparr>)"

subsection \<open>Facts\<close>

lemma form_loop_plain:
  "form_loop False clk els a =
     a @ concat (map (\<lambda>el. if el_name el = [] then [] else pairs_of (el_name el) (fieldValue True clk el)) els)"
  by (induction els arbitrary: a) auto

lemma field_pairs_eq:
  "field_pairs succ clk els =
     concat (map (\<lambda>el. if el_name el = [] then [] else pairs_of (el_name el) (fieldValue succ clk el)) els)"
proof -
  have "fold (\<lambda>el a. if el_name el = [] then a else a @ pairs_of (el_name el) (fieldValue succ clk el)) els acc
     = acc @ concat (map (\<lambda>el. if el_name el = [] then [] else pairs_of (el_name el) (fieldValue succ clk el)) els)" for acc
    by (induction els arbitrary: acc) auto
  from this [of "[]"] show ?thesis by (simp add: field_pairs_def)
qed

lemma form_array_fields: "formToArray False None els = field_pairs True None els"
  by (simp add: formToArray_def form_loop_plain field_pairs_eq)

lemma pairs_of_name: "p \<in> set (pairs_of n v) \<Longrightarrow> fst p = n"
  by (auto simp: pairs_of_def split: field_value.splits)

lemma unsuccessful_no_value: "unsuccessful clk el \<Longrightarrow> fieldValue True clk el = NoValue"
  by (simp add: fieldValue_def)

lemma clear_field_frame [simp]:
  "el_name (clear_field el) = el_name el" "el_disabled (clear_field el) = el_disabled el"
  "el_type (clear_field el) = el_type el" "el_tag (clear_field el) = el_tag el"
  "el_id (clear_field el) = el_id el" "el_in_form (clear_field el) = el_in_form el"
  by (simp_all add: clear_field_def)

lemma clear_idem: "clear_field (clear_field el) = clear_field el"
  by (simp add: clear_field_def type_in_def comp_def)

end
