(* ===== verification/WidgetProps.thy ===== *)
theory WidgetProps
  imports Effects InPlaceEditor Autocompleter FormPlugin
begin

text \<open>
  Properties of the widgets: the queue of effects, the editor in place, the autocompleter and the
  data of a form.
\<close>

subsection \<open>Effects\<close>

text \<open>
  C17. After any sequence of started effects and ticks the timer of the queue runs exactly while
  effects wait in it, no effect is there twice or after its end, and every effect that has left
  it was set up once, then updated, last at its end position, and finished once.
\<close>

theorem effect_queue_invariant:
  assumes "q = snd (queue_run transition steps)"
  shows "(q_interval q \<longleftrightarrow> q_effects q \<noteq> [])
    \<and> distinct (map ef_id (q_effects q @ q_ended q))
    \<and> (\<forall>e \<in> set (q_effects q). ef_state e \<noteq> Finished)
    \<and> (\<forall>e \<in> set (q_ended q). ef_state e = Finished \<and> (\<exists>ps. ef_log e =
         setup_log @ updates (ps @ [end_position transition e]) @ [BeforeFinish, Finish, AfterFinish]))"
proof -
  have "queue_ok transition q" using queue_run_ok assms by (simp add: run_ok_def)
  then show ?thesis by (auto simp: queue_ok_def life_ok_def)
qed

theorem effect_queue_invariant_witness:
  "q_interval (snd (queue_run (\<lambda>p. p) [Add 100 DefaultOptions]))"
  using effect_queue_invariant [OF refl, of "\<lambda>p. p" "[Add 100 DefaultOptions]"]
  by (simp add: queue_run_def queue_step_def queue_add_def DefaultOptions_def Let_def)

text \<open>
  C18. The effects of a queue end: from the time all effects in it are due, every tick finishes all
  but half of them, because the loop goes on counting while the queue gets shorter. So as many
  ticks as the number of effects has binary digits empty the queue and stop its timer, and every
  effect that was in it has ended.
\<close>

theorem effects_end:
  assumes "q = snd (queue_run transition steps)"
    and "\<forall>t \<in> set ticks. \<forall>e \<in> set (q_effects q). due t e"
    and "r = fold (queue_tick transition) ticks q"
  shows "length (q_effects r) = length (q_effects q) div 2 ^ length ticks
    \<and> (length (q_effects q) < 2 ^ length ticks \<longrightarrow>
         q_effects r = [] \<and> \<not> q_interval r \<and> ef_id ` set (q_effects q) \<subseteq> ef_id ` set (q_ended r))"
proof -
  have q: "queue_ok transition q" using queue_run_ok assms(1) by (simp add: run_ok_def)
  have t: "length (q_effects r) = length (q_effects q) div 2 ^ length ticks" "queue_ok transition r"
    "queue_ids r = queue_ids q"
    using due_ticks [OF q, of ticks] assms(2,3) by auto
  show ?thesis
  proof (intro conjI impI t(1))
    assume "length (q_effects q) < 2 ^ length ticks"
    then have e: "q_effects r = []" using t(1) by simp
    then show "q_effects r = []" "\<not> q_interval r" using t(2) by (simp_all add: queue_ok_def)
    show "ef_id ` set (q_effects q) \<subseteq> ef_id ` set (q_ended r)"
      using t(3) e by (auto simp: queue_ids_def)
  qed
qed

theorem effects_end_witness:
  "q_effects (fold (queue_tick (\<lambda>p. p)) [1200] (snd (queue_run (\<lambda>p. p) [Add 100 DefaultOptions]))) = []"
proof -
  let ?q = "snd (queue_run (\<lambda>p. p) [Add 100 DefaultOptions])"
  have "q_effects ?q = [shift 100 (effect_start 0 DefaultOptions)]"
    by (simp add: queue_run_def queue_step_def queue_add_def DefaultOptions_def empty_queue_def front_shift_def Let_def)
  then show ?thesis
    using effects_end [OF refl _ refl, of "[1200]" "\<lambda>p. p" "[Add 100 DefaultOptions]"]
    by (simp add: due_def DefaultOptions_def)
qed

subsection \<open>The editor in place\<close>

text \<open>
  C19. Whatever happens to an editor, the form is there exactly while the text is edited and not yet
  being saved, the element is hidden exactly while the form is there, the text before saving is
  kept only while saving, and the class that marks saving is on the element exactly then.
\<close>

theorem editor_invariant:
  "let s = ie_run callback opts evs (ie_init html) in
     (ie_form s \<noteq> None \<longleftrightarrow> ie_editing s \<and> \<not> ie_saving s)
     \<and> (ie_shown s \<longleftrightarrow> ie_form s = None)
     \<and> (ie_saving_class s \<longleftrightarrow> ie_saving s)
     \<and> (ie_saving s \<longrightarrow> ie_editing s) \<and> (ie_old s \<noteq> None \<longrightarrow> ie_saving s)"
  using ie_run_ok [OF ie_init_ok] unfolding ie_ok_def Let_def by blast

theorem editor_invariant_witness:
  "\<not> ie_shown (ie_run (\<lambda>v. v) (ie_defaults []) [IeClick, IeType (lit ''x'')] (ie_init (lit ''old'')))"
proof -
  let ?s = "ie_run (\<lambda>v. v) (ie_defaults []) [IeClick, IeType (lit ''x'')] (ie_init (lit ''old''))"
  have "ie_form ?s \<noteq> None"
    by (simp add: ie_run_def ie_step_def enterEditMode_def ie_init_def ie_defaults_def triggerCallback_def
        postProcessEditField_def Let_def)
  then show ?thesis
    using editor_invariant [of "\<lambda>v. v" "ie_defaults []" "[IeClick, IeType (lit ''x'')]" "lit ''old''"]
    by (simp add: Let_def)
qed


lemma wrap_fields [simp]:
  "ie_html (wrapUp opts s) = ie_html s" "\<not> ie_editing (wrapUp opts s)" "ie_saves (wrapUp opts s) = ie_saves s"
  "ie_old (wrapUp opts s) = None"
  by (simp_all add: wrapUp_def leaveEditMode_def leaveHover_def removeForm_def triggerCallback_def Let_def)




subsection \<open>The autocompleter\<close>



subsection \<open>Forms\<close>

text \<open>
  Serialising a form whose elements are fields is the same as serialising its fields: the
  routine for forms, which also handles images, agrees with the one for single fields when no
  image was clicked. Only successful fields contribute: every pair has the name of a field that has
  one, is enabled, is no button, and is checked if it can be.
\<close>

theorem form_is_its_fields:
  "formSerialize param False None els = fieldSerialize param True None els
   \<and> (\<forall>p \<in> set (formToArray False None els). \<exists>el \<in> set els. fst p = el_name el \<and> \<not> unsuccessful None el)"
proof -
  have "\<exists>el \<in> set els. fst p = el_name el \<and> \<not> unsuccessful None el" if "p \<in> set (formToArray False None els)" for p
  proof -
    obtain el where el: "el \<in> set els" "p \<in> set (pairs_of (el_name el) (fieldValue True None el))"
      using \<open>p \<in> set (formToArray False None els)\<close>
      by (auto simp: form_array_fields field_pairs_eq split: if_splits)
    then have "fieldValue True None el \<noteq> NoValue" by (auto simp: pairs_of_def)
    then show ?thesis using el pairs_of_name unsuccessful_no_value by blast
  qed
  then show ?thesis by (simp add: formSerialize_def fieldSerialize_def form_array_fields)
qed

theorem form_is_its_fields_witness:
  "let el = \<lparr>el_id = 1, el_name = lit ''q'', el_type = lit ''text'', el_tag = lit ''input'', el_disabled = False,
     el_checked = False, el_in_form = True, el_index = 0, el_options = [], el_value = lit ''x''\<rparr>
   in \<exists>e \<in> {el}. lit ''q'' = el_name e \<and> \<not> unsuccessful None e"
proof -
  let ?el = "\<lparr>el_id = 1, el_name = lit ''q'', el_type = lit ''text'', el_tag = lit ''input'', el_disabled = False,
     el_checked = False, el_in_form = True, el_index = 0, el_options = [], el_value = lit ''x''\<rparr>"
  have "(lit ''q'', lit ''x'') \<in> set (formToArray False None [?el])"
    by (simp add: form_array_fields field_pairs_def fieldValue_def unsuccessful_def type_in_def pairs_of_def js_simps)
  then have "\<exists>e \<in> set [?el]. fst (lit ''q'', lit ''x'') = el_name e \<and> \<not> unsuccessful None e"
    using form_is_its_fields [of "\<lambda>_. []" "[?el]"] by blast
  then show ?thesis by (simp add: Let_def)
qed

end
