(* ===== verification/ProtoForm.thy ===== *)
theory ProtoForm
  imports FormPlugin ProtoQuery
begin

text \<open>
  Forms in \<open>prototype.js\<close> (lines 3446 to 3784): reading and writing the value of a field, the data
  of a form, the fields that are found, the request a form makes, and the observers that report
  changed values. An element is the record of \<open>FormPlugin\<close>, extended by its tab index; its tag name
  is in lower case.
\<close>

record form_elem = elem +
  fe_tabIndex :: "int option"

subsection \<open>The value of a field\<close>

definition optionValue :: "opt \<Rightarrow> ustr" where
  "optionValue op = (if op_has_value op then op_val op else op_content op)"

definition selectOne :: "'a elem_scheme \<Rightarrow> val" where
  "selectOne el =
     (if el_index el \<ge> 0 then VStr (optionValue (el_options el ! nat (el_index el))) else Null)"

definition selectMany :: "'a elem_scheme \<Rightarrow> val" where
  "selectMany el =
     (if length (el_options el) = 0 then Null
      else VArr (map (VStr \<circ> optionValue) (filter op_chosen (el_options el))))"

definition select_get :: "'a elem_scheme \<Rightarrow> val" where
  "select_get el = (if el_type el = lit ''select-one'' then selectOne el else selectMany el)"

definition inputSelector_get :: "'a elem_scheme \<Rightarrow> val" where
  "inputSelector_get el = (if el_checked el then VStr (el_value el) else Null)"

definition textarea_get :: "'a elem_scheme \<Rightarrow> val" where
  "textarea_get el = VStr (el_value el)"

definition is_selector :: "'a elem_scheme \<Rightarrow> bool" where
  "is_selector el \<longleftrightarrow> map ascii_lower (el_type el) \<in> {lit ''checkbox'', lit ''radio''}"

definition input_get :: "'a elem_scheme \<Rightarrow> val" where
  "input_get el = (if is_selector el then inputSelector_get el else textarea_get el)"

definition form_tag :: "'a elem_scheme \<Rightarrow> bool" where
  "form_tag el \<longleftrightarrow> el_tag el \<in> {lit ''input'', lit ''textarea'', lit ''select''}"

text \<open>\<open>getValue\<close> of an element without a serializer fails.\<close>

definition getValue :: "'a elem_scheme \<Rightarrow> val res" where
  "getValue el =
     (if el_tag el = lit ''input'' then Inr (input_get el)
      else if el_tag el = lit ''textarea'' then Inr (textarea_get el)
      else if el_tag el = lit ''select'' then Inr (select_get el)
      else Inl TypeError)"

text \<open>What the browser does when \<open>selected\<close> of an option is set: a list for one choice keeps exactly
  one option selected, the first one if no other is.\<close>

fun first_chosen :: "opt list \<Rightarrow> nat \<Rightarrow> int" where
  "first_chosen [] i = -1"
| "first_chosen (p # ps) i = (if op_chosen p then int i else first_chosen ps (Suc i))"

definition set_selected :: "bool \<Rightarrow> nat \<Rightarrow> 'a elem_scheme \<Rightarrow> 'a elem_scheme" where
  "set_selected b i el =
     (let one = el_type el = lit ''select-one'';
          ops = (if one \<and> b then map (\<lambda>p. p\<lparr>op_chosen := False\<rparr>) (el_options el) else el_options el);
          ops1 = ops[i := (ops ! i)\<lparr>op_chosen := b\<rparr>];
          ops2 = (if one \<and> \<not> list_ex op_chosen ops1 then ops1[0 := (ops1 ! 0)\<lparr>op_chosen := True\<rparr>] else ops1)
      in el\<lparr>el_options := ops2, el_index := first_chosen ops2 0\<rparr>)"

text \<open>\<open>select\<close> with a value that is not a list selects the first option with this value, which leaves
  the other options of a list for many choices as they are.\<close>

fun select_single :: "(ustr \<Rightarrow> bool) \<Rightarrow> nat \<Rightarrow> nat \<Rightarrow> 'a elem_scheme \<Rightarrow> 'a elem_scheme" where
  "select_single eq i 0 el = el"
| "select_single eq i (Suc n) el =
     (if eq (optionValue (el_options el ! i)) then set_selected True i el else select_single eq (Suc i) n el)"

fun select_list :: "ustr list \<Rightarrow> nat \<Rightarrow> nat \<Rightarrow> 'a elem_scheme \<Rightarrow> 'a elem_scheme" where
  "select_list vs i 0 el = el"
| "select_list vs i (Suc n) el =
     select_list vs (Suc i) n (set_selected (optionValue (el_options el ! i) \<in> set vs) i el)"

text \<open>The operator \<open>==\<close> between a text and a flag compares numbers.\<close>

datatype new_value = OneText ustr | TextList "ustr list" | CheckedFlag bool

definition select_set :: "new_value \<Rightarrow> 'a elem_scheme \<Rightarrow> 'a elem_scheme" where
  "select_set v el =
     (case v of
        OneText t \<Rightarrow> select_single (\<lambda>u. u = t) 0 (length (el_options el)) el
      | TextList ts \<Rightarrow> select_list ts 0 (length (el_options el)) el
      | CheckedFlag b \<Rightarrow> select_single (\<lambda>u. to_number u = Some (if b then 1 else 0)) 0 (length (el_options el)) el)"

definition truthy_value :: "new_value \<Rightarrow> bool" where
  "truthy_value v = (case v of OneText t \<Rightarrow> t \<noteq> [] | TextList _ \<Rightarrow> True | CheckedFlag b \<Rightarrow> b)"

definition inputSelector_set :: "new_value \<Rightarrow> 'a elem_scheme \<Rightarrow> 'a elem_scheme" where
  "inputSelector_set v el = el\<lparr>el_checked := truthy_value v\<rparr>"

definition textarea_set :: "new_value \<Rightarrow> 'a elem_scheme \<Rightarrow> 'a elem_scheme" where
  "textarea_set v el =
     el\<lparr>el_value := (case v of OneText t \<Rightarrow> t | TextList ts \<Rightarrow> join [44] ts
                        | CheckedFlag b \<Rightarrow> if b then lit ''true'' else lit ''false'')\<rparr>"

definition input_set :: "new_value \<Rightarrow> 'a elem_scheme \<Rightarrow> 'a elem_scheme" where
  "input_set v el = (if is_selector el then inputSelector_set v el else textarea_set v el)"

definition setValue :: "new_value \<Rightarrow> 'a elem_scheme \<Rightarrow> 'a elem_scheme res" where
  "setValue v el =
     (if el_tag el = lit ''input'' then Inr (input_set v el)
      else if el_tag el = lit ''textarea'' then Inr (textarea_set v el)
      else if el_tag el = lit ''select'' then Inr (select_set v el)
      else Inl TypeError)"

definition field_clear :: "'a elem_scheme \<Rightarrow> 'a elem_scheme" where
  "field_clear el = el\<lparr>el_value := []\<rparr>"

definition field_present :: "'a elem_scheme \<Rightarrow> bool" where
  "field_present el \<longleftrightarrow> el_value el \<noteq> []"

definition field_disable :: "'a elem_scheme \<Rightarrow> 'a elem_scheme" where
  "field_disable el = el\<lparr>el_disabled := True\<rparr>"

definition field_enable :: "'a elem_scheme \<Rightarrow> 'a elem_scheme" where
  "field_enable el = el\<lparr>el_disabled := False\<rparr>"

definition field_serialize :: "'a elem_scheme \<Rightarrow> ustr res" where
  "field_serialize el =
     (if \<not> el_disabled el \<and> el_name el \<noteq> [] then
        rbind (getValue el) (\<lambda>v. if v = Null \<or> v = Undefined then Inr [] else toQueryString [(el_name el, v)])
      else Inr [])"

text \<open>\<open>activate\<close> sets the focus, and selects the text of an element that has \<open>select\<close> and is no button.\<close>

definition activate_selects :: "bool \<Rightarrow> 'a elem_scheme \<Rightarrow> bool" where
  "activate_selects has_select el \<longleftrightarrow>
     has_select \<and> (el_tag el \<noteq> lit ''input'' \<or> el_type el \<notin> set (map lit [''button'', ''reset'', ''submit'']))"

subsection \<open>The data of a form\<close>

text \<open>The \<open>submit\<close> option: missing, false, or the name of a button.\<close>

datatype submit_choice = AnySubmit | NoSubmit | SubmitNamed ustr

definition submit_accepts :: "submit_choice \<Rightarrow> ustr \<Rightarrow> bool" where
  "submit_accepts submit key \<longleftrightarrow>
     (case submit of AnySubmit \<Rightarrow> True | NoSubmit \<Rightarrow> False | SubmitNamed n \<Rightarrow> n = [] \<or> key = n)"

definition serialize_field :: "submit_choice \<Rightarrow> 'a elem_scheme \<Rightarrow> props \<times> bool \<Rightarrow> (props \<times> bool) res" where
  "serialize_field submit el st =
     (if \<not> el_disabled el \<and> el_name el \<noteq> [] then
        rbind (getValue el) (\<lambda>v.
          if v \<noteq> Null \<and> v \<noteq> Undefined \<and> el_type el \<noteq> lit ''file''
            \<and> (el_type el \<noteq> lit ''submit'' \<or> (\<not> snd st \<and> submit_accepts submit (el_name el)))
          then Inr (add_param (el_name el) v (fst st), snd st \<or> el_type el = lit ''submit'')
          else Inr st)
      else Inr st)"

definition serialize_data :: "submit_choice \<Rightarrow> 'a elem_scheme list \<Rightarrow> props res" where
  "serialize_data submit els =
     rbind (inject ([], False) (\<lambda>st el i. serialize_field submit el st) els) (\<lambda>st. Inr (fst st))"

text \<open>Options are missing, a flag, or an object whose \<open>hash\<close> may be missing.\<close>

datatype serialize_options = NoOptions | HashFlag bool | OptionObject "bool option" submit_choice

definition option_hash :: "serialize_options \<Rightarrow> bool" where
  "option_hash opts =
     (case opts of NoOptions \<Rightarrow> False | HashFlag b \<Rightarrow> b
      | OptionObject h _ \<Rightarrow> (case h of None \<Rightarrow> True | Some b \<Rightarrow> b))"

definition option_submit :: "serialize_options \<Rightarrow> submit_choice" where
  "option_submit opts = (case opts of OptionObject _ choice \<Rightarrow> choice | _ \<Rightarrow> AnySubmit)"

datatype serialized = AsHash props | AsQuery ustr

definition serializeElements :: "'a elem_scheme list \<Rightarrow> serialize_options \<Rightarrow> serialized res" where
  "serializeElements els opts =
     rbind (serialize_data (option_submit opts) els) (\<lambda>data.
       if option_hash opts then Inr (AsHash data)
       else rbind (toQueryString data) (\<lambda>t. Inr (AsQuery t)))"

text \<open>The elements of a form are all its descendants in document order.\<close>

definition getElements :: "'a elem_scheme list \<Rightarrow> 'a elem_scheme list res" where
  "getElements descendants =
     inject [] (\<lambda>els child i. Inr (if form_tag child then els @ [child] else els)) descendants"

definition form_serialize :: "'a elem_scheme list \<Rightarrow> serialize_options \<Rightarrow> serialized res" where
  "form_serialize descendants opts = rbind (getElements descendants) (\<lambda>els. serializeElements els opts)"

fun matching_inputs :: "ustr \<Rightarrow> ustr \<Rightarrow> 'a elem_scheme list \<Rightarrow> 'a elem_scheme list" where
  "matching_inputs typeName name [] = []"
| "matching_inputs typeName name (input # inputs) =
     (if (typeName \<noteq> [] \<and> el_type input \<noteq> typeName) \<or> (name \<noteq> [] \<and> el_name input \<noteq> name)
      then matching_inputs typeName name inputs
      else input # matching_inputs typeName name inputs)"

text \<open>An argument that is missing is the empty text.\<close>

definition getInputs :: "'a elem_scheme list \<Rightarrow> ustr \<Rightarrow> ustr \<Rightarrow> 'a elem_scheme list" where
  "getInputs descendants typeName name =
     (let inputs = filter (\<lambda>el. el_tag el = lit ''input'') descendants
      in if typeName = [] \<and> name = [] then inputs else matching_inputs typeName name inputs)"

definition form_disable :: "'a elem_scheme list \<Rightarrow> 'a elem_scheme list res" where
  "form_disable descendants =
     rbind (getElements descendants) (invoke (\<lambda>el _. Inr (field_disable el)) ([] :: unit list))"

definition form_enable :: "'a elem_scheme list \<Rightarrow> 'a elem_scheme list res" where
  "form_enable descendants =
     rbind (getElements descendants) (invoke (\<lambda>el _. Inr (field_enable el)) ([] :: unit list))"

definition findFirstElement :: "form_elem list \<Rightarrow> form_elem option res" where
  "findFirstElement descendants =
     rbind (getElements descendants) (\<lambda>all.
     rbind (findAll (\<lambda>el i. Inr (lit ''hidden'' \<noteq> el_type el \<and> \<not> el_disabled el)) all) (\<lambda>els.
     rbind (findAll (\<lambda>el i. Inr (case fe_tabIndex el of None \<Rightarrow> False | Some t \<Rightarrow> t \<ge> 0)) els) (\<lambda>tabs.
     rbind (sortBy (\<lambda>el i. Inr (the (fe_tabIndex el))) tabs) (\<lambda>sorted.
       case arr_first sorted of
         Some el \<Rightarrow> Inr (Some el)
       | None \<Rightarrow> detect (\<lambda>el i. Inr (el_tag el \<in> set (map lit [''input'', ''select'', ''textarea'']))) els))))"

text \<open>The request of a form: its address, its method and its parameters.\<close>

datatype request_params = NoParams | ParamText ustr | ParamObject props

definition form_request ::
  "'a elem_scheme list \<Rightarrow> ustr option \<Rightarrow> ustr \<Rightarrow> ustr option \<Rightarrow> ustr option \<Rightarrow> request_params
     \<Rightarrow> (ustr \<times> ustr option \<times> props) res"
where
  "form_request descendants action href meth given params =
     rbind (form_serialize descendants (HashFlag True)) (\<lambda>d.
     rbind (case params of
              NoParams \<Rightarrow> Inr []
            | ParamText t \<Rightarrow> if t = [] then Inr [] else toQueryParams 38 t
            | ParamObject ps \<Rightarrow> Inr ps) (\<lambda>more.
       let url = (case action of None \<Rightarrow> [] | Some a \<Rightarrow> a);
           data = (case d of AsHash h \<Rightarrow> h | AsQuery _ \<Rightarrow> [])
       in Inr (if blank url then href else url,
               (case given of Some g \<Rightarrow> if g \<noteq> [] then given else if meth \<noteq> None then meth else given
                | None \<Rightarrow> meth),
               object_extend data more)))"

subsection \<open>Observers\<close>

record observer =
  ob_last :: val
  ob_reported :: "val list"

definition observer_init :: "val \<Rightarrow> observer" where
  "observer_init v = \<lparr>ob_last = v, ob_reported = []\<rparr>"

definition report :: "val \<Rightarrow> observer \<Rightarrow> observer" where
  "report v s = s\<lparr>ob_reported := ob_reported s @ [v], ob_last := v\<rparr>"

text \<open>\<open>TimedObserver.execute\<close>, with the value the element has then.\<close>

definition timed_changed :: "val \<Rightarrow> val \<Rightarrow> bool" where
  "timed_changed old v \<longleftrightarrow> (if isString old \<and> isString v then old \<noteq> v else to_string old \<noteq> to_string v)"

definition timed_execute :: "val \<Rightarrow> observer \<Rightarrow> observer" where
  "timed_execute v s = (if timed_changed (ob_last s) v then report v s else s)"

text \<open>The operator \<open>!=\<close> on values that \<open>getValue\<close> and \<open>serialize\<close> give. Each list is a new array, so
  two lists always differ.\<close>

definition loosely_differ :: "val \<Rightarrow> val \<Rightarrow> bool" where
  "loosely_differ a b =
     (case (a, b) of
        (VArr _, VArr _) \<Rightarrow> True
      | (VArr _, VStr s) \<Rightarrow> to_string a \<noteq> s
      | (VStr s, VArr _) \<Rightarrow> to_string b \<noteq> s
      | _ \<Rightarrow> a \<noteq> b)"

definition onElementEvent :: "val \<Rightarrow> observer \<Rightarrow> observer" where
  "onElementEvent v s = (if loosely_differ (ob_last s) v then report v s else s)"

text \<open>The event an element is observed for.\<close>

definition registerCallback :: "'a elem_scheme \<Rightarrow> ustr option" where
  "registerCallback el =
     (if el_type el = [] then None else if is_selector el then Some (lit ''click'') else Some (lit ''change''))"

definition registerFormCallbacks :: "'a elem_scheme list \<Rightarrow> (nat \<times> ustr) list res" where
  "registerFormCallbacks descendants =
     rbind (getElements descendants) (\<lambda>els.
       Inr (concat (map (\<lambda>el. case registerCallback el of None \<Rightarrow> [] | Some ev \<Rightarrow> [(el_id el, ev)]) els)))"

subsection \<open>Facts on the data of a form\<close>

text \<open>A field that a query string can carry: its value is a text, or missing.\<close>

definition text_value :: "val \<Rightarrow> bool" where
  "text_value v \<longleftrightarrow> (case v of VStr t \<Rightarrow> char_text t | _ \<Rightarrow> False)"

definition plain_field :: "'a elem_scheme \<Rightarrow> bool" where
  "plain_field el \<longleftrightarrow> form_tag el \<and> el_name el \<notin> set object_names \<and> char_text (el_name el)
     \<and> (case getValue el of Inr v \<Rightarrow> v = Null \<or> text_value v | Inl _ \<Rightarrow> False)"

definition field_val :: "'a elem_scheme \<Rightarrow> val" where
  "field_val el = (case getValue el of Inr v \<Rightarrow> v | Inl _ \<Rightarrow> Null)"

text \<open>The fields that are sent: enabled, named, with a value, no file, and of the submit buttons the
  first one that the option accepts.\<close>

definition sendable :: "'a elem_scheme \<Rightarrow> bool" where
  "sendable el \<longleftrightarrow> \<not> el_disabled el \<and> el_name el \<noteq> [] \<and> field_val el \<noteq> Null \<and> el_type el \<noteq> lit ''file''"

fun sent_fields :: "submit_choice \<Rightarrow> bool \<Rightarrow> 'a elem_scheme list \<Rightarrow> 'a elem_scheme list" where
  "sent_fields submit submitted [] = []"
| "sent_fields submit submitted (el # els) =
     (if \<not> sendable el then sent_fields submit submitted els
      else if el_type el \<noteq> lit ''submit'' then el # sent_fields submit submitted els
      else if \<not> submitted \<and> submit_accepts submit (el_name el) then el # sent_fields submit True els
      else sent_fields submit submitted els)"

definition add_fields :: "'a elem_scheme list \<Rightarrow> props \<Rightarrow> props" where
  "add_fields els h = fold (\<lambda>el. add_param (el_name el) (field_val el)) els h"

text \<open>The values of one name: none, the value itself, or the list of them.\<close>

definition collected :: "val list \<Rightarrow> val option" where
  "collected vs = (case vs of [] \<Rightarrow> None | [v] \<Rightarrow> Some v | _ \<Rightarrow> Some (VArr vs))"

lemma form_tag_value: "form_tag el \<Longrightarrow> getValue el = Inr (field_val el)"
  by (auto simp: form_tag_def field_val_def getValue_def)

lemma field_val_defined [simp]: "field_val el \<noteq> Undefined"
  by (simp add: field_val_def getValue_def input_get_def inputSelector_get_def textarea_get_def select_get_def
      selectOne_def selectMany_def)

lemma serialize_loop:
  "list_all form_tag els \<Longrightarrow>
   \<exists>b. each_loop (\<lambda>el i st. call_it (serialize_field submit el st) Next) i els (h, submitted)
       = Inr (add_fields (sent_fields submit submitted els) h, b)"
proof (induction els arbitrary: i h submitted)
  case (Cons el els)
  have v: "getValue el = Inr (field_val el)" using Cons.prems by (simp add: form_tag_value)
  have t: "list_all form_tag els" using Cons.prems by simp
  show ?case using Cons.IH [OF t] v
    by (simp add: serialize_field_def call_it_def sendable_def add_fields_def)
qed (simp add: add_fields_def)

lemma serialize_data_fields:
  "list_all form_tag els \<Longrightarrow> serialize_data submit els = Inr (add_fields (sent_fields submit False els) [])"
  using serialize_loop [of els submit 0 "[]" False] by (auto simp: serialize_data_def inject_def each_def)

lemma sent_fields_subset: "el \<in> set (sent_fields submit submitted els) \<Longrightarrow> el \<in> set els \<and> sendable el"
  by (induction submit submitted els rule: sent_fields.induct) (auto split: if_splits)

lemma sent_submit_one:
  "length (filter (\<lambda>el. el_type el = lit ''submit'') (sent_fields submit submitted els))
     \<le> (if submitted then 0 else 1)"
  by (induction submit submitted els rule: sent_fields.induct) (auto split: if_splits)

lemma collected_snoc:
  assumes "list_all text_value (vs @ [v])"
  shows "collected (vs @ [v]) =
    (case collected vs of None \<Rightarrow> Some v | Some old \<Rightarrow> Some (VArr ((case old of VArr us \<Rightarrow> us | _ \<Rightarrow> [old]) @ [v])))"
proof (cases vs)
  case (Cons a as)
  have "(case a of VArr us \<Rightarrow> us | _ \<Rightarrow> [a]) = [a]" using assms Cons by (simp add: text_value_def split: val.splits)
  then show ?thesis using Cons by (cases as) (simp_all add: collected_def)
qed (simp add: collected_def)

definition carried :: "'a elem_scheme \<Rightarrow> bool" where
  "carried el \<longleftrightarrow> el_name el \<noteq> [] \<and> el_name el \<notin> set object_names \<and> char_text (el_name el) \<and> text_value (field_val el)"

lemma plain_sendable: "plain_field el \<Longrightarrow> sendable el \<Longrightarrow> carried el"
  by (auto simp: plain_field_def sendable_def carried_def field_val_def split: sum.splits)

lemma add_fields_values:
  "list_all carried els \<Longrightarrow>
   map_of (add_fields els []) k = collected (map field_val (filter (\<lambda>el. el_name el = k) els))"
proof (induction els rule: rev_induct)
  case (snoc el els)
  let ?h = "add_fields els []"
  have els: "list_all carried els" and el: "carried el" using snoc.prems by auto
  note ih = snoc.IH [OF els]
  have add: "add_fields (els @ [el]) [] = add_param (el_name el) (field_val el) ?h" by (simp add: add_fields_def)
  show ?case
  proof (cases "el_name el = k")
    case True
    have look: "lookup_prop k ?h = map_of ?h k"
      using el True by (simp add: lookup_prop_def carried_def split: option.split)
    have "list_all text_value (map field_val (filter (\<lambda>el. el_name el = k) els) @ [field_val el])"
      using els el by (auto simp: list_all_iff carried_def)
    from collected_snoc [OF this] show ?thesis
      using True look ih by (simp add: add add_param_def split: option.split)
  next
    case False
    then have "map_of (add_param (el_name el) (field_val el) ?h) k = map_of ?h k"
      by (simp add: add_param_def split: option.split)
    then show ?thesis using False ih by (simp add: add)
  qed
qed (simp add: add_fields_def collected_def)

lemma add_fields_query:
  "list_all carried els \<Longrightarrow> query_hash (add_fields els [])"
proof (induction els rule: rev_induct)
  case (snoc el els)
  let ?h = "add_fields els []" and ?n = "el_name el"
  have els: "list_all carried els" and el: "carried el" using snoc.prems by auto
  note ih = snoc.IH [OF els]
  have put: "query_hash (put ?n w ?h)" if "query_value w" for w
    using ih el that set_put [of ?n w ?h] by (auto simp: query_hash_def wf_put carried_def)
  have v: "plain_value (field_val el)" using el by (auto simp: carried_def text_value_def plain_value_def split: val.splits)
  have add: "add_fields (els @ [el]) [] = add_param ?n (field_val el) ?h" by (simp add: add_fields_def)
  show ?case
  proof (cases "map_of ?h ?n")
    case None
    have "query_value (field_val el)" using el
      by (simp add: carried_def text_value_def query_value_def plain_value_def split: val.splits)
    then show ?thesis using None el put
      by (simp add: add add_param_def lookup_prop_def carried_def)
  next
    case (Some old)
    then have "(?n, old) \<in> set ?h" by (rule map_of_SomeD)
    then have "query_value old" using ih by (auto simp: query_hash_def)
    then have "query_value (VArr ((case old of VArr us \<Rightarrow> us | _ \<Rightarrow> [old]) @ [field_val el]))"
      using v by (cases old) (simp_all add: query_value_def plain_value_def)
    then show ?thesis using Some put by (simp add: add add_param_def lookup_prop_def)
  qed
qed (simp add: add_fields_def query_hash_def wf_props_def)

subsection \<open>Facts on values and observers\<close>

lemma first_chosen_only:
  "i < length ps \<Longrightarrow> first_chosen ((map (\<lambda>p. p\<lparr>op_chosen := False\<rparr>) ps)[i := q\<lparr>op_chosen := True\<rparr>]) j = int (i + j)"
  by (induction ps arbitrary: i j) (auto split: nat.split)

lemma set_selected_frame [simp]:
  "el_tag (set_selected b i el) = el_tag el" "el_type (set_selected b i el) = el_type el"
  "length (el_options (set_selected b i el)) = length (el_options el)"
  by (simp_all add: set_selected_def Let_def)

lemma optionValue_chosen [simp]: "optionValue (p\<lparr>op_chosen := b\<rparr>) = optionValue p"
  by (simp add: optionValue_def)

lemma values_update:
  "map optionValue (ops[i := (ops ! i)\<lparr>op_chosen := b\<rparr>]) = map optionValue ops"
proof (cases "i < length ops")
  case True
  have "map optionValue (ops[i := (ops ! i)\<lparr>op_chosen := b\<rparr>]) = (map optionValue ops)[i := map optionValue ops ! i]"
    using True by (simp only: map_update optionValue_chosen nth_map)
  then show ?thesis by simp
qed (simp add: list_update_beyond)

lemma set_selected_values:
  "map optionValue (el_options (set_selected b i el)) = map optionValue (el_options el)"
proof -
  have "map optionValue (map (op_chosen_update (\<lambda>_. False)) ops) = map optionValue ops" for ops
    by simp
  then show ?thesis by (simp add: set_selected_def Let_def values_update del: map_map)
qed

lemma select_one_chosen:
  assumes "el_type el = lit ''select-one''" and "i < length (el_options el)"
  shows "selectOne (set_selected True i el) = VStr (optionValue (el_options el ! i))"
proof -
  have c: "list_ex op_chosen ((map (\<lambda>p. p\<lparr>op_chosen := False\<rparr>) (el_options el))[i := (el_options el ! i)\<lparr>op_chosen := True\<rparr>])"
    using assms(2) unfolding list_ex_iff by (intro bexI [OF _ set_update_memI]) auto
  have "el_index (set_selected True i el) = int i"
    using assms c by (simp add: set_selected_def Let_def first_chosen_only)
  moreover have "map optionValue (el_options (set_selected True i el)) ! i = map optionValue (el_options el) ! i"
    by (simp only: set_selected_values)
  ultimately show ?thesis using assms(2) by (simp add: selectOne_def)
qed

lemma select_single_finds:
  assumes "el_type el = lit ''select-one''" and "\<exists>j < length (el_options el). i \<le> j \<and> optionValue (el_options el ! j) = t"
    and "length (el_options el) = i + n"
  shows "selectOne (select_single (\<lambda>u. u = t) i n el) = VStr t"
  using assms(2,3)
proof (induction n arbitrary: i)
  case (Suc n)
  show ?case
  proof (cases "optionValue (el_options el ! i) = t")
    case True
    then show ?thesis using select_one_chosen [OF assms(1), of i] Suc.prems(2) by simp
  next
    case False
    obtain j where j: "j < length (el_options el)" "i \<le> j" "optionValue (el_options el ! j) = t" using Suc.prems(1) by blast
    then have "Suc i \<le> j" using False by (cases "i = j") auto
    then have "\<exists>j < length (el_options el). Suc i \<le> j \<and> optionValue (el_options el ! j) = t" using j by blast
    from Suc.IH [OF this] show ?thesis using False Suc.prems(2) by simp
  qed
qed auto

lemma select_single_frame [simp]:
  "el_tag (select_single eq i n el) = el_tag el" "el_type (select_single eq i n el) = el_type el"
  by (induction eq i n el rule: select_single.induct) auto

lemma select_list_frame [simp]:
  "el_tag (select_list vs i n el) = el_tag el" "el_type (select_list vs i n el) = el_type el"
  by (induction vs i n el rule: select_list.induct) auto

lemma select_list_options:
  "el_type el \<noteq> lit ''select-one'' \<Longrightarrow> length (el_options el) = i + n \<Longrightarrow>
   el_options (select_list vs i n el) =
     take i (el_options el) @ map (\<lambda>p. p\<lparr>op_chosen := optionValue p \<in> set vs\<rparr>) (drop i (el_options el))"
proof (induction n arbitrary: i el)
  case (Suc n)
  let ?p = "el_options el ! i" and ?el = "set_selected (optionValue (el_options el ! i) \<in> set vs) i el"
  have i: "i < length (el_options el)" using Suc.prems(2) by simp
  have o: "el_options ?el = (el_options el)[i := ?p\<lparr>op_chosen := optionValue ?p \<in> set vs\<rparr>]"
    using Suc.prems(1) by (simp add: set_selected_def Let_def)
  have "el_options (select_list vs (Suc i) n ?el) =
      take (Suc i) (el_options ?el) @ map (\<lambda>p. p\<lparr>op_chosen := optionValue p \<in> set vs\<rparr>) (drop (Suc i) (el_options ?el))"
    using Suc.prems by (intro Suc.IH) simp_all
  then show ?case using i unfolding o
    by (simp add: take_Suc_conv_app_nth drop_update_cancel Cons_nth_drop_Suc [symmetric])
qed simp

lemma select_many_values:
  assumes "el_type el \<noteq> lit ''select-one''" and "el_options el \<noteq> []"
  shows "select_get (select_list vs 0 (length (el_options el)) el)
    = VArr (map VStr (filter (\<lambda>v. v \<in> set vs) (map optionValue (el_options el))))"
  using assms select_list_options [OF assms(1), of 0 "length (el_options el)" vs]
  by (simp add: select_get_def selectMany_def filter_map comp_def)

lemma timed_changed_text: "timed_changed a b \<longleftrightarrow> to_string a \<noteq> to_string b"
  by (cases a; cases b) (simp_all add: timed_changed_def isString_def)

lemma observed_from:
  assumes "\<And>v s. f v s = (if key (ob_last s) \<noteq> key v then report v s else s)"
  shows "map key (ob_reported (fold f vs s)) = map key (ob_reported s) @ tl (remdups_adj (map key (ob_last s # vs)))"
proof (induction vs arbitrary: s)
  case (Cons v vs)
  show ?case using Cons.IH [of "f v s"] by (auto simp: assms report_def)
qed simp

lemma timed_reports:
  "map to_string (ob_reported (fold timed_execute vs (observer_init v))) = tl (remdups_adj (map to_string (v # vs)))"
  using observed_from [of timed_execute to_string vs "observer_init v"]
  by (simp add: timed_execute_def timed_changed_text observer_init_def)

lemma event_text_step: "ob_last s = VStr t \<Longrightarrow>
    onElementEvent (VStr u) s = (if t = u then s else report (VStr u) s)"
  by (auto simp: onElementEvent_def loosely_differ_def)

lemma remdups_adj_tl: "f a # map f (tl (remdups_adj (a # ts))) = map f (remdups_adj (a # ts))"
proof -
  have "remdups_adj (a # ts) \<noteq> []" and "hd (remdups_adj (a # ts)) = a" by simp_all
  then show ?thesis by (metis list.collapse list.map(2))
qed

lemma event_text_reports:
  "ob_last s = VStr t \<Longrightarrow>
   ob_reported (fold onElementEvent (map VStr ts) s) = ob_reported s @ map VStr (tl (remdups_adj (t # ts)))"
  by (induction ts arbitrary: s t)
     (auto simp: event_text_step report_def remdups_adj_tl)

lemma event_list_reports:
  "ob_last s = VArr us \<Longrightarrow>
   ob_reported (fold onElementEvent (map VArr vss) s) = ob_reported s @ map VArr vss"
  by (induction vss arbitrary: s us) (auto simp: onElementEvent_def loosely_differ_def report_def)

end
