(* ===== verification/FormProps.thy ===== *)
theory FormProps
  imports ProtoForm
begin

text \<open>
  Properties of the forms of \<open>prototype.js\<close>: what a form sends and that it is read back, that the
  value written to a field is the one it has, and which changes the observers report.
\<close>

text \<open>
  C23. For fields whose values are texts or missing, the data of a form has for each name the value
  of the one field sent under it, or the list of the values of all of them in document order; at
  most one submit button is sent; a disabled field, a file and a field without name or value are
  not; and reading the query string of the form gives its data back.
\<close>

theorem form_data_round_trip:
  assumes "list_all plain_field els"
  shows "\<exists>data. serializeElements els (HashFlag True) = Inr (AsHash data)
    \<and> (\<forall>k. map_of data k = collected (map field_val (filter (\<lambda>el. el_name el = k) (sent_fields AnySubmit False els))))
    \<and> length (filter (\<lambda>el. el_type el = lit ''submit'') (sent_fields AnySubmit False els)) \<le> 1
    \<and> list_all (\<lambda>el. el \<in> set els \<and> sendable el) (sent_fields AnySubmit False els)
    \<and> (serializeElements els NoOptions = Inr (AsQuery t) \<longrightarrow> toQueryParams 38 t = Inr data)"
proof -
  let ?sent = "sent_fields AnySubmit False els"
  have tags: "list_all form_tag els" using assms by (simp add: list_all_iff plain_field_def)
  have sub: "el \<in> set els \<and> sendable el" if "el \<in> set ?sent" for el using sent_fields_subset [OF that] .
  then have c: "list_all carried ?sent" using assms by (auto simp: list_all_iff intro: plain_sendable)
  note data = serialize_data_fields [OF tags, of AnySubmit]
  have "serializeElements els NoOptions = Inr (AsQuery t) \<longrightarrow> toQueryParams 38 t = Inr (add_fields ?sent [])"
    using query_round_trip_lemma [OF add_fields_query [OF c]] data
    by (auto simp: serializeElements_def option_hash_def option_submit_def res_iff)
  then show ?thesis
    using data add_fields_values [OF c] sent_submit_one [of AnySubmit False els] sub
    by (intro exI [of _ "add_fields ?sent []"])
       (simp add: serializeElements_def option_hash_def option_submit_def list_all_iff)
qed

text \<open>Fields on which the theorems are applied.\<close>

definition sample_field :: "string \<Rightarrow> string \<Rightarrow> elem" where
  "sample_field n v = \<lparr>el_id = 0, el_name = lit n, el_type = lit ''text'', el_tag = lit ''input'', el_disabled = False,
     el_checked = False, el_in_form = True, el_index = -1, el_options = [], el_value = lit v\<rparr>"

lemma sample_field_value: "getValue (sample_field n v) = Inr (VStr (lit v))"
  by (simp add: getValue_def sample_field_def input_get_def is_selector_def textarea_get_def js_simps ascii_lower_def)

theorem form_data_round_trip_witness:
  "\<exists>data. serializeElements [sample_field ''q'' ''a'', sample_field ''q'' ''b'', (sample_field ''r'' ''c'')\<lparr>el_disabled := True\<rparr>]
     (HashFlag True) = Inr (AsHash data) \<and> map_of data (lit ''q'') = Some (VArr [VStr (lit ''a''), VStr (lit ''b'')])"
proof -
  let ?els = "[sample_field ''q'' ''a'', sample_field ''q'' ''b'', (sample_field ''r'' ''c'')\<lparr>el_disabled := True\<rparr>]"
  have d: "getValue (el\<lparr>el_disabled := b\<rparr>) = getValue el" for el :: elem and b
    by (simp add: getValue_def input_get_def is_selector_def textarea_get_def select_get_def inputSelector_get_def selectOne_def selectMany_def)
  have v: "field_val (sample_field n v) = VStr (lit v)" for n v by (simp add: field_val_def sample_field_value)
  have "list_all plain_field ?els"
    by (simp add: plain_field_def d sample_field_value text_value_def form_tag_def)
       (simp add: sample_field_def object_names_def char_text_def js_simps)
  moreover have "sent_fields AnySubmit False ?els = [sample_field ''q'' ''a'', sample_field ''q'' ''b'']"
    by (simp add: sendable_def v) (simp add: sample_field_def js_simps)
  moreover have "el_name (sample_field n v) = lit n" for n v by (simp add: sample_field_def)
  moreover obtain data where "serializeElements ?els (HashFlag True) = Inr (AsHash data)"
      and "map_of data (lit ''q'')
        = collected (map field_val (filter (\<lambda>el. el_name el = lit ''q'') (sent_fields AnySubmit False ?els)))"
    using form_data_round_trip [OF calculation(1)] by blast
  ultimately show ?thesis using v by (intro exI [of _ data]) (simp add: collected_def)
qed

lemma tag_texts:
  "lit ''textarea'' \<noteq> lit ''input''" "lit ''select'' \<noteq> lit ''input''" "lit ''select'' \<noteq> lit ''textarea''"
  by (simp_all add: js_simps)

text \<open>
  C24. A field has the value that was written to it: a text field any text, a check box whether it is
  checked, a list for one choice any value one of its options has, and a list for many choices those
  of its options' values that are in the list written.
\<close>

theorem set_value_round_trip:
  "(el_tag el = lit ''textarea'' \<or> (el_tag el = lit ''input'' \<and> \<not> is_selector el) \<longrightarrow>
           rbind (setValue (OneText t) el) getValue = Inr (VStr t))
    \<and> (el_tag el = lit ''input'' \<and> is_selector el \<longrightarrow>
           rbind (setValue (CheckedFlag b) el) getValue = Inr (if b then VStr (el_value el) else Null))
    \<and> (el_tag el = lit ''select'' \<and> el_type el = lit ''select-one'' \<and> t \<in> optionValue ` set (el_options el) \<longrightarrow>
           rbind (setValue (OneText t) el) getValue = Inr (VStr t))
    \<and> (el_tag el = lit ''select'' \<and> el_type el \<noteq> lit ''select-one'' \<and> el_options el \<noteq> [] \<longrightarrow>
           rbind (setValue (TextList ts) el) getValue
             = Inr (VArr (map VStr (filter (\<lambda>v. v \<in> set ts) (map optionValue (el_options el))))))"
proof (intro conjI impI)
  assume "el_tag el = lit ''textarea'' \<or> (el_tag el = lit ''input'' \<and> \<not> is_selector el)"
  then show "rbind (setValue (OneText t) el) getValue = Inr (VStr t)"
    by (auto simp: setValue_def getValue_def input_set_def input_get_def is_selector_def textarea_set_def textarea_get_def tag_texts)
next
  assume "el_tag el = lit ''input'' \<and> is_selector el"
  then show "rbind (setValue (CheckedFlag b) el) getValue = Inr (if b then VStr (el_value el) else Null)"
    by (auto simp: setValue_def getValue_def input_set_def input_get_def is_selector_def inputSelector_set_def
        inputSelector_get_def truthy_value_def)
next
  assume a: "el_tag el = lit ''select'' \<and> el_type el = lit ''select-one'' \<and> t \<in> optionValue ` set (el_options el)"
  then have "\<exists>j < length (el_options el). 0 \<le> j \<and> optionValue (el_options el ! j) = t" by (auto simp: in_set_conv_nth)
  then have "selectOne (select_single (\<lambda>u. u = t) 0 (length (el_options el)) el) = VStr t"
    using a by (intro select_single_finds) simp_all
  then show "rbind (setValue (OneText t) el) getValue = Inr (VStr t)"
    using a by (simp add: setValue_def getValue_def select_set_def select_get_def tag_texts)
next
  assume a: "el_tag el = lit ''select'' \<and> el_type el \<noteq> lit ''select-one'' \<and> el_options el \<noteq> []"
  then show "rbind (setValue (TextList ts) el) getValue
      = Inr (VArr (map VStr (filter (\<lambda>v. v \<in> set ts) (map optionValue (el_options el)))))"
    using select_many_values [of el ts] by (simp add: setValue_def getValue_def select_set_def tag_texts)
qed

theorem set_value_round_trip_witness:
  "rbind (setValue (OneText (lit ''x'')) (sample_field ''q'' ''a'')) getValue = Inr (VStr (lit ''x''))"
  using set_value_round_trip [of "sample_field ''q'' ''a''" "lit ''x''"]
  by (simp add: sample_field_def is_selector_def ascii_lower_def js_simps)

text \<open>
  C25. A timed observer reports the values it reads less the repetitions of neighbours, compared as
  texts and the first against the value at its creation. An observer of events does the same for
  texts, but reports every list of a field for many choices, changed or not.
\<close>

theorem observers_report_changes:
  "map to_string (ob_reported (fold timed_execute vs (observer_init v))) = tl (remdups_adj (map to_string (v # vs)))
   \<and> ob_reported (fold onElementEvent (map VStr ts) (observer_init (VStr t))) = map VStr (tl (remdups_adj (t # ts)))
   \<and> ob_reported (fold onElementEvent (map VArr vss) (observer_init (VArr us))) = map VArr vss"
  using timed_reports [of vs v] event_text_reports [of "observer_init (VStr t)" t ts]
    event_list_reports [of "observer_init (VArr us)" us vss]
  by (simp add: observer_init_def)

end
