(* ===== verification/DomTree.thy ===== *)
theory DomTree
  imports ProtoText ProtoEnum
begin

text \<open>
  The tree of a document, and the functions of \<open>prototype.js\<close> that walk on it (lines 1687 to 1785 and
  the helpers of \<open>Selector.handlers\<close>). A node is its index in document order: the document itself is
  0, and a parent comes before its children, so the children of a node are those that name it as
  their parent, in the order of their indices. \<open>d_upper\<close> is \<open>toUpperCase\<close>. The tree does not change.
\<close>

record dom_node =
  nd_parent :: "nat option"
  nd_type :: nat
  nd_tag :: ustr
  nd_ident :: ustr
  nd_class :: ustr
  nd_attrs :: "(ustr \<times> ustr) list"
  nd_disabled :: bool
  nd_checked :: bool
  nd_kind :: ustr

record dom =
  d_nodes :: "dom_node list"
  d_upper :: "ustr \<Rightarrow> ustr"

definition dsize :: "dom \<Rightarrow> nat" where
  "dsize d = length (d_nodes d)"

definition node :: "dom \<Rightarrow> nat \<Rightarrow> dom_node" where
  "node d i = d_nodes d ! i"

definition is_element :: "dom \<Rightarrow> nat \<Rightarrow> bool" where
  "is_element d i \<longleftrightarrow> nd_type (node d i) = 1"

definition parentNode :: "dom \<Rightarrow> nat \<Rightarrow> nat option" where
  "parentNode d i = nd_parent (node d i)"

definition childNodes :: "dom \<Rightarrow> nat \<Rightarrow> nat list" where
  "childNodes d i = filter (\<lambda>j. parentNode d j = Some i) [0..<dsize d]"

definition wf_dom :: "dom \<Rightarrow> bool" where
  "wf_dom d \<longleftrightarrow> (\<forall>i < dsize d. case parentNode d i of None \<Rightarrow> True | Some p \<Rightarrow> p < i)"

text \<open>The ancestors of a node, the nearest first.\<close>

function chain :: "dom \<Rightarrow> nat \<Rightarrow> nat list" where
  "chain d i = (case parentNode d i of None \<Rightarrow> [] | Some p \<Rightarrow> if p < i then p # chain d p else [])"
  by pat_completeness auto
termination by (relation "measure snd") auto

declare chain.simps [simp del]

definition descendantOf :: "dom \<Rightarrow> nat \<Rightarrow> nat \<Rightarrow> bool" where
  "descendantOf d element ancestor \<longleftrightarrow> ancestor \<in> set (chain d element)"

definition getElementsByTagName :: "dom \<Rightarrow> nat \<Rightarrow> ustr \<Rightarrow> nat list" where
  "getElementsByTagName d i tag =
     filter (\<lambda>j. is_element d j \<and> descendantOf d j i \<and> (tag = [42] \<or> d_upper d tag = d_upper d (nd_tag (node d j))))
       [0..<dsize d]"

definition getElementById :: "dom \<Rightarrow> ustr \<Rightarrow> nat option" where
  "getElementById d i =
     find (\<lambda>j. is_element d j \<and> descendantOf d j 0 \<and> nd_ident (node d j) = i) [0..<dsize d]"

subsection \<open>Walking\<close>

definition later_nodes :: "dom \<Rightarrow> nat \<Rightarrow> nat list" where
  "later_nodes d i =
     (case parentNode d i of None \<Rightarrow> [] | Some p \<Rightarrow> filter (\<lambda>j. i < j) (childNodes d p))"

definition earlier_nodes :: "dom \<Rightarrow> nat \<Rightarrow> nat list" where
  "earlier_nodes d i =
     (case parentNode d i of None \<Rightarrow> [] | Some p \<Rightarrow> rev (filter (\<lambda>j. j < i) (childNodes d p)))"

datatype walk_property = ParentNode | PreviousSibling | NextSibling

definition walk_nodes :: "dom \<Rightarrow> nat \<Rightarrow> walk_property \<Rightarrow> nat list" where
  "walk_nodes d i prop =
     (case prop of ParentNode \<Rightarrow> chain d i | PreviousSibling \<Rightarrow> earlier_nodes d i | NextSibling \<Rightarrow> later_nodes d i)"

fun collect_elements :: "dom \<Rightarrow> nat list \<Rightarrow> nat list \<Rightarrow> nat list" where
  "collect_elements d [] elements = elements"
| "collect_elements d (n # ns) elements =
     collect_elements d ns (if is_element d n then elements @ [n] else elements)"

definition recursivelyCollect :: "dom \<Rightarrow> nat \<Rightarrow> walk_property \<Rightarrow> nat list" where
  "recursivelyCollect d i prop = collect_elements d (walk_nodes d i prop) []"

definition ancestors :: "dom \<Rightarrow> nat \<Rightarrow> nat list" where
  "ancestors d i = recursivelyCollect d i ParentNode"

definition previousSiblings :: "dom \<Rightarrow> nat \<Rightarrow> nat list" where
  "previousSiblings d i = recursivelyCollect d i PreviousSibling"

definition nextSiblings :: "dom \<Rightarrow> nat \<Rightarrow> nat list" where
  "nextSiblings d i = recursivelyCollect d i NextSibling"

definition siblings :: "dom \<Rightarrow> nat \<Rightarrow> nat list" where
  "siblings d i = rev (previousSiblings d i) @ nextSiblings d i"

text \<open>\<open>element = element.nextSibling\<close> until an element is found.\<close>

fun first_element :: "dom \<Rightarrow> nat list \<Rightarrow> nat option" where
  "first_element d [] = None"
| "first_element d (n # ns) = (if is_element d n then Some n else first_element d ns)"

definition nextElementSibling :: "dom \<Rightarrow> nat \<Rightarrow> nat option" where
  "nextElementSibling d i = first_element d (later_nodes d i)"

definition previousElementSibling :: "dom \<Rightarrow> nat \<Rightarrow> nat option" where
  "previousElementSibling d i = first_element d (earlier_nodes d i)"

definition firstDescendant :: "dom \<Rightarrow> nat \<Rightarrow> nat option" where
  "firstDescendant d i = first_element d (childNodes d i)"

definition immediateDescendants :: "dom \<Rightarrow> nat \<Rightarrow> nat list" where
  "immediateDescendants d i =
     (case childNodes d i of
        [] \<Rightarrow> []
      | _ # _ \<Rightarrow> (case first_element d (childNodes d i) of None \<Rightarrow> [] | Some e \<Rightarrow> e # nextSiblings d e))"

definition hasClassName :: "dom \<Rightarrow> nat \<Rightarrow> ustr \<Rightarrow> bool" where
  "hasClassName d i name =
     (let c = nd_class (node d i) in length c > 0 \<and> (c = name \<or> name \<in> set (split_ws c)))"

subsection \<open>Facts\<close>

lemma wf_parent: "wf_dom d \<Longrightarrow> i < dsize d \<Longrightarrow> parentNode d i = Some p \<Longrightarrow> p < i"
  by (auto simp: wf_dom_def)

lemma chain_less: "j \<in> set (chain d i) \<Longrightarrow> j < i"
proof (induction i rule: less_induct)
  case (less i)
  show ?case
  proof (cases "parentNode d i")
    case None
    then show ?thesis using less.prems by (simp add: chain.simps [of d i])
  next
    case (Some p)
    then have p: "p < i" "j = p \<or> j \<in> set (chain d p)"
      using less.prems by (auto simp: chain.simps [of d i] split: if_splits)
    then show ?thesis using less.IH [of p] by auto
  qed
qed

lemma descendantOf_less: "descendantOf d i j \<Longrightarrow> j < i"
  by (simp add: descendantOf_def chain_less)

lemma descendantOf_step:
  assumes "wf_dom d" and "i < dsize d"
  shows "descendantOf d i a \<longleftrightarrow> (\<exists>p. parentNode d i = Some p \<and> (p = a \<or> descendantOf d p a))"
  using wf_parent [OF assms] by (cases "parentNode d i") (auto simp: descendantOf_def chain.simps [of d i])

lemma descendantOf_trans:
  assumes "wf_dom d" and "i < dsize d" and "descendantOf d i j" and "descendantOf d j a"
  shows "descendantOf d i a"
  using assms(2,3)
proof (induction i rule: less_induct)
  case (less i)
  then obtain p where p: "parentNode d i = Some p" "p = j \<or> descendantOf d p j"
    using descendantOf_step [OF assms(1) less.prems(1)] by auto
  have "p < i" using wf_parent [OF assms(1) less.prems(1) p(1)] .
  then have "descendantOf d p a" using p(2) assms(4) less.IH [of p] less.prems(1) by auto
  then show ?case using p(1) descendantOf_step [OF assms(1) less.prems(1)] by simp
qed

lemma childNodes_set: "j \<in> set (childNodes d i) \<longleftrightarrow> j < dsize d \<and> parentNode d j = Some i"
  by (auto simp: childNodes_def)

lemma distinct_childNodes [simp]: "distinct (childNodes d i)" "sorted (childNodes d i)"
  by (simp_all add: childNodes_def sorted_wrt_filter)

lemma collect_elements_filter: "collect_elements d ns acc = acc @ filter (is_element d) ns"
  by (induction d ns acc rule: collect_elements.induct) auto

lemma nextSiblings_set:
  "j \<in> set (nextSiblings d i) \<longleftrightarrow>
     j < dsize d \<and> is_element d j \<and> i < j \<and> (\<exists>p. parentNode d i = Some p \<and> parentNode d j = Some p)"
  by (cases "parentNode d i")
     (auto simp: nextSiblings_def recursivelyCollect_def collect_elements_filter walk_nodes_def later_nodes_def
       childNodes_set)

lemma first_element_find: "first_element d ns = find (is_element d) ns"
  by (induction d ns rule: first_element.induct) auto

lemma first_element_hd: "first_element d ns = (case filter (is_element d) ns of [] \<Rightarrow> None | n # _ \<Rightarrow> Some n)"
  by (induction d ns rule: first_element.induct) auto

end
