(* ===== verification/Selector.thy ===== *)
theory Selector
  imports DomTree
begin

text \<open>
  The selector engine of \<open>prototype.js\<close> in its own mode (lines 2936 to 3003 and 3075 to 3437): the
  program that \<open>compileMatcher\<close> makes of a selector is run over the tokens of the selector; each
  token is a call of a handler on the nodes found so far. \<open>SelectorText\<close> reads the tokens off the text.
  The marks that the handlers put on nodes are gone when a handler ends, so they are local to it;
  \<open>nodeIndex\<close> stays on the nodes and is state.
\<close>

datatype combinator = Descendant | Child | Adjacent | LaterSibling

datatype attr_op = OpEq | OpNe | OpPrefix | OpSuffix | OpSubstring | OpWord | OpDash | OpMissing

datatype token = Comb combinator | Simple simple
and simple =
    STag ustr
  | SId ustr
  | SClass ustr
  | SAttrPresence ustr
  | SAttr ustr attr_op ustr
  | SFirstChild
  | SLastChild
  | SOnlyChild
  | SNth ustr bool bool
  | SOnlyOfType
  | SEmpty
  | SNot "token list"
  | SEnabled
  | SDisabled
  | SChecked

subsection \<open>Combinators\<close>

definition concat_nodes :: "nat list \<Rightarrow> nat list \<Rightarrow> nat list" where
  "concat_nodes a b = fold (\<lambda>n a. a @ [n]) b a"

definition h_descendant :: "dom \<Rightarrow> nat list \<Rightarrow> nat list" where
  "h_descendant d nodes = fold (\<lambda>n results. concat_nodes results (getElementsByTagName d n [42])) nodes []"

definition h_child :: "dom \<Rightarrow> nat list \<Rightarrow> nat list" where
  "h_child d nodes =
     fold (\<lambda>n results. fold (\<lambda>child results.
         if is_element d child \<and> nd_tag (node d child) \<noteq> [33] then results @ [child] else results)
       (childNodes d n) results) nodes []"

definition h_adjacent :: "dom \<Rightarrow> nat list \<Rightarrow> nat list" where
  "h_adjacent d nodes =
     fold (\<lambda>n results. case nextElementSibling d n of None \<Rightarrow> results | Some m \<Rightarrow> results @ [m]) nodes []"

definition h_laterSibling :: "dom \<Rightarrow> nat list \<Rightarrow> nat list" where
  "h_laterSibling d nodes = fold (\<lambda>n results. concat_nodes results (nextSiblings d n)) nodes []"

definition combine :: "dom \<Rightarrow> combinator \<Rightarrow> nat list \<Rightarrow> nat list" where
  "combine d c nodes =
     (case c of Descendant \<Rightarrow> h_descendant d nodes | Child \<Rightarrow> h_child d nodes
      | Adjacent \<Rightarrow> h_adjacent d nodes | LaterSibling \<Rightarrow> h_laterSibling d nodes)"

text \<open>\<open>if (nodes && combinator) nodes = this[combinator](nodes)\<close>.\<close>

definition combined :: "dom \<Rightarrow> combinator option \<Rightarrow> nat list option \<Rightarrow> nat list option" where
  "combined d c nodes =
     (case nodes of None \<Rightarrow> None | Some ns \<Rightarrow> (case c of None \<Rightarrow> Some ns | Some k \<Rightarrow> Some (combine d k ns)))"

definition all_under :: "dom \<Rightarrow> nat \<Rightarrow> nat list option \<Rightarrow> nat list" where
  "all_under d root nodes = (case nodes of None \<Rightarrow> getElementsByTagName d root [42] | Some ns \<Rightarrow> ns)"

text \<open>\<open>unique\<close> keeps the first of equal nodes.\<close>

fun unique_loop :: "nat list \<Rightarrow> nat list \<Rightarrow> nat list \<Rightarrow> nat list" where
  "unique_loop [] marked results = results"
| "unique_loop (n # ns) marked results =
     (if n \<in> set marked then unique_loop ns marked results else unique_loop ns (n # marked) (results @ [n]))"

definition h_unique :: "nat list \<Rightarrow> nat list" where
  "h_unique nodes = (if length nodes = 0 then nodes else unique_loop nodes [] [])"

subsection \<open>Tokens\<close>

definition tag_is :: "dom \<Rightarrow> ustr \<Rightarrow> nat \<Rightarrow> bool" where
  "tag_is d tagName n \<longleftrightarrow> d_upper d (nd_tag (node d n)) = d_upper d tagName"

definition h_tagName :: "dom \<Rightarrow> nat list option \<Rightarrow> nat \<Rightarrow> ustr \<Rightarrow> combinator option \<Rightarrow> nat list" where
  "h_tagName d nodes root tagName c =
     (case nodes of
        None \<Rightarrow> getElementsByTagName d root tagName
      | Some ns \<Rightarrow>
          (case c of
             None \<Rightarrow> filter (tag_is d tagName) ns
           | Some Descendant \<Rightarrow>
               fold (\<lambda>n results. concat_nodes results (getElementsByTagName d n tagName)) ns []
           | Some k \<Rightarrow>
               (let ns = combine d k ns in if tagName = [42] then ns else filter (tag_is d tagName) ns)))"

text \<open>With a combinator the loops that find nothing fall through to the test without combinator.\<close>

definition h_id :: "dom \<Rightarrow> nat list option \<Rightarrow> nat \<Rightarrow> ustr \<Rightarrow> combinator option \<Rightarrow> nat list" where
  "h_id d nodes root i c =
     (case getElementById d i of
        None \<Rightarrow> []
      | Some target \<Rightarrow>
          (case nodes of
             None \<Rightarrow> if root = 0 \<or> descendantOf d target root then [target] else []
           | Some ns \<Rightarrow>
               (case c of
                  None \<Rightarrow> if target \<in> set ns then [target] else []
                | Some Child \<Rightarrow> if list_ex (\<lambda>n. parentNode d target = Some n) ns \<or> target \<in> set ns then [target] else []
                | Some Descendant \<Rightarrow> if list_ex (descendantOf d target) ns \<or> target \<in> set ns then [target] else []
                | Some Adjacent \<Rightarrow>
                    if list_ex (\<lambda>n. previousElementSibling d target = Some n) ns \<or> target \<in> set ns then [target] else []
                | Some LaterSibling \<Rightarrow> if target \<in> set (h_laterSibling d ns) then [target] else [])))"

definition class_is :: "dom \<Rightarrow> ustr \<Rightarrow> nat \<Rightarrow> bool" where
  "class_is d className n \<longleftrightarrow>
     (let c = nd_class (node d n)
      in length c \<noteq> 0 \<and> (c = className \<or> string_include ([32] @ c @ [32]) ([32] @ className @ [32])))"

definition byClassName :: "dom \<Rightarrow> nat list option \<Rightarrow> nat \<Rightarrow> ustr \<Rightarrow> nat list" where
  "byClassName d nodes root className =
     filter (class_is d className) (case nodes of None \<Rightarrow> h_descendant d [root] | Some ns \<Rightarrow> ns)"

definition h_className :: "dom \<Rightarrow> nat list option \<Rightarrow> nat \<Rightarrow> ustr \<Rightarrow> combinator option \<Rightarrow> nat list" where
  "h_className d nodes root className c = byClassName d (combined d c nodes) root className"

definition has_attr :: "dom \<Rightarrow> ustr \<Rightarrow> nat \<Rightarrow> bool" where
  "has_attr d attr n \<longleftrightarrow> map_of (nd_attrs (node d n)) attr \<noteq> None"

text \<open>Here the elements under the root are fetched before the combinator is applied.\<close>

definition h_attrPresence :: "dom \<Rightarrow> nat list option \<Rightarrow> nat \<Rightarrow> ustr \<Rightarrow> combinator option \<Rightarrow> nat list" where
  "h_attrPresence d nodes root attr c =
     (let ns = all_under d root nodes; ns = (case c of None \<Rightarrow> ns | Some k \<Rightarrow> combine d k ns)
      in filter (has_attr d attr) ns)"

text \<open>A selector \<open>[name]\<close> whose name has a hyphen is taken for a comparison; then there is no operator.\<close>

definition sel_operator :: "(ustr \<Rightarrow> ustr) \<Rightarrow> attr_op \<Rightarrow> ustr \<Rightarrow> ustr \<Rightarrow> bool res" where
  "sel_operator upper operator nv v =
     (case operator of
        OpEq \<Rightarrow> Inr (nv = v)
      | OpNe \<Rightarrow> Inr (nv \<noteq> v)
      | OpPrefix \<Rightarrow> Inr (nv = v \<or> (nv \<noteq> [] \<and> startsWith nv v))
      | OpSuffix \<Rightarrow> Inr (endsWith nv v)
      | OpSubstring \<Rightarrow> Inr (string_include nv v)
      | OpWord \<Rightarrow> Inr (string_include ([32] @ nv @ [32]) ([32] @ v @ [32]))
      | OpDash \<Rightarrow> Inr (string_include ([45] @ upper nv @ [45]) ([45] @ upper v @ [45]))
      | OpMissing \<Rightarrow> Inl TypeError)"

fun attr_loop :: "dom \<Rightarrow> ustr \<Rightarrow> ustr \<Rightarrow> attr_op \<Rightarrow> nat list \<Rightarrow> nat list \<Rightarrow> nat list res" where
  "attr_loop d attr v operator [] results = Inr results"
| "attr_loop d attr v operator (n # ns) results =
     (case map_of (nd_attrs (node d n)) attr of
        None \<Rightarrow> attr_loop d attr v operator ns results
      | Some nv \<Rightarrow>
          rbind (sel_operator (d_upper d) operator nv v) (\<lambda>b.
            attr_loop d attr v operator ns (if b then results @ [n] else results)))"

definition h_attr :: "dom \<Rightarrow> nat list option \<Rightarrow> nat \<Rightarrow> ustr \<Rightarrow> ustr \<Rightarrow> attr_op \<Rightarrow> combinator option \<Rightarrow> nat list res" where
  "h_attr d nodes root attr v operator c =
     (let ns = all_under d root nodes; ns = (case c of None \<Rightarrow> ns | Some k \<Rightarrow> combine d k ns)
      in attr_loop d attr v operator ns [])"

subsection \<open>Positions among siblings\<close>

text \<open>\<open>nodeIndex\<close> of the nodes.\<close>

type_synonym indices = "nat \<Rightarrow> nat option"

fun number_nodes :: "nat list \<Rightarrow> nat \<Rightarrow> indices \<Rightarrow> indices" where
  "number_nodes [] j idx = idx"
| "number_nodes (n # ns) j idx = number_nodes ns (Suc j) (idx(n := Some j))"

definition h_index :: "dom \<Rightarrow> nat list \<Rightarrow> nat \<Rightarrow> bool \<Rightarrow> bool \<Rightarrow> indices \<Rightarrow> indices" where
  "h_index d marked parent reverse ofType idx =
     (let nodes = (if reverse then rev (childNodes d parent) else childNodes d parent)
      in number_nodes (filter (\<lambda>n. is_element d n \<and> (\<not> ofType \<or> n \<in> set marked)) nodes) 1 idx)"

fun index_parents ::
  "dom \<Rightarrow> bool \<Rightarrow> bool \<Rightarrow> nat list \<Rightarrow> nat list \<Rightarrow> indices \<Rightarrow> indices res" where
  "index_parents d reverse ofType [] marked idx = Inr idx"
| "index_parents d reverse ofType (n # ns) marked idx =
     (case parentNode d n of
        None \<Rightarrow> Inl TypeError
      | Some p \<Rightarrow>
          if p \<in> set marked then index_parents d reverse ofType ns marked idx
          else index_parents d reverse ofType ns (p # marked) (h_index d (p # marked) p reverse ofType idx))"

definition getIndices :: "int \<Rightarrow> int \<Rightarrow> nat \<Rightarrow> int list" where
  "getIndices a b n =
     (if a = 0 then (if b > 0 then [b] else [])
      else fold (\<lambda>i memo. if (i - b) mod a = 0 \<and> (i - b) * a \<ge> 0 then memo @ [i] else memo)
             (range_toArray \<lparr>range_start = 1, range_end = int n, range_exclusive = False\<rparr>) [])"

datatype formula = Position nat | Linear int int | NoFormula

definition read_linear :: "ustr \<Rightarrow> formula" where
  "read_linear s =
     (let neg = (s \<noteq> [] \<and> hd s = 45); s1 = (if neg then tl s else s);
          ds = takeWhile is_digit s1; rest = drop (length ds) s1;
          a = (if ds = [] then (if neg then -1 else 1)
               else (if neg then - int (digits_value 0 ds) else int (digits_value 0 ds)))
      in if rest = [] \<or> hd rest \<noteq> 110 then NoFormula
         else
           let s2 = tl rest; es = takeWhile is_digit (tl s2)
           in if s2 \<noteq> [] \<and> hd s2 \<in> {43, 45} \<and> es \<noteq> []
              then Linear a (if hd s2 = 45 then - int (digits_value 0 es) else int (digits_value 0 es))
              else Linear a 0)"

definition read_formula :: "ustr \<Rightarrow> formula" where
  "read_formula s =
     (let s = (if s = lit ''even'' then lit ''2n+0'' else if s = lit ''odd'' then lit ''2n+1'' else s)
      in if s \<noteq> [] \<and> list_all is_digit s then Position (digits_value 0 s) else read_linear s)"

definition p_nth :: "dom \<Rightarrow> nat list \<Rightarrow> ustr \<Rightarrow> bool \<Rightarrow> bool \<Rightarrow> indices \<Rightarrow> (nat list \<times> indices) res" where
  "p_nth d nodes formula reverse ofType idx =
     (if length nodes = 0 then Inr ([], idx)
      else rbind (index_parents d reverse ofType nodes nodes idx) (\<lambda>idx.
        Inr (case read_formula formula of
               Position k \<Rightarrow> filter (\<lambda>n. idx n = Some k) nodes
             | Linear a b \<Rightarrow>
                 (let indices = getIndices a b (length nodes)
                  in concat (map (\<lambda>n. map (\<lambda>_. n) (filter (\<lambda>i. map_option int (idx n) = Some i) indices)) nodes))
             | NoFormula \<Rightarrow> [], idx)))"

subsection \<open>Running a selector\<close>

definition pseudo_nodes :: "dom \<Rightarrow> nat \<Rightarrow> nat list option \<Rightarrow> combinator option \<Rightarrow> nat list" where
  "pseudo_nodes d root nodes c = all_under d root (combined d c nodes)"

definition h_firstChild :: "dom \<Rightarrow> nat list \<Rightarrow> nat list" where
  "h_firstChild d nodes = filter (\<lambda>n. previousElementSibling d n = None) nodes"

definition h_lastChild :: "dom \<Rightarrow> nat list \<Rightarrow> nat list" where
  "h_lastChild d nodes = filter (\<lambda>n. nextElementSibling d n = None) nodes"

definition h_onlyChild :: "dom \<Rightarrow> nat list \<Rightarrow> nat list" where
  "h_onlyChild d nodes = filter (\<lambda>n. previousElementSibling d n = None \<and> nextElementSibling d n = None) nodes"

definition h_empty :: "dom \<Rightarrow> nat list \<Rightarrow> nat list" where
  "h_empty d nodes = filter (\<lambda>n. \<not> (nd_tag (node d n) = [33] \<or> childNodes d n \<noteq> [])) nodes"

definition h_enabled :: "dom \<Rightarrow> nat list \<Rightarrow> nat list" where
  "h_enabled d nodes = filter (\<lambda>n. \<not> nd_disabled (node d n) \<and> (nd_kind (node d n) = [] \<or> nd_kind (node d n) \<noteq> lit ''hidden'')) nodes"

definition h_disabled :: "dom \<Rightarrow> nat list \<Rightarrow> nat list" where
  "h_disabled d nodes = filter (\<lambda>n. nd_disabled (node d n)) nodes"

definition h_checked :: "dom \<Rightarrow> nat list \<Rightarrow> nat list" where
  "h_checked d nodes = filter (\<lambda>n. nd_checked (node d n)) nodes"

type_synonym found = "nat list option \<times> indices"

definition finish_matcher :: "found \<Rightarrow> (nat list \<times> indices) res" where
  "finish_matcher st = (case fst st of None \<Rightarrow> Inl TypeError | Some ns \<Rightarrow> Inr (h_unique ns, snd st))"

text \<open>\<open>run_tokens\<close> is the compiled program: the nodes \<open>n\<close> and the combinator \<open>c\<close> are its variables.\<close>

fun run_tokens :: "dom \<Rightarrow> nat \<Rightarrow> token list \<Rightarrow> nat list option \<Rightarrow> combinator option \<Rightarrow> indices \<Rightarrow> found res"
  and run_simple :: "dom \<Rightarrow> nat \<Rightarrow> simple \<Rightarrow> nat list option \<Rightarrow> combinator option \<Rightarrow> indices \<Rightarrow> (nat list \<times> indices) res"
where
  "run_tokens d root [] n c idx = Inr (n, idx)"
| "run_tokens d root (Comb k # ts) n c idx = run_tokens d root ts n (Some k) idx"
| "run_tokens d root (Simple s # ts) n c idx =
     rbind (run_simple d root s n c idx) (\<lambda>(ns, idx). run_tokens d root ts (Some ns) None idx)"
| "run_simple d root (STag t) n c idx = Inr (h_tagName d n root t c, idx)"
| "run_simple d root (SId i) n c idx = Inr (h_id d n root i c, idx)"
| "run_simple d root (SClass k) n c idx = Inr (h_className d n root k c, idx)"
| "run_simple d root (SAttrPresence a) n c idx = Inr (h_attrPresence d n root a c, idx)"
| "run_simple d root (SAttr a operator v) n c idx = rbind (h_attr d n root a v operator c) (\<lambda>ns. Inr (ns, idx))"
| "run_simple d root SFirstChild n c idx = Inr (h_firstChild d (pseudo_nodes d root n c), idx)"
| "run_simple d root SLastChild n c idx = Inr (h_lastChild d (pseudo_nodes d root n c), idx)"
| "run_simple d root SOnlyChild n c idx = Inr (h_onlyChild d (pseudo_nodes d root n c), idx)"
| "run_simple d root (SNth formula reverse ofType) n c idx =
     p_nth d (pseudo_nodes d root n c) formula reverse ofType idx"
| "run_simple d root SOnlyOfType n c idx =
     rbind (p_nth d (pseudo_nodes d root n c) (lit ''1'') False True idx) (\<lambda>(ns, idx).
       p_nth d ns (lit ''1'') True True idx)"
| "run_simple d root SEmpty n c idx = Inr (h_empty d (pseudo_nodes d root n c), idx)"
| "run_simple d root (SNot ts) n c idx =
     rbind (run_tokens d root ts None None idx) (\<lambda>st.
     rbind (finish_matcher st) (\<lambda>(exclusions, idx).
       Inr (filter (\<lambda>n. n \<notin> set exclusions) (pseudo_nodes d root n c), idx)))"
| "run_simple d root SEnabled n c idx = Inr (h_enabled d (pseudo_nodes d root n c), idx)"
| "run_simple d root SDisabled n c idx = Inr (h_disabled d (pseudo_nodes d root n c), idx)"
| "run_simple d root SChecked n c idx = Inr (h_checked d (pseudo_nodes d root n c), idx)"

definition matcher :: "dom \<Rightarrow> nat \<Rightarrow> token list \<Rightarrow> indices \<Rightarrow> (nat list \<times> indices) res" where
  "matcher d root ts idx = rbind (run_tokens d root ts None None idx) finish_matcher"

text \<open>Several selectors, separated by commas.\<close>

fun find_each :: "dom \<Rightarrow> nat \<Rightarrow> token list list \<Rightarrow> nat list \<Rightarrow> indices \<Rightarrow> (nat list \<times> indices) res" where
  "find_each d root [] results idx = Inr (results, idx)"
| "find_each d root (ts # tss) results idx =
     rbind (matcher d root ts idx) (\<lambda>(ns, idx). find_each d root tss (concat_nodes results ns) idx)"

definition findChildElements :: "dom \<Rightarrow> nat \<Rightarrow> token list list \<Rightarrow> indices \<Rightarrow> (nat list \<times> indices) res" where
  "findChildElements d root tss idx =
     rbind (find_each d root tss [] idx) (\<lambda>(ns, idx). Inr (if length tss > 1 then h_unique ns else ns, idx))"

definition matchElements :: "dom \<Rightarrow> nat list \<Rightarrow> token list list \<Rightarrow> indices \<Rightarrow> (nat list \<times> indices) res" where
  "matchElements d elements tss idx =
     rbind (findChildElements d 0 tss idx) (\<lambda>(matches, idx). Inr (filter (\<lambda>n. n \<in> set matches) elements, idx))"

definition findElement :: "dom \<Rightarrow> nat list \<Rightarrow> token list list \<Rightarrow> nat \<Rightarrow> indices \<Rightarrow> (nat option \<times> indices) res" where
  "findElement d elements tss i idx =
     rbind (matchElements d elements tss idx) (\<lambda>(ns, idx). Inr (at_index ns i, idx))"

text \<open>\<open>Selector.match\<close>: one element against the simple selectors that have an assertion; any other
  token makes it search the document.\<close>

fun has_assertion :: "token \<Rightarrow> bool" where
  "has_assertion (Simple (STag _)) = True"
| "has_assertion (Simple (SId _)) = True"
| "has_assertion (Simple (SClass _)) = True"
| "has_assertion (Simple (SAttrPresence _)) = True"
| "has_assertion (Simple (SAttr _ _ _)) = True"
| "has_assertion _ = False"

fun assertion :: "dom \<Rightarrow> nat \<Rightarrow> token \<Rightarrow> bool res" where
  "assertion d n (Simple (STag t)) = Inr (d_upper d t = d_upper d (nd_tag (node d n)))"
| "assertion d n (Simple (SId i)) = Inr (nd_ident (node d n) = i)"
| "assertion d n (Simple (SClass c)) = Inr (hasClassName d n c)"
| "assertion d n (Simple (SAttrPresence a)) = Inr (has_attr d a n)"
| "assertion d n (Simple (SAttr a operator v)) =
     (case map_of (nd_attrs (node d n)) a of
        None \<Rightarrow> Inr False
      | Some nv \<Rightarrow> if nv = [] then Inr False else sel_operator (d_upper d) operator nv v)"
| "assertion d n _ = Inl TypeError"

fun check_assertions :: "dom \<Rightarrow> nat \<Rightarrow> token list \<Rightarrow> bool res" where
  "check_assertions d n [] = Inr True"
| "check_assertions d n (t # ts) =
     rbind (assertion d n t) (\<lambda>b. if b then check_assertions d n ts else Inr False)"

definition selector_match :: "dom \<Rightarrow> token list \<Rightarrow> nat \<Rightarrow> indices \<Rightarrow> (bool \<times> indices) res" where
  "selector_match d ts n idx =
     (if list_all has_assertion ts then rbind (check_assertions d n ts) (\<lambda>b. Inr (b, idx))
      else rbind (matcher d 0 ts idx) (\<lambda>(ns, idx). Inr (n \<in> set ns, idx)))"

end
