(* ===== verification/SelectorSpec.thy ===== *)
theory SelectorSpec
  imports Selector
begin

text \<open>
  What a selector means, read from its last simple selector to its first: an element satisfies it if
  the last simple selectors hold of it and some node in the relation of the combinator before them
  satisfies the rest. The engine, which goes from the first to the last, finds exactly these
  elements, for the selectors named \<open>good\<close> below.
\<close>

subsection \<open>The specification\<close>

definition after :: "dom \<Rightarrow> nat \<Rightarrow> nat \<Rightarrow> bool" where
  "after d x m \<longleftrightarrow> parentNode d x \<noteq> None \<and> parentNode d m = parentNode d x \<and> x < m"

definition related :: "dom \<Rightarrow> combinator \<Rightarrow> nat \<Rightarrow> nat \<Rightarrow> bool" where
  "related d c x m \<longleftrightarrow> m < dsize d \<and> is_element d m
     \<and> (case c of
          Descendant \<Rightarrow> descendantOf d m x
        | Child \<Rightarrow> parentNode d m = Some x \<and> nd_tag (node d m) \<noteq> [33]
        | Adjacent \<Rightarrow> after d x m \<and> list_all (\<lambda>k. \<not> (after d x k \<and> is_element d k)) [Suc x..<m]
        | LaterSibling \<Rightarrow> after d x m)"

definition under :: "dom \<Rightarrow> nat \<Rightarrow> nat \<Rightarrow> bool" where
  "under d root m \<longleftrightarrow> m < dsize d \<and> is_element d m \<and> descendantOf d m root"

lemma size_list_rev [simp]: "size_list f (rev ts) = size_list f ts"
proof -
  have "size_list f (ts @ us) = size_list f ts + size_list f us" for ts us :: "'a list"
    by (induction ts) auto
  then show ?thesis by (induction ts) auto
qed

function sat :: "dom \<Rightarrow> nat \<Rightarrow> token list \<Rightarrow> nat \<Rightarrow> bool"
  and holds :: "dom \<Rightarrow> nat \<Rightarrow> simple \<Rightarrow> nat \<Rightarrow> bool"
where
  "sat d root [] m = under d root m"
| "sat d root (Simple s # ts) m = (holds d root s m \<and> sat d root ts m)"
| "sat d root (Comb c # ts) m = list_ex (\<lambda>x. related d c x m \<and> sat d root ts x) [0..<dsize d]"
| "holds d root (STag t) m = (t = [42] \<or> tag_is d t m)"
| "holds d root (SId i) m = (getElementById d i = Some m)"
| "holds d root (SClass c) m = class_is d c m"
| "holds d root (SAttrPresence a) m = has_attr d a m"
| "holds d root (SAttr a operator v) m =
     (case map_of (nd_attrs (node d m)) a of
        None \<Rightarrow> False | Some nv \<Rightarrow> sel_operator (d_upper d) operator nv v = Inr True)"
| "holds d root SFirstChild m = list_all (\<lambda>k. \<not> (after d k m \<and> is_element d k)) [0..<m]"
| "holds d root SLastChild m = list_all (\<lambda>k. \<not> (after d m k \<and> is_element d k)) [Suc m..<dsize d]"
| "holds d root SOnlyChild m = (holds d root SFirstChild m \<and> holds d root SLastChild m)"
| "holds d root (SNth formula reverse ofType) m = False"
| "holds d root SOnlyOfType m = False"
| "holds d root SEmpty m = (nd_tag (node d m) \<noteq> [33] \<and> childNodes d m = [])"
| "holds d root (SNot ts) m = (\<not> sat d root (rev ts) m)"
| "holds d root SEnabled m = (\<not> nd_disabled (node d m) \<and> nd_kind (node d m) \<noteq> lit ''hidden'')"
| "holds d root SDisabled m = nd_disabled (node d m)"
| "holds d root SChecked m = nd_checked (node d m)"
  by pat_completeness auto
termination
  by (relation "measure (\<lambda>x. case x of Inl (d, root, ts, m) \<Rightarrow> 2 * size_list size ts
        | Inr (d, root, s, m) \<Rightarrow> 2 * size s + (case s of SOnlyChild \<Rightarrow> 1 | _ \<Rightarrow> 0))") (auto split: simple.splits)

text \<open>Selectors the engine gets right, as lists of tokens from the last to the first: simple selectors
  and combinators alternate as the grammar of selectors has them, no comparison lacks its operator,
  no position among siblings is asked for, and no identifier follows a descendant, child or adjacent
  combinator.\<close>

function good :: "token list \<Rightarrow> bool"
  and plain_simple :: "simple \<Rightarrow> bool"
where
  "good [] = False"
| "good (Comb c # ts) = False"
| "good [Simple s] = plain_simple s"
| "good (Simple s # Simple s' # ts) = ((\<forall>t. s \<noteq> STag t) \<and> plain_simple s \<and> good (Simple s' # ts))"
| "good (Simple s # Comb c # ts) = ((c = LaterSibling \<or> (\<forall>i. s \<noteq> SId i)) \<and> plain_simple s \<and> good ts)"
| "plain_simple (STag t) = True"
| "plain_simple (SId i) = True"
| "plain_simple (SClass c) = True"
| "plain_simple (SAttrPresence a) = True"
| "plain_simple (SAttr a operator v) = (operator \<noteq> OpMissing)"
| "plain_simple SFirstChild = True"
| "plain_simple SLastChild = True"
| "plain_simple SOnlyChild = True"
| "plain_simple (SNth formula reverse ofType) = False"
| "plain_simple SOnlyOfType = False"
| "plain_simple SEmpty = True"
| "plain_simple (SNot ts) = good (rev ts)"
| "plain_simple SEnabled = True"
| "plain_simple SDisabled = True"
| "plain_simple SChecked = True"
  by pat_completeness auto
termination
  by (relation "measure (\<lambda>x. case x of Inl ts \<Rightarrow> size_list size ts | Inr s \<Rightarrow> size s)") auto

subsection \<open>Combinators and simple selectors\<close>

lemma concat_nodes_app [simp]: "concat_nodes a b = a @ b"
proof -
  have "fold (\<lambda>n a. a @ [n]) b a = a @ b" by (induction b arbitrary: a) auto
  then show ?thesis by (simp add: concat_nodes_def)
qed

lemma fold_app: "fold (\<lambda>n r. r @ f n) ns acc = acc @ concat (map f ns)"
  by (induction ns arbitrary: acc) auto

lemma h_descendant_set:
  "set (h_descendant d ns) = {m. \<exists>x \<in> set ns. related d Descendant x m}"
  by (auto simp: h_descendant_def fold_app getElementsByTagName_def related_def)

lemma h_child_set: "set (h_child d ns) = {m. \<exists>x \<in> set ns. related d Child x m}"
proof -
  have f: "fold (\<lambda>c r. if P c then r @ [c] else r) cs acc = acc @ filter P cs" for P and cs acc :: "nat list"
    by (induction cs arbitrary: acc) auto
  show ?thesis unfolding h_child_def f fold_app
    by (auto simp: related_def childNodes_set)
qed

lemma later_nodes_set: "k \<in> set (later_nodes d x) \<longleftrightarrow> k < dsize d \<and> after d x k"
  by (cases "parentNode d x") (auto simp: later_nodes_def after_def childNodes_set)

lemma earlier_nodes_set: "k \<in> set (earlier_nodes d x) \<longleftrightarrow> k < dsize d \<and> after d k x"
  by (cases "parentNode d x") (auto simp: earlier_nodes_def after_def childNodes_set)

lemma sorted_later: "sorted (later_nodes d x)"
  by (cases "parentNode d x") (simp_all add: later_nodes_def sorted_wrt_filter)

lemma first_element_sorted:
  assumes "sorted ns"
  shows "first_element d ns = Some m \<longleftrightarrow>
    m \<in> set ns \<and> is_element d m \<and> (\<forall>k \<in> set ns. k < m \<longrightarrow> \<not> is_element d k)"
  using assms
proof (induction ns)
  case (Cons n ns)
  then show ?case by (auto simp: not_less le_less)
qed simp

lemma next_sibling_related: "nextElementSibling d x = Some m \<longleftrightarrow> related d Adjacent x m"
proof -
  have "(\<forall>k \<in> set (later_nodes d x). k < m \<longrightarrow> \<not> is_element d k)
      \<longleftrightarrow> list_all (\<lambda>k. \<not> (after d x k \<and> is_element d k)) [Suc x..<m]" if "m < dsize d"
    using that by (auto simp: later_nodes_set list_all_iff) (auto simp: after_def)
  then show ?thesis
    unfolding nextElementSibling_def first_element_sorted [OF sorted_later] later_nodes_set related_def by auto
qed

lemma h_adjacent_set: "set (h_adjacent d ns) = {m. \<exists>x \<in> set ns. related d Adjacent x m}"
proof -
  have "fold (\<lambda>n r. case nextElementSibling d n of None \<Rightarrow> r | Some m \<Rightarrow> r @ [m]) ns acc
      = acc @ concat (map (\<lambda>n. case nextElementSibling d n of None \<Rightarrow> [] | Some m \<Rightarrow> [m]) ns)" for acc
    by (induction ns arbitrary: acc) (auto split: option.split)
  then show ?thesis
    by (auto simp: h_adjacent_def simp flip: next_sibling_related split: option.splits)
qed

lemma h_later_set: "set (h_laterSibling d ns) = {m. \<exists>x \<in> set ns. related d LaterSibling x m}"
proof -
  have "m \<in> set (nextSiblings d x) \<longleftrightarrow> related d LaterSibling x m" for x m
    by (auto simp: nextSiblings_set related_def after_def)
  then show ?thesis by (auto simp: h_laterSibling_def fold_app)
qed

lemma combine_set: "set (combine d c ns) = {m. \<exists>x \<in> set ns. related d c x m}"
  by (cases c) (simp_all only: combine_def combinator.case h_descendant_set h_child_set h_adjacent_set h_later_set)

text \<open>The nodes a simple selector chooses from.\<close>

definition candidates :: "dom \<Rightarrow> nat \<Rightarrow> nat list option \<Rightarrow> combinator option \<Rightarrow> nat \<Rightarrow> bool" where
  "candidates d root n c m =
     (case n of
        None \<Rightarrow> under d root m
      | Some ns \<Rightarrow> (case c of None \<Rightarrow> m \<in> set ns | Some k \<Rightarrow> \<exists>x \<in> set ns. related d k x m))"

lemma all_elements: "m \<in> set (getElementsByTagName d root [42]) \<longleftrightarrow> under d root m"
  by (auto simp: getElementsByTagName_def under_def)

lemma pseudo_nodes_set: "m \<in> set (pseudo_nodes d root n c) \<longleftrightarrow> candidates d root n c m"
  by (auto simp: pseudo_nodes_def all_under_def combined_def candidates_def all_elements combine_set
      split: option.splits)

lemma candidates_lt:
  "candidates d root n c m \<Longrightarrow> (\<And>ns. n = Some ns \<Longrightarrow> \<forall>x \<in> set ns. x < dsize d) \<Longrightarrow> m < dsize d"
  by (auto simp: candidates_def under_def related_def split: option.splits)

lemma attr_loop_filter:
  "operator \<noteq> OpMissing \<Longrightarrow>
   attr_loop d a v operator ns acc = Inr (acc @ filter (\<lambda>m. holds d root (SAttr a operator v) m) ns)"
proof (induction ns arbitrary: acc)
  case (Cons n ns)
  then show ?case by (cases operator) (auto simp: sel_operator_def split: option.split)
qed simp

lemma tag_set:
  assumes "n = None \<or> c \<noteq> None"
  shows "m \<in> set (h_tagName d n root t c) \<longleftrightarrow> candidates d root n c m \<and> (t = [42] \<or> tag_is d t m)"
proof (cases n)
  case None
  then show ?thesis
    by (auto simp: h_tagName_def candidates_def getElementsByTagName_def under_def tag_is_def)
next
  case (Some ns)
  then obtain k where k: "c = Some k" using assms by auto
  show ?thesis
  proof (cases "k = Descendant")
    case True
    then show ?thesis
      by (auto simp: h_tagName_def Some k candidates_def fold_app getElementsByTagName_def related_def tag_is_def)
  next
    case False
    then have "h_tagName d n root t c = (if t = [42] then combine d k ns else filter (tag_is d t) (combine d k ns))"
      by (cases k) (simp_all add: h_tagName_def Some k Let_def)
    then show ?thesis by (auto simp: candidates_def Some k combine_set)
  qed
qed

lemma element_by_id: "getElementById d i = Some m \<Longrightarrow> under d 0 m"
  by (auto simp: getElementById_def under_def find_Some_iff)

lemma id_set:
  assumes "n = None \<or> c = None \<or> c = Some LaterSibling"
  shows "m \<in> set (h_id d n root i c) \<longleftrightarrow> candidates d root n c m \<and> getElementById d i = Some m"
proof (cases "getElementById d i")
  case (Some target)
  have u: "under d 0 target" using element_by_id [OF Some] .
  then show ?thesis using assms Some
    by (cases n; cases c) (auto simp: h_id_def candidates_def under_def h_later_set)
qed (simp add: h_id_def)

lemma class_set: "m \<in> set (h_className d n root k c) \<longleftrightarrow> candidates d root n c m \<and> class_is d k m"
  by (auto simp: h_className_def byClassName_def combined_def candidates_def combine_set h_descendant_def all_elements
      split: option.splits)

lemma fetched_set:
  assumes "n = None \<longrightarrow> c = None"
  shows "m \<in> set (case c of None \<Rightarrow> all_under d root n | Some k \<Rightarrow> combine d k (all_under d root n))
    \<longleftrightarrow> candidates d root n c m"
  using assms by (auto simp: all_under_def candidates_def all_elements combine_set split: option.splits)

text \<open>A simple selector keeps those of its candidates of which it holds.\<close>

definition keeps :: "dom \<Rightarrow> nat \<Rightarrow> simple \<Rightarrow> nat list option \<Rightarrow> combinator option \<Rightarrow> bool" where
  "keeps d root s n c \<longleftrightarrow> (\<forall>idx. \<exists>ns. run_simple d root s n c idx = Inr (ns, idx)
     \<and> (\<forall>m. m \<in> set ns \<longleftrightarrow> candidates d root n c m \<and> holds d root s m))"

lemma keepsI:
  assumes "\<And>idx. run_simple d root s n c idx = Inr (ns, idx)"
    and "\<And>m. m \<in> set ns \<longleftrightarrow> candidates d root n c m \<and> holds d root s m"
  shows "keeps d root s n c"
  using assms by (auto simp: keeps_def)

lemma previous_none:
  "m < dsize d \<Longrightarrow> previousElementSibling d m = None \<longleftrightarrow> list_all (\<lambda>k. \<not> (after d k m \<and> is_element d k)) [0..<m]"
  by (auto simp: previousElementSibling_def first_element_find find_None_iff earlier_nodes_set list_all_iff)
     (auto simp: after_def)

lemma next_none:
  "nextElementSibling d m = None \<longleftrightarrow> list_all (\<lambda>k. \<not> (after d m k \<and> is_element d k)) [Suc m..<dsize d]"
  by (auto simp: nextElementSibling_def first_element_find find_None_iff later_nodes_set list_all_iff)
     (auto simp: after_def)

lemma unique_loop_set:
  assumes "set marked = set results" and "distinct results"
  shows "set (unique_loop ns marked results) = set results \<union> set ns \<and> distinct (unique_loop ns marked results)"
  using assms by (induction ns marked results rule: unique_loop.induct) auto

lemma h_unique_set [simp]: "set (h_unique ns) = set ns" "distinct (h_unique ns)"
  using unique_loop_set [of "[]" "[]" ns] by (auto simp: h_unique_def)

lemma plain_keeps:
  assumes "plain_simple s" and lt: "\<And>m. candidates d root n c m \<Longrightarrow> m < dsize d"
    and "n = None \<longrightarrow> c = None" and "\<forall>t. s = STag t \<longrightarrow> n = None \<or> c \<noteq> None"
    and "\<forall>i. s = SId i \<longrightarrow> c = None \<or> c = Some LaterSibling"
    and sub: "\<And>ts idx. s = SNot ts \<Longrightarrow> \<exists>ns. run_tokens d root ts None None idx = Inr (Some ns, idx)
      \<and> (\<forall>m. m \<in> set ns \<longleftrightarrow> sat d root (rev ts) m)"
  shows "keeps d root s n c"
proof (cases s)
  case (STag t)
  then have "n = None \<or> c \<noteq> None" using assms(4) by blast
  from tag_set [OF this] show ?thesis by (intro keepsI) (simp_all add: STag)
next
  case (SId i)
  then have "n = None \<or> c = None \<or> c = Some LaterSibling" using assms(5) by blast
  from id_set [OF this] show ?thesis by (intro keepsI) (simp_all add: SId)
next
  case (SClass k)
  show ?thesis unfolding SClass by (intro keepsI [OF _ class_set [THEN trans]]) simp_all
next
  case (SAttrPresence a)
  show ?thesis unfolding SAttrPresence
    by (intro keepsI [where ns = "h_attrPresence d n root a c"])
       (use fetched_set [OF assms(3)] in \<open>auto simp: h_attrPresence_def Let_def\<close>)
next
  case (SAttr a operator v)
  let ?from = "case c of None \<Rightarrow> all_under d root n | Some k \<Rightarrow> combine d k (all_under d root n)"
  have "operator \<noteq> OpMissing" using assms(1) SAttr by simp
  from attr_loop_filter [OF this] have r: "h_attr d n root a v operator c = Inr (filter (\<lambda>m. holds d root s m) ?from)"
    by (simp add: h_attr_def SAttr Let_def)
  show ?thesis
    by (rule keepsI [where ns = "filter (\<lambda>m. holds d root s m) ?from"])
       (use r fetched_set [OF assms(3)] in \<open>auto simp: SAttr simp del: holds.simps\<close>)
next
  case (SNot ts)
  show ?thesis unfolding keeps_def
  proof
    fix idx
    obtain ns where ns: "run_tokens d root ts None None idx = Inr (Some ns, idx)"
      and m: "\<And>m. m \<in> set ns \<longleftrightarrow> sat d root (rev ts) m" using sub [OF SNot] by blast
    have "run_simple d root s n c idx = Inr (filter (\<lambda>n. n \<notin> set (h_unique ns)) (pseudo_nodes d root n c), idx)"
      using ns by (simp add: SNot finish_matcher_def)
    then show "\<exists>ns. run_simple d root s n c idx = Inr (ns, idx)
        \<and> (\<forall>m. m \<in> set ns \<longleftrightarrow> candidates d root n c m \<and> holds d root s m)"
      using m by (auto simp: SNot pseudo_nodes_set)
  qed
next
  case SFirstChild
  then show ?thesis using lt by (intro keepsI) (auto simp: h_firstChild_def pseudo_nodes_set previous_none)
next
  case SLastChild
  then show ?thesis by (intro keepsI) (auto simp: h_lastChild_def pseudo_nodes_set next_none)
next
  case SOnlyChild
  then show ?thesis using lt by (intro keepsI) (auto simp: h_onlyChild_def pseudo_nodes_set previous_none next_none)
next
  case SEmpty
  then show ?thesis by (intro keepsI) (auto simp: h_empty_def pseudo_nodes_set)
next
  case SEnabled
  then show ?thesis by (intro keepsI) (auto simp: h_enabled_def pseudo_nodes_set)
next
  case SDisabled
  then show ?thesis by (intro keepsI) (auto simp: h_disabled_def pseudo_nodes_set)
next
  case SChecked
  then show ?thesis by (intro keepsI) (auto simp: h_checked_def pseudo_nodes_set)
qed (use assms(1) in simp_all)

subsection \<open>The whole selector\<close>

lemma run_tokens_append:
  "run_tokens d root (us @ Simple s # vs) n c idx =
     rbind (run_tokens d root (us @ [Simple s]) n c idx) (\<lambda>(n, idx). run_tokens d root vs n None idx)"
proof (induction us arbitrary: n c idx)
  case Nil
  then show ?case by (cases "run_simple d root s n c idx") auto
next
  case (Cons t us)
  show ?case
  proof (cases t)
    case (Comb k)
    then show ?thesis using Cons.IH by simp
  next
    case (Simple r)
    then show ?thesis using Cons.IH by (cases "run_simple d root r n c idx") auto
  qed
qed

lemma sat_lt: "sat d root ts m \<Longrightarrow> m < dsize d"
proof (induction ts arbitrary: m)
  case (Cons t ts)
  then show ?case by (cases t) (auto simp: list_ex_iff related_def)
qed (simp add: under_def)

lemma good_head: "good ts \<Longrightarrow> \<exists>s us. ts = Simple s # us"
proof (cases ts)
  case (Cons t us)
  then show "good ts \<Longrightarrow> \<exists>s us. ts = Simple s # us" by (cases t) auto
qed simp

definition finds :: "dom \<Rightarrow> nat \<Rightarrow> token list \<Rightarrow> bool" where
  "finds d root ts \<longleftrightarrow> (\<forall>idx. \<exists>ns. run_tokens d root (rev ts) None None idx = Inr (Some ns, idx)
     \<and> (\<forall>m. m \<in> set ns \<longleftrightarrow> sat d root ts m))"

text \<open>A simple selector after a selector that finds what it means.\<close>

lemma finds_step:
  assumes "finds d root ts" and "good ts"
    and "\<And>ns. (\<forall>m. m \<in> set ns \<longleftrightarrow> sat d root ts m) \<Longrightarrow> keeps d root s (Some ns) c"
  shows "finds d root (Simple s # (case c of None \<Rightarrow> ts | Some k \<Rightarrow> Comb k # ts))"
  unfolding finds_def
proof
  fix idx
  let ?ts = "Simple s # (case c of None \<Rightarrow> ts | Some k \<Rightarrow> Comb k # ts)"
  obtain s' us where ts: "ts = Simple s' # us" using good_head [OF assms(2)] by blast
  obtain ns where ns: "run_tokens d root (rev ts) None None idx = Inr (Some ns, idx)"
    and m: "\<forall>m. m \<in> set ns \<longleftrightarrow> sat d root ts m" using assms(1) by (auto simp: finds_def)
  obtain ks where ks: "run_simple d root s (Some ns) c idx = Inr (ks, idx)"
    and k: "\<And>m. m \<in> set ks \<longleftrightarrow> candidates d root (Some ns) c m \<and> holds d root s m"
    using assms(3) [OF m] by (auto simp: keeps_def)
  have e: "rev ?ts = rev us @ Simple s' # (case c of None \<Rightarrow> [] | Some k \<Rightarrow> [Comb k]) @ [Simple s]"
    by (simp add: ts split: option.split)
  have "run_tokens d root (rev ?ts) None None idx = Inr (Some ks, idx)"
    by (subst e, subst run_tokens_append) (use ns ks in \<open>cases c; simp add: ts\<close>)
  moreover have "m \<in> set ks \<longleftrightarrow> sat d root ?ts m" for m
  proof (cases c)
    case None
    then show ?thesis using k m by (auto simp: candidates_def)
  next
    case (Some k')
    have "(\<exists>x. sat d root ts x \<and> related d k' x m) \<longleftrightarrow> sat d root (Comb k' # ts) m"
      using sat_lt [of d root ts] by (auto simp: list_ex_iff)
    then show ?thesis using k m Some by (auto simp: candidates_def simp del: sat.simps(3))
  qed
  ultimately show "\<exists>ns. run_tokens d root (rev ?ts) None None idx = Inr (Some ns, idx) \<and> (\<forall>m. m \<in> set ns \<longleftrightarrow> sat d root ?ts m)"
    by blast
qed

lemma finds_first:
  assumes "keeps d root s None None"
  shows "finds d root [Simple s]"
  unfolding finds_def
proof
  fix idx
  obtain ns where "run_simple d root s None None idx = Inr (ns, idx)"
    and "\<And>m. m \<in> set ns \<longleftrightarrow> candidates d root None None m \<and> holds d root s m"
    using assms by (auto simp: keeps_def)
  then show "\<exists>ns. run_tokens d root (rev [Simple s]) None None idx = Inr (Some ns, idx)
      \<and> (\<forall>m. m \<in> set ns \<longleftrightarrow> sat d root [Simple s] m)"
    by (auto simp: candidates_def)
qed

text \<open>The engine finds what a good selector means.\<close>

lemma good_finds: "good ts \<Longrightarrow> finds d root ts"
proof (induction "size_list size ts" arbitrary: ts rule: less_induct)
  case less
  have sub: "\<exists>ns. run_tokens d root us None None idx = Inr (Some ns, idx) \<and> (\<forall>m. m \<in> set ns \<longleftrightarrow> sat d root (rev us) m)"
    if "plain_simple (SNot us)" "size_list size us < size_list size ts" for us idx
  proof -
    have "finds d root (rev us)" using less.hyps [of "rev us"] that by simp
    then show ?thesis by (simp add: finds_def)
  qed
  obtain s us where ts: "ts = Simple s # us" using good_head [OF less.prems] by blast
  have s: "plain_simple s" using less.prems unfolding ts by (cases us; cases "hd us") auto
  have small: "\<And>vs. s = SNot vs \<Longrightarrow> size_list size vs < size_list size ts" unfolding ts by auto
  have keep: "keeps d root s n c"
    if "\<And>m. candidates d root n c m \<Longrightarrow> m < dsize d" "n = None \<longrightarrow> c = None"
      "\<forall>t. s = STag t \<longrightarrow> n = None \<or> c \<noteq> None" "\<forall>i. s = SId i \<longrightarrow> c = None \<or> c = Some LaterSibling" for n c
    using that s sub small by (intro plain_keeps) auto
  show ?case
  proof (cases us)
    case Nil
    then show ?thesis using ts keep [of None None] by (auto intro: finds_first simp: candidates_def under_def)
  next
    case (Cons t vs)
    show ?thesis
    proof (cases t)
      case (Simple s')
      then have g: "good us" "\<forall>t. s \<noteq> STag t" using less.prems ts Cons by auto
      have "finds d root us" using less.hyps [of us] g ts by simp
      moreover have "keeps d root s (Some ns) None" if m: "\<forall>m. m \<in> set ns \<longleftrightarrow> sat d root us m" for ns
        using g(2) m sat_lt [of d root us] by (intro keep) (auto simp: candidates_def)
      ultimately show ?thesis using finds_step [of d root us s None] g(1) ts by simp
    next
      case (Comb k)
      then have g: "good vs" "k = LaterSibling \<or> (\<forall>i. s \<noteq> SId i)" using less.prems ts Cons by auto
      have "finds d root vs" using less.hyps [of vs] g ts Cons by simp
      moreover have "keeps d root s (Some ns) (Some k)" for ns
        using g(2) by (intro keep) (auto simp: candidates_def related_def)
      ultimately show ?thesis using finds_step [of d root vs s "Some k"] g(1) ts Cons Comb by simp
    qed
  qed
qed

lemma matcher_sat:
  assumes "good (rev ts)"
  shows "\<exists>ns. matcher d root ts idx = Inr (ns, idx) \<and> distinct ns \<and> set ns = {m. sat d root (rev ts) m}"
proof -
  obtain ns where "run_tokens d root ts None None idx = Inr (Some ns, idx)" "\<forall>m. m \<in> set ns \<longleftrightarrow> sat d root (rev ts) m"
    using good_finds [OF assms, of d root] by (auto simp: finds_def)
  then show ?thesis by (auto simp: matcher_def finish_matcher_def)
qed

end
