(* ===== verification/SelectorProps.thy ===== *)
theory SelectorProps
  imports SelectorSpec
begin

text \<open>
  Properties of the selector engine of \<open>prototype.js\<close>: which elements a selector finds, what an
  identifier behind a combinator finds, and how positions among siblings are counted.
\<close>

subsection \<open>Selectors\<close>

lemma find_each_sat:
  assumes "list_all (\<lambda>ts. good (rev ts)) tss"
  shows "\<exists>ns. find_each d root tss acc idx = Inr (ns, idx) \<and> set ns = set acc \<union> {m. \<exists>ts \<in> set tss. sat d root (rev ts) m}
    \<and> (length tss \<le> 1 \<and> acc = [] \<longrightarrow> distinct ns)"
  using assms
proof (induction tss arbitrary: acc)
  case (Cons ts tss)
  obtain ns where ns: "matcher d root ts idx = Inr (ns, idx)" "distinct ns" "set ns = {m. sat d root (rev ts) m}"
    using matcher_sat [of ts d root idx] Cons.prems by auto
  have "list_all (\<lambda>ts. good (rev ts)) tss" using Cons.prems by simp
  from Cons.IH [OF this, of "acc @ ns"] show ?case using ns by (cases tss) auto
qed simp

text \<open>
  A list of selectors finds, each once, exactly the elements under the root that satisfy one of
  them, whatever the document: the engine, which goes through a selector from left to right, agrees
  with the meaning of a selector, which is defined from right to left. Elements are matched against
  the selectors by the same test.
\<close>

theorem selectors_find_matches:
  assumes "list_all (\<lambda>ts. good (rev ts)) tss"
  shows "\<exists>ns. findChildElements d root tss idx = Inr (ns, idx) \<and> distinct ns
      \<and> set ns = {m. \<exists>ts \<in> set tss. sat d root (rev ts) m}
      \<and> matchElements d elements tss idx = Inr (filter (\<lambda>m. \<exists>ts \<in> set tss. sat d 0 (rev ts) m) elements, idx)"
proof -
  have find: "\<exists>ns. findChildElements d r tss idx = Inr (ns, idx) \<and> distinct ns
      \<and> set ns = {m. \<exists>ts \<in> set tss. sat d r (rev ts) m}" for r
    using find_each_sat [OF assms, of d r "[]" idx] by (auto simp: findChildElements_def)
  obtain ns where ns: "findChildElements d root tss idx = Inr (ns, idx)" "distinct ns"
      "set ns = {m. \<exists>ts \<in> set tss. sat d root (rev ts) m}" using find [of root] by blast
  obtain all where all: "findChildElements d 0 tss idx = Inr (all, idx)"
      "set all = {m. \<exists>ts \<in> set tss. sat d 0 (rev ts) m}" using find [of 0] by blast
  then show ?thesis using ns by (auto simp: matchElements_def)
qed

text \<open>
  A document on which the theorems are applied: in the body (1) an outer division (2) with two
  paragraphs (3 and 4) and an inner division (5) named \<open>x\<close> that holds a paragraph (6).
\<close>

definition sample_node :: "nat option \<Rightarrow> nat \<Rightarrow> string \<Rightarrow> string \<Rightarrow> dom_node" where
  "sample_node p t tag i = \<lparr>nd_parent = p, nd_type = t, nd_tag = lit tag, nd_ident = lit i, nd_class = [],
     nd_attrs = [], nd_disabled = False, nd_checked = False, nd_kind = []\<rparr>"

definition sample_dom :: dom where
  "sample_dom = \<lparr>d_nodes = [sample_node None 9 '''' '''', sample_node (Some 0) 1 ''b'' '''',
     sample_node (Some 1) 1 ''d'' '''', sample_node (Some 2) 1 ''p'' '''', sample_node (Some 2) 1 ''p'' '''',
     sample_node (Some 1) 1 ''d'' ''x'', sample_node (Some 5) 1 ''p'' ''''], d_upper = id\<rparr>"

theorem selectors_find_matches_witness:
  "\<exists>ns. findChildElements sample_dom 0 [[Simple (STag (lit ''d'')), Comb Child, Simple (STag (lit ''p'')), Simple SFirstChild]]
     (\<lambda>_. None) = Inr (ns, \<lambda>_. None) \<and> set ns = {m. sat sample_dom 0
       (rev [Simple (STag (lit ''d'')), Comb Child, Simple (STag (lit ''p'')), Simple SFirstChild]) m}"
  using selectors_find_matches [of "[[Simple (STag (lit ''d'')), Comb Child, Simple (STag (lit ''p'')), Simple SFirstChild]]"
      sample_dom 0 "\<lambda>_. None" "[]"]
  by auto

lemma first_element_descending:
  assumes "sorted_wrt (\<ge>) ns"
  shows "first_element d ns = Some x \<longleftrightarrow>
    x \<in> set ns \<and> is_element d x \<and> (\<forall>k \<in> set ns. x < k \<longrightarrow> \<not> is_element d k)"
  using assms
proof (induction ns)
  case (Cons n ns)
  then show ?case by (auto simp: not_less le_less)
qed simp

lemma previous_sibling_related:
  assumes "m < dsize d" and "is_element d m" and "is_element d x"
  shows "previousElementSibling d m = Some x \<longleftrightarrow> related d Adjacent x m"
proof -
  have "sorted_wrt (\<ge>) (earlier_nodes d m)"
    by (cases "parentNode d m") (simp_all add: earlier_nodes_def sorted_wrt_rev sorted_wrt_filter)
  from first_element_descending [OF this] have "previousElementSibling d m = Some x \<longleftrightarrow>
      x < dsize d \<and> after d x m \<and> (\<forall>k. k < dsize d \<and> after d k m \<longrightarrow> x < k \<longrightarrow> \<not> is_element d k)"
    using assms(3) by (auto simp: previousElementSibling_def earlier_nodes_set)
  then show ?thesis using assms(1,2) by (auto simp: related_def list_all_iff) (auto simp: after_def)
qed

text \<open>
  An identifier behind a child, descendant or adjacent combinator finds the element of this name
  not only where the combinator relates it to a node found before, as a selector means, but also
  when it is itself one of these nodes: \<open>d > #x\<close> finds a \<open>d\<close> named \<open>x\<close> wherever it is.
\<close>

theorem identifier_behind_combinator:
  assumes "getElementById d i = Some m" and "c \<noteq> LaterSibling" and "nd_tag (node d m) \<noteq> [33]"
  shows "\<exists>ns. matcher d root [Simple (STag t), Comb c, Simple (SId i)] idx = Inr (ns, idx)
    \<and> (m \<in> set ns \<longleftrightarrow> sat d root (rev [Simple (STag t), Comb c, Simple (SId i)]) m \<or> sat d root [Simple (STag t)] m)"
proof -
  have m: "m < dsize d" "is_element d m" using element_by_id [OF assms(1)] by (auto simp: under_def)
  let ?ns = "h_tagName d None root t None"
  have ns: "x \<in> set ?ns \<longleftrightarrow> sat d root [Simple (STag t)] x" for x
    using tag_set [of None None x d root t] by (auto simp: candidates_def)
  have el: "is_element d x" if "x \<in> set ?ns" for x
    using that by (simp add: ns under_def)
  have "m \<in> set (h_id d (Some ?ns) root i (Some c)) \<longleftrightarrow> (\<exists>x \<in> set ?ns. related d c x m) \<or> m \<in> set ?ns"
    using assms el m previous_sibling_related [OF m]
    by (cases c) (auto simp: h_id_def list_ex_iff related_def)
  moreover have "(\<exists>x \<in> set ?ns. related d c x m) \<longleftrightarrow> sat d root (rev [Simple (STag t), Comb c, Simple (SId i)]) m"
  proof -
    have "sat d root (rev [Simple (STag t), Comb c, Simple (SId i)]) m \<longleftrightarrow>
        getElementById d i = Some m \<and> list_ex (\<lambda>x. related d c x m \<and> sat d root [Simple (STag t)] x) [0..<dsize d]"
      by (simp only: rev.simps append.simps sat.simps(2) [of d root "SId i"] sat.simps(3) holds.simps(2))
    then show ?thesis using assms(1) sat_lt [of d root "[Simple (STag t)]"]
      by (auto simp: list_ex_iff ns simp del: sat.simps holds.simps)
  qed
  ultimately show ?thesis using ns by (simp add: matcher_def finish_matcher_def del: sat.simps)
qed

theorem identifier_behind_combinator_witness:
  "\<exists>ns. matcher sample_dom 0 [Simple (STag (lit ''d'')), Comb Child, Simple (SId (lit ''x''))] (\<lambda>_. None) = Inr (ns, \<lambda>_. None)
     \<and> 5 \<in> set ns \<and> \<not> sat sample_dom 0 (rev [Simple (STag (lit ''d'')), Comb Child, Simple (SId (lit ''x''))]) 5"
proof -
  have "getElementById sample_dom (lit ''x'') = Some 5" by code_simp
  moreover have "nd_tag (node sample_dom 5) \<noteq> [33]" by code_simp
  moreover have "sat sample_dom 0 [Simple (STag (lit ''d''))] 5" by code_simp
  moreover have "\<not> sat sample_dom 0 (rev [Simple (STag (lit ''d'')), Comb Child, Simple (SId (lit ''x''))]) 5" by code_simp
  ultimately show ?thesis
    using identifier_behind_combinator [of sample_dom "lit ''x''" 5 Child 0 "lit ''d''" "\<lambda>_. None"] by simp
qed

subsection \<open>Positions among siblings\<close>

text \<open>The place of an element among its siblings, from the first or from the last.\<close>

definition place :: "dom \<Rightarrow> bool \<Rightarrow> nat \<Rightarrow> nat" where
  "place d reverse n =
     Suc (length (filter (\<lambda>k. is_element d k \<and> (if reverse then after d n k else after d k n)) [0..<dsize d]))"

lemma number_nodes_other: "n \<notin> set js \<Longrightarrow> number_nodes js j idx n = idx n"
  by (induction js j idx rule: number_nodes.induct) auto

lemma number_nodes_at:
  "distinct (as @ n # bs) \<Longrightarrow> number_nodes (as @ n # bs) j idx n = Some (j + length as)"
proof (induction as arbitrary: j idx)
  case Nil
  then show ?case by (simp add: number_nodes_other)
qed auto

lemma number_children:
  assumes "parentNode d n = Some p" and "n < dsize d" and "is_element d n"
  shows "h_index d marked p reverse False idx n = Some (place d reverse n)"
proof -
  let ?js = "filter (is_element d) (childNodes d p)"
  have split: "[0..<dsize d] = [0..<n] @ n # [Suc n..<dsize d]"
    using assms(2) upt_add_eq_append [of 0 n "dsize d - n"] by (simp add: upt_conv_Cons)
  let ?sib = "\<lambda>k. is_element d k \<and> parentNode d k = Some p"
  have js: "?js = filter ?sib [0..<n] @ n # filter ?sib [Suc n..<dsize d]"
    using assms by (simp add: childNodes_def split conj_commute)
  have before: "filter ?sib [0..<n] = filter (\<lambda>k. is_element d k \<and> after d k n) [0..<dsize d]"
    unfolding split using assms(1) by (auto simp: after_def intro!: filter_cong filter_False)
  have behind: "filter ?sib [Suc n..<dsize d] = filter (\<lambda>k. is_element d k \<and> after d n k) [0..<dsize d]"
    unfolding split using assms(1) by (auto simp: after_def intro!: filter_cong filter_False)
  let ?as = "filter ?sib [0..<n]" and ?bs = "filter ?sib [Suc n..<dsize d]"
  have dist: "distinct (?as @ n # ?bs)" by auto
  show ?thesis
  proof (cases reverse)
    case True
    have "rev ?js = rev (filter ?sib [Suc n..<dsize d]) @ n # rev (filter ?sib [0..<n])" by (simp add: js)
    moreover have "distinct (rev ?bs @ n # rev ?as)" using dist by auto
    ultimately have "number_nodes (rev ?js) 1 idx n = Some (1 + length ?bs)"
      using number_nodes_at [of "rev ?bs" n "rev ?as" 1 idx] by simp
    then show ?thesis using True behind by (simp add: h_index_def rev_filter place_def)
  next
    case False
    have "number_nodes ?js 1 idx n = Some (1 + length (filter ?sib [0..<n]))"
      using number_nodes_at [OF dist, of 1 idx] by (simp add: js)
    then show ?thesis using False before by (simp add: h_index_def place_def)
  qed
qed

lemma number_elsewhere: "parentNode d n \<noteq> Some p \<Longrightarrow> h_index d marked p reverse ofType idx n = idx n"
  unfolding h_index_def Let_def by (rule number_nodes_other) (auto simp: childNodes_set)

text \<open>Nodes whose parent is among the nodes keep the number they had.\<close>

lemma index_parents_places:
  assumes "\<forall>n \<in> set ns. n < dsize d \<and> is_element d n \<and> parentNode d n \<noteq> None"
    and "\<forall>p n. p \<in> set done_parents \<longrightarrow> p \<notin> set nodes \<longrightarrow> n < dsize d \<longrightarrow> is_element d n \<longrightarrow> parentNode d n = Some p \<longrightarrow>
      idx n = Some (place d reverse n)"
  shows "\<exists>idx'. index_parents d reverse False ns (done_parents @ nodes) idx = Inr idx'
    \<and> (\<forall>n. (\<exists>p. parentNode d n = Some p \<and> p \<in> set nodes) \<longrightarrow> idx' n = idx n)
    \<and> (\<forall>n p. n < dsize d \<longrightarrow> is_element d n \<longrightarrow> parentNode d n = Some p \<longrightarrow> p \<notin> set nodes \<longrightarrow>
         p \<in> set done_parents \<or> n \<in> set ns \<longrightarrow> idx' n = Some (place d reverse n))"
  using assms
proof (induction ns arbitrary: done_parents idx)
  case (Cons n ns)
  obtain p where p: "parentNode d n = Some p" using Cons.prems(1) by auto
  have tl: "\<forall>n \<in> set ns. n < dsize d \<and> is_element d n \<and> parentNode d n \<noteq> None" using Cons.prems(1) by simp
  show ?case
  proof (cases "p \<in> set (done_parents @ nodes)")
    case True
    then show ?thesis using Cons.IH [OF tl Cons.prems(2)] p by fastforce
  next
    case False
    let ?idx = "h_index d (p # done_parents @ nodes) p reverse False idx"
    have same: "?idx k = idx k" if "parentNode d k \<noteq> Some p" for k using number_elsewhere [OF that] .
    have new: "?idx k = Some (place d reverse k)" if "parentNode d k = Some p" "k < dsize d" "is_element d k" for k
      using number_children [OF that] .
    have "\<forall>q n. q \<in> set (p # done_parents) \<longrightarrow> q \<notin> set nodes \<longrightarrow> n < dsize d \<longrightarrow> is_element d n \<longrightarrow> parentNode d n = Some q \<longrightarrow>
        ?idx n = Some (place d reverse n)"
      using Cons.prems(2) same new by (metis option.inject set_ConsD)
    from Cons.IH [OF tl this] obtain idx' where i: "index_parents d reverse False ns ((p # done_parents) @ nodes) ?idx = Inr idx'"
      and keep: "\<And>k q. parentNode d k = Some q \<Longrightarrow> q \<in> set nodes \<Longrightarrow> idx' k = ?idx k"
      and fresh: "\<And>k q. k < dsize d \<Longrightarrow> is_element d k \<Longrightarrow> parentNode d k = Some q \<Longrightarrow> q \<notin> set nodes \<Longrightarrow>
         q \<in> set (p # done_parents) \<or> k \<in> set ns \<Longrightarrow> idx' k = Some (place d reverse k)" by blast
    have "index_parents d reverse False (n # ns) (done_parents @ nodes) idx = Inr idx'" using i p False by simp
    moreover have "idx' k = idx k" if "parentNode d k = Some q" "q \<in> set nodes" for k q
      using keep [OF that] same [of k] that False by auto
    moreover have "idx' k = Some (place d reverse k)" if "k < dsize d" "is_element d k" "parentNode d k = Some q"
        "q \<notin> set nodes" "q \<in> set done_parents \<or> k \<in> set (n # ns)" for k q
      using fresh [OF that(1-4)] that(3,5) p by auto
    ultimately show ?thesis by blast
  qed
qed auto

text \<open>The positions a formula names: the nodes found so far bound them.\<close>

definition named_place :: "formula \<Rightarrow> nat \<Rightarrow> nat \<Rightarrow> bool" where
  "named_place f bound i \<longleftrightarrow>
     (case f of
        Position k \<Rightarrow> i = k
      | Linear a b \<Rightarrow> 0 < i \<and> (if a = 0 then int i = b else i \<le> bound \<and> (\<exists>k :: nat. int i = a * int k + b))
      | NoFormula \<Rightarrow> False)"

lemma fold_filter: "fold (\<lambda>i memo. if P i then memo @ [i] else memo) xs acc = acc @ filter P xs"
  by (induction xs arbitrary: acc) auto

lemma multiple_iff:
  assumes "(a :: int) \<noteq> 0"
  shows "(i - b) mod a = 0 \<and> (i - b) * a \<ge> 0 \<longleftrightarrow> (\<exists>k :: nat. i = a * int k + b)"
proof
  assume h: "(i - b) mod a = 0 \<and> (i - b) * a \<ge> 0"
  then obtain q where q: "i - b = a * q" by auto
  then have "(a * a) * q \<ge> 0" using h by (simp add: mult.commute mult.left_commute)
  moreover have "a * a > 0" using assms by (auto simp: zero_less_mult_iff)
  ultimately have "q \<ge> 0" by (simp add: zero_le_mult_iff)
  then show "\<exists>k :: nat. i = a * int k + b" using q by (intro exI [of _ "nat q"]) simp
next
  assume "\<exists>k :: nat. i = a * int k + b"
  then obtain k :: nat where "i = a * int k + b" by blast
  then have ib: "i - b = a * int k" by simp
  have "(i - b) * a = (a * a) * int k" unfolding ib by (simp only: ac_simps)
  moreover have "(a * a) * int k \<ge> 0" using mult_nonneg_nonneg [of "a * a" "int k"] by simp
  ultimately have "(i - b) * a \<ge> 0" by (simp only:)
  then show "(i - b) mod a = 0 \<and> (i - b) * a \<ge> 0" using ib by simp
qed

lemma getIndices_set:
  "int i \<in> set (getIndices a b n) \<longleftrightarrow> named_place (Linear a b) n i" "distinct (getIndices a b n)"
proof -
  have f: "getIndices a b n = (if a = 0 then (if b > 0 then [b] else [])
      else filter (\<lambda>i. (i - b) mod a = 0 \<and> (i - b) * a \<ge> 0) [1..int n])"
    by (simp add: getIndices_def fold_filter range_toArray_eq)
  show "int i \<in> set (getIndices a b n) \<longleftrightarrow> named_place (Linear a b) n i"
    using multiple_iff [of a "int i" b] unfolding f named_place_def by auto
  show "distinct (getIndices a b n)" unfolding f by simp
qed

lemma filter_eq_distinct: "distinct xs \<Longrightarrow> filter ((=) c) xs = (if c \<in> set xs then [c] else [])"
  by (induction xs) auto

text \<open>
  C26. The nodes that a position among siblings selects are those whose place, counted from the first
  or from the last sibling, has the form that the formula names, but in two cases: a place greater
  than the number of nodes found so far is never selected by a formula with \<open>n\<close>, and a node whose
  parent is among the nodes is selected by the number it was given in an earlier search, if any.
\<close>

theorem nth_selects_places:
  assumes "\<forall>n \<in> set ns. n < dsize d \<and> is_element d n \<and> parentNode d n \<noteq> None"
  shows "\<exists>idx'. p_nth d ns f reverse False idx =
    Inr (filter (\<lambda>n. case (if \<exists>p \<in> set ns. parentNode d n = Some p then idx n else Some (place d reverse n)) of
            None \<Rightarrow> False | Some i \<Rightarrow> named_place (read_formula f) (length ns) i) ns, idx')"
proof (cases "ns = []")
  case True
  then show ?thesis by (simp add: p_nth_def)
next
  case False
  let ?shown = "\<lambda>n. if \<exists>p \<in> set ns. parentNode d n = Some p then idx n else Some (place d reverse n)"
  obtain idx' where i: "index_parents d reverse False ns ns idx = Inr idx'"
    and old: "\<And>n p. parentNode d n = Some p \<Longrightarrow> p \<in> set ns \<Longrightarrow> idx' n = idx n"
    and new: "\<And>n p. n < dsize d \<Longrightarrow> is_element d n \<Longrightarrow> parentNode d n = Some p \<Longrightarrow> p \<notin> set ns \<Longrightarrow> n \<in> set ns
      \<Longrightarrow> idx' n = Some (place d reverse n)"
    using index_parents_places [of ns d "[]" ns idx reverse] assms by auto
  have shown: "idx' n = ?shown n" if "n \<in> set ns" for n
  proof -
    have "parentNode d n \<noteq> None" using assms that by blast
    then obtain p where p: "parentNode d n = Some p" by (cases "parentNode d n") simp_all
    have n: "n < dsize d" "is_element d n" using assms that by blast+
    show ?thesis
    proof (cases "p \<in> set ns")
      case True
      then have "\<exists>q \<in> set ns. parentNode d n = Some q" using p by blast
      then show ?thesis using old [OF p True] by (simp only: if_True)
    next
      case False
      then have "\<not> (\<exists>q \<in> set ns. parentNode d n = Some q)" using p by auto
      then show ?thesis using new [OF n p False that] by (simp only: if_False)
    qed
  qed
  have lin: "concat (map (\<lambda>n. map (\<lambda>_. n) (filter (\<lambda>i. map_option int (idx' n) = Some i) (getIndices a b (length ns)))) ms)
      = filter (\<lambda>n. case idx' n of None \<Rightarrow> False | Some i \<Rightarrow> named_place (Linear a b) (length ns) i) ms" for a b ms
    by (induction ms) (auto simp: filter_eq_distinct getIndices_set split: option.split)
  have "(case read_formula f of
           Position k \<Rightarrow> filter (\<lambda>n. idx' n = Some k) ns
         | Linear a b \<Rightarrow>
             (let indices = getIndices a b (length ns)
              in concat (map (\<lambda>n. map (\<lambda>_. n) (filter (\<lambda>i. map_option int (idx' n) = Some i) indices)) ns))
         | NoFormula \<Rightarrow> [])
      = filter (\<lambda>n. case idx' n of None \<Rightarrow> False | Some i \<Rightarrow> named_place (read_formula f) (length ns) i) ns"
  proof (cases "read_formula f")
    case (Linear a b)
    show ?thesis unfolding Linear formula.case Let_def by (rule lin)
  qed (auto simp: named_place_def intro!: filter_cong split: option.split)
  also have "\<dots> = filter (\<lambda>n. case ?shown n of None \<Rightarrow> False | Some i \<Rightarrow> named_place (read_formula f) (length ns) i) ns"
    by (intro filter_cong refl) (simp only: shown)
  finally show ?thesis using False i by (simp add: p_nth_def)
qed

theorem nth_selects_places_witness:
  "\<exists>idx. p_nth sample_dom [3, 4, 6] (lit ''odd'') False False (\<lambda>_. None) = Inr ([3, 6], idx)
     \<and> (\<exists>idx. p_nth sample_dom [4] (lit ''even'') False False (\<lambda>_. None) = Inr ([], idx))"
proof -
  let ?some = "\<lambda>ns f. filter (\<lambda>n. case (if \<exists>p \<in> set ns. parentNode sample_dom n = Some p then None else Some (place sample_dom False n)) of
            None \<Rightarrow> False | Some i \<Rightarrow> named_place (read_formula f) (length ns) i) ns"
  have n: "\<forall>n \<in> set [3, 4, 6]. n < dsize sample_dom \<and> is_element sample_dom n \<and> parentNode sample_dom n \<noteq> None"
    by code_simp
  then have n4: "\<forall>n \<in> set [4]. n < dsize sample_dom \<and> is_element sample_dom n \<and> parentNode sample_dom n \<noteq> None"
    by simp
  have p: "parentNode sample_dom 3 = Some 2" "parentNode sample_dom 4 = Some 2" "parentNode sample_dom 6 = Some 5"
      "place sample_dom False 3 = 1" "place sample_dom False 4 = 2" "place sample_dom False 6 = 1" by code_simp+
  have f: "read_formula (lit ''odd'') = Linear 2 1" "read_formula (lit ''even'') = Linear 2 0" by code_simp+
  have "(\<exists>k :: nat. (1 :: int) = 2 * int k + 1)" by (rule exI [of _ 0]) simp
  moreover have "\<not> (\<exists>k :: nat. (2 :: int) = 2 * int k + 1)" by presburger
  ultimately have "?some [3, 4, 6] (lit ''odd'') = [3, 6]" and "?some [4] (lit ''even'') = []"
    by (simp_all add: p f named_place_def)
  then show ?thesis
    using nth_selects_places [OF n, of "lit ''odd''" False "\<lambda>_. None"] nth_selects_places [OF n4, of "lit ''even''" False "\<lambda>_. None"]
    by simp
qed

end
