(* ===== verification/Sortable.thy ===== *)
theory Sortable
  imports ProtoQuery ProtoEvent Complex_Main
begin

text \<open>
  The sortable lists of \<open>gserver/public/javascripts/dragdrop.js\<close> (lines 594 to 971) on the tree of
  the document, which they change: a node is its key, its tag (empty for a text), its identifier, its
  class and its children. Nodes taken out of the document are trees of their own, so a state is a
  list of trees, the document first.
\<close>

datatype dtree = DNode (n_key: nat) (n_tag: ustr) (n_ident: ustr) (n_class: ustr) (n_kids: "dtree list")

subsection \<open>The operations of the document\<close>

fun keys :: "dtree \<Rightarrow> nat list" where
  "keys (DNode k t i c ts) = k # concat (map keys ts)"

fun first_some :: "'a option list \<Rightarrow> 'a option" where
  "first_some [] = None"
| "first_some (Some x # xs) = Some x"
| "first_some (None # xs) = first_some xs"

fun find_node :: "nat \<Rightarrow> dtree \<Rightarrow> dtree option" where
  "find_node x (DNode k t i c ts) =
     (if k = x then Some (DNode k t i c ts) else first_some (map (find_node x) ts))"

text \<open>The keys of the nodes above a node, its parent first.\<close>

fun path_to :: "nat \<Rightarrow> dtree \<Rightarrow> nat list option" where
  "path_to x (DNode k t i c ts) =
     (if k = x then Some [] else map_option (\<lambda>p. p @ [k]) (first_some (map (path_to x) ts)))"

definition parent_key :: "nat \<Rightarrow> dtree \<Rightarrow> nat option" where
  "parent_key x t = (case path_to x t of Some (p # _) \<Rightarrow> Some p | _ \<Rightarrow> None)"

fun remove_node :: "nat \<Rightarrow> dtree \<Rightarrow> dtree" where
  "remove_node x (DNode k t i c ts) =
     DNode k t i c (map (remove_node x) (filter (\<lambda>u. n_key u \<noteq> x) ts))"

text \<open>\<open>insertBefore\<close>: without a reference the node becomes the last child.\<close>

fun insert_kid :: "dtree \<Rightarrow> nat option \<Rightarrow> dtree list \<Rightarrow> dtree list" where
  "insert_kid n ref [] = [n]"
| "insert_kid n ref (u # us) = (if ref = Some (n_key u) then n # u # us else u # insert_kid n ref us)"

fun insert_at :: "nat \<Rightarrow> dtree \<Rightarrow> nat option \<Rightarrow> dtree \<Rightarrow> dtree" where
  "insert_at p n ref (DNode k t i c ts) =
     (if k = p then DNode k t i c (insert_kid n ref ts) else DNode k t i c (map (insert_at p n ref) ts))"

definition kids_of :: "nat \<Rightarrow> dtree \<Rightarrow> nat list" where
  "kids_of p t = (case find_node p t of None \<Rightarrow> [] | Some n \<Rightarrow> map n_key (n_kids n))"

text \<open>The sibling before and after an element.\<close>

fun before_in :: "nat \<Rightarrow> nat list \<Rightarrow> nat option" where
  "before_in x (a # b # ks) = (if b = x then Some a else before_in x (b # ks))"
| "before_in x ks = None"

fun after_in :: "nat \<Rightarrow> nat list \<Rightarrow> nat option" where
  "after_in x (a # b # ks) = (if a = x then Some b else after_in x (b # ks))"
| "after_in x ks = None"

definition kin :: "nat \<Rightarrow> dtree \<Rightarrow> nat list" where
  "kin x t = (case parent_key x t of None \<Rightarrow> [] | Some p \<Rightarrow> kids_of p t)"

definition previousSibling :: "nat \<Rightarrow> dtree \<Rightarrow> nat option" where
  "previousSibling x t = before_in x (kin x t)"

definition nextSibling :: "nat \<Rightarrow> dtree \<Rightarrow> nat option" where
  "nextSibling x t = after_in x (kin x t)"

text \<open>\<open>insertBefore\<close> of the document: a node that is in the document leaves its place first; a node before
  itself stays where it is.\<close>

definition insertBefore :: "nat \<Rightarrow> nat \<Rightarrow> nat option \<Rightarrow> dtree \<Rightarrow> dtree" where
  "insertBefore p x ref t =
     (case find_node x t of
        None \<Rightarrow> t
      | Some n \<Rightarrow> insert_at p n (if ref = Some x then nextSibling x t else ref) (remove_node x t))"

subsection \<open>Children of a list\<close>

fun is_parent_loop :: "nat \<Rightarrow> nat list \<Rightarrow> nat \<Rightarrow> bool" where
  "is_parent_loop child [] element = False"
| "is_parent_loop child (p # ps) element =
     (if child = element then False else if p = element then True else is_parent_loop p ps element)"

definition isParent :: "nat \<Rightarrow> nat \<Rightarrow> dtree \<Rightarrow> bool" where
  "isParent child element t = (case path_to child t of None \<Rightarrow> False | Some p \<Rightarrow> is_parent_loop child p element)"

definition upper :: "ustr \<Rightarrow> ustr" where
  "upper s = map (\<lambda>c. if 97 \<le> c \<and> c \<le> 122 then c - 32 else c) s"

definition child_matches :: "ustr list option \<Rightarrow> ustr \<Rightarrow> dtree \<Rightarrow> bool" where
  "child_matches only tagName e \<longleftrightarrow>
     n_tag e \<noteq> [] \<and> upper (n_tag e) = upper tagName
     \<and> (case only of None \<Rightarrow> True | Some cs \<Rightarrow> list_ex (\<lambda>v. v \<in> set cs) (class_names (n_class e)))"

fun findChildren :: "ustr list option \<Rightarrow> bool \<Rightarrow> ustr \<Rightarrow> dtree \<Rightarrow> dtree list option" where
  "findChildren only recursive tagName (DNode k t i c ts) =
     (if ts = [] then None
      else Some (concat (map (\<lambda>e.
        (if child_matches only tagName e then [e] else [])
        @ (if recursive then (case findChildren only recursive tagName e of None \<Rightarrow> [] | Some es \<Rightarrow> es) else [])) ts)))"

record sort_options =
  so_tag :: ustr
  so_treeTag :: ustr
  so_only :: "ustr list option"
  so_tree :: bool
  so_format :: "ustr \<Rightarrow> ustr option"
  so_given :: "ustr option"

definition findElements :: "dtree \<Rightarrow> sort_options \<Rightarrow> dtree list option" where
  "findElements element opts = findChildren (so_only opts) (so_tree opts) (so_tag opts) element"

definition findTreeElements :: "dtree \<Rightarrow> sort_options \<Rightarrow> dtree list option" where
  "findTreeElements element opts = findChildren (so_only opts) (so_tree opts) (so_treeTag opts) element"

text \<open>\<open>SERIALIZE_RULE\<close>: the text behind the last underscore of the run of letters, digits, hyphens and
  underscores that follows the first character.\<close>

definition rule_char :: "jchar \<Rightarrow> bool" where
  "rule_char c \<longleftrightarrow> (48 \<le> c \<and> c \<le> 57) \<or> (65 \<le> c \<and> c \<le> 90) \<or> (97 \<le> c \<and> c \<le> 122) \<or> c = 45 \<or> c = 95"

definition serialize_rule :: "ustr \<Rightarrow> ustr option" where
  "serialize_rule s =
     (case s of
        [] \<Rightarrow> None
      | c # rest \<Rightarrow>
          if c = 95 \<or> c = 45 then None
          else
            let run = takeWhile rule_char rest;
                r = drop (length run - length (takeWhile (\<lambda>c. c \<noteq> 95) (rev run))) rest
            in if 95 \<in> set run \<and> set r \<inter> {10, 13, 0x2028, 0x2029} = {} then Some r else None)"

text \<open>The default options of \<open>create\<close> that matter here.\<close>

definition sort_defaults :: sort_options where
  "sort_defaults = \<lparr>so_tag = lit ''li'', so_treeTag = lit ''ul'', so_only = None, so_tree = False,
     so_format = serialize_rule, so_given = None\<rparr>"

subsection \<open>The order of a list\<close>

definition found_items :: "dtree \<Rightarrow> sort_options \<Rightarrow> dtree list" where
  "found_items element opts = (case findElements element opts of None \<Rightarrow> [] | Some es \<Rightarrow> es)"

definition sequence :: "dtree \<Rightarrow> sort_options \<Rightarrow> ustr list" where
  "sequence element opts =
     map (\<lambda>item. case so_format opts (n_ident item) of None \<Rightarrow> [] | Some m \<Rightarrow> m) (found_items element opts)"

text \<open>\<open>setSequence\<close>. \<open>nodeMap\<close> holds for an identifier the node and the parent it had. A name that every
  object inherits is found in \<open>nodeMap\<close> too; what is found then has no parent.\<close>

type_synonym node_map = "(ustr \<times> nat \<times> nat) list"

definition take_out :: "nat \<Rightarrow> dtree list \<Rightarrow> dtree list" where
  "take_out x forest =
     (case first_some (map (find_node x) forest) of
        None \<Rightarrow> forest
      | Some n \<Rightarrow> map (remove_node x) (filter (\<lambda>u. n_key u \<noteq> x) forest) @ [n])"

definition put_in :: "nat \<Rightarrow> nat \<Rightarrow> dtree list \<Rightarrow> dtree list" where
  "put_in p x forest =
     (case first_some (map (find_node x) forest) of
        None \<Rightarrow> forest
      | Some n \<Rightarrow> map (insert_at p n None) (map (remove_node x) (filter (\<lambda>u. n_key u \<noteq> x) forest)))"

definition forest_parent :: "nat \<Rightarrow> dtree list \<Rightarrow> nat option" where
  "forest_parent x forest = first_some (map (parent_key x) forest)"

fun collect_nodes ::
  "(ustr \<Rightarrow> ustr option) \<Rightarrow> dtree list \<Rightarrow> node_map \<Rightarrow> dtree list \<Rightarrow> (node_map \<times> dtree list) res" where
  "collect_nodes fmt [] nodeMap forest = Inr (nodeMap, forest)"
| "collect_nodes fmt (n # ns) nodeMap forest =
     (case forest_parent (n_key n) forest of
        None \<Rightarrow> Inl TypeError
      | Some p \<Rightarrow>
          collect_nodes fmt ns
            (case fmt (n_ident n) of None \<Rightarrow> nodeMap | Some m \<Rightarrow> put m (n_key n, p) nodeMap)
            (take_out (n_key n) forest))"

fun append_nodes :: "ustr list \<Rightarrow> node_map \<Rightarrow> dtree list \<Rightarrow> dtree list res" where
  "append_nodes [] nodeMap forest = Inr forest"
| "append_nodes (ident # idents) nodeMap forest =
     (case map_of nodeMap ident of
        Some (x, p) \<Rightarrow> append_nodes idents (del ident nodeMap) (put_in p x forest)
      | None \<Rightarrow> if ident \<in> set object_names then Inl TypeError else append_nodes idents nodeMap forest)"

definition setSequence :: "nat \<Rightarrow> ustr list \<Rightarrow> sort_options \<Rightarrow> dtree \<Rightarrow> dtree list res" where
  "setSequence element new_sequence opts t =
     (case find_node element t of
        None \<Rightarrow> Inl TypeError
      | Some n \<Rightarrow>
          (case findElements n opts of
             None \<Rightarrow> Inl TypeError
           | Some es \<Rightarrow>
               rbind (collect_nodes (so_format opts) es [] [t]) (\<lambda>(nodeMap, forest).
                 append_nodes new_sequence nodeMap forest)))"

subsection \<open>The tree of nested lists\<close>

datatype snode = SNode (s_id: ustr) (s_position: nat) (s_children: "snode list")

text \<open>The first descendant with a tag.\<close>

fun down :: "ustr \<Rightarrow> dtree \<Rightarrow> dtree option" where
  "down tagName (DNode k t i c ts) =
     first_some (map (\<lambda>e. if n_tag e \<noteq> [] \<and> upper (n_tag e) = upper tagName then Some e else down tagName e) ts)"

lemma first_some_mem: "first_some xs = Some x \<Longrightarrow> Some x \<in> set xs"
  by (induction xs rule: first_some.induct) auto

lemma size_kid: "e \<in> set ts \<Longrightarrow> size e < Suc (size_list size ts)"
  by (induction ts) auto

lemma down_smaller: "down tagName e = Some d \<Longrightarrow> size d < size e"
proof (induction tagName e rule: down.induct)
  case (1 tagName k t i c ts)
  obtain e where e: "e \<in> set ts" "(if n_tag e \<noteq> [] \<and> upper (n_tag e) = upper tagName then Some e else down tagName e) = Some d"
    using "1.prems" by (auto dest!: first_some_mem)
  then have "size d \<le> size e" using "1.IH" [OF e(1)] by (auto split: if_splits)
  then show ?case using size_kid [OF e(1)] by simp
qed

lemma found_flat:
  "\<not> so_tree opts \<Longrightarrow> found_items t opts = filter (child_matches (so_only opts) (so_tag opts)) (n_kids t)"
proof (cases t)
  case (DNode k tag i c ts)
  have "concat (map (\<lambda>e. if child_matches P tg e then [e] else []) us) = filter (child_matches P tg) us" for P tg us
    by (induction us) auto
  then show "\<not> so_tree opts \<Longrightarrow> ?thesis" by (simp add: found_items_def findElements_def DNode)
qed

lemma size_filter: "size_list f (filter P xs) \<le> size_list f xs"
  by (induction xs) auto

lemma found_flat_size: "size_list size (found_items t (opts\<lparr>so_tree := False\<rparr>)) < size t"
  using size_filter [of size _ "n_kids t"] by (cases t) (simp add: found_flat less_Suc_eq_le)

text \<open>\<open>_tree\<close>: the loop over the elements of a list, with the number of children pushed so far. The options
  it is called with have no \<open>tree\<close>.\<close>

function tree_loop :: "sort_options \<Rightarrow> dtree list \<Rightarrow> nat \<Rightarrow> snode list res" where
  "tree_loop opts [] pos = Inr []"
| "tree_loop opts (e # es) pos =
     (case so_format opts (n_ident e) of
        None \<Rightarrow> tree_loop opts es pos
      | Some m \<Rightarrow>
          rbind (encodeURIComponent m) (\<lambda>ident.
          rbind (case down (so_treeTag opts) e of
                   None \<Rightarrow> Inr []
                 | Some container \<Rightarrow> tree_loop opts (found_items container (opts\<lparr>so_tree := False\<rparr>)) 0) (\<lambda>kids.
          rbind (tree_loop opts es (Suc pos)) (\<lambda>rest. Inr (SNode ident pos kids # rest)))))"
  by pat_completeness auto
termination
proof (relation "measure (\<lambda>(opts, es, pos). size_list size es)", goal_cases)
  case (3 opts e es pos m ident container)
  then show ?case using down_smaller [of "so_treeTag opts" e container] found_flat_size [of container opts] by simp
qed simp_all

definition sort_tree :: "dtree \<Rightarrow> sort_options \<Rightarrow> snode list res" where
  "sort_tree element opts = tree_loop opts (found_items element (opts\<lparr>so_tree := False\<rparr>)) 0"

text \<open>\<open>_constructIndex\<close> climbs from a node to the root: the nodes above it, itself first.\<close>

fun constructIndex :: "(ustr \<times> nat) list \<Rightarrow> ustr \<Rightarrow> ustr" where
  "constructIndex [] index = index"
| "constructIndex ((i, pos) # ups) index =
     constructIndex ups (if i \<noteq> [] then [91] @ nat_str pos @ [93] @ index else index)"

subsection \<open>The text of a list\<close>

function item_texts :: "ustr \<Rightarrow> (ustr \<times> nat) list \<Rightarrow> snode list \<Rightarrow> ustr list res" where
  "item_texts name ups [] = Inr []"
| "item_texts name ups (SNode i pos kids # items) =
     rbind (encodeURIComponent i) (\<lambda>t.
     rbind (item_texts name ((i, pos) # ups) kids) (\<lambda>inner.
     rbind (item_texts name ups items) (\<lambda>rest.
       Inr ((name @ constructIndex ((i, pos) # ups) [] @ lit ''[id]='' @ t) # inner @ rest))))"
  by pat_completeness auto
termination by (relation "measure (\<lambda>(name, above, items). size_list size items)") auto

definition sort_serialize :: "dtree \<Rightarrow> sort_options \<Rightarrow> ustr res" where
  "sort_serialize element opts =
     rbind (encodeURIComponent (case so_given opts of Some n \<Rightarrow> if n \<noteq> [] then n else n_ident element | None \<Rightarrow> n_ident element)) (\<lambda>name.
       if so_tree opts then
         rbind (sort_tree element opts) (\<lambda>items.
         rbind (item_texts name [] items) (\<lambda>ts. Inr (join [38] ts)))
       else
         rbind (rmap (\<lambda>item. rbind (encodeURIComponent item) (\<lambda>t. Inr (name @ lit ''[]='' @ t))) (sequence element opts))
           (\<lambda>ts. Inr (join [38] ts)))"

subsection \<open>Moving an element\<close>

text \<open>\<open>_findRootElement\<close>: the nearest of the element and what is above it, below the body, that is a
  sortable list; \<open>sortables\<close> holds the options of an identifier. Above the document is nothing to
  read a tag from.\<close>

fun root_loop :: "(ustr \<times> sort_options) list \<Rightarrow> dtree list \<Rightarrow> (ustr \<times> sort_options) option res" where
  "root_loop sortables [] = Inl TypeError"
| "root_loop sortables (e # ups) =
     (if n_tag e = [] then Inl TypeError
      else if upper (n_tag e) = lit ''BODY'' then Inr None
      else case (if n_ident e = [] then None else map_of sortables (n_ident e)) of
             Some opts \<Rightarrow> Inr (Some (n_ident e, opts))
           | None \<Rightarrow> root_loop sortables ups)"

definition line_of :: "nat \<Rightarrow> dtree \<Rightarrow> dtree list" where
  "line_of x t =
     (case path_to x t of None \<Rightarrow> []
      | Some p \<Rightarrow> concat (map (\<lambda>y. case find_node y t of None \<Rightarrow> [] | Some n \<Rightarrow> [n]) (x # p)))"

definition sortable_of :: "(ustr \<times> sort_options) list \<Rightarrow> nat \<Rightarrow> dtree \<Rightarrow> (ustr \<times> sort_options) res" where
  "sortable_of sortables x t =
     rbind (root_loop sortables (line_of x t)) (\<lambda>r. case r of None \<Rightarrow> Inl TypeError | Some s \<Rightarrow> Inr s)"

text \<open>The result of a hover: the document, and the lists whose \<open>onChange\<close> was called.\<close>

type_synonym hovered = "dtree \<times> ustr list"

definition move_and_tell ::
  "(ustr \<times> sort_options) list \<Rightarrow> nat \<Rightarrow> nat \<Rightarrow> nat option \<Rightarrow> dtree \<Rightarrow> hovered res" where
  "move_and_tell sortables element p ref t =
     (let old = parent_key element t; t1 = insertBefore p element ref t
      in rbind (if old \<noteq> Some p
                then (case old of None \<Rightarrow> Inl TypeError | Some q \<Rightarrow> rbind (sortable_of sortables q t1) (\<lambda>s. Inr [fst s]))
                else Inr []) (\<lambda>told.
         rbind (sortable_of sortables p t1) (\<lambda>s. Inr (t1, told @ [fst s]))))"

text \<open>\<open>mark\<close> looks up the list of \<open>dropon\<close> and, outside every list, fails when it places the marker after
  \<open>dropon\<close>; the marker itself is a matter of styles.\<close>

definition mark :: "(ustr \<times> sort_options) list \<Rightarrow> nat \<Rightarrow> bool \<Rightarrow> dtree \<Rightarrow> unit res" where
  "mark sortables dropon behind t =
     (case parent_key dropon t of
        None \<Rightarrow> Inl TypeError
      | Some p \<Rightarrow> rbind (root_loop sortables (line_of p t)) (\<lambda>r. case r of None \<Rightarrow> if behind then Inl TypeError else Inr () | Some s \<Rightarrow> Inr ()))"

text \<open>\<open>overlap\<close> is the part of \<open>dropon\<close> below the pointer.\<close>

definition sort_onHover :: "(ustr \<times> sort_options) list \<Rightarrow> nat \<Rightarrow> nat \<Rightarrow> rat \<Rightarrow> dtree \<Rightarrow> hovered res" where
  "sort_onHover sortables element dropon overlap t =
     (if isParent dropon element t then Inr (t, [])
      else
        rbind (if overlap > 33/100 \<and> overlap < 66/100
               then rbind (sortable_of sortables dropon t) (\<lambda>s. Inr (so_tree (snd s))) else Inr False) (\<lambda>stay.
        if stay then Inr (t, [])
        else case parent_key dropon t of
               None \<Rightarrow> Inl TypeError
             | Some p \<Rightarrow>
                 rbind (mark sortables dropon (\<not> overlap > 1/2) t) (\<lambda>_.
                 if overlap > 1/2 then
                   (if previousSibling dropon t \<noteq> Some element
                    then move_and_tell sortables element p (Some dropon) t else Inr (t, []))
                 else
                   (if nextSibling dropon t \<noteq> Some element
                    then move_and_tell sortables element p (nextSibling dropon t) t else Inr (t, [])))))"

text \<open>\<open>onEmptyHover\<close>: the child before which the element goes, from the sizes of the children.\<close>

fun empty_hover_child :: "rat \<Rightarrow> (nat \<times> rat) list \<Rightarrow> nat option" where
  "empty_hover_child offset [] = None"
| "empty_hover_child offset ((x, h) # cs) =
     (if offset - h \<ge> 0 then empty_hover_child (offset - h) cs
      else if offset - h / 2 \<ge> 0 then (case cs of [] \<Rightarrow> None | (y, _) # _ \<Rightarrow> Some y)
      else Some x)"

definition onEmptyHover ::
  "(ustr \<times> sort_options) list \<Rightarrow> (nat \<Rightarrow> rat) \<Rightarrow> nat \<Rightarrow> nat \<Rightarrow> rat \<Rightarrow> dtree \<Rightarrow> hovered res" where
  "onEmptyHover sortables extent element dropon overlap t =
     rbind (root_loop sortables (line_of dropon t)) (\<lambda>r.
       if isParent dropon element t then Inr (t, [])
       else case r of
              None \<Rightarrow> Inl TypeError
            | Some (ident, opts) \<Rightarrow>
                (case find_node dropon t of
                   None \<Rightarrow> Inl TypeError
                 | Some d \<Rightarrow>
                     (let cs = found_items d (opts\<lparr>so_tree := False\<rparr>);
                          child = empty_hover_child (extent dropon * (1 - overlap)) (map (\<lambda>n. (n_key n, extent (n_key n))) cs);
                          old = parent_key element t;
                          t1 = insertBefore dropon element child t
                      in case old of
                           None \<Rightarrow> Inl TypeError
                         | Some q \<Rightarrow> rbind (sortable_of sortables q t1) (\<lambda>s. Inr (t1, [fst s, ident])))))"

text \<open>\<open>SortableObserver\<close>: the text when the drag starts and when it ends.\<close>

record sort_observer =
  sb_last :: ustr
  sb_updates :: nat

definition sb_onStart :: "ustr \<Rightarrow> sort_observer \<Rightarrow> sort_observer" where
  "sb_onStart now s = s\<lparr>sb_last := now\<rparr>"

definition sb_onEnd :: "ustr \<Rightarrow> sort_observer \<Rightarrow> sort_observer" where
  "sb_onEnd now s = (if sb_last s \<noteq> now then s\<lparr>sb_updates := Suc (sb_updates s)\<rparr> else s)"

end
