(* ===== verification/SortFacts.thy ===== *)
theory SortFacts
  imports Sortable
begin

text \<open>
  Facts on the tree of the document under the moves of sortable lists: a move neither loses nor
  doubles a node, and puts the element at its place among the children of its new parent.
\<close>

lemma n_key_in [simp]: "n_key t \<in> set (keys t)"
  by (cases t) simp

lemma first_some_None: "first_some xs = None \<longleftrightarrow> set xs \<subseteq> {None}"
  by (induction xs rule: first_some.induct) auto

lemma find_node_None: "find_node x t = None \<longleftrightarrow> x \<notin> set (keys t)"
  by (induction t) (auto simp: first_some_None)

lemma find_node_key: "find_node x t = Some n \<Longrightarrow> n_key n = x \<and> set (keys n) \<subseteq> set (keys t)"
proof (induction t arbitrary: n)
  case (DNode k tag i c ts)
  show ?case
  proof (cases "k = x")
    case False
    then have "Some n \<in> set (map (find_node x) ts)" using DNode.prems by (auto dest: first_some_mem)
    then obtain u where "u \<in> set ts" "find_node x u = Some n" by auto
    then show ?thesis using DNode.IH [of u n] by auto
  qed (use DNode.prems in auto)
qed

lemma first_some_append:
  "first_some (xs @ ys) = (case first_some xs of None \<Rightarrow> first_some ys | Some x \<Rightarrow> Some x)"
  by (induction xs rule: first_some.induct) auto

text \<open>In a tree without repetitions a key is below one child only.\<close>

lemma kid_split:
  assumes "distinct (concat (map keys ts))" and "u \<in> set ts" and "x \<in> set (keys u)"
  shows "\<exists>as bs. ts = as @ u # bs \<and> (\<forall>v \<in> set (as @ bs). x \<notin> set (keys v))"
proof -
  obtain as bs where s: "ts = as @ u # bs" using assms(2) by (meson split_list)
  then show ?thesis using assms by (intro exI [of _ as] exI [of _ bs]) auto
qed

lemma first_some_split:
  "(\<And>v. v \<in> set as \<Longrightarrow> f v = None) \<Longrightarrow> f u \<noteq> None \<Longrightarrow> first_some (map f (as @ u # bs)) = f u"
  by (induction as) auto

lemma find_kid:
  assumes "ts = as @ u # bs" and "\<forall>v \<in> set (as @ bs). x \<notin> set (keys v)" and "x \<in> set (keys u)"
  shows "first_some (map (find_node x) ts) = find_node x u"
  unfolding assms(1) using assms(2,3) by (intro first_some_split) (auto simp: find_node_None)

lemma remove_absent: "x \<notin> set (keys t) \<Longrightarrow> remove_node x t = t"
proof (induction t)
  case (DNode k tag i c ts)
  have "filter (\<lambda>u. n_key u \<noteq> x) ts = ts" using DNode.prems by (fastforce simp: filter_id_conv)
  moreover have "map (remove_node x) ts = ts" using DNode by (intro map_idI) auto
  ultimately show ?case by simp
qed

lemma insert_absent: "p \<notin> set (keys t) \<Longrightarrow> insert_at p n ref t = t"
proof (induction t)
  case (DNode k tag i c ts)
  have "map (insert_at p n ref) ts = ts" using DNode by (intro map_idI) auto
  then show ?case using DNode.prems by auto
qed

lemma remove_kids:
  assumes "ts = as @ u # bs" and "\<forall>v \<in> set (as @ bs). x \<notin> set (keys v)"
  shows "map (remove_node x) (filter (\<lambda>u. n_key u \<noteq> x) ts) = as @ (if n_key u = x then [] else [remove_node x u]) @ bs"
proof -
  have "map (remove_node x) (filter (\<lambda>u. n_key u \<noteq> x) us) = us" if "\<forall>v \<in> set us. x \<notin> set (keys v)" for us
    using that by (induction us) (auto simp: remove_absent)
  then show ?thesis using assms by simp
qed

lemma insert_kids:
  assumes "ts = as @ u # bs" and "\<forall>v \<in> set (as @ bs). p \<notin> set (keys v)"
  shows "map (insert_at p n ref) ts = as @ insert_at p n ref u # bs"
proof -
  have "map (insert_at p n ref) us = us" if "\<forall>v \<in> set us. p \<notin> set (keys v)" for us
    using that by (intro map_idI) (auto simp: insert_absent)
  then show ?thesis using assms by simp
qed

lemma keys_insert_kid: "mset (concat (map keys (insert_kid n ref ts))) = mset (keys n) + mset (concat (map keys ts))"
  by (induction ts) auto

lemma keys_remove:
  assumes "distinct (keys t)" and "n_key t \<noteq> x" and "find_node x t = Some n"
  shows "mset (keys t) = mset (keys (remove_node x t)) + mset (keys n)"
  using assms
proof (induction t)
  case (DNode k tag i c ts)
  have k: "k \<noteq> x" using DNode.prems(2) by simp
  have d: "distinct (concat (map keys ts))" using DNode.prems(1) by simp
  have f: "first_some (map (find_node x) ts) = Some n" using DNode.prems(3) k by simp
  then obtain u where u: "u \<in> set ts" "find_node x u = Some n" by (auto dest!: first_some_mem)
  then have x: "x \<in> set (keys u)" by (metis find_node_None option.discI)
  obtain as bs where s: "ts = as @ u # bs" "\<forall>v \<in> set (as @ bs). x \<notin> set (keys v)" using kid_split [OF d u(1) x] by blast
  note r = remove_kids [OF s]
  show ?case
  proof (cases "n_key u = x")
    case True
    then have "n = u" using u(2) by (cases u) auto
    then show ?thesis using True r by (simp add: s(1))
  next
    case False
    have "mset (keys u) = mset (keys (remove_node x u)) + mset (keys n)"
      using DNode.IH [OF u(1) _ False u(2)] d u(1) by (auto simp: s(1))
    then show ?thesis using False r by (simp add: s(1))
  qed
qed

lemma keys_insert:
  assumes "distinct (keys t)" and "p \<in> set (keys t)"
  shows "mset (keys (insert_at p n ref t)) = mset (keys n) + mset (keys t)"
  using assms
proof (induction t)
  case (DNode k tag i c ts)
  show ?case
  proof (cases "k = p")
    case True
    then show ?thesis by (simp add: keys_insert_kid)
  next
    case False
    then obtain u where u: "u \<in> set ts" "p \<in> set (keys u)" using DNode.prems(2) by auto
    have d: "distinct (concat (map keys ts))" using DNode.prems(1) by simp
    obtain as bs where s: "ts = as @ u # bs" "\<forall>v \<in> set (as @ bs). p \<notin> set (keys v)" using kid_split [OF d u] by blast
    have "mset (keys (insert_at p n ref u)) = mset (keys n) + mset (keys u)"
      using DNode.IH [OF u(1) _ u(2)] d u(1) by (auto simp: s(1))
    then show ?thesis using False insert_kids [OF s, of n ref] by (simp add: s(1))
  qed
qed

text \<open>What a node looks like after a removal and an insertion elsewhere.\<close>

lemma key_remove [simp]: "n_key (remove_node x t) = n_key t"
  by (cases t) simp

lemma find_remove:
  assumes "distinct (keys t)" and "find_node x t = Some n" and "p \<notin> set (keys n)" and "n_key t \<noteq> x"
  shows "find_node p (remove_node x t) = map_option (remove_node x) (find_node p t)"
  using assms(1,2,4)
proof (induction t)
  case (DNode k tag i c ts)
  have k: "k \<noteq> x" using DNode.prems(3) by simp
  have d: "distinct (concat (map keys ts))" using DNode.prems(1) by simp
  have "first_some (map (find_node x) ts) = Some n" using DNode.prems(2) k by simp
  then obtain u where u: "u \<in> set ts" "find_node x u = Some n" by (auto dest!: first_some_mem)
  then have x: "x \<in> set (keys u)" by (metis find_node_None option.discI)
  obtain as bs where s: "ts = as @ u # bs" "\<forall>v \<in> set (as @ bs). x \<notin> set (keys v)" using kid_split [OF d u(1) x] by blast
  note r = remove_kids [OF s]
  have keep: "map_option (remove_node x) (first_some (map (find_node p) us)) = first_some (map (find_node p) us)"
    if "\<forall>v \<in> set us. x \<notin> set (keys v)" for us
  proof (cases "first_some (map (find_node p) us)")
    case (Some m)
    then obtain v where "v \<in> set us" "find_node p v = Some m" by (auto dest!: first_some_mem)
    then have "x \<notin> set (keys m)" using that find_node_key by blast
    then show ?thesis using Some by (simp add: remove_absent)
  qed simp
  have a: "\<forall>v \<in> set as. x \<notin> set (keys v)" "\<forall>v \<in> set bs. x \<notin> set (keys v)" using s(2) by auto
  have mid: "(if n_key u = x then None else find_node p (remove_node x u)) = map_option (remove_node x) (find_node p u)"
  proof (cases "n_key u = x")
    case True
    then have "n = u" using u(2) by (cases u) auto
    then show ?thesis using True assms(3) by (simp add: find_node_None)
  next
    case False
    then show ?thesis using DNode.IH [OF u(1) _ u(2)] d u(1) by (auto simp: s(1))
  qed
  show ?case
  proof (cases "k = p")
    case False
    have "first_some (map (find_node p) (as @ (if n_key u = x then [] else [remove_node x u]) @ bs))
        = map_option (remove_node x) (first_some (map (find_node p) ts))"
    proof (cases "first_some (map (find_node p) as)")
      case None
      then show ?thesis using mid keep [OF a(2)]
        by (cases "find_node p u"; cases "n_key u = x") (auto simp: s(1) first_some_append split: option.splits)
    next
      case (Some m)
      then show ?thesis using keep [OF a(1)] by (simp add: s(1) first_some_append)
    qed
    then show ?thesis using False k r by simp
  qed (use k in simp)
qed

lemma find_insert:
  assumes "distinct (keys t)" and "find_node p t = Some m"
  shows "find_node p (insert_at p n ref t) = Some (DNode p (n_tag m) (n_ident m) (n_class m) (insert_kid n ref (n_kids m)))"
  using assms
proof (induction t)
  case (DNode k tag i c ts)
  show ?case
  proof (cases "k = p")
    case True
    then show ?thesis using DNode.prems(2) by auto
  next
    case False
    have d: "distinct (concat (map keys ts))" using DNode.prems(1) by simp
    have "first_some (map (find_node p) ts) = Some m" using DNode.prems(2) False by simp
    then obtain u where u: "u \<in> set ts" "find_node p u = Some m" by (auto dest!: first_some_mem)
    then have x: "p \<in> set (keys u)" by (metis find_node_None option.discI)
    obtain as bs where s: "ts = as @ u # bs" "\<forall>v \<in> set (as @ bs). p \<notin> set (keys v)" using kid_split [OF d u(1) x] by blast
    have "find_node p (insert_at p n ref u) = Some (DNode p (n_tag m) (n_ident m) (n_class m) (insert_kid n ref (n_kids m)))"
      using DNode.IH [OF u(1) _ u(2)] d u(1) by (auto simp: s(1))
    moreover have "first_some (map (find_node p) (as @ insert_at p n ref u # bs)) = find_node p (insert_at p n ref u)"
      using s(2) calculation by (intro first_some_split) (auto simp: find_node_None)
    ultimately show ?thesis using False insert_kids [OF s, of n ref] by simp
  qed
qed

text \<open>Inserting a key before another in a list of keys.\<close>

fun ins_before :: "nat \<Rightarrow> nat option \<Rightarrow> nat list \<Rightarrow> nat list" where
  "ins_before x ref [] = [x]"
| "ins_before x ref (k # ks) = (if ref = Some k then x # k # ks else k # ins_before x ref ks)"

lemma insert_kid_keys: "map n_key (insert_kid n ref ts) = ins_before (n_key n) ref (map n_key ts)"
  by (induction ts) auto

lemma insertBefore_kids:
  assumes "distinct (keys t)" and "find_node x t = Some n" and "p \<in> set (keys t)" and "p \<notin> set (keys n)"
    and "ref \<noteq> Some x"
  shows "mset (keys (insertBefore p x ref t)) = mset (keys t)
    \<and> kids_of p (insertBefore p x ref t) = ins_before x ref (filter (\<lambda>k. k \<noteq> x) (kids_of p t))"
proof -
  have x: "n_key n = x" using find_node_key [OF assms(2)] by simp
  have root: "n_key t \<noteq> x"
  proof
    assume "n_key t = x"
    then have "n = t" using assms(2) by (cases t) auto
    then show False using assms(3,4) by simp
  qed
  note m = keys_remove [OF assms(1) root assms(2)]
  have "mset (keys t) = mset (keys (remove_node x t) @ keys n)" using m by simp
  then have d: "distinct (keys (remove_node x t))"
    using assms(1) mset_eq_imp_distinct_iff by fastforce
  obtain q where q: "find_node p t = Some q" using assms(3) by (cases "find_node p t") (auto simp: find_node_None)
  have pq: "p \<noteq> x" using assms(4) x by auto
  have f: "find_node p (remove_node x t) = Some (remove_node x q)"
    using find_remove [OF assms(1,2,4) root] q by simp
  then have "p \<in> set (keys (remove_node x t))" by (metis find_node_None option.discI)
  from keys_insert [OF d this, of n ref] have "mset (keys (insertBefore p x ref t)) = mset (keys t)"
    using assms(2,5) m by (simp add: insertBefore_def)
  moreover have "n_kids (remove_node x q) = map (remove_node x) (filter (\<lambda>u. n_key u \<noteq> x) (n_kids q))" by (cases q) simp
  then have "kids_of p (insertBefore p x ref t) = ins_before x ref (filter (\<lambda>k. k \<noteq> x) (kids_of p t))"
    using find_insert [OF d f, of n ref] assms(2,5) q x
    by (simp add: insertBefore_def kids_of_def insert_kid_keys filter_map comp_def)
  ultimately show ?thesis by simp
qed

text \<open>The neighbours after an insertion.\<close>

lemma before_in_split: "distinct (as @ a # b # bs) \<Longrightarrow> before_in b (as @ a # b # bs) = Some a"
proof (induction as)
  case (Cons k as)
  then show ?case by (cases as) auto
qed simp

lemma ins_before_split: "r \<notin> set as \<Longrightarrow> ins_before x (Some r) (as @ r # bs) = as @ x # r # bs"
  by (induction as) auto

lemma ins_before_end: "(\<And>r. ref = Some r \<Longrightarrow> r \<notin> set ks) \<Longrightarrow> ins_before x ref ks = ks @ [x]"
  by (induction ks) auto

lemma after_in_split: "distinct (as @ a # b # bs) \<Longrightarrow> after_in a (as @ a # b # bs) = Some b"
proof (induction as)
  case (Cons k as)
  then show ?case by (cases as) auto
qed simp

lemma after_in_last: "distinct (as @ [a]) \<Longrightarrow> after_in a (as @ [a]) = None"
proof (induction as)
  case (Cons k as)
  then show ?case by (cases as) auto
qed simp

lemma placed_before:
  assumes "distinct ks" and "d \<in> set ks" and "x \<noteq> d"
  shows "before_in d (ins_before x (Some d) (filter (\<lambda>k. k \<noteq> x) ks)) = Some x"
    and "filter (\<lambda>k. k \<noteq> x) (ins_before x ref (filter (\<lambda>k. k \<noteq> x) ks)) = filter (\<lambda>k. k \<noteq> x) ks"
proof -
  obtain as bs where ks: "ks = as @ d # bs" "d \<notin> set as" using assms(2) by (meson split_list_first)
  let ?f = "filter (\<lambda>k. k \<noteq> x)"
  have "?f ks = ?f as @ d # ?f bs" using ks assms(3) by simp
  moreover have d: "distinct (?f as @ x # d # ?f bs)" using assms(1) ks assms(3) by auto
  moreover have n: "d \<notin> set (?f as)" using ks(2) by simp
  ultimately show "before_in d (ins_before x (Some d) (?f ks)) = Some x"
    using before_in_split [OF d] ins_before_split [OF n, of x "?f bs"] by simp
  have "?f (ins_before x ref us) = ?f us" for us by (induction us) auto
  then show "?f (ins_before x ref (?f ks)) = ?f ks" by simp
qed

lemma placed_after:
  assumes "distinct ks" and "d \<in> set ks" and "x \<noteq> d" and "after_in d ks \<noteq> Some x"
  shows "after_in d (ins_before x (after_in d ks) (filter (\<lambda>k. k \<noteq> x) ks)) = Some x"
proof -
  obtain as bs where ks: "ks = as @ d # bs" "d \<notin> set as" using assms(2) by (meson split_list_first)
  let ?f = "filter (\<lambda>k. k \<noteq> x)"
  show ?thesis
  proof (cases bs)
    case Nil
    then have "after_in d ks = None" using assms(1) ks by (simp add: after_in_last)
    moreover have "ins_before x None (?f ks) = ?f as @ d # x # []" using ks Nil assms(3) ins_before_end [of None "?f as @ [d]" x] by simp
    moreover have "distinct (?f as @ d # x # [])" using assms(1,3) ks by auto
    ultimately show ?thesis using after_in_split by metis
  next
    case (Cons b cs)
    then have a: "after_in d ks = Some b" using assms(1) ks by (simp add: after_in_split)
    have b: "b \<noteq> x" using assms(4) unfolding a by simp
    have "?f ks = (?f as @ [d]) @ b # ?f cs" using ks Cons assms(3) b by simp
    moreover have "b \<notin> set (?f as @ [d])" using assms(1) ks Cons by auto
    ultimately have "ins_before x (Some b) (?f ks) = ?f as @ d # x # b # ?f cs" using ins_before_split by fastforce
    moreover have "distinct (?f as @ d # x # b # ?f cs)" using assms(1,3) ks Cons b by auto
    ultimately show ?thesis using after_in_split by (metis a)
  qed
qed

subsection \<open>What is above a node\<close>

lemma path_to_None: "path_to x t = None \<longleftrightarrow> x \<notin> set (keys t)"
  by (induction t) (auto simp: first_some_None)

lemma path_kid:
  assumes "ts = as @ u # bs" and "\<forall>v \<in> set (as @ bs). x \<notin> set (keys v)" and "x \<in> set (keys u)"
  shows "first_some (map (path_to x) ts) = path_to x u"
  unfolding assms(1) using assms(2,3) by (intro first_some_split) (auto simp: path_to_None)

text \<open>The step from a tree to its child with the node.\<close>

lemma kid_with:
  assumes "distinct (keys (DNode k tag i c ts))" and "x \<in> set (keys (DNode k tag i c ts))" and "k \<noteq> x"
  obtains u as bs where "ts = as @ u # bs" "\<forall>v \<in> set (as @ bs). x \<notin> set (keys v)" "x \<in> set (keys u)" "u \<in> set ts"
    "distinct (keys u)" "k \<notin> set (keys u)" "find_node x (DNode k tag i c ts) = find_node x u"
    "path_to x (DNode k tag i c ts) = map_option (\<lambda>p. p @ [k]) (path_to x u)"
proof -
  obtain u where u: "u \<in> set ts" "x \<in> set (keys u)" using assms(2,3) by auto
  have d: "distinct (concat (map keys ts))" using assms(1) by simp
  obtain as bs where s: "ts = as @ u # bs" "\<forall>v \<in> set (as @ bs). x \<notin> set (keys v)" using kid_split [OF d u] by blast
  have "distinct (keys u)" "k \<notin> set (keys u)" using assms(1) u(1) by (auto simp: s(1))
  then show ?thesis using that [OF s u(2,1)] find_kid [OF s u(2)] path_kid [OF s u(2)] assms(3) by simp
qed

lemma path_to_keys: "path_to x t = Some p \<Longrightarrow> set p \<subseteq> set (keys t)"
proof (induction t arbitrary: p)
  case (DNode k tag i c ts)
  show ?case
  proof (cases "k = x")
    case False
    then obtain q where q: "first_some (map (path_to x) ts) = Some q" "p = q @ [k]" using DNode.prems by auto
    then obtain u where "u \<in> set ts" "path_to x u = Some q" by (auto dest!: first_some_mem)
    then show ?thesis using DNode.IH [of u q] q(2) by auto
  qed (use DNode.prems in simp)
qed

lemma path_subtree:
  assumes "distinct (keys t)" and "path_to d t = Some p" and "find_node x t = Some n" and "d \<noteq> x"
  shows "x \<in> set p \<longleftrightarrow> d \<in> set (keys n)"
  using assms(1-3)
proof (induction t arbitrary: p)
  case (DNode k tag i c ts)
  let ?t = "DNode k tag i c ts"
  have din: "d \<in> set (keys ?t)" using DNode.prems(2) path_to_None [of d ?t] by fastforce
  have xin: "x \<in> set (keys ?t)" using DNode.prems(3) find_node_None [of x ?t] by fastforce
  show ?case
  proof (cases "k = x")
    case True
    then have "n = ?t" "k \<in> set p" using DNode.prems(2,3) assms(4) by auto
    then show ?thesis using True din by blast
  next
    case kx: False
    obtain v where v: "x \<in> set (keys v)" "v \<in> set ts" "k \<notin> set (keys v)" "find_node x ?t = find_node x v"
      using kid_with [OF DNode.prems(1) xin kx] by blast
    then have nv: "find_node x v = Some n" using DNode.prems(3) by simp
    then have sub: "set (keys n) \<subseteq> set (keys v)" using find_node_key by blast
    show ?thesis
    proof (cases "k = d")
      case True
      then show ?thesis using DNode.prems(2) sub v(3) by auto
    next
      case False
      obtain u as bs where u: "ts = as @ u # bs" "\<forall>v \<in> set (as @ bs). d \<notin> set (keys v)" "d \<in> set (keys u)" "u \<in> set ts"
          "distinct (keys u)" "path_to d ?t = map_option (\<lambda>p. p @ [k]) (path_to d u)"
        using kid_with [OF DNode.prems(1) din False] by metis
      then obtain q where q: "path_to d u = Some q" "p = q @ [k]" using DNode.prems(2) by auto
      show ?thesis
      proof (cases "v = u")
        case True
        then show ?thesis using DNode.IH [OF u(4,5) q(1)] nv q(2) kx by auto
      next
        case False
        then have "d \<notin> set (keys v)" using u(1,2) v(2) by auto
        moreover have "x \<notin> set (keys u)"
        proof
          assume x: "x \<in> set (keys u)"
          have "distinct (concat (map keys ts))" using DNode.prems(1) by simp
          then show False using kid_split [of ts u x] x u(4) v(1,2) False by auto
        qed
        ultimately show ?thesis using sub path_to_keys [OF q(1)] q(2) kx by auto
      qed
    qed
  qed
qed

lemma path_step: "distinct (keys t) \<Longrightarrow> path_to d t = Some (p # ps) \<Longrightarrow> path_to p t = Some ps \<and> d \<in> set (kids_of p t)"
proof (induction t arbitrary: ps)
  case (DNode k tag i c ts)
  let ?t = "DNode k tag i c ts"
  have din: "d \<in> set (keys ?t)" using DNode.prems(2) path_to_None [of d ?t] by fastforce
  have kd: "k \<noteq> d" using DNode.prems(2) by auto
  obtain u where u: "d \<in> set (keys u)" "u \<in> set ts" "distinct (keys u)" "k \<notin> set (keys u)"
      "path_to d ?t = map_option (\<lambda>p. p @ [k]) (path_to d u)"
    using kid_with [OF DNode.prems(1) din kd] by metis
  then obtain q where q: "path_to d u = Some q" "p # ps = q @ [k]" using DNode.prems(2) by auto
  show ?case
  proof (cases q)
    case Nil
    then have "n_key u = d" using q(1) by (cases u) (auto split: if_splits)
    then show ?thesis using q(2) Nil u(2) by (auto simp: kids_of_def)
  next
    case (Cons a r)
    then have r: "a = p" "ps = r @ [k]" using q(2) by auto
    have ih: "path_to p u = Some r \<and> d \<in> set (kids_of p u)" using DNode.IH [OF u(2,3)] q(1) Cons r(1) by simp
    then have pu: "p \<in> set (keys u)" using path_to_None [of p u] by fastforce
    then have kp: "k \<noteq> p" using u(4) by auto
    have "distinct (concat (map keys ts))" using DNode.prems(1) by simp
    from kid_split [OF this u(2) pu] obtain as bs where s: "ts = as @ u # bs" "\<forall>v \<in> set (as @ bs). p \<notin> set (keys v)" by blast
    then show ?thesis using ih r(2) kp find_kid [OF s pu] path_kid [OF s pu] by (simp add: kids_of_def)
  qed
qed

lemma is_parent_loop_iff: "is_parent_loop child p x \<longleftrightarrow> child \<noteq> x \<and> x \<in> set p"
  by (induction child p x rule: is_parent_loop.induct) auto

lemma isParent_iff:
  assumes "distinct (keys t)" and "find_node x t = Some n"
  shows "isParent d x t \<longleftrightarrow> d \<noteq> x \<and> d \<in> set (keys n)"
proof (cases "path_to d t")
  case None
  then have "d \<notin> set (keys n)" using find_node_key [OF assms(2)] path_to_None [of d t] by blast
  then show ?thesis using None by (simp add: isParent_def)
next
  case (Some p)
  then show ?thesis using path_subtree [OF assms(1) Some assms(2)] by (auto simp: isParent_def is_parent_loop_iff)
qed

text \<open>A subtree of a tree without repetitions has none.\<close>

lemma find_distinct: "distinct (keys t) \<Longrightarrow> find_node p t = Some m \<Longrightarrow> distinct (keys m)"
proof (induction t)
  case (DNode k tag i c ts)
  show ?case
  proof (cases "k = p")
    case False
    then have "first_some (map (find_node p) ts) = Some m" using DNode.prems(2) by simp
    then obtain u where u: "u \<in> set ts" "find_node p u = Some m" by (auto dest!: first_some_mem)
    then have "distinct (keys u)" using DNode.prems(1) by (auto simp: in_set_conv_decomp)
    then show ?thesis using DNode.IH u by blast
  qed (use DNode.prems in auto)
qed

lemma distinct_kids: "distinct (keys t) \<Longrightarrow> find_node p t = Some m \<Longrightarrow> distinct (map n_key (n_kids m))"
proof -
  assume a: "distinct (keys t)" "find_node p t = Some m"
  have "distinct (keys m)" by (rule find_distinct [OF a])
  moreover have "distinct (concat (map keys us)) \<Longrightarrow> distinct (map n_key us)" for us
  proof (induction us)
    case (Cons u us)
    have "n_key u \<noteq> n_key v" if "v \<in> set us" for v
    proof
    assume e: "n_key u = n_key v"
    have "n_key u \<in> set (keys v)" unfolding e by (rule n_key_in)
    then show False using Cons.prems that n_key_in [of u] by (auto simp del: n_key_in)
    qed
    then show ?case using Cons by auto
  qed simp
  ultimately show ?thesis by (cases m) simp
qed

text \<open>The parent of a node that is outside a subtree is outside it.\<close>

lemma parent_outside:
  assumes "distinct (keys t)" and "find_node x t = Some n" and "d \<notin> set (keys n)" and "parent_key d t = Some p"
  shows "p \<in> set (keys t) \<and> p \<notin> set (keys n) \<and> d \<in> set (kids_of p t) \<and> distinct (kids_of p t)"
proof -
  obtain ps where path: "path_to d t = Some (p # ps)"
    using assms(4) by (auto simp: parent_key_def split: option.splits list.splits)
  note step = path_step [OF assms(1) path]
  have dx: "d \<noteq> x" using assms(2,3) find_node_key [OF assms(2)] n_key_in [of n] by auto
  have xp: "x \<notin> set (p # ps)" using path_subtree [OF assms(1) path assms(2) dx] assms(3) by simp
  then have "p \<notin> set (keys n)" using path_subtree [OF assms(1) conjunct1 [OF step] assms(2)] by auto
  moreover have "p \<in> set (keys t)" using path_to_keys [OF path] by simp
  moreover have "distinct (kids_of p t)"
  proof -
    obtain m where m: "find_node p t = Some m" using find_node_None [of p t] calculation(2) by fastforce
    show ?thesis using distinct_kids [OF assms(1) m] by (simp add: kids_of_def m)
  qed
  ultimately show ?thesis using step by blast
qed

end
