(* ===== verification/SortProps.thy ===== *)
theory SortProps
  imports SortFacts ProtoForm
begin

text \<open>
  What the moves of sortable lists do: a hover puts the element next to the element it is over, and
  \<open>setSequence\<close> puts the items of a list into the order it is given.
\<close>

subsection \<open>Children of a node\<close>

lemma find_kid_of:
  assumes "distinct (keys t)" and "find_node p t = Some m" and "u \<in> set (n_kids m)"
  shows "find_node (n_key u) t = Some u \<and> parent_key (n_key u) t = Some p \<and> n_key t \<noteq> n_key u"
  using assms
proof (induction t)
  case (DNode k tag i c ts)
  let ?t = "DNode k tag i c ts"
  show ?case
  proof (cases "k = p")
    case True
    then have u: "u \<in> set ts" using DNode.prems(2,3) by auto
    have ku: "k \<noteq> n_key u" using DNode.prems(1) u n_key_in [of u] by (auto simp del: n_key_in)
    have d: "distinct (concat (map keys ts))" using DNode.prems(1) by simp
    from kid_split [OF d u n_key_in] obtain as bs
      where s: "ts = as @ u # bs" "\<forall>v \<in> set (as @ bs). n_key u \<notin> set (keys v)" by blast
    have "find_node (n_key u) u = Some u" "path_to (n_key u) u = Some []" by (cases u; simp)+
    then show ?thesis using ku True find_kid [OF s n_key_in] path_kid [OF s n_key_in] by (simp add: parent_key_def)
  next
    case False
    have pin: "p \<in> set (keys ?t)" using DNode.prems(2) find_node_None [of p ?t] by fastforce
    obtain v where v: "p \<in> set (keys v)" "v \<in> set ts" "distinct (keys v)" "k \<notin> set (keys v)" "find_node p ?t = find_node p v"
      using kid_with [OF DNode.prems(1) pin False] by metis
    have ih: "find_node (n_key u) v = Some u \<and> parent_key (n_key u) v = Some p \<and> n_key v \<noteq> n_key u"
      using DNode.IH [OF v(2,3)] DNode.prems(2,3) v(5) by simp
    then have uv: "n_key u \<in> set (keys v)" using find_node_None [of "n_key u" v] by fastforce
    then have ku: "k \<noteq> n_key u" using v(4) by auto
    have d: "distinct (concat (map keys ts))" using DNode.prems(1) by simp
    from kid_split [OF d v(2) uv] obtain as bs
      where s: "ts = as @ v # bs" "\<forall>w \<in> set (as @ bs). n_key u \<notin> set (keys w)" by blast
    show ?thesis
      using ih ku find_kid [OF s uv] path_kid [OF s uv] by (auto simp: parent_key_def split: option.splits list.splits)
  qed
qed

text \<open>Taking a child out of its parent.\<close>

lemma remove_kid_of:
  assumes "distinct (keys t)" and "find_node p t = Some m" and "u \<in> set (n_kids m)"
  shows "find_node p (remove_node (n_key u) t)
      = Some (DNode p (n_tag m) (n_ident m) (n_class m) (filter (\<lambda>v. v \<noteq> u) (n_kids m)))
    \<and> mset (keys t) = mset (keys (remove_node (n_key u) t)) + mset (keys u)"
proof -
  note f = find_kid_of [OF assms]
  have m: "n_key m = p" using find_node_key [OF assms(2)] by simp
  have dm: "distinct (keys m)" by (rule find_distinct [OF assms(1,2)])
  obtain kk tg ii cc ks where mm: "m = DNode kk tg ii cc ks" by (cases m)
  have pu: "p \<notin> set (keys u)" using dm m assms(3) by (auto simp: mm)
  have d: "distinct (concat (map keys ks))" using dm by (simp add: mm)
  have uk: "u \<in> set ks" using assms(3) by (simp add: mm)
  from kid_split [OF d uk n_key_in] obtain as bs
    where s: "ks = as @ u # bs" "\<forall>v \<in> set (as @ bs). n_key u \<notin> set (keys v)" by blast
  have "u \<notin> set (as @ bs)" using s(2) n_key_in by blast
  then have fl: "filter (\<lambda>v. v \<noteq> u) as = as" "filter (\<lambda>v. v \<noteq> u) bs = bs" by (auto simp: filter_id_conv)
  have "filter (\<lambda>v. v \<noteq> u) ks = as @ bs" by (simp add: s(1) fl)
  then have "map (remove_node (n_key u)) (filter (\<lambda>v. n_key v \<noteq> n_key u) ks) = filter (\<lambda>v. v \<noteq> u) ks"
    using remove_kids [OF s] by simp
  then have r: "remove_node (n_key u) m = DNode p tg ii cc (filter (\<lambda>v. v \<noteq> u) ks)" using m by (simp add: mm)
  have "find_node p (remove_node (n_key u) t) = map_option (remove_node (n_key u)) (find_node p t)"
    using find_remove [OF assms(1) conjunct1 [OF f] pu] f by blast
  then show ?thesis using keys_remove [OF assms(1) _ conjunct1 [OF f]] f assms(2) r by (simp add: mm)
qed

subsection \<open>The loops of \<open>setSequence\<close>\<close>

definition forest_keys :: "dtree list \<Rightarrow> nat list" where
  "forest_keys ts = concat (map keys ts)"

lemma forest_keys_simps [simp]:
  "forest_keys [] = []" "forest_keys (t # ts) = keys t @ forest_keys ts" "forest_keys (ts @ us) = forest_keys ts @ forest_keys us"
  by (simp_all add: forest_keys_def)

lemma absent_forest: "x \<notin> set (forest_keys out) \<Longrightarrow> map (remove_node x) (filter (\<lambda>u. n_key u \<noteq> x) out) = out"
proof (induction out)
  case (Cons u us)
  then have "n_key u \<noteq> x" using n_key_in [of u] by (auto simp del: n_key_in)
  then show ?case using Cons by (simp add: remove_absent)
qed simp

lemma collect_loop:
  assumes "distinct (keys t @ forest_keys out)" and "find_node p t = Some m"
    and "distinct es" and "set es \<subseteq> set (n_kids m)" and "\<forall>e \<in> set es. fmt (n_ident e) = Some (idf e)"
  shows "\<exists>t'. collect_nodes fmt es nm (t # out) = Inr (fold (\<lambda>e. put (idf e) (n_key e, p)) es nm, t' # out @ es)
    \<and> mset (keys t' @ forest_keys (out @ es)) = mset (keys t @ forest_keys out)
    \<and> find_node p t' = Some (DNode p (n_tag m) (n_ident m) (n_class m) (filter (\<lambda>v. v \<notin> set es) (n_kids m)))"
  using assms
proof (induction es arbitrary: t m out nm)
  case Nil
  then show ?case using find_node_key [of p t m] by (cases m) auto
next
  case (Cons e es)
  have dt: "distinct (keys t)" and ek: "e \<in> set (n_kids m)" using Cons.prems(1,4) by auto
  note f = find_kid_of [OF dt Cons.prems(2) ek]
  note r = remove_kid_of [OF dt Cons.prems(2) ek]
  let ?t = "remove_node (n_key e) t" and ?o = "out @ [e]"
  let ?m = "DNode p (n_tag m) (n_ident m) (n_class m) (filter (\<lambda>v. v \<noteq> e) (n_kids m))"
  have "n_key e \<in> set (keys t)" using f find_node_None [of "n_key e" t] by fastforce
  then have eo: "n_key e \<notin> set (forest_keys out)" using Cons.prems(1) by auto
  have "forest_parent (n_key e) (t # out) = Some p" using f by (simp add: forest_parent_def)
  moreover have "take_out (n_key e) (t # out) = ?t # ?o" using f absent_forest [OF eo] by (simp add: take_out_def)
  moreover have fe: "fmt (n_ident e) = Some (idf e)" using Cons.prems(5) by simp
  ultimately have step: "collect_nodes fmt (e # es) nm (t # out) = collect_nodes fmt es (put (idf e) (n_key e, p) nm) (?t # ?o)"
    by simp
  have ms: "mset (keys ?t @ forest_keys ?o) = mset (keys t @ forest_keys out)" using r by simp
  then have d: "distinct (keys ?t @ forest_keys ?o)" using Cons.prems(1) mset_eq_imp_distinct_iff by blast
  have sub: "set es \<subseteq> set (n_kids ?m)" using Cons.prems(3,4) by auto
  have fm: "find_node p ?t = Some ?m" using r by blast
  have de: "distinct es" using Cons.prems(3) by simp
  have fs: "\<forall>e \<in> set es. fmt (n_ident e) = Some (idf e)" using Cons.prems(5) by simp
  from Cons.IH [OF d fm de sub fs, of "put (idf e) (n_key e, p) nm"] obtain t' where
    t': "collect_nodes fmt es (put (idf e) (n_key e, p) nm) (?t # ?o)
        = Inr (fold (\<lambda>e. put (idf e) (n_key e, p)) es (put (idf e) (n_key e, p) nm), t' # ?o @ es)"
      "mset (keys t' @ forest_keys (?o @ es)) = mset (keys ?t @ forest_keys ?o)"
      "find_node p t' = Some (DNode p (n_tag m) (n_ident m) (n_class m) (filter (\<lambda>v. v \<notin> set es) (n_kids ?m)))" by auto
  have "filter (\<lambda>v. v \<notin> set es) (n_kids ?m) = filter (\<lambda>v. v \<notin> set (e # es)) (n_kids m)" by (auto intro: filter_cong)
  moreover have "mset (keys t' @ forest_keys (out @ e # es)) = mset (keys t @ forest_keys out)"
    using t'(2) ms by (simp only: append.assoc append_Cons append_Nil)
  ultimately show ?case using t'(1,3) by (intro exI [of _ t']) (simp add: step del: collect_nodes.simps)
qed

text \<open>What \<open>nodeMap\<close> holds for the nodes that are out of the document: each under its part of the identifier.\<close>

definition nodes_known :: "(dtree \<Rightarrow> ustr) \<Rightarrow> nat \<Rightarrow> node_map \<Rightarrow> dtree list \<Rightarrow> bool" where
  "nodes_known idf p nm out \<longleftrightarrow>
     (\<forall>i x q. map_of nm i = Some (x, q) \<longrightarrow> q = p \<and> (\<exists>n \<in> set out. n_key n = x \<and> idf n = i))
     \<and> (\<forall>n \<in> set out. map_of nm (idf n) = Some (n_key n, p))"

lemma put_in_kid:
  assumes "distinct (keys t @ forest_keys out)" and "find_node p t = Some m" and "n \<in> set out"
  shows "put_in p (n_key n) (t # out) = insert_at p n None t # filter (\<lambda>v. v \<noteq> n) out
    \<and> find_node p (insert_at p n None t) = Some (DNode p (n_tag m) (n_ident m) (n_class m) (n_kids m @ [n]))
    \<and> mset (keys (insert_at p n None t) @ forest_keys (filter (\<lambda>v. v \<noteq> n) out)) = mset (keys t @ forest_keys out)"
proof -
  have dt: "distinct (keys t)" and do: "distinct (concat (map keys out))" using assms(1) by (auto simp: forest_keys_def)
  from kid_split [OF do assms(3) n_key_in] obtain as bs
    where s: "out = as @ n # bs" "\<forall>v \<in> set (as @ bs). n_key n \<notin> set (keys v)" by blast
  have nt: "n_key n \<notin> set (keys t)" using assms(1,3) n_key_in [of n] by (auto simp: forest_keys_def simp del: n_key_in)
  then have nk: "n_key t \<noteq> n_key n" using n_key_in [of t] by (auto simp del: n_key_in)
  have pt: "p \<in> set (keys t)" using assms(2) find_node_None [of p t] by fastforce
  have po: "\<forall>v \<in> set (as @ bs). p \<notin> set (keys v)" using assms(1) pt by (auto simp: s(1) forest_keys_def)
  have "find_node (n_key n) n = Some n" by (cases n) simp
  then have "first_some (map (find_node (n_key n)) (t # out)) = Some n"
    using find_kid [OF s n_key_in] nt by (simp add: find_node_None [THEN iffD2])
  moreover have "map (remove_node (n_key n)) (filter (\<lambda>u. n_key u \<noteq> n_key n) (t # out)) = t # as @ bs"
    using remove_kids [OF s] nk nt by (simp add: remove_absent)
  moreover have "map (insert_at p n None) (as @ bs) = as @ bs" using po by (intro map_idI) (auto simp: insert_absent)
  moreover have "filter (\<lambda>v. v \<noteq> n) out = as @ bs"
  proof -
    have "n \<notin> set (as @ bs)" using s(2) n_key_in by blast
    then have "filter (\<lambda>v. v \<noteq> n) as = as" "filter (\<lambda>v. v \<noteq> n) bs = bs" by (auto simp: filter_id_conv)
    then show ?thesis by (simp add: s(1))
  qed
  moreover have "insert_kid n None us = us @ [n]" for us by (induction us) auto
  ultimately show ?thesis
    using find_insert [OF dt assms(2), of n None] keys_insert [OF dt pt, of n None]
    by (simp add: put_in_def s(1) ac_simps)
qed

lemma append_loop:
  assumes "distinct (keys t @ forest_keys out)" and "find_node p t = Some m" and "distinct out" and "nodes_known idf p nm out"
    and "distinct idents" and "set idents \<inter> set object_names \<subseteq> idf ` set out"
  shows "\<exists>t' moved. append_nodes idents nm (t # out) = Inr (t' # filter (\<lambda>n. idf n \<notin> set idents) out)
    \<and> mset (keys t' @ forest_keys (filter (\<lambda>n. idf n \<notin> set idents) out)) = mset (keys t @ forest_keys out)
    \<and> find_node p t' = Some (DNode p (n_tag m) (n_ident m) (n_class m) (n_kids m @ moved))
    \<and> set moved \<subseteq> set out \<and> map idf moved = filter (\<lambda>i. i \<in> idf ` set out) idents"
  using assms
proof (induction idents arbitrary: t m out nm)
  case Nil
  then show ?case using find_node_key [of p t m] by (cases m) (auto intro!: exI [of _ "[]"])
next
  case (Cons i idents)
  note known = Cons.prems(4) [unfolded nodes_known_def]
  show ?case
  proof (cases "i \<in> idf ` set out")
    case False
    then have nmi: "map_of nm i = None" using known by (cases "map_of nm i") (auto, blast)
    have fo: "filter (\<lambda>n. idf n \<notin> set (i # idents)) out = filter (\<lambda>n. idf n \<notin> set idents) out"
      using False by (intro filter_cong) auto
    have ii: "i \<notin> set object_names" using False Cons.prems(6) by auto
    have "set idents \<inter> set object_names \<subseteq> idf ` set out" "distinct idents" using Cons.prems(5,6) by auto
    from Cons.IH [OF Cons.prems(1-4) this(2,1)] show ?thesis
      unfolding fo using nmi ii False by simp
  next
    case True
    then obtain n where n: "n \<in> set out" "idf n = i" by auto
    then have nmi: "map_of nm i = Some (n_key n, p)" using known by blast
    have only: "v = n" if "v \<in> set out" "idf v = i" for v
    proof (rule ccontr)
      assume "v \<noteq> n"
      have "map_of nm (idf v) = Some (n_key v, p)" using known that(1) by blast
      then have "n_key v = n_key n" using that(2) nmi by simp
      moreover have "distinct (concat (map keys out))" using Cons.prems(1) by (simp add: forest_keys_def)
      ultimately show False using kid_split [of out n "n_key n"] n(1) that(1) \<open>v \<noteq> n\<close> n_key_in by (metis Un_iff list.set(2) insert_iff set_append)
    qed
    let ?t = "insert_at p n None t" and ?o = "filter (\<lambda>v. v \<noteq> n) out"
    let ?m = "DNode p (n_tag m) (n_ident m) (n_class m) (n_kids m @ [n])"
    note pi = put_in_kid [OF Cons.prems(1,2) n(1)]
    have ms: "mset (keys ?t @ forest_keys ?o) = mset (keys t @ forest_keys out)" using pi by blast
    then have d: "distinct (keys ?t @ forest_keys ?o)" using Cons.prems(1) mset_eq_imp_distinct_iff by blast
    have nk: "nodes_known idf p (del i nm) ?o"
      unfolding nodes_known_def using known only n(2) by (auto split: if_splits) (metis fst_conv snd_conv)+
    have im: "idf ` set ?o = idf ` set out - {i}" using only n(2) by auto
    have "set idents \<inter> set object_names \<subseteq> idf ` set ?o" using Cons.prems(5,6) im by auto
    moreover have "distinct ?o" "distinct idents" using Cons.prems(3,5) by auto
    ultimately obtain t' moved where ih:
      "append_nodes idents (del i nm) (?t # ?o) = Inr (t' # filter (\<lambda>n. idf n \<notin> set idents) ?o)"
      "mset (keys t' @ forest_keys (filter (\<lambda>n. idf n \<notin> set idents) ?o)) = mset (keys ?t @ forest_keys ?o)"
      "find_node p t' = Some (DNode p (n_tag m) (n_ident m) (n_class m) ((n_kids m @ [n]) @ moved))"
      "set moved \<subseteq> set ?o" "map idf moved = filter (\<lambda>i. i \<in> idf ` set ?o) idents"
      using Cons.IH [OF d _ _ nk, of ?m] pi by auto
    have fo: "filter (\<lambda>v. idf v \<notin> set idents) ?o = filter (\<lambda>v. idf v \<notin> set (i # idents)) out"
      using only n(2) by (auto intro: filter_cong)
    have fi: "filter (\<lambda>j. j \<in> idf ` set ?o) idents = filter (\<lambda>j. j \<in> idf ` set out) idents"
      using Cons.prems(5) im by (intro filter_cong) auto
    show ?thesis
      using ih ms n True nmi conjunct1 [OF pi] unfolding fo fi
      by (intro exI [of _ t'] exI [of _ "n # moved"]) auto
  qed
qed

text \<open>After the first loop \<open>nodeMap\<close> knows the nodes that were taken out.\<close>

lemma nodes_known_fold:
  "distinct (map idf es) \<Longrightarrow> nodes_known idf p (fold (\<lambda>e. put (idf e) (n_key e, p)) es []) es"
proof (induction es rule: rev_induct)
  case (snoc e es)
  have ih: "nodes_known idf p (fold (\<lambda>e. put (idf e) (n_key e, p)) es []) es" using snoc by simp
  have "idf v \<noteq> idf e" if "v \<in> set es" for v
    using snoc.prems imageI [OF that, of idf] by auto
  then show ?case using ih unfolding nodes_known_def by (auto split: if_splits) blast?
qed (simp add: nodes_known_def)

lemmas sequence_examples =
  sequence_def found_flat sort_defaults_def serialize_rule_def rule_char_def child_matches_def upper_def lit_def Let_def

subsection \<open>The text of a list\<close>

lemma read_piece:
  assumes "encodeURIComponent i = Inr name" and "char_text i" and "encodeURIComponent s = Inr u" and "char_text s"
  shows "read_pair (name @ lit ''[]='' @ u) h = Inr (add_param (i @ lit ''[]'') (VStr s) h)"
proof -
  have ci: "\<And>c. c \<in> set i \<Longrightarrow> c < 0x10000" and cs: "\<And>c. c \<in> set s \<Longrightarrow> c < 0x10000"
    using assms(2,4) by (auto simp: char_text_def)
  have n: "61 \<notin> set (name @ lit ''[]'')" "61 \<notin> set u"
    using uri_char_no [OF encode_chars [OF assms(1) ci]] uri_char_no [OF encode_chars [OF assms(3) cs]]
    by (auto simp: lit_def)
  have "split_char 61 ((name @ lit ''[]'') @ 61 # u) = [name @ lit ''[]'', u]"
    by (simp only: split_char_append [OF n(1)] split_char_no_sep [OF n(2)])
  then have "split_char 61 (name @ lit ''[]='' @ u) = [name @ lit ''[]'', u]" by (simp add: lit_def)
  moreover have "decodeURIComponent (lit ''[]'') = Inr (lit ''[]'')" by code_simp
  then have "decodeURIComponent (name @ lit ''[]'') = Inr (i @ lit ''[]'')"
    using decode_encode_append [OF assms(1) ci] by simp
  moreover have "decodeURIComponent u = Inr s" using decode_encode [OF assms(3) cs] .
  ultimately show ?thesis by (simp add: read_pair_def lit_def)
qed

lemma no_object_name: "i @ lit ''[]'' \<notin> set object_names"
proof
  assume i: "i @ lit ''[]'' \<in> set object_names"
  have "list_all (\<lambda>n. last n \<noteq> 93) object_names" by code_simp
  then have "last (i @ lit ''[]'') \<noteq> 93" using i unfolding list_all_iff by blast
  then show False by (simp add: lit_def)
qed

lemma read_pieces:
  assumes "encodeURIComponent i = Inr name" and "char_text i"
  shows "rmap (\<lambda>item. rbind (encodeURIComponent item) (\<lambda>t. Inr (name @ lit ''[]='' @ t))) items = Inr ts \<Longrightarrow>
    list_all char_text items \<Longrightarrow>
    read_pairs ts [] = Inr (case collected (map VStr items) of None \<Rightarrow> [] | Some v \<Rightarrow> [(i @ lit ''[]'', v)])
    \<and> list_all (list_all (\<lambda>c. uri_char c \<or> c \<in> {61, 91, 93})) ts"
proof (induction items arbitrary: ts rule: rev_induct)
  case (snoc s items)
  let ?h = "case collected (map VStr items) of None \<Rightarrow> [] | Some v \<Rightarrow> [(i @ lit ''[]'', v)]"
  obtain us u where u: "rmap (\<lambda>item. rbind (encodeURIComponent item) (\<lambda>t. Inr (name @ lit ''[]='' @ t))) items = Inr us"
      "encodeURIComponent s = Inr u" "ts = us @ [name @ lit ''[]='' @ u]"
    using snoc.prems(1) by (auto simp: rmap_append res_iff)
  have s: "char_text s" "list_all char_text items" using snoc.prems by auto
  note ih = snoc.IH [OF u(1) s(2)]
  have "list_all text_value (map VStr items @ [VStr s])"
    using s by (simp add: list_all_iff text_value_def)
  from collected_snoc [OF this] have "add_param (i @ lit ''[]'') (VStr s) ?h
      = (case collected (map VStr (items @ [s])) of None \<Rightarrow> [] | Some v \<Rightarrow> [(i @ lit ''[]'', v)])"
    using no_object_name [of i] by (simp add: add_param_def lookup_prop_def split: option.split)
  moreover have "list_all uri_char name" "list_all uri_char u"
    using encode_chars [OF assms(1)] encode_chars [OF u(2)] assms(2) s(1) by (auto simp: char_text_def)
  ultimately show ?case
    using ih read_piece [OF assms u(2) s(1), of ?h] by (auto simp: u(3) read_pairs_append lit_def list_all_iff)
qed (simp add: collected_def)

text \<open>
  C29. Reading back the text of a flat list gives one parameter, named by the list, with the sequence of the
  list: nothing for an empty list, a text for one item, an array for several.
\<close>

theorem sort_serialize_round_trip:
  assumes "\<not> so_tree opts" and "so_given opts = None" and "char_text (n_ident element)"
    and "list_all char_text (sequence element opts)" and "sort_serialize element opts = Inr t"
  shows "toQueryParams 38 t = Inr (case collected (map VStr (sequence element opts)) of
      None \<Rightarrow> [] | Some v \<Rightarrow> [(n_ident element @ lit ''[]'', v)])"
proof -
  obtain name ts where ts: "encodeURIComponent (n_ident element) = Inr name"
      "rmap (\<lambda>item. rbind (encodeURIComponent item) (\<lambda>t. Inr (name @ lit ''[]='' @ t))) (sequence element opts) = Inr ts"
      "t = join [38] ts"
    using assms(1,2,5) by (auto simp: sort_serialize_def res_iff)
  note r = read_pieces [OF ts(1) assms(3) ts(2) assms(4)]
  show ?thesis
  proof (cases "ts = []")
    case True
    then have "t = []" using ts(3) by simp
    then have "toQueryParams 38 t = read_pairs [] []"
      by (simp add: toQueryParams_def strip_def strip_left_def strip_right_def read_pair_def)
    then show ?thesis using r True by simp
  next
    case False
    have no: "\<not> (uri_char c \<or> c \<in> {61, 91, 93})" if "c = 38 \<or> c = 63 \<or> c = 35 \<or> is_ws c" for c
      using that by (auto simp: uri_char_def unreserved_def is_ws_def)
    have chars: "uri_char c \<or> c \<in> {38, 61, 91, 93}" if "c \<in> set t" for c
      using that set_join [of "[38]" ts] r unfolding ts(3) by (fastforce simp: list_all_iff)
    have "\<not> is_ws c" "c \<noteq> 63" "c \<noteq> 35" if "c \<in> set t" for c
      using chars [OF that] no [of c] by (auto simp: is_ws_def)
    then have "strip t = t" "query_part t = t" by (auto intro!: strip_no_ws query_part_id)
    moreover have "split_char 38 t = ts" unfolding ts(3)
      by (rule split_char_join [OF False]) (use r no [of 38] in \<open>force simp: list_all_iff\<close>)
    ultimately show ?thesis using r by (simp add: toQueryParams_def)
  qed
qed

theorem sort_serialize_round_trip_witness:
  "toQueryParams 38 (lit ''list[]=b&list[]=a%20c'') = Inr [(lit ''list[]'', VArr [VStr (lit ''b''), VStr (lit ''a c'')])]"
proof -
  let ?li = "\<lambda>k i. DNode k (lit ''li'') (lit i) [] []"
  let ?n = "DNode 1 (lit ''ul'') (lit ''list'') [] [?li 2 ''item_b'', ?li 3 ''item_a c'']"
  have 1: "\<not> so_tree sort_defaults" "so_given sort_defaults = None" "char_text (n_ident ?n)"
    by (simp_all add: sort_defaults_def char_text_def lit_def)
  have 2: "sequence ?n sort_defaults = [lit ''b'', lit ''a c'']" by (simp add: sequence_examples)
  have 3: "list_all char_text (sequence ?n sort_defaults)" unfolding 2 by (simp add: char_text_def lit_def)
  have e: "encodeURIComponent (lit ''list'') = Inr (lit ''list'')" "encodeURIComponent (lit ''b'') = Inr (lit ''b'')"
    "encodeURIComponent (lit ''a c'') = Inr (lit ''a%20c'')"
    by (simp_all add: lit_def unreserved_def percent_char_def utf8_def percent_byte_def hex_upper_def low_surrogate_def high_surrogate_def)
  have 4: "sort_serialize ?n sort_defaults = Inr (lit ''list[]=b&list[]=a%20c'')"
    unfolding sort_serialize_def 2 using 1(1,2) by (simp add: e) (simp add: lit_def)
  have k: "lit ''list'' @ lit ''[]'' = lit ''list[]''" by (simp add: lit_def)
  show ?thesis using sort_serialize_round_trip [OF 1 3 4] unfolding 2 by (simp add: collected_def k)
qed

subsection \<open>The order a list is given\<close>

text \<open>
  C27. \<open>setSequence\<close> gives a flat list the order asked for: afterwards its sequence is the part of the
  new sequence that names its items. The items the new sequence does not name are no longer in the document,
  but no node is lost or doubled.
\<close>

theorem set_sequence_orders:
  assumes "distinct (keys t)" and "find_node element t = Some n" and "\<not> so_tree opts" and "n_kids n \<noteq> []"
    and "\<forall>e \<in> set (found_items n opts). so_format opts (n_ident e) \<noteq> None"
    and "distinct (sequence n opts)" and "distinct new" and "set new \<inter> set object_names \<subseteq> set (sequence n opts)"
  shows "\<exists>t' lost n'. setSequence element new opts t = Inr (t' # lost)
    \<and> find_node element t' = Some n' \<and> sequence n' opts = filter (\<lambda>i. i \<in> set (sequence n opts)) new
    \<and> mset (keys t' @ concat (map keys lost)) = mset (keys t)
    \<and> map (\<lambda>e. so_format opts (n_ident e)) lost = map Some (filter (\<lambda>i. i \<notin> set new) (sequence n opts))"
proof -
  let ?match = "child_matches (so_only opts) (so_tag opts)"
  let ?idf = "\<lambda>e. case so_format opts (n_ident e) of None \<Rightarrow> [] | Some m \<Rightarrow> m"
  let ?es = "found_items n opts"
  have seq: "sequence u opts = map ?idf (found_items u opts)" for u by (simp add: sequence_def)
  have es: "?es = filter ?match (n_kids n)" by (rule found_flat [OF assms(3)])
  obtain k tg i c ks where n: "n = DNode k tg i c ks" by (cases n)
  have fe: "findElements n opts = Some ?es" using assms(4) by (simp add: found_items_def findElements_def n)
  have de: "distinct ?es" using assms(6) by (simp add: seq distinct_map)
  have fs: "\<forall>e \<in> set ?es. so_format opts (n_ident e) = Some (?idf e)" using assms(5) by (auto split: option.split)
  have d0: "distinct (keys t @ forest_keys [])" using assms(1) by simp
  have sub: "set ?es \<subseteq> set (n_kids n)" by (auto simp: es)
  let ?nm = "fold (\<lambda>e. put (?idf e) (n_key e, element)) ?es []"
  obtain t1 where t1: "collect_nodes (so_format opts) ?es [] [t] = Inr (?nm, t1 # ?es)"
      "mset (keys t1 @ forest_keys ?es) = mset (keys t)"
      "find_node element t1 = Some (DNode element (n_tag n) (n_ident n) (n_class n) (filter (\<lambda>v. v \<notin> set ?es) (n_kids n)))"
    using collect_loop [OF d0 assms(2) de sub fs, of "[]"] by auto
  have d1: "distinct (keys t1 @ forest_keys ?es)" using t1(2) assms(1) mset_eq_imp_distinct_iff by blast
  have nk: "nodes_known ?idf element ?nm ?es" using assms(6) unfolding seq by (rule nodes_known_fold)
  have io: "set new \<inter> set object_names \<subseteq> ?idf ` set ?es" using assms(8) by (simp add: seq)
  from append_loop [OF d1 t1(3) de nk assms(7) io] obtain t2 moved where t2:
      "append_nodes new ?nm (t1 # ?es) = Inr (t2 # filter (\<lambda>n. ?idf n \<notin> set new) ?es)"
      "mset (keys t2 @ forest_keys (filter (\<lambda>n. ?idf n \<notin> set new) ?es)) = mset (keys t1 @ forest_keys ?es)"
      "find_node element t2 = Some (DNode element (n_tag n) (n_ident n) (n_class n) (filter (\<lambda>v. v \<notin> set ?es) (n_kids n) @ moved))"
      "set moved \<subseteq> set ?es" "map ?idf moved = filter (\<lambda>i. i \<in> ?idf ` set ?es) new" by auto
  let ?n' = "DNode element (n_tag n) (n_ident n) (n_class n) (filter (\<lambda>v. v \<notin> set ?es) (n_kids n) @ moved)"
  have "filter ?match moved = moved" using t2(4) by (auto simp: filter_id_conv es)
  moreover have "filter ?match (filter (\<lambda>v. v \<notin> set ?es) (n_kids n)) = []" by (auto simp: es filter_empty_conv)
  ultimately have "found_items ?n' opts = moved" using found_flat [OF assms(3), of ?n'] by simp
  then have s: "sequence ?n' opts = filter (\<lambda>i. i \<in> set (sequence n opts)) new" using t2(5) by (simp add: seq)
  have "setSequence element new opts t = Inr (t2 # filter (\<lambda>n. ?idf n \<notin> set new) ?es)"
    using assms(2) fe t1(1) t2(1) by (simp add: setSequence_def)
  moreover have "map (\<lambda>e. so_format opts (n_ident e)) (filter (\<lambda>n. ?idf n \<notin> set new) ?es)
      = map (\<lambda>e. Some (?idf e)) (filter (\<lambda>n. ?idf n \<notin> set new) ?es)"
    using fs by (intro map_cong) simp_all
  then have "map (\<lambda>e. so_format opts (n_ident e)) (filter (\<lambda>n. ?idf n \<notin> set new) ?es)
      = map Some (filter (\<lambda>i. i \<notin> set new) (sequence n opts))"
    by (simp add: seq filter_map comp_def)
  ultimately show ?thesis using s t2(2,3) t1(2) by (auto simp: forest_keys_def)
qed

theorem set_sequence_orders_witness:
  "\<exists>t' lost n'. setSequence 1 [lit ''c'', lit ''a''] sort_defaults
      (DNode 1 (lit ''ul'') (lit ''list'') [] [DNode 2 (lit ''li'') (lit ''item_a'') [] [], DNode 3 (lit ''li'') (lit ''item_b'') [] [],
        DNode 4 (lit ''li'') (lit ''item_c'') [] []]) = Inr (t' # lost)
    \<and> find_node 1 t' = Some n' \<and> sequence n' sort_defaults = [lit ''c'', lit ''a'']
    \<and> map (\<lambda>e. serialize_rule (n_ident e)) lost = [Some (lit ''b'')]"
proof -
  let ?n = "DNode 1 (lit ''ul'') (lit ''list'') [] [DNode 2 (lit ''li'') (lit ''item_a'') [] [], DNode 3 (lit ''li'') (lit ''item_b'') [] [],
        DNode 4 (lit ''li'') (lit ''item_c'') [] []]"
  let ?new = "[lit ''c'', lit ''a'']"
  have s: "sequence ?n sort_defaults = [lit ''a'', lit ''b'', lit ''c'']" by (simp add: sequence_examples)
  have 1: "distinct (keys ?n)" "find_node 1 ?n = Some ?n" "\<not> so_tree sort_defaults" "n_kids ?n \<noteq> []" by (simp_all add: sort_defaults_def)
  have 2: "\<forall>e \<in> set (found_items ?n sort_defaults). so_format sort_defaults (n_ident e) \<noteq> None" by (simp add: sequence_examples)
  have 3: "distinct (sequence ?n sort_defaults)" "distinct ?new" unfolding s by (simp_all add: lit_def)
  have 4: "set ?new \<inter> set object_names \<subseteq> set (sequence ?n sort_defaults)" unfolding s by auto
  have 5: "filter (\<lambda>i. i \<in> set (sequence ?n sort_defaults)) ?new = ?new"
    "filter (\<lambda>i. i \<notin> set ?new) (sequence ?n sort_defaults) = [lit ''b'']"
    unfolding s by (simp_all add: lit_def)
  have 6: "so_format sort_defaults = serialize_rule" by (simp add: sort_defaults_def)
  show ?thesis using set_sequence_orders [OF 1 2 3 4] unfolding 5 6 list.map
    by (elim exE conjE) (intro exI conjI)
qed

subsection \<open>Hovering\<close>

text \<open>What a hover does to the document, once it is not refused.\<close>

lemma move_and_tell_doc: "move_and_tell sortables element p ref t = Inr (t', told) \<Longrightarrow> t' = insertBefore p element ref t"
  by (auto simp: move_and_tell_def Let_def res_iff)

text \<open>
  C28. A hover over the upper or the lower third of an element, or over one whose list has no nested lists,
  leaves the dragged element as the neighbour before or after it: nothing of the document is lost or doubled
  and the other children of that parent keep their order.
\<close>

theorem hover_places_element:
  assumes "distinct (keys t)" and "find_node element t = Some n" and "element \<noteq> dropon" and "\<not> isParent dropon element t"
    and "parent_key dropon t = Some p"
    and "\<not> (33/100 < overlap \<and> overlap < 66/100) \<or> \<not> so_tree (snd (projr (sortable_of sortables dropon t)))"
    and "sort_onHover sortables element dropon overlap t = Inr (t', told)"
  shows "mset (keys t') = mset (keys t)
    \<and> (if 1/2 < overlap then before_in dropon (kids_of p t') = Some element else after_in dropon (kids_of p t') = Some element)
    \<and> filter (\<lambda>k. k \<noteq> element) (kids_of p t') = filter (\<lambda>k. k \<noteq> element) (kids_of p t)"
proof -
  have out: "dropon \<notin> set (keys n)" using isParent_iff [OF assms(1,2)] assms(3,4) by auto
  note par = parent_outside [OF assms(1,2) out assms(5)]
  note p = conjunct1 [OF par] conjunct1 [OF conjunct2 [OF par]]
  have d: "dropon \<in> set (kids_of p t)" "distinct (kids_of p t)" using par by auto
  have kin: "kin dropon t = kids_of p t" by (simp add: kin_def assms(5))
  have "(if overlap > 1/2 then
           (if previousSibling dropon t \<noteq> Some element
            then move_and_tell sortables element p (Some dropon) t else Inr (t, []))
         else
           (if nextSibling dropon t \<noteq> Some element
            then move_and_tell sortables element p (nextSibling dropon t) t else Inr (t, []))) = Inr (t', told)"
    using assms(4-7) by (auto simp: sort_onHover_def res_iff split: if_splits)
  then consider
      "overlap > 1/2" "before_in dropon (kids_of p t) = Some element" "t' = t"
    | "overlap > 1/2" "t' = insertBefore p element (Some dropon) t"
    | "\<not> overlap > 1/2" "after_in dropon (kids_of p t) = Some element" "t' = t"
    | "\<not> overlap > 1/2" "after_in dropon (kids_of p t) \<noteq> Some element" "t' = insertBefore p element (after_in dropon (kids_of p t)) t"
    using move_and_tell_doc by (auto simp: previousSibling_def nextSibling_def kin split: if_splits)
  then show ?thesis
  proof cases
    case 2
    then show ?thesis
      using insertBefore_kids [OF assms(1,2) p, of "Some dropon"] placed_before [OF d(2,1) assms(3)] assms(3) by simp
  next
    case 4
    then show ?thesis
      using insertBefore_kids [OF assms(1,2) p 4(2)] placed_after [OF d(2,1) assms(3) 4(2)] placed_before(2) [OF d(2,1) assms(3)] by simp
  qed simp_all
qed

theorem hover_places_element_witness:
  "let t = DNode 0 (lit ''body'') [] [] [DNode 1 (lit ''ul'') (lit ''list'') []
        [DNode 2 (lit ''li'') [] [] [], DNode 3 (lit ''li'') [] [] [], DNode 4 (lit ''li'') [] [] []]]
   in \<exists>t'. sort_onHover [(lit ''list'', sort_defaults)] 2 4 (4/5) t = Inr (t', [lit ''list'']) \<and> before_in 4 (kids_of 1 t') = Some 2"
proof -
  let ?t = "DNode 0 (lit ''body'') [] [] [DNode 1 (lit ''ul'') (lit ''list'') []
        [DNode 2 (lit ''li'') [] [] [], DNode 3 (lit ''li'') [] [] [], DNode 4 (lit ''li'') [] [] []]]"
  let ?t' = "DNode 0 (lit ''body'') [] [] [DNode 1 (lit ''ul'') (lit ''list'') []
        [DNode 3 (lit ''li'') [] [] [], DNode 2 (lit ''li'') [] [] [], DNode 4 (lit ''li'') [] [] []]]"
  have l: "lit ''list'' \<noteq> []" "upper (lit ''ul'') \<noteq> lit ''BODY''" "lit ''ul'' \<noteq> []" "upper (lit ''ul'') = lit ''UL''"
    "lit ''UL'' \<noteq> lit ''BODY''" by (simp_all add: lit_def upper_def)
  have 1: "distinct (keys ?t)" "find_node 2 ?t = Some (DNode 2 (lit ''li'') [] [] [])" "(2::nat) \<noteq> 4" "\<not> isParent 4 2 ?t"
    "parent_key 4 ?t = Some 1" by (simp_all add: isParent_def parent_key_def)
  have 2: "\<not> (33/100 < (4/5::rat) \<and> (4/5::rat) < 66/100) \<or> \<not> so_tree (snd (projr (sortable_of [(lit ''list'', sort_defaults)] 4 ?t)))"
    by simp
  have s: "sortable_of [(lit ''list'', sort_defaults)] 1 ?t' = Inr (lit ''list'', sort_defaults)"
    using l by (simp add: sortable_of_def line_of_def)
  have 3: "sort_onHover [(lit ''list'', sort_defaults)] 2 4 (4/5) ?t = Inr (?t', [lit ''list''])"
    using 1(4,5) s l
    by (simp add: sort_onHover_def mark_def line_of_def previousSibling_def kin_def kids_of_def parent_key_def move_and_tell_def insertBefore_def)
  show ?thesis using hover_places_element [OF 1 2 3] 3 unfolding Let_def by (intro exI [of _ ?t']) simp
qed

end
