(* ===== verification/Droppables.thy ===== *)
theory Droppables
  imports SortFacts
begin

text \<open>
  The targets of a drag: \<open>Droppables\<close> of \<open>gserver/public/javascripts/dragdrop.js\<close> (lines 10 to 122),
  \<open>Position\<close> of \<open>prototype.js\<close> (lines 4162 to 4221) and the class names of \<open>prototype.js\<close> (1834 to
  1854) it writes. The boxes of the elements and the scroll positions are the answers of the
  browser, the record \<open>geo\<close>. A drop keeps the number it was created with, because the scripts compare
  drops by identity; the callbacks of a drop are functions on the document.
\<close>

subsection \<open>Class names\<close>

definition has_class :: "ustr \<Rightarrow> ustr \<Rightarrow> bool" where
  "has_class cn s \<longleftrightarrow> cn \<in> set (class_names s)"

definition addClassName :: "ustr \<Rightarrow> ustr \<Rightarrow> ustr" where
  "addClassName cn s = (if has_class cn s then s else s @ (if s \<noteq> [] then [32] else []) @ cn)"

text \<open>The first match of the name between white space or the ends becomes one blank.\<close>

definition class_here :: "ustr \<Rightarrow> ustr \<Rightarrow> bool" where
  "class_here cn r \<longleftrightarrow> take (length cn) r = cn \<and> (case drop (length cn) r of [] \<Rightarrow> True | d # _ \<Rightarrow> is_ws d)"

fun cut_class :: "ustr \<Rightarrow> ustr \<Rightarrow> ustr" where
  "cut_class cn [] = []"
| "cut_class cn (c # cs) =
     (if is_ws c \<and> class_here cn (dropWhile is_ws cs)
      then 32 # dropWhile is_ws (drop (length cn) (dropWhile is_ws cs))
      else c # cut_class cn cs)"

definition removeClassName :: "ustr \<Rightarrow> ustr \<Rightarrow> ustr" where
  "removeClassName cn s =
     strip (if class_here cn s then 32 # dropWhile is_ws (drop (length cn) s) else cut_class cn s)"

fun set_class :: "nat \<Rightarrow> (ustr \<Rightarrow> ustr) \<Rightarrow> dtree \<Rightarrow> dtree" where
  "set_class x f (DNode k t i c ts) = DNode k t i (if k = x then f c else c) (map (set_class x f) ts)"

subsection \<open>Positions\<close>

record box =
  bx_left :: int
  bx_top :: int
  bx_width :: int
  bx_height :: int

record geo =
  ge_box :: "nat \<Rightarrow> box"
  ge_scrolled :: "nat \<Rightarrow> int \<times> int"
  ge_window :: "(int \<times> int) list"

record position =
  ps_include :: bool
  ps_deltaX :: int
  ps_deltaY :: int
  ps_xcomp :: int
  ps_ycomp :: int
  ps_offset :: "int \<times> int"

text \<open>The first of the numbers that is not zero.\<close>

fun or_zero :: "int list \<Rightarrow> int" where
  "or_zero [] = 0"
| "or_zero (n # ns) = (if n \<noteq> 0 then n else or_zero ns)"

definition position_prepare :: "geo \<Rightarrow> position \<Rightarrow> position" where
  "position_prepare g p = p\<lparr>ps_deltaX := or_zero (map fst (ge_window g)), ps_deltaY := or_zero (map snd (ge_window g))\<rparr>"

definition inside_box :: "box \<Rightarrow> int \<Rightarrow> int \<Rightarrow> bool" where
  "inside_box b x y \<longleftrightarrow>
     bx_top b \<le> y \<and> y < bx_top b + bx_height b \<and> bx_left b \<le> x \<and> x < bx_left b + bx_width b"

definition withinIncludingScrolloffsets :: "geo \<Rightarrow> nat \<Rightarrow> int \<Rightarrow> int \<Rightarrow> position \<Rightarrow> bool \<times> position" where
  "withinIncludingScrolloffsets g element x y p =
     (let cache = ge_scrolled g element; b = ge_box g element;
          p1 = p\<lparr>ps_xcomp := x + fst cache - ps_deltaX p, ps_ycomp := y + snd cache - ps_deltaY p,
                 ps_offset := (bx_left b, bx_top b)\<rparr>
      in (inside_box b (ps_xcomp p1) (ps_ycomp p1), p1))"

definition within_box :: "geo \<Rightarrow> nat \<Rightarrow> int \<Rightarrow> int \<Rightarrow> position \<Rightarrow> bool \<times> position" where
  "within_box g element x y p =
     (if ps_include p then withinIncludingScrolloffsets g element x y p
      else let b = ge_box g element
           in (inside_box b x y, p\<lparr>ps_xcomp := x, ps_ycomp := y, ps_offset := (bx_left b, bx_top b)\<rparr>))"

datatype axis = NoMode | Vertical | Horizontal | OtherMode

text \<open>\<open>None\<close> is \<open>undefined\<close>.\<close>

definition overlap :: "geo \<Rightarrow> axis \<Rightarrow> nat \<Rightarrow> position \<Rightarrow> rat option" where
  "overlap g m element p =
     (let b = ge_box g element in
      case m of
        NoMode \<Rightarrow> Some 0
      | Vertical \<Rightarrow> Some (of_int (snd (ps_offset p) + bx_height b - ps_ycomp p) / of_int (bx_height b))
      | Horizontal \<Rightarrow> Some (of_int (fst (ps_offset p) + bx_width b - ps_xcomp p) / of_int (bx_width b))
      | OtherMode \<Rightarrow> None)"

subsection \<open>The targets\<close>

type_synonym hover_call = "nat \<Rightarrow> nat \<Rightarrow> rat option \<Rightarrow> dtree \<Rightarrow> dtree res"
type_synonym drop_call = "nat \<Rightarrow> nat \<Rightarrow> dtree \<Rightarrow> dtree res"

record drop_target =
  dr_number :: nat
  dr_element :: nat
  dr_containers :: "nat list option"
  dr_accept :: "ustr list option"
  dr_hoverclass :: "ustr option"
  dr_tree :: bool
  dr_overlap :: axis
  dr_onHover :: "hover_call option"
  dr_onDrop :: "drop_call option"

record droppables =
  dp_doc :: dtree
  dp_treeNode :: "(nat \<times> nat) list"
  dp_next :: nat
  dp_drops :: "drop_target list"
  dp_last :: "drop_target option"
  dp_pos :: position

type_synonym drop_run = "droppables \<times> js_error option"

definition remove_drop :: "nat \<Rightarrow> droppables \<Rightarrow> droppables" where
  "remove_drop element s = s\<lparr>dp_drops := filter (\<lambda>d. dr_element d \<noteq> element) (dp_drops s)\<rparr>"

text \<open>\<open>add\<close>; the options are given as the fields of a drop.\<close>

definition add_drop :: "nat \<Rightarrow> drop_target \<Rightarrow> droppables \<Rightarrow> droppables" where
  "add_drop element opts s =
     s\<lparr>dp_drops := dp_drops s @ [opts\<lparr>dr_number := dp_next s, dr_element := element\<rparr>], dp_next := Suc (dp_next s)\<rparr>"

fun deepest_loop :: "dtree \<Rightarrow> drop_target \<Rightarrow> drop_target list \<Rightarrow> drop_target" where
  "deepest_loop t deepest [] = deepest"
| "deepest_loop t deepest (d # ds) =
     deepest_loop t (if isParent (dr_element d) (dr_element deepest) t then d else deepest) ds"

fun findDeepestChild :: "dtree \<Rightarrow> drop_target list \<Rightarrow> drop_target option" where
  "findDeepestChild t [] = None"
| "findDeepestChild t (d # ds) = Some (deepest_loop t d ds)"

definition isContained :: "nat \<Rightarrow> drop_target \<Rightarrow> droppables \<Rightarrow> bool" where
  "isContained element d s =
     (case (if dr_tree d then map_of (dp_treeNode s) element else parent_key element (dp_doc s)) of
        None \<Rightarrow> False
      | Some n \<Rightarrow> list_ex (\<lambda>c. n = c) (case dr_containers d of None \<Rightarrow> [] | Some cs \<Rightarrow> cs))"

definition class_of :: "nat \<Rightarrow> dtree \<Rightarrow> ustr" where
  "class_of x t = (case find_node x t of None \<Rightarrow> [] | Some n \<Rightarrow> n_class n)"

definition isAffected :: "geo \<Rightarrow> int \<times> int \<Rightarrow> nat \<Rightarrow> drop_target \<Rightarrow> droppables \<Rightarrow> bool \<times> droppables" where
  "isAffected g point element d s =
     (if dr_element d \<noteq> element
         \<and> (dr_containers d = None \<or> isContained element d s)
         \<and> (case dr_accept d of None \<Rightarrow> True
            | Some cs \<Rightarrow> list_ex (\<lambda>v. v \<in> set cs) (class_names (class_of element (dp_doc s))))
      then let (b, p) = within_box g (dr_element d) (fst point) (snd point) (dp_pos s) in (b, s\<lparr>dp_pos := p\<rparr>)
      else (False, s))"

definition deactivate_drop :: "drop_target \<Rightarrow> droppables \<Rightarrow> droppables" where
  "deactivate_drop d s =
     (case dr_hoverclass d of
        None \<Rightarrow> s
      | Some cn \<Rightarrow> s\<lparr>dp_doc := set_class (dr_element d) (removeClassName cn) (dp_doc s)\<rparr>)\<lparr>dp_last := None\<rparr>"

definition activate_drop :: "drop_target \<Rightarrow> droppables \<Rightarrow> droppables" where
  "activate_drop d s =
     (case dr_hoverclass d of
        None \<Rightarrow> s
      | Some cn \<Rightarrow> s\<lparr>dp_doc := set_class (dr_element d) (addClassName cn) (dp_doc s)\<rparr>)\<lparr>dp_last := Some d\<rparr>"

fun affected_drops :: "geo \<Rightarrow> int \<times> int \<Rightarrow> nat \<Rightarrow> drop_target list \<Rightarrow> droppables \<Rightarrow> drop_target list \<times> droppables" where
  "affected_drops g point element [] s = ([], s)"
| "affected_drops g point element (d # ds) s =
     (let (b, s1) = isAffected g point element d s; (as, s2) = affected_drops g point element ds s1
      in (if b then d # as else as, s2))"

definition same_drop :: "drop_target option \<Rightarrow> drop_target option \<Rightarrow> bool" where
  "same_drop a b \<longleftrightarrow> map_option dr_number a = map_option dr_number b"

text \<open>The second half of \<open>show\<close>, once the target is known.\<close>

definition hover_target :: "geo \<Rightarrow> int \<times> int \<Rightarrow> nat \<Rightarrow> drop_target \<Rightarrow> droppables \<Rightarrow> drop_run" where
  "hover_target g point element d s =
     (let s1 = s\<lparr>dp_pos := snd (within_box g (dr_element d) (fst point) (snd point) (dp_pos s))\<rparr>
      in case (case dr_onHover d of
                 None \<Rightarrow> Inr (dp_doc s1)
               | Some f \<Rightarrow> f element (dr_element d) (overlap g (dr_overlap d) (dr_element d) (dp_pos s1)) (dp_doc s1)) of
           Inl e \<Rightarrow> (s1, Some e)
         | Inr t \<Rightarrow>
             (let s2 = s1\<lparr>dp_doc := t\<rparr> in (if same_drop (Some d) (dp_last s2) then s2 else activate_drop d s2, None)))"

definition show_drops :: "geo \<Rightarrow> int \<times> int \<Rightarrow> nat \<Rightarrow> droppables \<Rightarrow> drop_run" where
  "show_drops g point element s =
     (if dp_drops s = [] then (s, None)
      else
        let (affected, s1) = affected_drops g point element (dp_drops s) s;
            d = findDeepestChild (dp_doc s1) affected;
            s2 = (case dp_last s1 of
                    None \<Rightarrow> s1
                  | Some l \<Rightarrow> if same_drop (Some l) d then s1 else deactivate_drop l s1)
        in case d of None \<Rightarrow> (s2, None) | Some d \<Rightarrow> hover_target g point element d s2)"

text \<open>The value of \<open>fire\<close> tells whether something was dropped.\<close>

definition fire_drop :: "geo \<Rightarrow> int \<times> int \<Rightarrow> nat \<Rightarrow> droppables \<Rightarrow> bool \<times> drop_run" where
  "fire_drop g point element s =
     (case dp_last s of
        None \<Rightarrow> (False, s, None)
      | Some l \<Rightarrow>
          let (b, s1) = isAffected g point element l (s\<lparr>dp_pos := position_prepare g (dp_pos s)\<rparr>)
          in case (if b then dr_onDrop l else None) of
               None \<Rightarrow> (False, s1, None)
             | Some f \<Rightarrow>
                 (case f element (dr_element l) (dp_doc s1) of
                    Inl e \<Rightarrow> (False, s1, Some e)
                  | Inr t \<Rightarrow> (True, s1\<lparr>dp_doc := t\<rparr>, None)))"

definition reset_drops :: "droppables \<Rightarrow> droppables" where
  "reset_drops s = (case dp_last s of None \<Rightarrow> s | Some l \<Rightarrow> deactivate_drop l s)"

end
