(* ===== verification/Draggables.thy ===== *)
theory Draggables
  imports Droppables
begin

text \<open>
  Dragging: \<open>Draggables\<close> and \<open>Draggable\<close> of \<open>gserver/public/javascripts/dragdrop.js\<close> (lines 124 to
  571). A draggable is an object with a number; \<open>dn_obj\<close> is the store of the objects, \<open>dn_drags\<close> the
  registered ones, \<open>dn_handles\<close> the handles whose presses they hear. A handler maps the state to the state it leaves and the exception that ended it, if
  any. What the event and the layout answer is the record \<open>drag_env\<close>. Timers and intervals are lists of
  pending handles with the object they are for; calls that leave the scripts are entries of a log.
  A coordinate is a rational, a coordinate that is no number is \<open>None\<close>.
\<close>

subsection \<open>The state\<close>

datatype snapping = NoSnap | SnapBy int | SnapEach int int | SnapFun "rat option \<Rightarrow> rat option \<Rightarrow> rat option \<times> rat option"

datatype reverting = RvFalse | RvTrue | RvFailure

datatype scrolling = NoScroll | ScrollWindow | ScrollElement nat bool

datatype placing = Relative | Absolute | Fixed

record drag_options =
  go_zindex :: "int option"
  go_revert :: reverting
  go_revertFun :: "(nat \<Rightarrow> reverting) option"
  go_quiet :: bool
  go_ghosting :: bool
  go_scroll :: scrolling
  go_scrollSensitivity :: int
  go_scrollSpeed :: int
  go_snap :: snapping
  go_constraint :: axis
  go_delay :: nat
  go_starteffect :: bool
  go_endeffect :: bool
  go_reverteffect :: bool
  go_onStart :: bool
  go_onDrag :: bool
  go_onEnd :: bool
  go_onDropped :: bool
  go_change :: bool

record draggable =
  dg_element :: nat
  dg_options :: drag_options
  dg_dragging :: bool
  dg_delta :: "(int \<times> int) option"
  dg_offset :: "(int \<times> int) option"
  dg_left :: "rat option"
  dg_top :: "rat option"
  dg_zIndex :: "int option"
  dg_originalZ :: "int option"
  dg_clone :: "nat option"
  dg_placing :: placing
  dg_origin :: "(rat \<times> rat) option"
  dg_originallyAbsolute :: bool
  dg_scrollFrom :: "int \<times> int"
  dg_interval :: "nat option"
  dg_speed :: "int \<times> int"
  dg_lastScrolled :: int

record drag_env =
  ev_geo :: geo
  ev_pointer :: "int \<times> int"
  ev_leftClick :: bool
  ev_tag :: ustr
  ev_key :: int
  ev_now :: int
  ev_realOffset :: "nat \<Rightarrow> int \<times> int"
  ev_positioned :: "nat \<Rightarrow> int \<times> int"
  ev_page :: "nat \<Rightarrow> int \<times> int"
  ev_scroll :: "nat \<Rightarrow> int \<times> int"
  ev_window :: "(int \<times> int) \<times> int \<times> int"
  ev_name :: "nat \<Rightarrow> ustr"

datatype phase = OnStart | OnDrag | OnEnd

datatype notice =
    Notified phase nat
  | Observed phase nat nat
  | Called phase nat
  | Changed nat
  | Dropped nat
  | StartEffect nat
  | EndEffect nat
  | RevertEffect nat int int
  | EventStopped
  | WindowFocused
  | WindowScrolled rat rat
  | ElementScrolled nat rat rat

record drag_observer =
  ob_number :: nat
  ob_element :: nat
  ob_phases :: "phase list"

record draggables = droppables +
  dn_obj :: "nat \<Rightarrow> draggable option"
  dn_drags :: "nat list"
  dn_handles :: "(nat \<times> nat) list"
  dn_observers :: "drag_observer list"
  dn_counts :: "phase \<Rightarrow> nat"
  dn_active :: "nat option"
  dn_timeout :: "nat option"
  dn_timers :: "(nat \<times> nat) list"
  dn_intervals :: "(nat \<times> nat) list"
  dn_handle :: nat
  dn_lastPointer :: "(int \<times> int) option"
  dn_lastScrollPointer :: "(rat option \<times> rat option) option"
  dn_flags :: "ustr list"
  dn_listening :: bool
  dn_log :: "notice list"

type_synonym drag_run = "draggables \<times> js_error option"

definition seqr :: "drag_run \<Rightarrow> (draggables \<Rightarrow> drag_run) \<Rightarrow> drag_run" where
  "seqr r f = (case r of (s, None) \<Rightarrow> f s | (s, Some e) \<Rightarrow> (s, Some e))"

definition on_drops :: "(droppables \<Rightarrow> drop_run) \<Rightarrow> draggables \<Rightarrow> drag_run" where
  "on_drops f s = (case f (droppables.truncate s) of
     (t, e) \<Rightarrow> (s\<lparr>dp_doc := dp_doc t, dp_treeNode := dp_treeNode t, dp_next := dp_next t, dp_drops := dp_drops t,
                  dp_last := dp_last t, dp_pos := dp_pos t\<rparr>, e))"

definition say :: "notice \<Rightarrow> draggables \<Rightarrow> draggables" where
  "say n s = s\<lparr>dn_log := dn_log s @ [n]\<rparr>"

definition change_obj :: "nat \<Rightarrow> (draggable \<Rightarrow> draggable) \<Rightarrow> draggables \<Rightarrow> draggables" where
  "change_obj n f s = s\<lparr>dn_obj := (dn_obj s)(n := map_option f (dn_obj s n))\<rparr>"

text \<open>Runs an operation on an object; there is none for a number that was never used.\<close>

definition with_obj :: "nat \<Rightarrow> (draggable \<Rightarrow> draggables \<Rightarrow> drag_run) \<Rightarrow> draggables \<Rightarrow> drag_run" where
  "with_obj n f s = (case dn_obj s n of None \<Rightarrow> (s, Some TypeError) | Some d \<Rightarrow> f d s)"

subsection \<open>The registry\<close>

definition register_drag :: "nat \<Rightarrow> draggables \<Rightarrow> draggables" where
  "register_drag n s =
     (let s1 = (if dn_drags s = [] then s\<lparr>dn_listening := True\<rparr> else s) in s1\<lparr>dn_drags := dn_drags s1 @ [n]\<rparr>)"

definition unregister_drag :: "nat \<Rightarrow> draggables \<Rightarrow> draggables" where
  "unregister_drag n s =
     (let s1 = s\<lparr>dn_drags := filter (\<lambda>d. d \<noteq> n) (dn_drags s)\<rparr>
      in if dn_drags s1 = [] then s1\<lparr>dn_listening := False\<rparr> else s1)"

definition cacheObserverCallbacks :: "draggables \<Rightarrow> draggables" where
  "cacheObserverCallbacks s =
     s\<lparr>dn_counts := (\<lambda>p. length (filter (\<lambda>o'. p \<in> set (ob_phases o')) (dn_observers s)))\<rparr>"

definition addObserver :: "drag_observer \<Rightarrow> draggables \<Rightarrow> draggables" where
  "addObserver ob s = cacheObserverCallbacks (s\<lparr>dn_observers := dn_observers s @ [ob]\<rparr>)"

definition removeObserver :: "nat \<Rightarrow> draggables \<Rightarrow> draggables" where
  "removeObserver element s =
     cacheObserverCallbacks (s\<lparr>dn_observers := filter (\<lambda>o'. ob_element o' \<noteq> element) (dn_observers s)\<rparr>)"

definition has_phase :: "phase \<Rightarrow> drag_options \<Rightarrow> bool" where
  "has_phase p opts = (case p of OnStart \<Rightarrow> go_onStart opts | OnDrag \<Rightarrow> go_onDrag opts | OnEnd \<Rightarrow> go_onEnd opts)"

definition notify_drag :: "phase \<Rightarrow> nat \<Rightarrow> draggables \<Rightarrow> draggables" where
  "notify_drag p n s =
     (let s1 = say (Notified p n) s;
          s2 = (if dn_counts s1 p > 0
                then s1\<lparr>dn_log := dn_log s1
                       @ map (\<lambda>o'. Observed p (ob_number o') n) (filter (\<lambda>o'. p \<in> set (ob_phases o')) (dn_observers s1))\<rparr>
                else s1)
      in case dn_obj s n of
           None \<Rightarrow> s2
         | Some d \<Rightarrow> if has_phase p (dg_options d) then say (Called p n) s2 else s2)"

definition activate_drag :: "nat \<Rightarrow> draggables \<Rightarrow> draggables" where
  "activate_drag n s =
     (case dn_obj s n of
        None \<Rightarrow> s
      | Some d \<Rightarrow>
          if go_delay (dg_options d) \<noteq> 0
          then s\<lparr>dn_timeout := Some (dn_handle s), dn_timers := dn_timers s @ [(dn_handle s, n)], dn_handle := Suc (dn_handle s)\<rparr>
          else (say WindowFocused s)\<lparr>dn_active := Some n\<rparr>)"

definition deactivate_drag :: "draggables \<Rightarrow> draggables" where
  "deactivate_drag s = s\<lparr>dn_active := None\<rparr>"

text \<open>The delay of \<open>activate\<close> is over.\<close>

definition delay_over :: "nat \<Rightarrow> draggables \<Rightarrow> draggables" where
  "delay_over h s =
     (case map_of (dn_timers s) h of
        None \<Rightarrow> s
      | Some n \<Rightarrow> (say WindowFocused (s\<lparr>dn_timers := filter (\<lambda>t. fst t \<noteq> h) (dn_timers s), dn_timeout := None\<rparr>))
                  \<lparr>dn_active := Some n\<rparr>)"

text \<open>The end of the constructor, and \<open>destroy\<close>. Numbers for objects, timers and intervals are new ones.\<close>

definition new_draggable :: "draggable \<Rightarrow> nat \<Rightarrow> draggables \<Rightarrow> nat \<times> draggables" where
  "new_draggable d handle s =
     (let n = dn_handle s
      in (n, register_drag n (s\<lparr>dn_handle := Suc n, dn_obj := (dn_obj s)(n \<mapsto> d\<lparr>dg_dragging := False\<rparr>),
                               dn_handles := dn_handles s @ [(n, handle)]\<rparr>)))"

definition destroy_draggable :: "nat \<Rightarrow> draggables \<Rightarrow> draggables" where
  "destroy_draggable n s = unregister_drag n (s\<lparr>dn_handles := filter (\<lambda>h. fst h \<noteq> n) (dn_handles s)\<rparr>)"

subsection \<open>One draggable\<close>

text \<open>\<open>parseInt\<close> of a length: the fraction is dropped, \<open>auto\<close> counts as nothing.\<close>

definition style_int :: "rat option \<Rightarrow> int" where
  "style_int r = (case r of None \<Rightarrow> 0 | Some v \<Rightarrow> if 0 \<le> v then \<lfloor>v\<rfloor> else \<lceil>v\<rceil>)"

definition currentDelta :: "draggable \<Rightarrow> int \<times> int" where
  "currentDelta d = (style_int (dg_left d), style_int (dg_top d))"

definition page_place :: "drag_env \<Rightarrow> nat \<Rightarrow> int \<times> int" where
  "page_place e x = (bx_left (ge_box (ev_geo e) x), bx_top (ge_box (ev_geo e) x))"

definition form_tags :: "ustr list" where
  "form_tags = [lit ''INPUT'', lit ''SELECT'', lit ''OPTION'', lit ''BUTTON'', lit ''TEXTAREA'']"

definition initDrag :: "drag_env \<Rightarrow> nat \<Rightarrow> draggables \<Rightarrow> drag_run" where
  "initDrag e n = with_obj n (\<lambda>d s.
     if ev_name e (dg_element d) \<in> set (dn_flags s) then (s, None)
     else if ev_leftClick e then
       (if upper (ev_tag e) \<in> set form_tags then (s, None)
        else let pos = page_place e (dg_element d)
             in (say EventStopped (activate_drag n (change_obj n (\<lambda>d. d\<lparr>dg_offset :=
                   Some (fst (ev_pointer e) - fst pos, snd (ev_pointer e) - snd pos)\<rparr>) s)), None))
     else (s, None))"

text \<open>\<open>cloneNode\<close>: the keys of the copy are new.\<close>

fun copy_node :: "nat \<Rightarrow> dtree \<Rightarrow> dtree" where
  "copy_node b (DNode k t i c ts) = DNode (b + k) t i c (map (copy_node b) ts)"

definition absolutize :: "drag_env \<Rightarrow> draggable \<Rightarrow> draggable" where
  "absolutize e d =
     (if dg_placing d = Absolute then d
      else let (l, t) = ev_positioned e (dg_element d);
               old = (\<lambda>r. case r of None \<Rightarrow> 0 | Some v \<Rightarrow> v)
           in d\<lparr>dg_origin := Some (of_int l - old (dg_left d), of_int t - old (dg_top d)),
                dg_placing := Absolute, dg_left := Some (of_int l), dg_top := Some (of_int t)\<rparr>)"

definition relativize :: "draggable \<Rightarrow> draggable" where
  "relativize d =
     (if dg_placing d = Relative then d
      else let old = (\<lambda>r. case r of None \<Rightarrow> 0 | Some v \<Rightarrow> v); (ox, oy) = (case dg_origin d of None \<Rightarrow> (0, 0) | Some p \<Rightarrow> p)
           in d\<lparr>dg_placing := Relative, dg_left := Some (old (dg_left d) - ox), dg_top := Some (old (dg_top d) - oy)\<rparr>)"

text \<open>The ghost: the element leaves the flow and a copy takes its place.\<close>

definition make_ghost :: "drag_env \<Rightarrow> nat \<Rightarrow> draggables \<Rightarrow> drag_run" where
  "make_ghost e n = with_obj n (\<lambda>d s.
     let x = dg_element d; absolute = (dg_placing d = Absolute);
         b = Suc (Max (set (keys (dp_doc s))));
         s1 = change_obj n (\<lambda>d. (if absolute then d else absolutize e d)\<lparr>dg_clone := Some (b + x), dg_originallyAbsolute := absolute\<rparr>) s
     in case (parent_key x (dp_doc s), find_node x (dp_doc s)) of
          (Some p, Some m) \<Rightarrow> (s1\<lparr>dp_doc := insert_at p (copy_node b m) (Some x) (dp_doc s)\<rparr>, None)
        | _ \<Rightarrow> (s1, Some TypeError))"

definition drop_ghost :: "nat \<Rightarrow> draggables \<Rightarrow> drag_run" where
  "drop_ghost n = with_obj n (\<lambda>d s.
     let s1 = change_obj n (\<lambda>d. (if dg_originallyAbsolute d then d else relativize d)\<lparr>dg_originallyAbsolute := False\<rparr>) s
     in case dg_clone d of
          None \<Rightarrow> (s1, Some TypeError)
        | Some c \<Rightarrow> ((change_obj n (\<lambda>d. d\<lparr>dg_clone := None\<rparr>) s1)\<lparr>dp_doc := remove_node c (dp_doc s1)\<rparr>, None))"

definition starteffect :: "drag_env \<Rightarrow> nat \<Rightarrow> draggables \<Rightarrow> draggables" where
  "starteffect e n s =
     (case dn_obj s n of
        None \<Rightarrow> s
      | Some d \<Rightarrow> if go_starteffect (dg_options d)
                 then say (StartEffect n) (s\<lparr>dn_flags := ev_name e (dg_element d) # dn_flags s\<rparr>) else s)"

text \<open>The effect at the end of a drag has finished: dragging is possible again.\<close>

definition endeffect_over :: "drag_env \<Rightarrow> nat \<Rightarrow> draggables \<Rightarrow> draggables" where
  "endeffect_over e n s =
     (case dn_obj s n of
        None \<Rightarrow> s
      | Some d \<Rightarrow> s\<lparr>dn_flags := filter (\<lambda>f. f \<noteq> ev_name e (dg_element d)) (dn_flags s)\<rparr>)"

definition begin_object :: "drag_env \<Rightarrow> draggable \<Rightarrow> draggable" where
  "begin_object e d =
     (let d1 = d\<lparr>dg_dragging := True, dg_delta := Some (case dg_delta d of None \<Rightarrow> currentDelta d | Some p \<Rightarrow> p)\<rparr>
      in case go_zindex (dg_options d1) of
           None \<Rightarrow> d1
         | Some z \<Rightarrow> d1\<lparr>dg_originalZ := Some (case dg_zIndex d1 of None \<Rightarrow> 0 | Some old \<Rightarrow> old), dg_zIndex := Some z\<rparr>)"

definition scroll_from :: "drag_env \<Rightarrow> draggable \<Rightarrow> draggable" where
  "scroll_from e d =
     (case go_scroll (dg_options d) of
        NoScroll \<Rightarrow> d
      | ScrollWindow \<Rightarrow> d\<lparr>dg_scrollFrom := fst (ev_window e)\<rparr>
      | ScrollElement x _ \<Rightarrow> d\<lparr>dg_scrollFrom := ev_scroll e x\<rparr>)"

definition startDrag :: "drag_env \<Rightarrow> nat \<Rightarrow> draggables \<Rightarrow> drag_run" where
  "startDrag e n s =
     seqr (with_obj n (\<lambda>d s. let s1 = change_obj n (begin_object e) s
                             in if go_ghosting (dg_options d) then make_ghost e n s1 else (s1, None)) s) (\<lambda>s.
       (starteffect e n (notify_drag OnStart n (change_obj n (scroll_from e) s)), None))"

subsection \<open>Drawing\<close>

text \<open>One coordinate on a grid; a grid of step zero gives no number.\<close>

definition snap_to :: "int \<Rightarrow> rat option \<Rightarrow> rat option" where
  "snap_to g r = (case r of None \<Rightarrow> None
     | Some v \<Rightarrow> if g = 0 then None else Some (of_int (\<lfloor>v / of_int g + 1 / 2\<rfloor> * g)))"

definition snap_point :: "snapping \<Rightarrow> rat option \<times> rat option \<Rightarrow> rat option \<times> rat option" where
  "snap_point sn p =
     (case sn of
        NoSnap \<Rightarrow> p
      | SnapFun f \<Rightarrow> f (fst p) (snd p)
      | SnapEach g h \<Rightarrow> (snap_to g (fst p), snap_to h (snd p))
      | SnapBy g \<Rightarrow> if g = 0 then p else (snap_to g (fst p), snap_to g (snd p)))"

text \<open>Where the element would be without its own offsets.\<close>

definition drag_base :: "drag_env \<Rightarrow> position \<Rightarrow> draggable \<Rightarrow> int \<times> int" where
  "drag_base e pos d =
     (let x = dg_element d; p0 = page_place e x;
          p1 = (if go_ghosting (dg_options d)
                then (fst p0 + fst (ev_realOffset e x) - ps_deltaX pos, snd p0 + snd (ev_realOffset e x) - ps_deltaY pos)
                else p0);
          c = currentDelta d; p2 = (fst p1 - fst c, snd p1 - snd c)
      in case go_scroll (dg_options d) of
           ScrollElement y True \<Rightarrow>
             (fst p2 - (fst (ev_scroll e y) - fst (dg_scrollFrom d)), snd p2 - (snd (ev_scroll e y) - snd (dg_scrollFrom d)))
         | _ \<Rightarrow> p2)"

definition place_at :: "rat option \<times> rat option \<Rightarrow> draggable \<Rightarrow> draggable" where
  "place_at p d =
     (let c = go_constraint (dg_options d);
          d1 = (if c = NoMode \<or> c = Horizontal then (case fst p of None \<Rightarrow> d | Some v \<Rightarrow> d\<lparr>dg_left := Some v\<rparr>) else d)
      in if c = NoMode \<or> c = Vertical then (case snd p of None \<Rightarrow> d1 | Some v \<Rightarrow> d1\<lparr>dg_top := Some v\<rparr>) else d1)"

definition draw_drag :: "drag_env \<Rightarrow> rat option \<times> rat option \<Rightarrow> nat \<Rightarrow> draggables \<Rightarrow> drag_run" where
  "draw_drag e point n = with_obj n (\<lambda>d s.
     case dg_offset d of
       None \<Rightarrow> (s, Some TypeError)
     | Some off \<Rightarrow>
         let b = drag_base e (dp_pos s) d;
             p = (map_option (\<lambda>v. v - of_int (fst b) - of_int (fst off)) (fst point),
                  map_option (\<lambda>v. v - of_int (snd b) - of_int (snd off)) (snd point))
         in (change_obj n (place_at (snap_point (go_snap (dg_options d)) p)) s, None))"

subsection \<open>Scrolling\<close>

definition stopScrolling :: "nat \<Rightarrow> draggables \<Rightarrow> draggables" where
  "stopScrolling n s =
     (case dn_obj s n of
        None \<Rightarrow> s
      | Some d \<Rightarrow>
          (case dg_interval d of
             None \<Rightarrow> s
           | Some h \<Rightarrow> (change_obj n (\<lambda>d. d\<lparr>dg_interval := None\<rparr>) s)
                         \<lparr>dn_intervals := filter (\<lambda>t. fst t \<noteq> h) (dn_intervals s), dn_lastScrollPointer := None\<rparr>))"

definition startScrolling :: "drag_env \<Rightarrow> int \<times> int \<Rightarrow> nat \<Rightarrow> draggables \<Rightarrow> draggables" where
  "startScrolling e speed n s =
     (if fst speed = 0 \<and> snd speed = 0 then s
      else (change_obj n (\<lambda>d. d\<lparr>dg_speed := (fst speed * go_scrollSpeed (dg_options d), snd speed * go_scrollSpeed (dg_options d)),
                               dg_lastScrolled := ev_now e, dg_interval := Some (dn_handle s)\<rparr>) s)
             \<lparr>dn_intervals := dn_intervals s @ [(dn_handle s, n)], dn_handle := Suc (dn_handle s)\<rparr>)"

text \<open>How far the pointer is beyond the margin at either end.\<close>

definition edge_speed :: "int \<Rightarrow> int \<Rightarrow> int \<Rightarrow> int \<Rightarrow> int" where
  "edge_speed sensitivity lo hi v =
     (let s1 = (if v < lo + sensitivity then v - (lo + sensitivity) else 0)
      in if v > hi - sensitivity then v - (hi - sensitivity) else s1)"

definition scroll_speed :: "drag_env \<Rightarrow> position \<Rightarrow> draggable \<Rightarrow> int \<times> int" where
  "scroll_speed e pos d =
     (let (l, t, r, b) =
            (case go_scroll (dg_options d) of
               ScrollElement x _ \<Rightarrow>
                 (let l = fst (ev_page e x) + fst (ev_scroll e x) + ps_deltaX pos;
                      t = snd (ev_page e x) + snd (ev_scroll e x) + ps_deltaY pos; bx = ge_box (ev_geo e) x
                  in (l, t, l + bx_width bx, t + bx_height bx))
             | _ \<Rightarrow> (let ((l, t), w, h) = ev_window e in (l, t, l + w, t + h)));
          sens = go_scrollSensitivity (dg_options d)
      in (edge_speed sens l r (fst (ev_pointer e)), edge_speed sens t b (snd (ev_pointer e))))"

subsection \<open>A drag\<close>

definition show_pointer :: "drag_env \<Rightarrow> int \<times> int \<Rightarrow> nat \<Rightarrow> draggables \<Rightarrow> drag_run" where
  "show_pointer e point element s =
     on_drops (show_drops (ev_geo e) point element) (s\<lparr>dp_pos := position_prepare (ev_geo e) (dp_pos s)\<rparr>)"

definition tell_change :: "nat \<Rightarrow> draggables \<Rightarrow> draggables" where
  "tell_change n s =
     (case dn_obj s n of None \<Rightarrow> s | Some d \<Rightarrow> if go_change (dg_options d) then say (Changed n) s else s)"

definition edge_scrolling :: "drag_env \<Rightarrow> nat \<Rightarrow> draggables \<Rightarrow> draggables" where
  "edge_scrolling e n s =
     (case dn_obj s n of
        None \<Rightarrow> s
      | Some d \<Rightarrow>
          if go_scroll (dg_options d) = NoScroll then s
          else startScrolling e (scroll_speed e (dp_pos s) d) n (stopScrolling n s))"

definition int_point :: "int \<times> int \<Rightarrow> rat option \<times> rat option" where
  "int_point p = (Some (of_int (fst p)), Some (of_int (snd p)))"

definition updateDrag :: "drag_env \<Rightarrow> nat \<Rightarrow> draggables \<Rightarrow> drag_run" where
  "updateDrag e n s =
     seqr (with_obj n (\<lambda>d s. if dg_dragging d then (s, None) else startDrag e n s) s) (\<lambda>s.
     seqr (with_obj n (\<lambda>d s. if go_quiet (dg_options d) then (s, None) else show_pointer e (ev_pointer e) (dg_element d) s) s) (\<lambda>s.
     seqr (draw_drag e (int_point (ev_pointer e)) n (notify_drag OnDrag n s)) (\<lambda>s.
       (say EventStopped (edge_scrolling e n (tell_change n s)), None))))"

definition settle :: "bool \<Rightarrow> nat \<Rightarrow> draggables \<Rightarrow> drag_run" where
  "settle dropped n = with_obj n (\<lambda>d s.
     let revert = (case go_revertFun (dg_options d) of Some f \<Rightarrow> f (dg_element d) | None \<Rightarrow> go_revert (dg_options d));
         c = currentDelta d
     in if revert \<noteq> RvFalse \<and> go_reverteffect (dg_options d) then
          (if \<not> dropped \<or> revert \<noteq> RvFailure then
             (case dg_delta d of
                None \<Rightarrow> (s, Some TypeError)
              | Some old \<Rightarrow> (say (RevertEffect n (snd c - snd old) (fst c - fst old)) s, None))
           else (s, None))
        else (change_obj n (\<lambda>d. d\<lparr>dg_delta := Some c\<rparr>) s, None))"

definition restore_z :: "draggable \<Rightarrow> draggable" where
  "restore_z d = (if go_zindex (dg_options d) = None then d
     else case dg_originalZ d of None \<Rightarrow> d | Some z \<Rightarrow> d\<lparr>dg_zIndex := Some z\<rparr>)"

definition end_of_drag :: "nat \<Rightarrow> draggables \<Rightarrow> draggables" where
  "end_of_drag n s =
     (let s1 = change_obj n restore_z s;
          s2 = (case dn_obj s1 n of None \<Rightarrow> s1 | Some d \<Rightarrow> if go_endeffect (dg_options d) then say (EndEffect n) s1 else s1);
          s3 = deactivate_drag s2
      in fst (on_drops (\<lambda>t. (reset_drops t, None)) s3))"

definition fire_pointer :: "drag_env \<Rightarrow> nat \<Rightarrow> draggables \<Rightarrow> bool \<times> drag_run" where
  "fire_pointer e element s =
     (let (b, t) = fire_drop (ev_geo e) (ev_pointer e) element (droppables.truncate s) in (b, on_drops (\<lambda>_. t) s))"

text \<open>\<open>finishDrag\<close> in its three parts: the end of the ghost, the drop, the notifications and the way back.\<close>

definition leave_drag :: "drag_env \<Rightarrow> nat \<Rightarrow> draggables \<Rightarrow> drag_run" where
  "leave_drag e n s =
     seqr (with_obj n (\<lambda>d s. let s1 = change_obj n (\<lambda>d. d\<lparr>dg_dragging := False\<rparr>) s
             in if go_quiet (dg_options d) then show_pointer e (ev_pointer e) (dg_element d) s1 else (s1, None)) s)
       (with_obj n (\<lambda>d s. if go_ghosting (dg_options d) then drop_ghost n s else (s, None)))"

definition conclude :: "bool \<Rightarrow> nat \<Rightarrow> draggables \<Rightarrow> drag_run" where
  "conclude dropped n = with_obj n (\<lambda>d s.
     seqr (settle dropped n (notify_drag OnEnd n
             (if dropped \<and> go_onDropped (dg_options d) then say (Dropped n) s else s))) (\<lambda>s.
       (end_of_drag n s, None)))"

definition finishDrag :: "drag_env \<Rightarrow> bool \<Rightarrow> nat \<Rightarrow> draggables \<Rightarrow> drag_run" where
  "finishDrag e success n s =
     seqr (leave_drag e n s) (with_obj n (\<lambda>d s.
       let (dropped, r) = (if success then fire_pointer e (dg_element d) s else (False, s, None))
       in seqr r (conclude dropped n)))"

definition keyPress_drag :: "drag_env \<Rightarrow> nat \<Rightarrow> draggables \<Rightarrow> drag_run" where
  "keyPress_drag e n s =
     (if ev_key e \<noteq> 27 then (s, None)
      else seqr (finishDrag e False n s) (\<lambda>s. (say EventStopped s, None)))"

definition endDrag :: "drag_env \<Rightarrow> nat \<Rightarrow> draggables \<Rightarrow> drag_run" where
  "endDrag e n = with_obj n (\<lambda>d s.
     if \<not> dg_dragging d then (s, None)
     else seqr (finishDrag e True n (stopScrolling n s)) (\<lambda>s. (say EventStopped s, None)))"

text \<open>A turn of the interval that scrolls. Without a pointer a target that would be tested reads from nothing.\<close>

definition tested :: "nat \<Rightarrow> droppables \<Rightarrow> drop_target \<Rightarrow> bool" where
  "tested element s d \<longleftrightarrow> dr_element d \<noteq> element
     \<and> (dr_containers d = None \<or> isContained element d s)
     \<and> (case dr_accept d of None \<Rightarrow> True
        | Some cs \<Rightarrow> list_ex (\<lambda>v. v \<in> set cs) (class_names (class_of element (dp_doc s))))"

definition show_last :: "drag_env \<Rightarrow> nat \<Rightarrow> draggables \<Rightarrow> drag_run" where
  "show_last e element s =
     (case dn_lastPointer s of
        Some p \<Rightarrow> show_pointer e p element s
      | None \<Rightarrow>
          if list_ex (tested element (droppables.truncate s)) (dp_drops s)
          then (s\<lparr>dp_pos := position_prepare (ev_geo e) (dp_pos s)\<rparr>, Some TypeError)
          else show_pointer e (0, 0) element s)"

definition scrolled_by :: "int \<Rightarrow> draggable \<Rightarrow> rat \<times> rat" where
  "scrolled_by delta d =
     (of_int (fst (dg_speed d) * delta) / 1000, of_int (snd (dg_speed d) * delta) / 1000)"

definition move_pointer :: "rat \<times> rat \<Rightarrow> draggables \<Rightarrow> rat option \<times> rat option" where
  "move_pointer by' s =
     (let p = (case dn_lastScrollPointer s of Some p \<Rightarrow> p
               | None \<Rightarrow> (case dn_lastPointer s of Some q \<Rightarrow> int_point q | None \<Rightarrow> (None, None)))
      in (map_option (\<lambda>v. max 0 (v + fst by')) (fst p), map_option (\<lambda>v. max 0 (v + snd by')) (snd p)))"

definition scroll_call :: "drag_env \<Rightarrow> int \<Rightarrow> draggable \<Rightarrow> draggables \<Rightarrow> draggables" where
  "scroll_call e delta d s =
     (let by' = scrolled_by delta d in
      case go_scroll (dg_options d) of
        ScrollWindow \<Rightarrow>
          if dg_speed d = (0, 0) then s
          else say (WindowScrolled (of_int (fst (fst (ev_window e))) + fst by') (of_int (snd (fst (ev_window e))) + snd by')) s
      | ScrollElement x _ \<Rightarrow> say (ElementScrolled x (fst by') (snd by')) s
      | NoScroll \<Rightarrow> s)"

definition scroll_drag :: "drag_env \<Rightarrow> nat \<Rightarrow> draggables \<Rightarrow> drag_run" where
  "scroll_drag e n = with_obj n (\<lambda>d s.
     let delta = ev_now e - dg_lastScrolled d;
         s1 = scroll_call e delta d (change_obj n (\<lambda>d. d\<lparr>dg_lastScrolled := ev_now e\<rparr>) s)
     in seqr (show_last e (dg_element d) s1) (\<lambda>s.
        let s2 = notify_drag OnDrag n s
        in seqr (case go_scroll (dg_options d) of
                   ScrollElement _ True \<Rightarrow>
                     (let p = move_pointer (scrolled_by delta d) s2
                      in draw_drag e p n (s2\<lparr>dn_lastScrollPointer := Some p\<rparr>))
                 | _ \<Rightarrow> (s2, None)) (\<lambda>s. (tell_change n s, None))))"

subsection \<open>The events\<close>

definition all_updateDrag :: "drag_env \<Rightarrow> draggables \<Rightarrow> drag_run" where
  "all_updateDrag e s =
     (case dn_active s of
        None \<Rightarrow> (s, None)
      | Some n \<Rightarrow> if dn_lastPointer s = Some (ev_pointer e) then (s, None)
                 else updateDrag e n (s\<lparr>dn_lastPointer := Some (ev_pointer e)\<rparr>))"

definition all_endDrag :: "drag_env \<Rightarrow> draggables \<Rightarrow> drag_run" where
  "all_endDrag e s =
     (let s1 = (case dn_timeout s of None \<Rightarrow> s
                | Some h \<Rightarrow> s\<lparr>dn_timers := filter (\<lambda>t. fst t \<noteq> h) (dn_timers s), dn_timeout := None\<rparr>)
      in case dn_active s1 of
           None \<Rightarrow> (s1, None)
         | Some n \<Rightarrow> seqr (endDrag e n (s1\<lparr>dn_lastPointer := None\<rparr>)) (\<lambda>s. (s\<lparr>dn_active := None\<rparr>, None)))"

definition all_keyPress :: "drag_env \<Rightarrow> draggables \<Rightarrow> drag_run" where
  "all_keyPress e s = (case dn_active s of None \<Rightarrow> (s, None) | Some n \<Rightarrow> keyPress_drag e n s)"

text \<open>The document listens to the mouse and the keys while draggables are registered; a press on the
  handle of a draggable, the timers and the effects come by themselves.\<close>

datatype drag_event =
    Press drag_env nat
  | Move drag_env
  | Release drag_env
  | Key drag_env
  | DelayOver nat
  | ScrollTurn drag_env nat
  | EffectMoves nat "rat option" "rat option"
  | EffectOver drag_env nat

fun drag_step :: "drag_event \<Rightarrow> draggables \<Rightarrow> drag_run" where
  "drag_step (Press e n) s = (if n \<in> fst ` set (dn_handles s) then initDrag e n s else (s, None))"
| "drag_step (Move e) s = (if dn_listening s then all_updateDrag e s else (s, None))"
| "drag_step (Release e) s = (if dn_listening s then all_endDrag e s else (s, None))"
| "drag_step (Key e) s = (if dn_listening s then all_keyPress e s else (s, None))"
| "drag_step (DelayOver h) s = (delay_over h s, None)"
| "drag_step (ScrollTurn e h) s = (case map_of (dn_intervals s) h of None \<Rightarrow> (s, None) | Some n \<Rightarrow> scroll_drag e n s)"
| "drag_step (EffectMoves n l t) s = (change_obj n (\<lambda>d. d\<lparr>dg_left := l, dg_top := t\<rparr>) s, None)"
| "drag_step (EffectOver e n) s = (endeffect_over e n s, None)"

text \<open>A run of events none of which ends in an exception.\<close>

fun run_drags :: "drag_event list \<Rightarrow> draggables \<Rightarrow> draggables option" where
  "run_drags [] s = Some s"
| "run_drags (ev # evs) s = (case drag_step ev s of (s', None) \<Rightarrow> run_drags evs s' | (s', Some e) \<Rightarrow> None)"

end
