(* ===== verification/SortableLife.thy ===== *)
theory SortableLife
  imports Sortable Draggables
begin

text \<open>
  The life of a sortable list: \<open>create\<close> and \<open>destroy\<close> of \<open>Sortable\<close> and the observer of a list, of
  \<open>gserver/public/javascripts/dragdrop.js\<close> (lines 573 to 739). A page is the lists, by the identifier of
  their element, and the state of the drags. The two functions a list hooks to its targets are
  arguments, because they read the lists at the time of the hover; so is the search for a handle. \<open>white\<close>
  tells the texts of white space only.
\<close>

record create_options =
  co_sort :: sort_options
  co_dropOnEmpty :: bool
  co_containment :: "nat list option"
  co_overlap :: axis
  co_constraint :: axis
  co_hoverclass :: "ustr option"
  co_elements :: "nat list option"
  co_handles :: "nat list option"
  co_handle :: "(nat \<Rightarrow> nat option) option"
  co_ghosting :: bool
  co_quiet :: bool
  co_scroll :: scrolling
  co_scrollSensitivity :: int
  co_scrollSpeed :: int
  co_delay :: nat
  co_zindex :: "int option"

record sortable_list =
  sl_element :: nat
  sl_options :: create_options
  sl_draggables :: "nat list"
  sl_droppables :: "nat list"

type_synonym sort_page = "(ustr \<times> sortable_list) list \<times> draggables"

definition drops_do :: "(droppables \<Rightarrow> droppables) \<Rightarrow> draggables \<Rightarrow> draggables" where
  "drops_do f s = fst (on_drops (\<lambda>t. (f t, None)) s)"

definition ident_of :: "nat \<Rightarrow> draggables \<Rightarrow> ustr" where
  "ident_of element s = (case find_node element (dp_doc s) of None \<Rightarrow> [] | Some n \<Rightarrow> n_ident n)"

definition destroy_list :: "nat \<Rightarrow> sort_page \<Rightarrow> sort_page" where
  "destroy_list element p =
     (case map_of (fst p) (ident_of element (snd p)) of
        None \<Rightarrow> p
      | Some l \<Rightarrow>
          let s1 = removeObserver (sl_element l) (snd p);
              s2 = fold (\<lambda>d. drops_do (remove_drop d)) (sl_droppables l) s1;
              s3 = fold destroy_draggable (sl_draggables l) s2
          in (del (ident_of (sl_element l) s3) (fst p), s3))"

text \<open>The options of the draggables and of the targets of a list.\<close>

definition options_for_draggable :: "create_options \<Rightarrow> drag_options" where
  "options_for_draggable co = \<lparr>go_zindex = (case co_zindex co of None \<Rightarrow> Some 1000 | z \<Rightarrow> z),
     go_revert = RvTrue, go_revertFun = None, go_quiet = co_quiet co, go_ghosting = co_ghosting co,
     go_scroll = co_scroll co, go_scrollSensitivity = co_scrollSensitivity co, go_scrollSpeed = co_scrollSpeed co,
     go_snap = NoSnap, go_constraint = co_constraint co, go_delay = co_delay co, go_starteffect = True,
     go_endeffect = True, go_reverteffect = True, go_onStart = False, go_onDrag = False, go_onEnd = False,
     go_onDropped = False, go_change = False\<rparr>"

definition options_for_droppable :: "hover_call \<Rightarrow> create_options \<Rightarrow> drop_target" where
  "options_for_droppable hover co = \<lparr>dr_number = 0, dr_element = 0, dr_containers = co_containment co, dr_accept = None,
     dr_hoverclass = co_hoverclass co, dr_tree = so_tree (co_sort co), dr_overlap = co_overlap co,
     dr_onHover = Some hover, dr_onDrop = None\<rparr>"

definition options_for_tree :: "hover_call \<Rightarrow> create_options \<Rightarrow> drop_target" where
  "options_for_tree hover co = (options_for_droppable hover co)\<lparr>dr_tree := False\<rparr>"

definition fresh_draggable :: "nat \<Rightarrow> placing \<Rightarrow> drag_options \<Rightarrow> draggable" where
  "fresh_draggable element pl opts = \<lparr>dg_element = element, dg_options = opts, dg_dragging = False, dg_delta = None, dg_offset = None,
     dg_left = None, dg_top = None, dg_zIndex = None, dg_originalZ = None, dg_clone = None, dg_placing = pl, dg_origin = None,
     dg_originallyAbsolute = False, dg_scrollFrom = (0, 0), dg_interval = None, dg_speed = (0, 0), dg_lastScrolled = 0\<rparr>"

definition cleanWhitespace :: "(nat \<Rightarrow> bool) \<Rightarrow> nat \<Rightarrow> draggables \<Rightarrow> draggables" where
  "cleanWhitespace white element s =
     (case find_node element (dp_doc s) of
        None \<Rightarrow> s
      | Some n \<Rightarrow> s\<lparr>dp_doc := fold (\<lambda>u. remove_node (n_key u))
                        (filter (\<lambda>u. n_tag u = [] \<and> white (n_key u)) (n_kids n)) (dp_doc s)\<rparr>)"

definition handle_for :: "create_options \<Rightarrow> nat \<Rightarrow> nat \<Rightarrow> nat" where
  "handle_for co i e =
     (case co_handles co of
        Some hs \<Rightarrow> if i < length hs then hs ! i else e
      | None \<Rightarrow> (case co_handle co of None \<Rightarrow> e | Some sel \<Rightarrow> (case sel e of None \<Rightarrow> e | Some h \<Rightarrow> h)))"

text \<open>One element of a list: a draggable and a target.\<close>

definition add_item :: "hover_call \<Rightarrow> create_options \<Rightarrow> nat \<Rightarrow> nat \<times> nat \<Rightarrow> nat list \<times> draggables \<Rightarrow> nat list \<times> draggables" where
  "add_item hover co element ie p =
     (let (i, e) = ie; (drags, s) = p;
          (n, s1) = new_draggable (fresh_draggable e Relative (options_for_draggable co)) (handle_for co i e) s;
          s2 = drops_do (add_drop e (options_for_droppable hover co)) s1;
          s3 = (if so_tree (co_sort co) then s2\<lparr>dp_treeNode := (e, element) # dp_treeNode s2\<rparr> else s2)
      in (drags @ [n], s3))"

definition add_tree_item :: "hover_call \<Rightarrow> create_options \<Rightarrow> nat \<Rightarrow> nat \<Rightarrow> draggables \<Rightarrow> draggables" where
  "add_tree_item hover co element e s =
     (let s1 = drops_do (add_drop e (options_for_tree hover co)) s
      in s1\<lparr>dp_treeNode := (e, element) # dp_treeNode s1\<rparr>)"

definition list_items :: "create_options \<Rightarrow> dtree \<Rightarrow> nat list" where
  "list_items co n = (case co_elements co of Some es \<Rightarrow> es | None \<Rightarrow> map n_key (found_items n (co_sort co)))"

definition tree_items :: "create_options \<Rightarrow> dtree \<Rightarrow> nat list" where
  "tree_items co n =
     (if so_tree (co_sort co) then (case findTreeElements n (co_sort co) of None \<Rightarrow> [] | Some es \<Rightarrow> map n_key es) else [])"

text \<open>\<open>create\<close>; the observer reads the order of the list at once.\<close>

definition create_list ::
  "hover_call \<Rightarrow> hover_call \<Rightarrow> (nat \<Rightarrow> bool) \<Rightarrow> nat \<Rightarrow> create_options \<Rightarrow> sort_page \<Rightarrow> sort_page \<times> js_error option" where
  "create_list hover empty_hover white element co p0 =
     (let p = destroy_list element p0; s = cleanWhitespace white element (snd p) in
      case find_node element (dp_doc s) of
        None \<Rightarrow> ((fst p, s), Some TypeError)
      | Some n \<Rightarrow>
          let whole = co_dropOnEmpty co \<or> so_tree (co_sort co);
              s1 = (if whole then drops_do (add_drop element (options_for_tree empty_hover co)) s else s);
              items = list_items co n;
              (drags, s2) = fold (add_item hover co element) (enumerate 0 items) ([], s1);
              trees = tree_items co n;
              s3 = fold (add_tree_item empty_hover co element) trees s2;
              l = \<lparr>sl_element = element, sl_options = co, sl_draggables = drags,
                   sl_droppables = (if whole then [element] else []) @ items @ trees\<rparr>;
              lists = put (n_ident n) l (fst p)
          in case sort_serialize n (co_sort co) of
               Inl e \<Rightarrow> ((lists, s3), Some e)
             | Inr t \<Rightarrow> ((lists, (addObserver \<lparr>ob_number = dn_handle s3, ob_element = element, ob_phases = [OnStart, OnEnd]\<rparr> s3)
                           \<lparr>dn_handle := Suc (dn_handle s3)\<rparr>), None))"

subsection \<open>Creating and destroying\<close>

lemma drops_do_simps [simp]:
  "dp_drops (drops_do (remove_drop x) s) = filter (\<lambda>d. dr_element d \<noteq> x) (dp_drops s)"
  "dp_drops (drops_do (add_drop x d) s) = dp_drops s @ [d\<lparr>dr_number := dp_next s, dr_element := x\<rparr>]"
  "dp_doc (drops_do (remove_drop x) s) = dp_doc s" "dp_doc (drops_do (add_drop x d) s) = dp_doc s"
  "dn_drags (drops_do f s) = dn_drags s" "dn_handles (drops_do f s) = dn_handles s" "dn_listening (drops_do f s) = dn_listening s"
  "dn_observers (drops_do f s) = dn_observers s" "dn_counts (drops_do f s) = dn_counts s" "dn_handle (drops_do f s) = dn_handle s"
  by (simp_all add: drops_do_def on_drops_def remove_drop_def add_drop_def droppables.defs case_prod_beta)

text \<open>What a page registers.\<close>

definition registers :: "draggables \<Rightarrow> drop_target list \<times> nat list \<times> (nat \<times> nat) list \<times> drag_observer list \<times> (phase \<Rightarrow> nat) \<times> bool" where
  "registers s = (dp_drops s, dn_drags s, dn_handles s, dn_observers s, dn_counts s, dn_listening s)"

lemma add_items_registers:
  assumes "fold (add_item hover co element) ies (drags, s) = (drags', s')"
  shows "\<exists>new ns hs. dp_drops s' = dp_drops s @ new \<and> map dr_element new = map snd ies \<and> drags' = drags @ ns
    \<and> dn_drags s' = dn_drags s @ ns \<and> dn_handles s' = dn_handles s @ hs \<and> map fst hs = ns \<and> (\<forall>n \<in> set ns. dn_handle s \<le> n)
    \<and> dn_handle s \<le> dn_handle s' \<and> dn_observers s' = dn_observers s \<and> dn_counts s' = dn_counts s \<and> dp_doc s' = dp_doc s
    \<and> ((dn_listening s \<longleftrightarrow> dn_drags s \<noteq> []) \<longrightarrow> (dn_listening s' \<longleftrightarrow> dn_drags s' \<noteq> []))"
  using assms
proof (induction ies arbitrary: drags s)
  case (Cons ie ies)
  obtain i e where ie: "ie = (i, e)" by (cases ie)
  obtain drags1 s1 where 1: "add_item hover co element ie (drags, s) = (drags1, s1)" by fastforce
  have f: "drags1 = drags @ [dn_handle s]" "dn_drags s1 = dn_drags s @ [dn_handle s]"
    "dn_handles s1 = dn_handles s @ [(dn_handle s, handle_for co i e)]" "dn_handle s1 = Suc (dn_handle s)"
    "dn_observers s1 = dn_observers s" "dn_counts s1 = dn_counts s" "dp_doc s1 = dp_doc s"
    "dn_listening s1 = (dn_drags s = [] \<or> dn_listening s)"
    "\<exists>d. dp_drops s1 = dp_drops s @ [d] \<and> dr_element d = e"
    using 1 by (auto simp: ie add_item_def new_draggable_def register_drag_def Let_def split: if_splits)
  obtain d where d: "dp_drops s1 = dp_drops s @ [d]" "dr_element d = e" using f(9) by blast
  have "fold (add_item hover co element) ies (drags1, s1) = (drags', s')" using Cons.prems 1 by simp
  from Cons.IH [OF this] obtain new ns hs where ih:
    "dp_drops s' = dp_drops s1 @ new" "map dr_element new = map snd ies" "drags' = drags1 @ ns" "dn_drags s' = dn_drags s1 @ ns"
    "dn_handles s' = dn_handles s1 @ hs" "map fst hs = ns" "\<forall>n \<in> set ns. dn_handle s1 \<le> n" "dn_handle s1 \<le> dn_handle s'"
    "dn_observers s' = dn_observers s1" "dn_counts s' = dn_counts s1" "dp_doc s' = dp_doc s1"
    "(dn_listening s1 \<longleftrightarrow> dn_drags s1 \<noteq> []) \<longrightarrow> (dn_listening s' \<longleftrightarrow> dn_drags s' \<noteq> [])" by blast
  show ?case
  proof (intro exI conjI impI)
    show "dp_drops s' = dp_drops s @ (d # new)" "map dr_element (d # new) = map snd (ie # ies)"
      using ih(1,2) d by (simp_all add: ie)
    show "drags' = drags @ (dn_handle s # ns)" "dn_drags s' = dn_drags s @ (dn_handle s # ns)" using ih(3,4) f(1,2) by simp_all
    show "dn_handles s' = dn_handles s @ ((dn_handle s, handle_for co i e) # hs)" using ih(5) f(3) by simp
    show "map fst ((dn_handle s, handle_for co i e) # hs) = dn_handle s # ns" using ih(6) by simp
    show "\<forall>n \<in> set (dn_handle s # ns). dn_handle s \<le> n" "dn_handle s \<le> dn_handle s'" using ih(7,8) f(4) by auto
    show "dn_observers s' = dn_observers s" "dn_counts s' = dn_counts s" "dp_doc s' = dp_doc s" using ih(9-11) f(5-7) by simp_all
    show "dn_listening s' \<longleftrightarrow> dn_drags s' \<noteq> []" if "dn_listening s \<longleftrightarrow> dn_drags s \<noteq> []"
      using ih(12) f(2,8) that by simp
  qed
qed auto

lemma add_trees_registers:
  "\<exists>new. dp_drops (fold (add_tree_item hover co element) es s) = dp_drops s @ new \<and> map dr_element new = es
    \<and> registers (fold (add_tree_item hover co element) es s) = (dp_drops s @ new, snd (registers s))
    \<and> dp_doc (fold (add_tree_item hover co element) es s) = dp_doc s
    \<and> dn_handle (fold (add_tree_item hover co element) es s) = dn_handle s"
proof (induction es arbitrary: s)
  case (Cons e es)
  let ?s1 = "add_tree_item hover co element e s"
  obtain d where d: "registers ?s1 = (dp_drops s @ [d], snd (registers s))" "dr_element d = e" "dp_doc ?s1 = dp_doc s" "dn_handle ?s1 = dn_handle s"
    by (auto simp: add_tree_item_def registers_def Let_def)
  then have r: "dp_drops ?s1 = dp_drops s @ [d]" "snd (registers ?s1) = snd (registers s)" by (simp_all add: registers_def)
  from Cons.IH [of ?s1] obtain new where new: "dp_drops (fold (add_tree_item hover co element) es ?s1) = dp_drops ?s1 @ new" "map dr_element new = es"
    "registers (fold (add_tree_item hover co element) es ?s1) = (dp_drops ?s1 @ new, snd (registers ?s1))"
    "dp_doc (fold (add_tree_item hover co element) es ?s1) = dp_doc ?s1" "dn_handle (fold (add_tree_item hover co element) es ?s1) = dn_handle ?s1" by blast
  then show ?case using d(2-4) r by (intro exI [of _ "d # new"]) simp
qed (auto simp: registers_def)

lemma remove_drops_registers:
  "registers (fold (\<lambda>x. drops_do (remove_drop x)) xs s) = (filter (\<lambda>d. dr_element d \<notin> set xs) (dp_drops s), snd (registers s))
   \<and> dp_doc (fold (\<lambda>x. drops_do (remove_drop x)) xs s) = dp_doc s"
proof (induction xs arbitrary: s)
  case (Cons x xs)
  have "filter (\<lambda>d. dr_element d \<notin> set xs) (filter (\<lambda>d. dr_element d \<noteq> x) ds) = filter (\<lambda>d. dr_element d \<notin> set (x # xs)) ds" for ds :: "drop_target list"
    by (auto intro: filter_cong)
  then show ?case using Cons.IH [of "drops_do (remove_drop x) s"] by (simp add: registers_def)
qed (simp add: registers_def)

lemma destroy_drags_registers:
  "dn_listening s \<longleftrightarrow> dn_drags s \<noteq> [] \<Longrightarrow>
   registers (fold destroy_draggable ns s) = (dp_drops s, filter (\<lambda>n. n \<notin> set ns) (dn_drags s), filter (\<lambda>h. fst h \<notin> set ns) (dn_handles s),
     dn_observers s, dn_counts s, filter (\<lambda>n. n \<notin> set ns) (dn_drags s) \<noteq> []) \<and> dp_doc (fold destroy_draggable ns s) = dp_doc s"
proof (induction ns arbitrary: s)
  case (Cons n ns)
  let ?s1 = "destroy_draggable n s"
  have f: "dn_drags ?s1 = filter (\<lambda>d. d \<noteq> n) (dn_drags s)" "dn_handles ?s1 = filter (\<lambda>h. fst h \<noteq> n) (dn_handles s)"
    "dp_drops ?s1 = dp_drops s" "dn_observers ?s1 = dn_observers s" "dn_counts ?s1 = dn_counts s" "dp_doc ?s1 = dp_doc s"
    by (simp_all add: destroy_draggable_def unregister_drag_def Let_def)
  have l: "dn_listening ?s1 \<longleftrightarrow> dn_drags ?s1 \<noteq> []"
    using Cons.prems by (cases "dn_drags s = []") (auto simp: destroy_draggable_def unregister_drag_def Let_def)
  have "filter (\<lambda>d. d \<notin> set ns) (filter (\<lambda>d. d \<noteq> n) ds) = filter (\<lambda>d. d \<notin> set (n # ns)) ds"
    "filter (\<lambda>h. fst h \<notin> set ns) (filter (\<lambda>h. fst h \<noteq> n) hs) = filter (\<lambda>h. fst h \<notin> set (n # ns)) hs" for ds :: "nat list" and hs :: "(nat \<times> nat) list"
    by (auto intro: filter_cong)
  then show ?case using Cons.IH [OF l] by (simp add: f)
qed (simp add: registers_def)

lemma put_del_new: "map_of ps k = None \<Longrightarrow> del k (put k v ps) = ps"
  by (auto simp: put_new map_of_eq_None_iff del_def filter_id_conv)

text \<open>What \<open>create\<close> registers, for a list that was not there.\<close>

lemma create_registers:
  assumes "create_list hover empty_hover white element co (known, s) = ((known', s'), None)"
    and "map_of known (ident_of element s) = None" and "dn_listening s \<longleftrightarrow> dn_drags s \<noteq> []"
  shows "\<exists>l new hs ob. known' = put (ident_of element s') l known \<and> sl_element l = element
    \<and> dp_drops s' = dp_drops s @ new \<and> map dr_element new = sl_droppables l
    \<and> dn_drags s' = dn_drags s @ sl_draggables l \<and> dn_handles s' = dn_handles s @ hs \<and> map fst hs = sl_draggables l
    \<and> (\<forall>n \<in> set (sl_draggables l). dn_handle s \<le> n)
    \<and> dn_observers s' = dn_observers s @ [ob] \<and> ob_element ob = element \<and> (dn_listening s' \<longleftrightarrow> dn_drags s' \<noteq> [])"
proof -
  let ?c = "cleanWhitespace white element s"
  have c: "registers ?c = registers s" "dn_handle ?c = dn_handle s"
    by (auto simp: cleanWhitespace_def registers_def split: option.split)
  have p: "destroy_list element (known, s) = (known, s)" using assms(2) by (simp add: destroy_list_def)
  obtain n where n: "find_node element (dp_doc ?c) = Some n"
    using assms(1) p by (auto simp: create_list_def Let_def split: option.splits)
  define whole where "whole \<longleftrightarrow> co_dropOnEmpty co \<or> so_tree (co_sort co)"
  define s1 where "s1 = (if whole then drops_do (add_drop element (options_for_tree empty_hover co)) ?c else ?c)"
  obtain drags s2 where 2: "fold (add_item hover co element) (enumerate 0 (list_items co n)) ([], s1) = (drags, s2)" by fastforce
  define s3 where "s3 = fold (add_tree_item empty_hover co element) (tree_items co n) s2"
  define l where "l = \<lparr>sl_element = element, sl_options = co, sl_draggables = drags,
      sl_droppables = (if whole then [element] else []) @ list_items co n @ tree_items co n\<rparr>"
  define ob where "ob = \<lparr>ob_number = dn_handle s3, ob_element = element, ob_phases = [OnStart, OnEnd]\<rparr>"
  have eq: "create_list hover empty_hover white element co (known, s) = (case sort_serialize n (co_sort co) of
      Inl e \<Rightarrow> ((put (n_ident n) l known, s3), Some e)
    | Inr t \<Rightarrow> ((put (n_ident n) l known, (addObserver ob s3)\<lparr>dn_handle := Suc (dn_handle s3)\<rparr>), None))"
    unfolding create_list_def p Let_def prod.sel n option.case whole_def [symmetric] s1_def [symmetric] 2 prod.case s3_def l_def ob_def
    by (rule refl)
  have fin: "known' = put (n_ident n) l known" "s' = (addObserver ob s3)\<lparr>dn_handle := Suc (dn_handle s3)\<rparr>"
    using assms(1) unfolding eq by (auto split: sum.splits)
  have "\<exists>new. dp_drops s1 = dp_drops s @ new \<and> map dr_element new = (if whole then [element] else [])"
    using c by (simp add: s1_def registers_def)
  then obtain new1 where 1: "dp_drops s1 = dp_drops s @ new1" "map dr_element new1 = (if whole then [element] else [])" by blast
  have r1: "snd (registers s1) = snd (registers s)" "dn_handle s1 = dn_handle s" "dp_doc s1 = dp_doc ?c"
    using c by (simp_all add: s1_def registers_def)
  obtain new2 hs where i:
    "dp_drops s2 = dp_drops s1 @ new2" "map dr_element new2 = list_items co n" "dn_drags s2 = dn_drags s1 @ drags"
    "dn_handles s2 = dn_handles s1 @ hs" "map fst hs = drags" "\<forall>m \<in> set drags. dn_handle s1 \<le> m"
    "dn_observers s2 = dn_observers s1" "dn_counts s2 = dn_counts s1" "dp_doc s2 = dp_doc s1"
    "(dn_listening s1 \<longleftrightarrow> dn_drags s1 \<noteq> []) \<longrightarrow> (dn_listening s2 \<longleftrightarrow> dn_drags s2 \<noteq> [])"
    using add_items_registers [OF 2] unfolding map_snd_enumerate append_Nil by blast
  from add_trees_registers [of empty_hover co element "tree_items co n" s2] obtain new3 where t:
    "dp_drops s3 = dp_drops s2 @ new3" "map dr_element new3 = tree_items co n" "snd (registers s3) = snd (registers s2)"
    "dp_doc s3 = dp_doc s2" unfolding s3_def by auto
  have d: "dp_doc s' = dp_doc ?c" using fin(2) t(4) i(9) r1(3) by (simp add: addObserver_def cacheObserverCallbacks_def)
  have id: "ident_of element s' = n_ident n" using d n by (simp add: ident_of_def)
  show ?thesis
  proof (intro exI conjI)
    show "known' = put (ident_of element s') l known" using fin(1) id by simp
    show "sl_element l = element" by (simp add: l_def)
    show "dp_drops s' = dp_drops s @ (new1 @ new2 @ new3)"
      using fin(2) t(1) i(1) 1(1) by (simp add: addObserver_def cacheObserverCallbacks_def)
    show "map dr_element (new1 @ new2 @ new3) = sl_droppables l" using 1(2) i(2) t(2) by (simp add: l_def)
    show "dn_drags s' = dn_drags s @ sl_draggables l" "dn_handles s' = dn_handles s @ hs"
      using fin(2) t(3) i(3,4) r1(1) by (simp_all add: addObserver_def cacheObserverCallbacks_def registers_def l_def)
    show "map fst hs = sl_draggables l" "\<forall>n \<in> set (sl_draggables l). dn_handle s \<le> n" using i(5,6) r1(2) by (simp_all add: l_def)
    show "dn_observers s' = dn_observers s @ [ob]"
      using fin(2) t(3) i(7) r1(1) by (simp add: addObserver_def cacheObserverCallbacks_def registers_def)
    show "ob_element ob = element" by (simp add: ob_def)
    show "dn_listening s' \<longleftrightarrow> dn_drags s' \<noteq> []"
      using fin(2) t(3) i(10) r1(1) assms(3) by (simp add: addObserver_def cacheObserverCallbacks_def registers_def)
  qed
qed

text \<open>
  C33. Destroying a list right after it was created gives the page back what was registered before: the targets,
  the draggables with their handles, the observers and their counts, the listeners of the document and the
  table of lists.
\<close>

theorem create_destroy:
  assumes "create_list hover empty_hover white element co (known, s) = ((known', s'), None)"
    and "map_of known (ident_of element s) = None" and "ident_of element s' = ident_of element s"
    and "map_of known' (ident_of element s) = Some l"
    and "\<forall>d \<in> set (dp_drops s). dr_element d \<notin> set (sl_droppables l)"
    and "\<forall>ob \<in> set (dn_observers s). ob_element ob \<noteq> element" and "cacheObserverCallbacks s = s"
    and "dn_listening s \<longleftrightarrow> dn_drags s \<noteq> []"
    and "\<forall>n \<in> set (dn_drags s) \<union> fst ` set (dn_handles s). n < dn_handle s"
  shows "\<exists>s''. destroy_list element (known', s') = (known, s'') \<and> registers s'' = registers s"
proof -
  from create_registers [OF assms(1,2,8)] obtain l' new hs ob where c:
    "known' = put (ident_of element s') l' known" "sl_element l' = element"
    "dp_drops s' = dp_drops s @ new" "map dr_element new = sl_droppables l'"
    "dn_drags s' = dn_drags s @ sl_draggables l'" "dn_handles s' = dn_handles s @ hs" "map fst hs = sl_draggables l'"
    "\<forall>n \<in> set (sl_draggables l'). dn_handle s \<le> n"
    "dn_observers s' = dn_observers s @ [ob]" "ob_element ob = element" "dn_listening s' \<longleftrightarrow> dn_drags s' \<noteq> []" by blast
  have l: "l' = l" using c(1) assms(3,4) by simp
  let ?s1 = "removeObserver element s'"
  let ?s2 = "fold (\<lambda>x. drops_do (remove_drop x)) (sl_droppables l) ?s1"
  let ?s3 = "fold destroy_draggable (sl_draggables l) ?s2"
  have o: "filter (\<lambda>ob. ob_element ob \<noteq> element) (dn_observers s') = dn_observers s"
    using assms(6) c(9,10) by (simp add: filter_id_conv)
  have cnt: "dn_counts s = (\<lambda>p. length (filter (\<lambda>ob. p \<in> set (ob_phases ob)) (dn_observers s)))"
    using arg_cong [OF assms(7), of dn_counts] by (simp add: cacheObserverCallbacks_def)
  have r1: "registers ?s1 = (dp_drops s', dn_drags s', dn_handles s', dn_observers s, dn_counts s, dn_listening s')"
    by (simp add: registers_def removeObserver_def cacheObserverCallbacks_def o cnt)
  note r2 = remove_drops_registers [of "sl_droppables l" ?s1]
  have "set (map dr_element new) = set (sl_droppables l)" using c(4) l by simp
  then have "filter (\<lambda>d. dr_element d \<notin> set (sl_droppables l)) (dp_drops s') = dp_drops s"
    using c(3) assms(5) by (auto simp: filter_id_conv filter_empty_conv)
  then have r2': "registers ?s2 = (dp_drops s, dn_drags s', dn_handles s', dn_observers s, dn_counts s, dn_listening s')"
    using r1 r2 by (simp add: registers_def)
  then have "dn_listening ?s2 \<longleftrightarrow> dn_drags ?s2 \<noteq> []" using c(11) by (simp add: registers_def)
  note r3 = destroy_drags_registers [OF this, of "sl_draggables l"]
  have "m \<notin> set (sl_draggables l)" if "m < dn_handle s" for m using c(8) l that by fastforce
  then have "\<forall>n \<in> set (dn_drags s). n \<notin> set (sl_draggables l)" "\<forall>h \<in> set (dn_handles s). fst h \<notin> set (sl_draggables l)"
    using assms(9) by auto
  moreover have "\<forall>h \<in> set hs. fst h \<in> set (sl_draggables l)" unfolding c(7) [symmetric] l [symmetric] by simp
  ultimately have "filter (\<lambda>n. n \<notin> set (sl_draggables l)) (dn_drags s') = dn_drags s"
    "filter (\<lambda>h. fst h \<notin> set (sl_draggables l)) (dn_handles s') = dn_handles s"
    using c(5,6) l by (simp_all add: filter_id_conv filter_empty_conv)
  then have reg: "registers ?s3 = registers s" using r3 r2' assms(8) by (simp add: registers_def)
  have "dp_doc ?s3 = dp_doc s'" using r3 r2 by (simp add: removeObserver_def cacheObserverCallbacks_def)
  then have id: "ident_of element ?s3 = ident_of element s" using assms(3) by (simp add: ident_of_def)
  have "del (ident_of element s) known' = known" using c(1) assms(2,3) put_del_new by simp
  then have "destroy_list element (known', s') = (known, ?s3)"
    using assms(3,4) c(2) l id by (simp add: destroy_list_def Let_def)
  then show ?thesis using reg by blast
qed

end
