(* ===== verification/DropProps.thy ===== *)
theory DropProps
  imports Droppables
begin

text \<open>
  Facts on the targets of a drag: which of them a point affects, and that the one that is activated is
  the innermost of these.
\<close>

subsection \<open>What is inside what\<close>

lemma path_suffix: "distinct (keys t) \<Longrightarrow> path_to d t = Some (as @ x # bs) \<Longrightarrow> path_to x t = Some bs"
proof (induction as arbitrary: d)
  case (Cons a as)
  then have "path_to a t = Some (as @ x # bs)" using path_step [of t d a "as @ x # bs"] by simp
  then show ?case by (rule Cons.IH [OF Cons.prems(1)])
next
  case Nil
  then show ?case using path_step [of t d x bs] by simp
qed

lemma isParent_path: "isParent d x t \<longleftrightarrow> d \<noteq> x \<and> (\<exists>p. path_to d t = Some p \<and> x \<in> set p)"
  by (auto simp: isParent_def is_parent_loop_iff split: option.split)

lemma path_irrefl:
  assumes "distinct (keys t)" and "path_to d t = Some p"
  shows "d \<notin> set p"
proof
  assume "d \<in> set p"
  then obtain as bs where p: "p = as @ d # bs" by (meson split_list)
  then have "path_to d t = Some bs" using path_suffix [OF assms(1)] assms(2) by blast
  then show False using assms(2) p by simp
qed

lemma isParent_trans:
  assumes "distinct (keys t)" and "isParent a b t" and "isParent b c t"
  shows "isParent a c t"
proof -
  obtain p where p: "path_to a t = Some p" "b \<in> set p" using assms(2) by (auto simp: isParent_path)
  then obtain as bs where s: "p = as @ b # bs" by (meson split_list)
  have "path_to b t = Some bs" using path_suffix [OF assms(1)] p(1) s by blast
  then have "c \<in> set bs" using assms(3) by (auto simp: isParent_path)
  then have c: "c \<in> set p" using s by simp
  then show ?thesis using p(1) path_irrefl [OF assms(1) p(1)] by (auto simp: isParent_path)
qed

lemma isParent_irrefl [simp]: "\<not> isParent a a t"
  by (simp add: isParent_path)

lemma deepest_loop_innermost:
  assumes "distinct (keys t)"
  shows "deepest_loop t d0 ds \<in> set (d0 # ds)
    \<and> (deepest_loop t d0 ds = d0 \<or> isParent (dr_element (deepest_loop t d0 ds)) (dr_element d0) t)
    \<and> (\<forall>e \<in> set (d0 # ds). \<not> isParent (dr_element e) (dr_element (deepest_loop t d0 ds)) t)"
proof (induction ds arbitrary: d0)
  case (Cons d ds)
  note tr = isParent_trans [OF assms]
  show ?case
  proof (cases "isParent (dr_element d) (dr_element d0) t")
    case True
    let ?D = "deepest_loop t d ds"
    note ih = Cons.IH [of d]
    have "isParent (dr_element ?D) (dr_element d0) t" using ih True tr by metis
    moreover have "\<not> isParent (dr_element d0) (dr_element ?D) t" using calculation tr isParent_irrefl by blast
    ultimately show ?thesis using ih True by auto
  next
    case False
    let ?D = "deepest_loop t d0 ds"
    note ih = Cons.IH [of d0]
    have "\<not> isParent (dr_element d) (dr_element ?D) t" using ih False tr by metis
    then show ?thesis using ih False by auto
  qed
qed simp

subsection \<open>Which targets are affected\<close>

text \<open>A test changes what \<open>Position\<close> has cached, and nothing that a test reads.\<close>

definition pos_like :: "droppables \<Rightarrow> droppables \<Rightarrow> bool" where
  "pos_like s u \<longleftrightarrow> u = s\<lparr>dp_pos := dp_pos u\<rparr> \<and> ps_include (dp_pos u) = ps_include (dp_pos s)
     \<and> ps_deltaX (dp_pos u) = ps_deltaX (dp_pos s) \<and> ps_deltaY (dp_pos u) = ps_deltaY (dp_pos s)"

lemma pos_like_refl [simp]: "pos_like s s"
  by (simp add: pos_like_def)

lemma pos_like_trans: "pos_like s u \<Longrightarrow> pos_like u v \<Longrightarrow> pos_like s v"
  unfolding pos_like_def by (cases s; cases u; cases v) simp

lemma pos_likeD: "pos_like s u \<Longrightarrow> dp_doc u = dp_doc s \<and> dp_drops u = dp_drops s \<and> dp_last u = dp_last s \<and> dp_treeNode u = dp_treeNode s"
  unfolding pos_like_def by (cases s; cases u) simp

lemma isAffected_like: "pos_like s (snd (isAffected g point element d s))"
  by (auto simp: isAffected_def within_box_def withinIncludingScrolloffsets_def pos_like_def Let_def)

lemma isAffected_cong:
  assumes "pos_like s u"
  shows "fst (isAffected g point element d u) = fst (isAffected g point element d s)"
proof -
  have e: "dp_doc u = dp_doc s" "dp_treeNode u = dp_treeNode s" using pos_likeD [OF assms] by auto
  have p: "ps_include (dp_pos u) = ps_include (dp_pos s)" "ps_deltaX (dp_pos u) = ps_deltaX (dp_pos s)"
    "ps_deltaY (dp_pos u) = ps_deltaY (dp_pos s)" using assms unfolding pos_like_def by blast+
  have c: "isContained element d u = isContained element d s" by (simp only: isContained_def e)
  have w: "fst (within_box g x a b (dp_pos u)) = fst (within_box g x a b (dp_pos s))" for x a b
    by (simp add: within_box_def withinIncludingScrolloffsets_def Let_def p)
  have f: "fst (isAffected g point element d v) = (dr_element d \<noteq> element
         \<and> (dr_containers d = None \<or> isContained element d v)
         \<and> (case dr_accept d of None \<Rightarrow> True
            | Some cs \<Rightarrow> list_ex (\<lambda>v. v \<in> set cs) (class_names (class_of element (dp_doc v))))
         \<and> fst (within_box g (dr_element d) (fst point) (snd point) (dp_pos v)))" for v
    by (simp add: isAffected_def case_prod_beta)
  show ?thesis by (simp only: f c e w)
qed

lemma affected_drops_filter:
  "fst (affected_drops g point element ds s) = filter (\<lambda>d. fst (isAffected g point element d s)) ds
   \<and> pos_like s (snd (affected_drops g point element ds s))"
proof (induction ds arbitrary: s)
  case (Cons d ds)
  obtain b s1 where 1: "isAffected g point element d s = (b, s1)" by fastforce
  obtain as s2 where 2: "affected_drops g point element ds s1 = (as, s2)" by fastforce
  have l: "pos_like s s1" using isAffected_like [of s g point element d] 1 by simp
  then have "filter (\<lambda>d. fst (isAffected g point element d s1)) ds = filter (\<lambda>d. fst (isAffected g point element d s)) ds"
    by (simp add: isAffected_cong)
  then show ?case using Cons.IH [of s1] 1 2 pos_like_trans [OF l] by auto
qed simp

lemma hover_target_active: "hover_target g point element d s = (s', None) \<Longrightarrow> same_drop (dp_last s') (Some d)"
  by (cases "dp_last s") (auto simp: hover_target_def activate_drop_def same_drop_def Let_def split: sum.splits if_splits)

text \<open>
  C32. After a pointer was shown to the targets the active one is affected by it and none of the other affected
  targets lies inside it; no target is active when none is affected.
\<close>

theorem show_activates_innermost:
  assumes "distinct (keys (dp_doc s))" and "dp_drops s \<noteq> []" and "show_drops g point element s = (s', None)"
  shows "case filter (\<lambda>d. fst (isAffected g point element d s)) (dp_drops s) of
      [] \<Rightarrow> dp_last s' = None
    | a # as \<Rightarrow> \<exists>d \<in> set (a # as). same_drop (dp_last s') (Some d)
        \<and> (\<forall>e \<in> set (a # as). \<not> isParent (dr_element e) (dr_element d) (dp_doc s))"
proof -
  let ?A = "filter (\<lambda>d. fst (isAffected g point element d s)) (dp_drops s)"
  obtain s1 where 1: "affected_drops g point element (dp_drops s) s = (?A, s1)" "pos_like s s1"
    using affected_drops_filter [of g point element "dp_drops s" s] by (cases "affected_drops g point element (dp_drops s) s") auto
  note doc = pos_likeD [OF 1(2)]
  show ?thesis
  proof (cases ?A)
    case Nil
    then have "dp_last s' = None"
      using assms(2,3) 1(1)
      by (cases "dp_last s1") (simp_all add: show_drops_def Let_def same_drop_def deactivate_drop_def, auto)
    then show ?thesis using Nil by simp
  next
    case (Cons a as)
    let ?D = "deepest_loop (dp_doc s) a as"
    have "same_drop (dp_last s') (Some ?D)"
      using assms(2,3) 1(1) doc Cons
      by (intro hover_target_active) (simp add: show_drops_def Let_def)
    then show ?thesis using deepest_loop_innermost [OF assms(1), of a as] Cons by auto
  qed
qed

theorem show_activates_innermost_witness:
  "\<exists>s' d. show_drops \<lparr>ge_box = (\<lambda>_. \<lparr>bx_left = 0, bx_top = 0, bx_width = 9, bx_height = 9\<rparr>), ge_scrolled = (\<lambda>_. (0, 0)), ge_window = []\<rparr>
      (4, 4) 5 \<lparr>dp_doc = DNode 0 [] [] [] [DNode 1 [] [] [] [DNode 2 [] [] [] []], DNode 5 [] [] [] []], dp_treeNode = [], dp_next = 2,
        dp_drops = [\<lparr>dr_number = 0, dr_element = 1, dr_containers = None, dr_accept = None, dr_hoverclass = None, dr_tree = False,
            dr_overlap = NoMode, dr_onHover = None, dr_onDrop = None\<rparr>,
          \<lparr>dr_number = 1, dr_element = 2, dr_containers = None, dr_accept = None, dr_hoverclass = None, dr_tree = False,
            dr_overlap = NoMode, dr_onHover = None, dr_onDrop = None\<rparr>],
        dp_last = None, dp_pos = \<lparr>ps_include = False, ps_deltaX = 0, ps_deltaY = 0, ps_xcomp = 0, ps_ycomp = 0, ps_offset = (0, 0)\<rparr>\<rparr>
      = (s', None) \<and> dp_last s' = Some d \<and> dr_element d = 2"
proof -
  let ?g = "\<lparr>ge_box = (\<lambda>_. \<lparr>bx_left = 0, bx_top = 0, bx_width = 9, bx_height = 9\<rparr>), ge_scrolled = (\<lambda>_. (0, 0)), ge_window = []\<rparr>"
  let ?d = "\<lambda>n x. \<lparr>dr_number = n, dr_element = x, dr_containers = None, dr_accept = None, dr_hoverclass = None, dr_tree = False,
            dr_overlap = NoMode, dr_onHover = None, dr_onDrop = None\<rparr>"
  let ?s = "\<lparr>dp_doc = DNode 0 [] [] [] [DNode 1 [] [] [] [DNode 2 [] [] [] []], DNode 5 [] [] [] []], dp_treeNode = [], dp_next = 2,
        dp_drops = [?d 0 1, ?d 1 2],
        dp_last = None, dp_pos = \<lparr>ps_include = False, ps_deltaX = 0, ps_deltaY = 0, ps_xcomp = 0, ps_ycomp = 0, ps_offset = (0, 0)\<rparr>\<rparr>"
  have d: "distinct (keys (dp_doc ?s))" "dp_drops ?s \<noteq> []" by simp_all
  obtain s' where s': "show_drops ?g (4, 4) 5 ?s = (s', None)" "dp_last s' = Some (?d 1 2)"
    by (simp add: show_drops_def isAffected_def within_box_def inside_box_def isParent_def hover_target_def activate_drop_def
        same_drop_def Let_def)
  from show_activates_innermost [OF d s'(1)] have "dp_last s' \<noteq> None"
    by (auto simp: isAffected_def within_box_def inside_box_def same_drop_def Let_def)
  then show ?thesis using s' by (intro exI [of _ s'] exI [of _ "?d 1 2"]) simp
qed

end
