(* ===== verification/DragProps.thy ===== *)
theory DragProps
  imports SortableLife DropProps
begin

text \<open>
  What a drag does: its notifications form a drag from start to end, the element follows the pointer, and
  what Escape leaves behind.
\<close>

lemma seqr_None: "seqr r f = (s', None) \<longleftrightarrow> (\<exists>s. r = (s, None) \<and> f s = (s', None))"
  by (cases r) (auto simp: seqr_def split: option.split)

lemma with_obj_None: "with_obj n f s = (s', None) \<longleftrightarrow> (\<exists>d. dn_obj s n = Some d \<and> f d s = (s', None))"
  by (auto simp: with_obj_def split: option.split)

subsection \<open>The life of a drag\<close>

definition dragging :: "nat \<Rightarrow> draggables \<Rightarrow> bool" where
  "dragging n s \<longleftrightarrow> (case dn_obj s n of None \<Rightarrow> False | Some d \<Rightarrow> dg_dragging d)"

fun notified :: "nat \<Rightarrow> notice list \<Rightarrow> phase list" where
  "notified n [] = []"
| "notified n (Notified p m # ns) = (if m = n then p # notified n ns else notified n ns)"
| "notified n (_ # ns) = notified n ns"

text \<open>The notifications of a draggable one by one, from not dragging or dragging. In a strict life every
  notification is in its place; otherwise a drag only never starts again before it ended.\<close>

fun life :: "bool \<Rightarrow> bool \<Rightarrow> phase list \<Rightarrow> bool option" where
  "life strict b [] = Some b"
| "life strict b (OnStart # ps) = (if b then None else life strict True ps)"
| "life strict b (OnDrag # ps) = (if b \<or> \<not> strict then life strict b ps else None)"
| "life strict b (OnEnd # ps) = (if b \<or> \<not> strict then life strict False ps else None)"

definition interval_of :: "nat \<Rightarrow> draggables \<Rightarrow> nat option" where
  "interval_of n s = (case dn_obj s n of None \<Rightarrow> None | Some d \<Rightarrow> dg_interval d)"

lemma life_append: "life strict b (ps @ qs) = (case life strict b ps of None \<Rightarrow> None | Some c \<Rightarrow> life strict c qs)"
  by (induction strict b ps rule: life.induct) auto

lemma notified_append [simp]: "notified n (ms @ ns) = notified n ms @ notified n ns"
  by (induction n ms rule: notified.induct) auto

text \<open>What the invariant reads.\<close>

definition drag_like :: "draggables \<Rightarrow> draggables \<Rightarrow> bool" where
  "drag_like s u \<longleftrightarrow> (\<forall>n. dragging n u = dragging n s \<and> interval_of n u = interval_of n s
      \<and> notified n (dn_log u) = notified n (dn_log s)) \<and> dn_intervals u = dn_intervals s"

definition drag_inv :: "bool \<Rightarrow> draggables \<Rightarrow> bool" where
  "drag_inv strict s \<longleftrightarrow>
     (\<forall>n. life strict False (notified n (dn_log s)) = Some (dragging n s))
     \<and> (\<forall>(h, n) \<in> set (dn_intervals s). interval_of n s = Some h \<and> (strict \<longrightarrow> dragging n s))"

lemma drag_like_inv: "drag_like s u \<Longrightarrow> drag_inv strict s \<Longrightarrow> drag_inv strict u"
  unfolding drag_like_def drag_inv_def by simp

lemma drag_like_refl [simp]: "drag_like s s"
  by (simp add: drag_like_def)

lemma drag_like_trans: "drag_like s t \<Longrightarrow> drag_like t u \<Longrightarrow> drag_like s u"
  by (simp add: drag_like_def)

lemma like_say: "(\<And>p m. n \<noteq> Notified p m) \<Longrightarrow> drag_like s (say n s)"
  by (cases n) (simp_all add: drag_like_def say_def dragging_def interval_of_def)

lemma like_change:
  "(\<And>d. dg_dragging (f d) = dg_dragging d \<and> dg_interval (f d) = dg_interval d) \<Longrightarrow> drag_like s (change_obj n f s)"
  by (auto simp: drag_like_def change_obj_def dragging_def interval_of_def split: option.split)

lemma like_fields:
  "dn_obj u = dn_obj s \<Longrightarrow> dn_log u = dn_log s \<Longrightarrow> dn_intervals u = dn_intervals s \<Longrightarrow> drag_like s u"
  by (simp add: drag_like_def dragging_def interval_of_def)

lemma like_doc [simp]: "drag_like s (u\<lparr>dp_doc := t\<rparr>) = drag_like s u"
  by (simp add: drag_like_def dragging_def interval_of_def)

lemma like_drops: "on_drops f s = (s', e) \<Longrightarrow> drag_like s s'"
  by (auto simp: on_drops_def split: prod.splits intro!: like_fields)

lemma like_show: "show_pointer e p x s = (s', r) \<Longrightarrow> drag_like s s'"
  unfolding show_pointer_def by (drule like_drops) (simp add: drag_like_def dragging_def interval_of_def)

text \<open>A step that concerns one draggable: what it is left with and what it was notified of.\<close>

definition drag_rel :: "nat \<Rightarrow> bool \<Rightarrow> phase list \<Rightarrow> draggables \<Rightarrow> draggables \<Rightarrow> bool" where
  "drag_rel n b ps s u \<longleftrightarrow> dragging n u = b \<and> (\<forall>m. m \<noteq> n \<longrightarrow> dragging m u = dragging m s)
     \<and> (\<forall>m. interval_of m u = interval_of m s) \<and> dn_intervals u = dn_intervals s
     \<and> (\<forall>m. notified m (dn_log u) = notified m (dn_log s) @ (if m = n then ps else []))"

lemma rel_like: "drag_like s u \<Longrightarrow> drag_rel n (dragging n s) [] s u"
  by (simp add: drag_like_def drag_rel_def)

lemma rel_trans: "drag_rel n b ps s t \<Longrightarrow> drag_rel n c qs t u \<Longrightarrow> drag_rel n c (ps @ qs) s u"
  by (simp add: drag_rel_def)

lemma rel_dragging: "drag_rel n b ps s u \<Longrightarrow> dragging n u = b"
  by (simp add: drag_rel_def)

lemma rel_then_like: "drag_rel n b ps s t \<Longrightarrow> drag_like t u \<Longrightarrow> drag_rel n b ps s u"
  by (simp add: drag_rel_def drag_like_def)

lemma like_then_rel: "drag_like s t \<Longrightarrow> drag_rel n b ps t u \<Longrightarrow> drag_rel n b ps s u"
  by (simp add: drag_rel_def drag_like_def)

lemma rel_inv:
  assumes "drag_inv strict s" and "drag_rel n b ps s u" and "life strict (dragging n s) ps = Some b"
    and "strict \<longrightarrow> b \<or> (\<forall>h. (h, n) \<notin> set (dn_intervals s))"
  shows "drag_inv strict u"
proof -
  have "life strict False (notified m (dn_log u)) = Some (dragging m u)" for m
    using assms(1-3) by (cases "m = n") (auto simp: drag_inv_def drag_rel_def life_append)
  moreover have "strict \<longrightarrow> dragging m u" if "(h, m) \<in> set (dn_intervals u)" for h m
    using that assms(1,2,4) by (cases "m = n") (auto simp: drag_inv_def drag_rel_def)
  ultimately show ?thesis using assms(1,2) unfolding drag_inv_def drag_rel_def by auto
qed

lemma rel_notify: "drag_rel n (dragging n s) [p] s (notify_drag p n s)"
proof -
  have o: "notified m (map (\<lambda>o'. Observed p (ob_number o') n) os) = []" for m os by (induction os) auto
  show ?thesis
    by (auto simp: notify_drag_def say_def drag_rel_def dragging_def interval_of_def Let_def o split: option.split)
qed

lemma rel_set: "(\<And>d. dg_dragging (f d) = b \<and> dg_interval (f d) = dg_interval d) \<Longrightarrow> dn_obj s n \<noteq> None
  \<Longrightarrow> drag_rel n b [] s (change_obj n f s)"
  by (auto simp: drag_rel_def change_obj_def dragging_def interval_of_def)

subsection \<open>The parts of a drag\<close>

lemma like_ghost: "make_ghost e n s = (s', r) \<Longrightarrow> drag_like s s'"
proof -
  assume a: "make_ghost e n s = (s', r)"
  have "drag_like s (change_obj n (\<lambda>d. (if b then d else absolutize e d)\<lparr>dg_clone := c, dg_originallyAbsolute := b\<rparr>) s)" for b c
    by (rule like_change) (simp add: absolutize_def Let_def case_prod_beta)
  then show ?thesis using a by (auto simp: make_ghost_def with_obj_def Let_def split: option.splits)
qed

lemma like_drop_ghost: "drop_ghost n s = (s', r) \<Longrightarrow> drag_like s s'"
proof -
  assume a: "drop_ghost n s = (s', r)"
  let ?f = "\<lambda>d. (if dg_originallyAbsolute d then d else relativize d)\<lparr>dg_originallyAbsolute := False\<rparr>"
  have 1: "drag_like s (change_obj n ?f s)"
    by (rule like_change) (simp add: relativize_def Let_def case_prod_beta)
  have 2: "drag_like u (change_obj n (\<lambda>d. d\<lparr>dg_clone := None\<rparr>) u)" for u by (rule like_change) simp
  show ?thesis using a 1 drag_like_trans [OF 1 2] by (auto simp: drop_ghost_def with_obj_def Let_def split: option.splits)
qed

lemma like_start: "drag_like s (starteffect e n s)"
  by (auto simp: starteffect_def split: option.split intro!: drag_like_trans [OF like_fields like_say])

lemma rel_startDrag:
  assumes "startDrag e n s = (s', None)"
  shows "drag_rel n True [OnStart] s s'"
proof -
  obtain d s1 where d: "dn_obj s n = Some d" and
    s1: "(if go_ghosting (dg_options d) then make_ghost e n (change_obj n (begin_object e) s)
          else (change_obj n (begin_object e) s, None)) = (s1, None)"
    and s': "s' = starteffect e n (notify_drag OnStart n (change_obj n (scroll_from e) s1))"
    using assms by (auto simp: startDrag_def seqr_None with_obj_None Let_def)
  have "drag_rel n True [] s (change_obj n (begin_object e) s)"
    by (rule rel_set) (auto simp: begin_object_def Let_def d split: option.split)
  moreover have "drag_like (change_obj n (begin_object e) s) s1" using s1 like_ghost by (auto split: if_splits)
  moreover have "drag_like s1 (change_obj n (scroll_from e) s1)"
    by (rule like_change) (simp add: scroll_from_def split: scrolling.split)
  ultimately have r: "drag_rel n True [] s (change_obj n (scroll_from e) s1)" by (blast intro: rel_then_like)
  have "drag_rel n True [OnStart] s (notify_drag OnStart n (change_obj n (scroll_from e) s1))"
    using rel_trans [OF r rel_notify] rel_dragging [OF r] by simp
  then show ?thesis using rel_then_like [OF _ like_start] s' by simp
qed

lemma like_place: "drag_like s (change_obj n (place_at q) s)"
  by (rule like_change) (auto simp: place_at_def Let_def split: option.split)

lemma like_draw: "draw_drag e p n s = (s', r) \<Longrightarrow> drag_like s s'"
  by (auto simp: draw_drag_def with_obj_def Let_def like_place split: option.splits)

lemma like_tell: "drag_like s (tell_change n s)"
  by (auto simp: tell_change_def split: option.split intro: like_say)

lemma stop_inv:
  assumes "drag_inv strict s"
  shows "drag_inv strict (stopScrolling n s) \<and> dragging m (stopScrolling n s) = dragging m s
    \<and> (\<forall>h. (h, n) \<notin> set (dn_intervals (stopScrolling n s))) \<and> dn_obj (stopScrolling n s) n = map_option (\<lambda>d. d\<lparr>dg_interval := None\<rparr>) (dn_obj s n)"
proof (cases "interval_of n s")
  case None
  then have "stopScrolling n s = s" by (auto simp: stopScrolling_def interval_of_def split: option.splits)
  moreover have "map_option (\<lambda>d. d\<lparr>dg_interval := None\<rparr>) (dn_obj s n) = dn_obj s n"
    using None by (cases "dn_obj s n") (auto simp: interval_of_def)
  ultimately show ?thesis using assms None by (auto simp: drag_inv_def)
next
  case (Some h)
  then obtain d where d: "dn_obj s n = Some d" "dg_interval d = Some h" by (auto simp: interval_of_def split: option.splits)
  then have s: "stopScrolling n s = (change_obj n (\<lambda>d. d\<lparr>dg_interval := None\<rparr>) s)
      \<lparr>dn_intervals := filter (\<lambda>t. fst t \<noteq> h) (dn_intervals s), dn_lastScrollPointer := None\<rparr>"
    by (simp add: stopScrolling_def)
  have dr: "dragging m (stopScrolling n s) = dragging m s" for m
    by (simp add: s dragging_def change_obj_def d)
  have iv: "interval_of m (stopScrolling n s) = (if m = n then None else interval_of m s)" for m
    by (simp add: s interval_of_def change_obj_def d)
  have gone: "m \<noteq> n" if "(k, m) \<in> set (dn_intervals (stopScrolling n s))" for k m
    using that assms Some by (auto simp: s drag_inv_def)
  have "drag_inv strict (stopScrolling n s)"
    unfolding drag_inv_def dr iv using assms gone by (auto simp: s drag_inv_def change_obj_def)
  then show ?thesis using dr gone d by (auto simp: s change_obj_def)
qed

lemma start_inv:
  assumes "drag_inv strict s" and "\<forall>h. (h, n) \<notin> set (dn_intervals s)" and "strict \<longrightarrow> dragging n s" and "dn_obj s n \<noteq> None"
  shows "drag_inv strict (startScrolling e v n s)"
proof (cases "v = (0, 0)")
  case False
  then obtain d where d: "dn_obj s n = Some d" and s: "startScrolling e v n s = (change_obj n (\<lambda>d. d\<lparr>dg_speed := (fst v * go_scrollSpeed (dg_options d), snd v * go_scrollSpeed (dg_options d)),
                               dg_lastScrolled := ev_now e, dg_interval := Some (dn_handle s)\<rparr>) s)
             \<lparr>dn_intervals := dn_intervals s @ [(dn_handle s, n)], dn_handle := Suc (dn_handle s)\<rparr>"
    using assms(4) by (cases v) (auto simp: startScrolling_def)
  have dr: "dragging m (startScrolling e v n s) = dragging m s" for m
    by (simp add: s dragging_def change_obj_def d)
  have iv: "interval_of m (startScrolling e v n s) = (if m = n then Some (dn_handle s) else interval_of m s)" for m
    by (simp add: s interval_of_def change_obj_def d)
  show ?thesis unfolding drag_inv_def dr iv using assms by (auto simp: s drag_inv_def change_obj_def)
qed (use assms(1) in \<open>simp add: startScrolling_def\<close>)

lemma like_settle: "settle b n s = (s', None) \<Longrightarrow> drag_like s s'"
  unfolding settle_def with_obj_def
  by (auto simp: Let_def like_say split: option.splits if_splits intro!: like_change)

lemma like_end: "drag_like s (end_of_drag n s)"
proof -
  have 1: "drag_like u (fst (on_drops f u))" for u f by (cases "on_drops f u") (simp add: like_drops)
  have 2: "drag_like u (deactivate_drag u)" for u by (rule like_fields) (simp_all add: deactivate_drag_def)
  have 3: "drag_like u (case dn_obj u n of None \<Rightarrow> u | Some d \<Rightarrow> if go_endeffect (dg_options d) then say (EndEffect n) u else u)" for u
    by (auto split: option.split intro: like_say)
  have 4: "drag_like s (change_obj n restore_z s)" by (rule like_change) (auto simp: restore_z_def split: option.split)
  show ?thesis unfolding end_of_drag_def Let_def
    by (rule drag_like_trans [OF 4 drag_like_trans [OF 3 drag_like_trans [OF 2 1]]])
qed

lemma rel_leave: "leave_drag e n s = (s', None) \<Longrightarrow> drag_rel n False [] s s'"
proof -
  assume a: "leave_drag e n s = (s', None)"
  let ?s0 = "change_obj n (\<lambda>d. d\<lparr>dg_dragging := False\<rparr>) s"
  obtain d s1 d1 where d: "dn_obj s n = Some d"
    and s1: "(if go_quiet (dg_options d) then show_pointer e (ev_pointer e) (dg_element d) ?s0 else (?s0, None)) = (s1, None)"
    and s2: "(if go_ghosting (dg_options (d1 :: draggable)) then drop_ghost n s1 else (s1, None)) = (s', None)"
    using a unfolding leave_drag_def seqr_None with_obj_None Let_def by blast
  have "drag_rel n False [] s ?s0" by (rule rel_set) (simp_all add: d)
  moreover have "drag_like ?s0 s1" using s1 like_show by (auto split: if_splits)
  moreover have "drag_like s1 s'" using s2 like_drop_ghost by (auto split: if_splits)
  ultimately show ?thesis by (blast intro: rel_then_like)
qed

lemma rel_conclude: "conclude dropped n s = (s', None) \<Longrightarrow> drag_rel n (dragging n s) [OnEnd] s s'"
proof -
  assume a: "conclude dropped n s = (s', None)"
  then obtain d s1 where s1: "settle dropped n (notify_drag OnEnd n
      (if dropped \<and> go_onDropped (dg_options (d :: draggable)) then say (Dropped n) s else s)) = (s1, None)" "end_of_drag n s1 = s'"
    unfolding conclude_def seqr_None with_obj_None prod.inject by blast
  have l: "drag_like s (if b then say (Dropped n) s else s)" for b by (auto intro: like_say)
  then have "dragging n (if b then say (Dropped n) s else s) = dragging n s" for b unfolding drag_like_def by blast
  moreover have "drag_rel n (dragging n (if b then say (Dropped n) s else s)) [OnEnd] s
      (notify_drag OnEnd n (if b then say (Dropped n) s else s))" for b
    by (rule like_then_rel [OF l rel_notify])
  ultimately have "drag_rel n (dragging n s) [OnEnd] s (notify_drag OnEnd n (if b then say (Dropped n) s else s))" for b
    by metis
  then show ?thesis using rel_then_like like_settle [OF s1(1)] like_end unfolding s1(2) [symmetric] by blast
qed

lemma rel_finishDrag:
  assumes "finishDrag e success n s = (s', None)"
  shows "drag_rel n False [OnEnd] s s'"
proof -
  let ?r = "\<lambda>(d :: draggable) s. if success then fire_pointer e (dg_element d) s else (False, s, None)"
  obtain s1 d s2 where s1: "leave_drag e n s = (s1, None)"
    and s2: "snd (?r d s1) = (s2, None)" "conclude (fst (?r d s1)) n s2 = (s', None)"
    using assms unfolding finishDrag_def seqr_None with_obj_None case_prod_beta Let_def by blast
  have "drag_like s1 s2" using s2(1) like_drops by (auto simp: fire_pointer_def Let_def case_prod_beta split: if_splits)
  then have l: "drag_rel n False [] s s2" using rel_then_like [OF rel_leave [OF s1]] by blast
  show ?thesis using rel_trans [OF l rel_conclude [OF s2(2)]] rel_dragging [OF l] by simp
qed

subsection \<open>The handlers keep the invariant\<close>

lemma edge_inv:
  assumes "drag_inv strict s" and "strict \<longrightarrow> dragging n s"
  shows "drag_inv strict (edge_scrolling e n s)"
proof (cases "dn_obj s n")
  case (Some d)
  note st = stop_inv [OF assms(1), of n]
  have "dn_obj (stopScrolling n s) n \<noteq> None" using st Some by simp
  then have "drag_inv strict (startScrolling e v n (stopScrolling n s))" for v
    using start_inv [of strict "stopScrolling n s" n e v] st assms(2) by simp
  then show ?thesis using assms(1) Some by (simp add: edge_scrolling_def)
qed (use assms(1) in \<open>simp add: edge_scrolling_def\<close>)

lemma updateDrag_inv:
  assumes "drag_inv strict s" and "updateDrag e n s = (s', None)"
  shows "drag_inv strict s'"
proof -
  obtain d s1 d2 s2 s3 where d: "dn_obj s n = Some d"
    and s1: "(if dg_dragging d then (s, None) else startDrag e n s) = (s1, None)"
    and s2: "(if go_quiet (dg_options (d2 :: draggable)) then (s1, None) else show_pointer e (ev_pointer e) (dg_element d2) s1) = (s2, None)"
    and s3: "draw_drag e (int_point (ev_pointer e)) n (notify_drag OnDrag n s2) = (s3, None)"
    and s': "say EventStopped (edge_scrolling e n (tell_change n s3)) = s'"
    using assms(2) unfolding updateDrag_def seqr_None with_obj_None prod.inject by blast
  have "drag_rel n True (if dg_dragging d then [] else [OnStart]) s s1"
    using s1 rel_startDrag [of e n s s1] rel_like [of s s n] d by (auto simp: dragging_def split: if_splits)
  moreover have "drag_like s1 s2" using s2 like_show by (auto split: if_splits)
  ultimately have r: "drag_rel n True (if dg_dragging d then [] else [OnStart]) s s2" by (rule rel_then_like)
  have "drag_rel n True ((if dg_dragging d then [] else [OnStart]) @ [OnDrag]) s (notify_drag OnDrag n s2)"
    using rel_trans [OF r rel_notify] rel_dragging [OF r] by simp
  then have m: "drag_rel n True ((if dg_dragging d then [] else [OnStart]) @ [OnDrag]) s (tell_change n s3)"
    using rel_then_like like_draw [OF s3] like_tell by blast
  moreover have "dragging n s = dg_dragging d" by (simp add: dragging_def d)
  then have l: "life strict (dragging n s) ((if dg_dragging d then [] else [OnStart]) @ [OnDrag]) = Some True" by simp
  ultimately have "drag_inv strict (tell_change n s3)" using rel_inv [OF assms(1) m l] by simp
  then have "drag_inv strict (edge_scrolling e n (tell_change n s3))" using edge_inv rel_dragging [OF m] by blast
  then show ?thesis using drag_like_inv [OF like_say] unfolding s' [symmetric] by simp
qed

lemma endDrag_inv:
  assumes "drag_inv strict s" and "endDrag e n s = (s', None)"
  shows "drag_inv strict s'"
proof -
  obtain d where d: "dn_obj s n = Some d"
    and r: "(if \<not> dg_dragging d then (s, None)
       else seqr (finishDrag e True n (stopScrolling n s)) (\<lambda>s. (say EventStopped s, None))) = (s', None)"
    using assms(2) by (auto simp: endDrag_def with_obj_None)
  show ?thesis
  proof (cases "dg_dragging d")
    case True
    then obtain s1 where s1: "finishDrag e True n (stopScrolling n s) = (s1, None)" "s' = say EventStopped s1"
      using r by (auto simp: seqr_None)
    note st = stop_inv [OF assms(1), of n n]
    have "dragging n (stopScrolling n s)" using st True d by (simp add: dragging_def)
    then have l: "life strict (dragging n (stopScrolling n s)) [OnEnd] = Some False" by simp
    have "drag_inv strict s1" using rel_inv [OF _ rel_finishDrag [OF s1(1)] l] st by blast
    then show ?thesis using drag_like_inv [OF like_say] s1(2) by simp
  qed (use r assms(1) in auto)
qed

lemma keyPress_inv:
  assumes "drag_inv strict s" and "keyPress_drag e n s = (s', None)" and "strict \<longrightarrow> ev_key e \<noteq> 27"
  shows "drag_inv strict s'"
proof (cases "ev_key e = 27")
  case True
  then obtain s1 where s1: "finishDrag e False n s = (s1, None)" "s' = say EventStopped s1"
    using assms(2) by (auto simp: keyPress_drag_def seqr_None)
  have ns: "\<not> strict" using True assms(3) by blast
  then have "life strict (dragging n s) [OnEnd] = Some False" by simp
  then have "drag_inv strict s1" using rel_inv [OF assms(1) rel_finishDrag [OF s1(1)]] ns by blast
  then show ?thesis using drag_like_inv [OF like_say] s1(2) by simp
qed (use assms in \<open>simp add: keyPress_drag_def\<close>)

lemma scroll_inv:
  assumes "drag_inv strict s" and "scroll_drag e n s = (s', None)" and "strict \<longrightarrow> dragging n s"
  shows "drag_inv strict s'"
proof -
  obtain d where d: "dn_obj s n = Some d" using assms(2) unfolding scroll_drag_def with_obj_None by blast
  let ?delta = "ev_now e - dg_lastScrolled d"
  let ?s1 = "scroll_call e ?delta d (change_obj n (\<lambda>d. d\<lparr>dg_lastScrolled := ev_now e\<rparr>) s)"
  obtain s2 s3 where s2: "show_last e (dg_element d) ?s1 = (s2, None)"
    and s3: "(case go_scroll (dg_options d) of
                   ScrollElement _ True \<Rightarrow>
                     (let p = move_pointer (scrolled_by ?delta d) (notify_drag OnDrag n s2)
                      in draw_drag e p n ((notify_drag OnDrag n s2)\<lparr>dn_lastScrollPointer := Some p\<rparr>))
                 | _ \<Rightarrow> (notify_drag OnDrag n s2, None)) = (s3, None)"
    and s': "s' = tell_change n s3"
    using assms(2) d unfolding scroll_drag_def by (auto simp: seqr_None with_obj_None Let_def)
  have "drag_like s (change_obj n (\<lambda>d. d\<lparr>dg_lastScrolled := ev_now e\<rparr>) s)" by (rule like_change) simp
  moreover have "drag_like u (scroll_call e ?delta d u)" for u
    by (auto simp: scroll_call_def Let_def like_say split: scrolling.split)
  moreover have "drag_like u w" if "show_last e x u = (w, None)" for u w x
    using that like_show by (auto simp: show_last_def split: option.splits if_splits)
  ultimately have l: "drag_like s s2" using s2 drag_like_trans by blast
  have "drag_like u (u\<lparr>dn_lastScrollPointer := p\<rparr>)" for u p by (rule like_fields) simp_all
  then have "drag_like u w" if "draw_drag e q n (u\<lparr>dn_lastScrollPointer := p\<rparr>) = (w, None)" for u p q w
    using that like_draw drag_like_trans by blast
  note turn = this
  have "drag_like (notify_drag OnDrag n s2) s3"
  proof (cases "\<exists>x. go_scroll (dg_options d) = ScrollElement x True")
    case True
    then have "draw_drag e (move_pointer (scrolled_by ?delta d) (notify_drag OnDrag n s2)) n
        ((notify_drag OnDrag n s2)\<lparr>dn_lastScrollPointer := Some (move_pointer (scrolled_by ?delta d) (notify_drag OnDrag n s2))\<rparr>) = (s3, None)"
      using s3 by (auto simp: Let_def)
    then show ?thesis by (rule turn)
  next
    case False
    then have "s3 = notify_drag OnDrag n s2" using s3 by (auto split: scrolling.splits bool.splits)
    then show ?thesis by simp
  qed
  then have l3: "drag_like (notify_drag OnDrag n s2) s'" using like_tell drag_like_trans s' by blast
  have ds: "dragging n s2 = dragging n s" using l by (simp add: drag_like_def)
  have r: "drag_rel n (dragging n s) [OnDrag] s s'"
    using rel_then_like [OF like_then_rel [OF l rel_notify] l3] ds by simp
  have lf: "life strict (dragging n s) [OnDrag] = Some (dragging n s)" using assms(3) by auto
  have "strict \<longrightarrow> dragging n s \<or> (\<forall>h. (h, n) \<notin> set (dn_intervals s))" using assms(3) by blast
  then show ?thesis by (rule rel_inv [OF assms(1) r lf])
qed

definition is_escape :: "drag_event \<Rightarrow> bool" where
  "is_escape ev = (case ev of Key e \<Rightarrow> ev_key e = 27 | _ \<Rightarrow> False)"

lemma init_like: "initDrag e n s = (s', r) \<Longrightarrow> drag_like s s'"
proof -
  assume a: "initDrag e n s = (s', r)"
  have 1: "drag_like s (change_obj n (\<lambda>d. d\<lparr>dg_offset := p\<rparr>) s)" for p by (rule like_change) simp
  have 2: "drag_like u (activate_drag n u)" for u
  proof (cases "dn_obj u n")
    case (Some d)
    have "drag_like u ((say WindowFocused u)\<lparr>dn_active := Some n\<rparr>)"
      by (rule drag_like_trans [OF like_say like_fields]) simp_all
    moreover have "drag_like u (u\<lparr>dn_timeout := Some (dn_handle u), dn_timers := dn_timers u @ [(dn_handle u, n)], dn_handle := Suc (dn_handle u)\<rparr>)"
      by (rule like_fields) simp_all
    ultimately show ?thesis using Some by (simp add: activate_drag_def)
  qed (simp add: activate_drag_def)
  have 3: "drag_like s (say EventStopped (activate_drag n (change_obj n (\<lambda>d. d\<lparr>dg_offset := p\<rparr>) s)))" for p
    by (rule drag_like_trans [OF drag_like_trans [OF 1 2] like_say]) simp
  show ?thesis using a 3 by (auto simp: initDrag_def with_obj_def Let_def split: option.splits if_splits)
qed

lemma step_inv:
  assumes "drag_inv strict s" and "drag_step ev s = (s', None)" and "strict \<longrightarrow> \<not> is_escape ev"
  shows "drag_inv strict s'"
proof (cases ev)
  case (Press e n)
  then have "initDrag e n s = (s', None) \<or> s' = s" using assms(2) by (auto split: if_splits)
  then show ?thesis using assms(1) init_like drag_like_inv by blast
next
  case (Move e)
  have "drag_like s (s\<lparr>dn_lastPointer := p\<rparr>)" for p by (rule like_fields) simp_all
  then have l: "drag_inv strict (s\<lparr>dn_lastPointer := p\<rparr>)" for p using assms(1) drag_like_inv by blast
  show ?thesis using assms(1,2) Move updateDrag_inv [OF l] by (auto simp: all_updateDrag_def split: if_splits option.splits)
next
  case (Release e)
  let ?s1 = "case dn_timeout s of None \<Rightarrow> s
                | Some h \<Rightarrow> s\<lparr>dn_timers := filter (\<lambda>t. fst t \<noteq> h) (dn_timers s), dn_timeout := None\<rparr>"
  have 1: "drag_like s (u\<lparr>dn_lastPointer := None\<rparr>)" "drag_like s u" if "u = ?s1" for u
    by (rule like_fields; use that in \<open>simp split: option.split\<close>)+
  have 2: "drag_like u (u\<lparr>dn_active := None\<rparr>)" for u by (rule like_fields) simp_all
  obtain u where u: "u = ?s1" by blast
  show ?thesis
  proof (cases "dn_listening s")
    case True
    then have "all_endDrag e s = (s', None)" using assms(2) Release by simp
    then have a: "(case dn_active u of None \<Rightarrow> (u, None)
         | Some n \<Rightarrow> seqr (endDrag e n (u\<lparr>dn_lastPointer := None\<rparr>)) (\<lambda>s. (s\<lparr>dn_active := None\<rparr>, None))) = (s', None)"
      unfolding all_endDrag_def Let_def u [symmetric] .
    show ?thesis
      using a drag_like_inv [OF 1(2) [OF u] assms(1)] endDrag_inv [OF drag_like_inv [OF 1(1) [OF u] assms(1)]] drag_like_inv [OF 2]
      by (auto simp: seqr_None split: option.splits)
  qed (use assms(1,2) Release in simp)
next
  case (Key e)
  have "strict \<longrightarrow> ev_key e \<noteq> 27" using assms(3) Key by (simp add: is_escape_def)
  then show ?thesis using assms(1,2) Key keyPress_inv by (auto simp: all_keyPress_def split: if_splits option.splits)
next
  case (DelayOver h)
  have "drag_like s ((say WindowFocused (s\<lparr>dn_timers := t, dn_timeout := None\<rparr>))\<lparr>dn_active := a\<rparr>)" for t a
    by (rule drag_like_trans [OF drag_like_trans [OF like_fields like_say] like_fields]) simp_all
  then have "drag_inv strict ((say WindowFocused (s\<lparr>dn_timers := t, dn_timeout := None\<rparr>))\<lparr>dn_active := a\<rparr>)" for t a
    using assms(1) drag_like_inv by blast
  then show ?thesis using assms(1,2) DelayOver by (auto simp: delay_over_def split: option.splits)
next
  case (ScrollTurn e h)
  show ?thesis
  proof (cases "map_of (dn_intervals s) h")
    case (Some n)
    then have "strict \<longrightarrow> dragging n s" using assms(1) map_of_SomeD by (fastforce simp: drag_inv_def)
    then show ?thesis using scroll_inv [OF assms(1)] assms(2) ScrollTurn Some by simp
  qed (use assms(1,2) ScrollTurn in simp)
next
  case (EffectMoves n l t)
  have "drag_like s (change_obj n (\<lambda>d. d\<lparr>dg_left := l, dg_top := t\<rparr>) s)" by (rule like_change) simp
  then show ?thesis using assms(1,2) EffectMoves drag_like_inv by auto
next
  case (EffectOver e n)
  have "drag_like s (endeffect_over e n s)" by (auto simp: endeffect_over_def split: option.split intro!: like_fields)
  then show ?thesis using assms(1,2) EffectOver drag_like_inv by auto
qed

text \<open>As a machine on the state before the first exception, in both readings of a life.\<close>

definition guarded_step :: "drag_event \<Rightarrow> draggables option \<Rightarrow> draggables option" where
  "guarded_step ev r = (case r of None \<Rightarrow> None | Some s \<Rightarrow> run_drags [ev] s)"

definition guarded_inv :: "bool \<Rightarrow> draggables option \<Rightarrow> bool" where
  "guarded_inv strict r = (case r of None \<Rightarrow> True | Some s \<Rightarrow> drag_inv strict s)"

lemma guarded_inv_step: "guarded_inv strict r \<Longrightarrow> strict \<longrightarrow> \<not> is_escape ev \<Longrightarrow> guarded_inv strict (guarded_step ev r)"
  using step_inv by (auto simp: guarded_inv_def guarded_step_def split: option.splits prod.splits)

lemma run_drags_fold: "run_drags evs s = fold guarded_step evs (Some s)"
proof (induction evs arbitrary: s)
  case (Cons ev evs)
  have n: "fold guarded_step evs None = None" by (induction evs) (simp_all add: guarded_step_def)
  obtain s' r where st: "drag_step ev s = (s', r)" by fastforce
  show ?case
  proof (cases r)
    case None
    then show ?thesis using Cons st by (simp add: guarded_step_def)
  next
    case (Some e)
    then have g: "guarded_step ev (Some s) = None" using st by (simp add: guarded_step_def)
    show ?thesis using st Some by (simp add: g n)
  qed
qed simp

interpretation strict_drags: event_machine guarded_step "guarded_inv True" "\<lambda>ev. \<not> is_escape ev"
  by unfold_locales (simp add: guarded_inv_step)

interpretation all_drags: event_machine guarded_step "guarded_inv False" "\<lambda>ev. True"
  by unfold_locales (simp add: guarded_inv_step)

definition at_rest :: "draggables \<Rightarrow> bool" where
  "at_rest s \<longleftrightarrow> dn_log s = [] \<and> dn_intervals s = [] \<and> (\<forall>n. \<not> dragging n s)"

text \<open>
  C30. In every run of presses, moves, releases, keys, timers and effects without an exception the notifications
  of each draggable form drags: \<open>onStart\<close> comes only when it is not dragging, and it is dragging exactly
  between a start and the next end. Without Escape every end and every \<open>onDrag\<close> lies in a drag; with Escape
  they may come outside one.
\<close>

theorem drag_life:
  assumes "at_rest s0" and "run_drags evs s0 = Some s"
  shows "life (list_all (\<lambda>ev. \<not> is_escape ev) evs) False (notified n (dn_log s)) = Some (dragging n s)"
proof -
  have i: "guarded_inv strict (Some s0)" for strict
    using assms(1) by (simp add: guarded_inv_def drag_inv_def at_rest_def)
  have "guarded_inv (list_all (\<lambda>ev. \<not> is_escape ev) evs) (Some s)"
  proof (cases "list_all (\<lambda>ev. \<not> is_escape ev) evs")
    case True
    then show ?thesis using strict_drags.inv_run [OF i True] assms(2) by (simp add: run_drags_fold)
  next
    case False
    have "list_all (\<lambda>ev. True) evs" by (simp add: list_all_iff)
    from all_drags.inv_run [OF i this] show ?thesis using False assms(2) by (simp add: run_drags_fold)
  qed
  then show ?thesis by (simp add: guarded_inv_def drag_inv_def)
qed

subsection \<open>Where the element goes\<close>

lemma snap_to_near:
  assumes "0 < g"
  shows "\<bar>2 * (of_int (\<lfloor>v / of_int g + 1 / 2\<rfloor> * g) - v)\<bar> \<le> (of_int g :: rat)"
proof -
  let ?k = "of_int \<lfloor>v / of_int g + 1 / 2\<rfloor> :: rat" and ?g = "of_int g :: rat"
  have g: "0 < ?g" using assms by simp
  have "?k \<le> v / ?g + 1 / 2" "v / ?g + 1 / 2 < ?k + 1" by linarith+
  then have "?k * ?g \<le> (v / ?g + 1 / 2) * ?g" "(v / ?g + 1 / 2) * ?g < (?k + 1) * ?g"
    using g by (simp_all add: mult_right_mono)
  moreover have "(v / ?g + 1 / 2) * ?g = v + ?g / 2" using g by (simp add: field_simps)
  ultimately have "?k * ?g \<le> v + ?g / 2" "v + ?g / 2 < ?k * ?g + ?g"
    using g by (simp_all add: distrib_right)
  then show ?thesis by (simp add: abs_le_iff)
qed

text \<open>What of an object decides where it is drawn.\<close>

definition placed :: "nat \<Rightarrow> draggables \<Rightarrow> (nat \<times> drag_options \<times> (int \<times> int) option \<times> rat option \<times> rat option) option" where
  "placed n s = map_option (\<lambda>d. (dg_element d, dg_options d, dg_offset d, dg_left d, dg_top d)) (dn_obj s n)"

lemma placed_obj: "dn_obj u = dn_obj s \<Longrightarrow> placed n u = placed n s"
  by (simp add: placed_def)

lemma placed_change:
  "(\<And>d. dg_element (f d) = dg_element d \<and> dg_options (f d) = dg_options d \<and> dg_offset (f d) = dg_offset d
      \<and> dg_left (f d) = dg_left d \<and> dg_top (f d) = dg_top d) \<Longrightarrow> placed n (change_obj m f s) = placed n s"
  by (cases "dn_obj s m") (auto simp: placed_def change_obj_def)

lemma placed_notify [simp]: "placed n (notify_drag p m s) = placed n s"
  by (auto simp: notify_drag_def say_def Let_def split: option.split intro: placed_obj)

lemma placed_say [simp]: "placed n (say x s) = placed n s"
  by (simp add: say_def placed_def)

lemma placed_start:
  assumes "startDrag e n s = (s', None)" and "dn_obj s n = Some d" and "\<not> go_ghosting (dg_options d)"
  shows "placed n s' = placed n s"
proof -
  have b: "placed n (change_obj n (begin_object e) s) = placed n s"
    by (rule placed_change) (auto simp: begin_object_def Let_def split: option.split)
  have f: "placed n (change_obj n (scroll_from e) u) = placed n u" for u
    by (rule placed_change) (simp add: scroll_from_def split: scrolling.split)
  have t: "placed n (starteffect e n u) = placed n u" for u
    by (auto simp: starteffect_def placed_def say_def split: option.split)
  have "s' = starteffect e n (notify_drag OnStart n (change_obj n (scroll_from e) (change_obj n (begin_object e) s)))"
    using assms by (simp add: startDrag_def seqr_None with_obj_def)
  then show ?thesis using b f t by simp
qed

lemma placed_show: "show_pointer e p x s = (s', r) \<Longrightarrow> placed n s' = placed n s"
  by (auto simp: show_pointer_def on_drops_def placed_def split: prod.splits)

lemma placed_edge: "placed n (edge_scrolling e m s) = placed n s"
proof -
  have 1: "placed n (stopScrolling m u) = placed n u" for u
    by (auto simp: stopScrolling_def placed_def change_obj_def split: option.split)
  have 2: "placed n (startScrolling e v m u) = placed n u" for u v
    by (cases "dn_obj u m") (auto simp: startScrolling_def placed_def change_obj_def)
  show ?thesis by (auto simp: edge_scrolling_def 1 2 split: option.split)
qed

lemma placed_tell [simp]: "placed n (tell_change m s) = placed n s"
  by (auto simp: tell_change_def split: option.split)

text \<open>
  C31. While an element is dragged freely its place on the page is the pointer less the place it was gripped at:
  exactly, or, with a grid, at a point of the grid no further than half a step away. \<open>left'\<close> and \<open>top'\<close> are
  the place the layout gives the element without offsets of its own.
\<close>

theorem move_places_element:
  assumes "drag_step (Move e) s = (s', None)" and "dn_listening s" and "dn_active s = Some n"
    and "dn_lastPointer s \<noteq> Some (ev_pointer e)" and "dn_obj s n = Some d" and "dg_offset d = Some grip"
    and "\<not> go_ghosting (dg_options d)" and "go_scroll (dg_options d) = NoScroll" and "go_constraint (dg_options d) = NoMode"
    and "go_snap (dg_options d) = SnapBy g" and "0 \<le> g"
    and "page_place e (dg_element d) = (left' + fst (currentDelta d), top' + snd (currentDelta d))"
  shows "\<exists>d' l t. dn_obj s' n = Some d' \<and> dg_left d' = Some l \<and> dg_top d' = Some t
    \<and> \<bar>2 * (of_int left' + l - of_int (fst (ev_pointer e) - fst grip))\<bar> \<le> of_int g
    \<and> \<bar>2 * (of_int top' + t - of_int (snd (ev_pointer e) - snd grip))\<bar> \<le> of_int g
    \<and> (g = 0 \<or> (\<exists>i j. l = of_int (i * g) \<and> t = of_int (j * g)))"
proof -
  let ?s = "s\<lparr>dn_lastPointer := Some (ev_pointer e)\<rparr>"
  have up: "updateDrag e n ?s = (s', None)" using assms(1-4) by (simp add: all_updateDrag_def)
  have ps: "placed n ?s = placed n s" by (simp add: placed_def)
  obtain d0 s1 d2 s2 s3 where d0: "dn_obj ?s n = Some d0"
    and s1: "(if dg_dragging d0 then (?s, None) else startDrag e n ?s) = (s1, None)"
    and s2: "(if go_quiet (dg_options (d2 :: draggable)) then (s1, None) else show_pointer e (ev_pointer e) (dg_element d2) s1) = (s2, None)"
    and s3: "draw_drag e (int_point (ev_pointer e)) n (notify_drag OnDrag n s2) = (s3, None)"
    and s': "say EventStopped (edge_scrolling e n (tell_change n s3)) = s'"
    using up unfolding updateDrag_def seqr_None with_obj_None prod.inject by blast
  have "d0 = d" using d0 assms(5) by simp
  then have "placed n s1 = placed n ?s" using s1 placed_start [OF _ d0] assms(7) by (auto split: if_splits)
  moreover have "placed n s2 = placed n s1" using s2 placed_show by (auto split: if_splits)
  ultimately have "placed n (notify_drag OnDrag n s2) = placed n s" using ps by simp
  then obtain d3 where d3: "dn_obj (notify_drag OnDrag n s2) n = Some d3"
    and eq: "dg_element d3 = dg_element d" "dg_options d3 = dg_options d" "dg_offset d3 = dg_offset d"
      "dg_left d3 = dg_left d" "dg_top d3 = dg_top d"
    using assms(5) by (auto simp: placed_def)
  have "drag_base e q d3 = (left', top')" for q
    using assms(7,8,12) by (simp add: drag_base_def Let_def currentDelta_def eq)
  moreover define p where "p = (of_int (fst (ev_pointer e) - fst grip) - of_int left' :: rat, of_int (snd (ev_pointer e) - snd grip) - of_int top' :: rat)"
  ultimately have s3': "s3 = change_obj n (place_at (snap_point (SnapBy g) (Some (fst p), Some (snd p)))) (notify_drag OnDrag n s2)"
    using s3 d3 assms(6,10) by (simp add: draw_drag_def with_obj_def eq int_point_def Let_def algebra_simps)
  obtain l t where lt: "snap_point (SnapBy g) (Some (fst p), Some (snd p)) = (Some l, Some t)"
    "\<bar>2 * (l - fst p)\<bar> \<le> of_int g" "\<bar>2 * (t - snd p)\<bar> \<le> of_int g" "g = 0 \<or> (\<exists>i j. l = of_int (i * g) \<and> t = of_int (j * g))"
  proof (cases "g = 0")
    case False
    then have "0 < g" using assms(11) by simp
    from that [OF _ snap_to_near [OF this] snap_to_near [OF this]] False show thesis
      by (auto simp: snap_point_def snap_to_def)
  qed (use that in \<open>simp add: snap_point_def\<close>)
  have "placed n s' = placed n s3" by (simp add: s' [symmetric] placed_edge)
  moreover have "placed n s3 = Some (dg_element d, dg_options d, dg_offset d, Some l, Some t)"
    using d3 assms(9) by (simp add: s3' lt(1) placed_def change_obj_def place_at_def eq)
  ultimately obtain d' where "dn_obj s' n = Some d'" "dg_left d' = Some l" "dg_top d' = Some t"
    by (auto simp: placed_def)
  then show ?thesis using lt(2-4) by (intro exI [of _ d'] exI [of _ l] exI [of _ t]) (simp add: p_def algebra_simps)
qed

subsection \<open>Escape\<close>

text \<open>
  Escape after a press and before any movement ends a drag that never started: the end is notified, and if
  the element reverts, as it does in every sortable list, the handler fails for want of a starting place and
  the draggable stays the active one.
\<close>

theorem escape_before_move:
  assumes "dn_listening s" and "dn_active s = Some n" and "dn_obj s n = Some d" and "\<not> dg_dragging d" and "dg_delta d = None"
    and "ev_key e = 27" and "\<not> go_quiet (dg_options d)" and "\<not> go_ghosting (dg_options d)"
    and "go_revert (dg_options d) \<noteq> RvFalse" and "go_revertFun (dg_options d) = None" and "go_reverteffect (dg_options d)"
  shows "\<exists>s'. drag_step (Key e) s = (s', Some TypeError) \<and> dn_active s' = Some n
    \<and> notified n (dn_log s') = notified n (dn_log s) @ [OnEnd]"
proof -
  let ?s = "change_obj n (\<lambda>d. d\<lparr>dg_dragging := False\<rparr>) s"
  have o: "dn_obj ?s n = Some (d\<lparr>dg_dragging := False\<rparr>)" "dn_active ?s = Some n" "dn_log ?s = dn_log s"
    using assms(2,3) by (simp_all add: change_obj_def)
  have n: "dn_obj (notify_drag OnEnd n ?s) = dn_obj ?s" "dn_active (notify_drag OnEnd n ?s) = dn_active ?s"
    by (simp_all add: notify_drag_def say_def Let_def split: option.split)
  have l: "notified n (dn_log (notify_drag OnEnd n ?s)) = notified n (dn_log s) @ [OnEnd]"
    using rel_notify [of n ?s OnEnd] o(3) by (simp add: drag_rel_def)
  have "leave_drag e n s = (?s, None)"
    using assms(3,7,8) o(1) by (simp add: leave_drag_def with_obj_def seqr_def Let_def)
  moreover have "settle False n (notify_drag OnEnd n ?s) = (notify_drag OnEnd n ?s, Some TypeError)"
    using assms(5,9-11) o(1) n(1) by (simp add: settle_def with_obj_def Let_def)
  then have "conclude False n ?s = (notify_drag OnEnd n ?s, Some TypeError)"
    using o(1) by (simp add: conclude_def with_obj_def seqr_def)
  ultimately have "finishDrag e False n s = (notify_drag OnEnd n ?s, Some TypeError)"
    using o(1) by (simp add: finishDrag_def with_obj_def seqr_def)
  then have "drag_step (Key e) s = (notify_drag OnEnd n ?s, Some TypeError)"
    using assms(1,2,6) by (simp add: all_keyPress_def keyPress_drag_def seqr_def)
  then show ?thesis using l n(2) o(2) by simp
qed

subsection \<open>A page with one draggable\<close>

definition sample_drag_options :: drag_options where
  "sample_drag_options = \<lparr>go_zindex = Some 1000, go_revert = RvTrue, go_revertFun = None, go_quiet = False, go_ghosting = False,
     go_scroll = NoScroll, go_scrollSensitivity = 20, go_scrollSpeed = 15, go_snap = SnapBy 10, go_constraint = NoMode, go_delay = 0,
     go_starteffect = True, go_endeffect = True, go_reverteffect = True, go_onStart = False, go_onDrag = False, go_onEnd = False,
     go_onDropped = False, go_change = False\<rparr>"

definition sample_draggable :: draggable where
  "sample_draggable = \<lparr>dg_element = 2, dg_options = sample_drag_options, dg_dragging = False, dg_delta = None, dg_offset = None,
     dg_left = None, dg_top = None, dg_zIndex = None, dg_originalZ = None, dg_clone = None, dg_placing = Relative, dg_origin = None,
     dg_originallyAbsolute = False, dg_scrollFrom = (0, 0), dg_interval = None, dg_speed = (0, 0), dg_lastScrolled = 0\<rparr>"

definition sample_geo :: geo where
  "sample_geo = \<lparr>ge_box = (\<lambda>_. \<lparr>bx_left = 100, bx_top = 50, bx_width = 40, bx_height = 20\<rparr>), ge_scrolled = (\<lambda>_. (0, 0)),
     ge_window = [(0, 0)]\<rparr>"

definition sample_drag_env :: "int \<times> int \<Rightarrow> drag_env" where
  "sample_drag_env p = \<lparr>ev_geo = sample_geo, ev_pointer = p, ev_leftClick = True, ev_tag = lit ''li'', ev_key = 27, ev_now = 0,
     ev_realOffset = (\<lambda>_. (0, 0)), ev_positioned = (\<lambda>_. (0, 0)), ev_page = (\<lambda>_. (0, 0)), ev_scroll = (\<lambda>_. (0, 0)),
     ev_window = ((0, 0), (800, 600)), ev_name = (\<lambda>_. lit ''[object HTMLLIElement]'')\<rparr>"

definition no_draggables :: draggables where
  "no_draggables = \<lparr>dp_doc = DNode 0 (lit ''body'') [] [] [DNode 2 (lit ''li'') [] [] []], dp_treeNode = [], dp_next = 0, dp_drops = [],
     dp_last = None, dp_pos = \<lparr>ps_include = False, ps_deltaX = 0, ps_deltaY = 0, ps_xcomp = 0, ps_ycomp = 0, ps_offset = (0, 0)\<rparr>,
     dn_obj = (\<lambda>_. None), dn_drags = [], dn_handles = [], dn_observers = [], dn_counts = (\<lambda>_. 0), dn_active = None, dn_timeout = None,
     dn_timers = [], dn_intervals = [], dn_handle = 0, dn_lastPointer = None, dn_lastScrollPointer = None, dn_flags = [],
     dn_listening = False, dn_log = []\<rparr>"

definition one_draggable :: draggables where
  "one_draggable = snd (new_draggable sample_draggable 2 no_draggables)"

lemmas drag_examples = one_draggable_def new_draggable_def register_drag_def no_draggables_def sample_draggable_def
  sample_drag_options_def sample_drag_env_def sample_geo_def Let_def

definition pressed_draggable :: draggables where
  "pressed_draggable = fst (drag_step (Press (sample_drag_env (110, 60)) 0) one_draggable)"

lemma upper_li: "upper (lit ''li'') \<notin> set form_tags"
  by (simp add: form_tags_def upper_def lit_def)

lemma pressed_step: "drag_step (Press (sample_drag_env (110, 60)) 0) one_draggable = (pressed_draggable, None)"
  using upper_li
  by (simp add: pressed_draggable_def initDrag_def with_obj_def activate_drag_def say_def change_obj_def page_place_def drag_examples)

lemma pressed_draggable_simps:
  "dn_listening pressed_draggable" "dn_active pressed_draggable = Some 0" "dn_lastPointer pressed_draggable = None"
  "dn_obj pressed_draggable 0 = Some (sample_draggable\<lparr>dg_offset := Some (10, 10)\<rparr>)"
  using upper_li
  by (simp_all add: pressed_draggable_def initDrag_def with_obj_def activate_drag_def say_def change_obj_def page_place_def drag_examples)

theorem escape_before_move_witness:
  "\<exists>s'. drag_step (Key (sample_drag_env (0, 0))) pressed_draggable = (s', Some TypeError) \<and> dn_active s' = Some 0"
proof -
  let ?e = "sample_drag_env (0, 0)" and ?d = "sample_draggable\<lparr>dg_offset := Some (10, 10)\<rparr>"
  have 1: "\<not> dg_dragging ?d" "dg_delta ?d = None" "ev_key ?e = 27" "\<not> go_quiet (dg_options ?d)" "\<not> go_ghosting (dg_options ?d)"
    "go_revert (dg_options ?d) \<noteq> RvFalse" "go_revertFun (dg_options ?d) = None" "go_reverteffect (dg_options ?d)"
    by (simp_all add: sample_draggable_def sample_drag_options_def sample_drag_env_def)
  show ?thesis using escape_before_move [OF pressed_draggable_simps(1,2,4) 1] by blast
qed

lemma moved_step: "\<exists>s'. drag_step (Move (sample_drag_env (133, 84))) pressed_draggable = (s', None)"
  using upper_li
  by (simp add: pressed_draggable_def initDrag_def with_obj_def activate_drag_def say_def change_obj_def page_place_def drag_examples
      all_updateDrag_def updateDrag_def seqr_def startDrag_def begin_object_def scroll_from_def notify_drag_def has_phase_def
      starteffect_def show_pointer_def position_prepare_def on_drops_def show_drops_def droppables.defs draw_drag_def edge_scrolling_def
      tell_change_def)

theorem move_places_element_witness:
  "\<exists>s' d' l. drag_step (Move (sample_drag_env (133, 84))) pressed_draggable = (s', None) \<and> dn_obj s' 0 = Some d'
     \<and> dg_left d' = Some l \<and> \<bar>2 * (100 + l - 123)\<bar> \<le> 10"
proof -
  obtain s' where s': "drag_step (Move (sample_drag_env (133, 84))) pressed_draggable = (s', None)" using moved_step by blast
  show ?thesis
    using move_places_element [OF s' pressed_draggable_simps(1,2) _ pressed_draggable_simps(4), of "(10, 10)" 10 100 50] s'
      pressed_draggable_simps(3)
    by (auto simp: sample_draggable_def sample_drag_options_def sample_drag_env_def sample_geo_def page_place_def currentDelta_def style_int_def)
qed

theorem drag_life_witness:
  "\<exists>s. run_drags [Press (sample_drag_env (110, 60)) 0, Move (sample_drag_env (133, 84))] one_draggable = Some s
     \<and> life True False (notified 0 (dn_log s)) = Some (dragging 0 s)"
proof -
  have r: "at_rest one_draggable" by (simp add: at_rest_def dragging_def drag_examples)
  obtain s where s: "drag_step (Move (sample_drag_env (133, 84))) pressed_draggable = (s, None)" using moved_step by blast
  have d: "run_drags [Press (sample_drag_env (110, 60)) 0, Move (sample_drag_env (133, 84))] one_draggable = Some s"
    using pressed_step s by simp
  show ?thesis using drag_life [OF r d, of 0] d by (simp add: is_escape_def)
qed

text \<open>A page with a list of one item.\<close>

definition list_page :: draggables where
  "list_page = no_draggables\<lparr>dp_doc := DNode 0 (lit ''body'') [] [] [DNode 1 (lit ''ul'') (lit ''list'') []
     [DNode 2 (lit ''li'') (lit ''item_a'') [] []]]\<rparr>"

definition sample_create :: create_options where
  "sample_create = \<lparr>co_sort = sort_defaults, co_dropOnEmpty = True, co_containment = Some [1], co_overlap = Vertical,
     co_constraint = Vertical, co_hoverclass = None, co_elements = None, co_handles = None, co_handle = None, co_ghosting = False,
     co_quiet = False, co_scroll = NoScroll, co_scrollSensitivity = 20, co_scrollSpeed = 15, co_delay = 0, co_zindex = None\<rparr>"

theorem create_destroy_witness:
  "\<exists>known' s' s''. create_list (\<lambda>_ _ _ t. Inr t) (\<lambda>_ _ _ t. Inr t) (\<lambda>_. False) 1 sample_create ([], list_page) = ((known', s'), None)
     \<and> dn_drags s' = [0] \<and> destroy_list 1 (known', s') = ([], s'') \<and> registers s'' = registers list_page"
proof -
  let ?h = "\<lambda>_ _ _ t. Inr t :: dtree res" and ?n = "DNode 1 (lit ''ul'') (lit ''list'') [] [DNode 2 (lit ''li'') (lit ''item_a'') [] []]"
  have i: "found_items ?n sort_defaults = [DNode 2 (lit ''li'') (lit ''item_a'') [] []]"
    by (simp add: found_flat sort_defaults_def child_matches_def lit_def)
  have "serialize_rule (lit ''item_a'') = Some (lit ''a'')"
    by (simp add: serialize_rule_def lit_def rule_char_def Let_def)
  then have q: "sequence ?n sort_defaults = [lit ''a'']" unfolding sequence_def i by (simp add: sort_defaults_def)
  have e: "encodeURIComponent (lit ''list'') = Inr (lit ''list'')" "encodeURIComponent (lit ''a'') = Inr (lit ''a'')"
    by (simp_all add: lit_def unreserved_def)
  have z: "\<exists>t. sort_serialize ?n sort_defaults = Inr t"
    unfolding sort_serialize_def q by (simp add: e sort_defaults_def)
  let ?d = "(DNode 0 (lit ''body'') [] [] [?n])"
  have f: "find_node 1 ?d = Some ?n" by simp
  have w: "cleanWhitespace (\<lambda>_. False) 1 list_page = list_page"
    by (simp add: cleanWhitespace_def list_page_def no_draggables_def)
  have dest: "destroy_list 1 ([], list_page) = ([], list_page)" by (simp add: destroy_list_def)
  have doc: "dp_doc list_page = ?d" by (simp add: list_page_def)
  have so: "co_sort sample_create = sort_defaults" "co_dropOnEmpty sample_create" "\<not> so_tree sort_defaults" "co_elements sample_create = None"
    by (simp_all add: sample_create_def sort_defaults_def)
  have li: "list_items sample_create ?n = [2]" "tree_items sample_create ?n = []"
    unfolding list_items_def tree_items_def so option.case i using so(3) by simp_all
  obtain s' l where c: "create_list ?h ?h (\<lambda>_. False) 1 sample_create ([], list_page) = (([(lit ''list'', l)], s'), None)"
    "ident_of 1 s' = lit ''list''" "dn_drags s' = [0]"
    using z unfolding create_list_def dest w prod.sel doc f option.case li so Let_def
    by (auto simp: add_item_def new_draggable_def register_drag_def addObserver_def cacheObserverCallbacks_def ident_of_def doc Let_def)
      (simp add: list_page_def no_draggables_def)
  have 1: "map_of [] (ident_of 1 list_page) = (None :: sortable_list option)" "ident_of 1 s' = ident_of 1 list_page"
    "map_of [(lit ''list'', l)] (ident_of 1 list_page) = Some l"
    using c(2) by (simp_all add: ident_of_def doc)
  have 2: "\<forall>d \<in> set (dp_drops list_page). dr_element d \<notin> set (sl_droppables l)" "\<forall>ob \<in> set (dn_observers list_page). ob_element ob \<noteq> 1"
    "cacheObserverCallbacks list_page = list_page" "dn_listening list_page \<longleftrightarrow> dn_drags list_page \<noteq> []"
    "\<forall>n \<in> set (dn_drags list_page) \<union> fst ` set (dn_handles list_page). n < dn_handle list_page"
    by (simp_all add: list_page_def no_draggables_def cacheObserverCallbacks_def)
  show ?thesis using create_destroy [OF c(1) 1 2] c(1,3) by blast
qed

end
