(* ===== verification/Elements.thy ===== *)
theory Elements
  imports Selector Droppables
begin

text \<open>
  The methods of elements in \<open>prototype.js\<close> (lines 1535 to 2156): styles, attributes, positions, walks and
  the insertion of nodes. An element on its own is its inline style, its attributes and the properties the
  methods leave on it; what the browser computes is an argument. For walks the document is that of \<open>DomTree\<close>,
  for insertions that of \<open>Sortable\<close>.
\<close>

subsection \<open>Styles\<close>

record elem_style =
  st_style :: "(ustr \<times> ustr) list"
  st_attrs :: "(ustr \<times> ustr) list"
  st_madePositioned :: bool
  st_overflow :: "ustr option"

type_synonym computed = "ustr \<Rightarrow> ustr option"

definition inline :: "ustr \<Rightarrow> elem_style \<Rightarrow> ustr" where
  "inline name e = (case map_of (st_style e) name of None \<Rightarrow> [] | Some v \<Rightarrow> v)"

definition set_inline :: "ustr \<Rightarrow> ustr \<Rightarrow> elem_style \<Rightarrow> elem_style" where
  "set_inline name v e = e\<lparr>st_style := put name v (st_style e)\<rparr>"

definition elem_visible :: "elem_style \<Rightarrow> bool" where
  "elem_visible e \<longleftrightarrow> inline (lit ''display'') e \<noteq> lit ''none''"

definition elem_hide :: "elem_style \<Rightarrow> elem_style" where
  "elem_hide = set_inline (lit ''display'') (lit ''none'')"

definition elem_show :: "elem_style \<Rightarrow> elem_style" where
  "elem_show = set_inline (lit ''display'') []"

definition elem_toggle :: "elem_style \<Rightarrow> elem_style" where
  "elem_toggle e = (if elem_visible e then elem_hide e else elem_show e)"

text \<open>\<open>getStyle\<close> of anything but the opacity; \<open>None\<close> is \<open>null\<close> or nothing.\<close>

definition getStyle :: "(ustr \<Rightarrow> ustr) \<Rightarrow> computed \<Rightarrow> ustr \<Rightarrow> elem_style \<Rightarrow> ustr option" where
  "getStyle toUpper css style e =
     (let name = (if style = lit ''float'' then lit ''cssFloat'' else camelize toUpper style);
          v = inline name e;
          r = (if v = [] \<or> v = lit ''auto'' then css name else Some v)
      in if r = Some (lit ''auto'') then None else r)"

text \<open>\<open>setOpacity\<close> with a number as it is printed.\<close>

definition setOpacity :: "(rat \<Rightarrow> ustr) \<Rightarrow> rat \<Rightarrow> elem_style \<Rightarrow> elem_style" where
  "setOpacity print value e =
     set_inline (lit ''opacity'')
       (if value = 1 then [] else if value < 1 / 100000 then lit ''0'' else print value) e"

text \<open>\<open>setStyle\<close> with an object of texts; the opacity goes its own way, \<open>opacity_of\<close> reads its number.\<close>

definition style_name :: "bool \<Rightarrow> ustr \<Rightarrow> ustr" where
  "style_name styleFloat property =
     (if property = lit ''float'' \<or> property = lit ''cssFloat''
      then (if styleFloat then lit ''styleFloat'' else lit ''cssFloat'') else property)"

definition setStyle ::
  "(rat \<Rightarrow> ustr) \<Rightarrow> (ustr \<Rightarrow> rat) \<Rightarrow> bool \<Rightarrow> (ustr \<times> ustr) list \<Rightarrow> elem_style \<Rightarrow> elem_style" where
  "setStyle print opacity_of styleFloat styles e =
     fold (\<lambda>(p, v) e. if p = lit ''opacity'' then (if v = [] then set_inline p [] e else setOpacity print (opacity_of v) e)
                       else set_inline (style_name styleFloat p) v e) styles e"

definition makePositioned :: "(ustr \<Rightarrow> ustr) \<Rightarrow> bool \<Rightarrow> computed \<Rightarrow> elem_style \<Rightarrow> elem_style" where
  "makePositioned toUpper opera css e =
     (let pos = getStyle toUpper css (lit ''position'') e in
      if pos = Some (lit ''static'') \<or> pos = None \<or> pos = Some [] then
        let e1 = set_inline (lit ''position'') (lit ''relative'') (e\<lparr>st_madePositioned := True\<rparr>)
        in if opera then set_inline (lit ''left'') (lit ''0px'') (set_inline (lit ''top'') (lit ''0px'') e1) else e1
      else e)"

definition undoPositioned :: "elem_style \<Rightarrow> elem_style" where
  "undoPositioned e =
     (if st_madePositioned e
      then fold (\<lambda>n. set_inline n []) [lit ''right'', lit ''bottom'', lit ''left'', lit ''top'', lit ''position'']
             (e\<lparr>st_madePositioned := False\<rparr>)
      else e)"

definition makeClipping :: "(ustr \<Rightarrow> ustr) \<Rightarrow> computed \<Rightarrow> elem_style \<Rightarrow> elem_style" where
  "makeClipping toUpper css e =
     (if st_overflow e \<noteq> None then e
      else let o1 = (case getStyle toUpper css (lit ''overflow'') e of None \<Rightarrow> lit ''auto'' | Some v \<Rightarrow> if v = [] then lit ''auto'' else v);
               e1 = e\<lparr>st_overflow := Some o1\<rparr>
           in if o1 \<noteq> lit ''hidden'' then set_inline (lit ''overflow'') (lit ''hidden'') e1 else e1)"

definition undoClipping :: "elem_style \<Rightarrow> elem_style" where
  "undoClipping e =
     (case st_overflow e of
        None \<Rightarrow> e
      | Some v \<Rightarrow> (set_inline (lit ''overflow'') (if v = lit ''auto'' then [] else v) e)\<lparr>st_overflow := None\<rparr>)"

text \<open>\<open>getDimensions\<close>: \<open>size_of\<close> are the sizes the browser gives for a style.\<close>

definition getDimensions ::
  "(ustr \<Rightarrow> ustr) \<Rightarrow> computed \<Rightarrow> int \<times> int \<Rightarrow> (elem_style \<Rightarrow> int \<times> int) \<Rightarrow> elem_style \<Rightarrow> (int \<times> int) \<times> elem_style" where
  "getDimensions toUpper css offset size_of e =
     (let display = getStyle toUpper css (lit ''display'') e in
      if display \<noteq> Some (lit ''none'') \<and> display \<noteq> None then (offset, e)
      else
        let v = inline (lit ''visibility'') e; p = inline (lit ''position'') e; d = inline (lit ''display'') e;
            e1 = set_inline (lit ''display'') (lit ''block'') (set_inline (lit ''position'') (lit ''absolute'')
                   (set_inline (lit ''visibility'') (lit ''hidden'') e))
        in (size_of e1, set_inline (lit ''visibility'') v (set_inline (lit ''position'') p (set_inline (lit ''display'') d e1))))"

definition getWidth ::
  "(ustr \<Rightarrow> ustr) \<Rightarrow> computed \<Rightarrow> int \<times> int \<Rightarrow> (elem_style \<Rightarrow> int \<times> int) \<Rightarrow> elem_style \<Rightarrow> int" where
  "getWidth toUpper css offset size_of e = fst (fst (getDimensions toUpper css offset size_of e))"

definition getHeight ::
  "(ustr \<Rightarrow> ustr) \<Rightarrow> computed \<Rightarrow> int \<times> int \<Rightarrow> (elem_style \<Rightarrow> int \<times> int) \<Rightarrow> elem_style \<Rightarrow> int" where
  "getHeight toUpper css offset size_of e = snd (fst (getDimensions toUpper css offset size_of e))"

definition toggleClassName :: "ustr \<Rightarrow> ustr \<Rightarrow> ustr" where
  "toggleClassName cn s = (if has_class cn s then removeClassName cn s else addClassName cn s)"

subsection \<open>Attributes\<close>

datatype attr_value = AttrFalse | AttrNull | AttrTrue | AttrText ustr

text \<open>\<open>_attributeTranslations.write.names\<close>.\<close>

definition attr_name :: "ustr \<Rightarrow> ustr" where
  "attr_name name =
     (if name = lit ''className'' then lit ''class'' else if name = lit ''htmlFor'' then lit ''for'' else name)"

definition readAttribute :: "ustr \<Rightarrow> elem_style \<Rightarrow> ustr option" where
  "readAttribute name e = map_of (st_attrs e) name"

definition write_one :: "ustr \<times> attr_value \<Rightarrow> elem_style \<Rightarrow> elem_style" where
  "write_one p e =
     (let name = attr_name (fst p) in
      case snd p of
        AttrFalse \<Rightarrow> e\<lparr>st_attrs := del name (st_attrs e)\<rparr>
      | AttrNull \<Rightarrow> e\<lparr>st_attrs := del name (st_attrs e)\<rparr>
      | AttrTrue \<Rightarrow> e\<lparr>st_attrs := put name name (st_attrs e)\<rparr>
      | AttrText v \<Rightarrow> e\<lparr>st_attrs := put name v (st_attrs e)\<rparr>)"

definition writeAttribute :: "(ustr \<times> attr_value) list \<Rightarrow> elem_style \<Rightarrow> elem_style" where
  "writeAttribute attributes e = fold write_one attributes e"

definition elem_inspect :: "(ustr \<Rightarrow> ustr) \<Rightarrow> ustr \<Rightarrow> ustr \<Rightarrow> ustr \<Rightarrow> ustr" where
  "elem_inspect toLower tagName ident className =
     [60] @ toLower tagName
     @ concat (map (\<lambda>(attribute, value). if value \<noteq> [] then [32] @ attribute @ [61] @ inspect_string True value else [])
         [(lit ''id'', ident), (lit ''class'', className)]) @ [62]"

text \<open>\<open>identify\<close>: the counter is shared by all elements; the loop ends because the document has finitely
  many identifiers.\<close>

definition anonymous :: "nat \<Rightarrow> ustr" where
  "anonymous n = lit ''anonymous_element_'' @ nat_str n"

lemma anonymous_inj: "anonymous m = anonymous n \<Longrightarrow> m = n"
proof -
  assume "anonymous m = anonymous n"
  then have "nat_str m = nat_str n" by (simp add: anonymous_def)
  then have "unsigned_number (nat_str m) = unsigned_number (nat_str n)" by simp
  then show "m = n" by (simp add: unsigned_number_nat_str)
qed

function identify_loop :: "ustr list \<Rightarrow> nat \<Rightarrow> ustr \<times> nat" where
  "identify_loop ids counter =
     (if anonymous counter \<in> set ids then identify_loop ids (Suc counter) else (anonymous counter, Suc counter))"
  by pat_completeness auto
termination
proof (relation "measure (\<lambda>(ids, counter). card {n. counter \<le> n \<and> anonymous n \<in> set ids})", goal_cases)
  case (2 ids counter)
  have "inj_on anonymous A" for A by (auto intro: inj_onI anonymous_inj)
  then have f: "finite {n. counter \<le> n \<and> anonymous n \<in> set ids}"
    by (intro finite_imageD [of anonymous]) (auto intro: finite_subset [OF _ finite_set [of ids]])
  have "counter \<in> {n. counter \<le> n \<and> anonymous n \<in> set ids}" "counter \<notin> {n. Suc counter \<le> n \<and> anonymous n \<in> set ids}"
    using 2 by simp_all
  moreover have "{n. Suc counter \<le> n \<and> anonymous n \<in> set ids} \<subseteq> {n. counter \<le> n \<and> anonymous n \<in> set ids}" by auto
  ultimately have "{n. Suc counter \<le> n \<and> anonymous n \<in> set ids} \<subset> {n. counter \<le> n \<and> anonymous n \<in> set ids}"
    by blast
  then show ?case using psubset_card_mono [OF f] by simp
qed simp

declare identify_loop.simps [simp del]

definition identify :: "ustr list \<Rightarrow> elem_style \<Rightarrow> nat \<Rightarrow> ustr \<times> elem_style \<times> nat" where
  "identify ids e counter =
     (case readAttribute (lit ''id'') e of
        Some i \<Rightarrow> if i \<noteq> [] then (i, e, counter)
                  else (let (i, c) = identify_loop ids counter in (i, writeAttribute [(lit ''id'', AttrText i)] e, c))
      | None \<Rightarrow> (let (i, c) = identify_loop ids counter in (i, writeAttribute [(lit ''id'', AttrText i)] e, c)))"

subsection \<open>Positions\<close>

text \<open>What the layout tells of a node; a list of nodes is a node with what is above it, by \<open>offsetParent\<close>
  or by \<open>parentNode\<close>.\<close>

record laid_out =
  lo_offset :: "int \<times> int"
  lo_scroll :: "int \<times> int"
  lo_position :: "ustr option"
  lo_body :: bool

definition plus2 :: "int \<times> int \<Rightarrow> int \<times> int \<Rightarrow> int \<times> int" where
  "plus2 p q = (fst p + fst q, snd p + snd q)"

definition minus2 :: "int \<times> int \<Rightarrow> int \<times> int \<Rightarrow> int \<times> int" where
  "minus2 p q = (fst p - fst q, snd p - snd q)"

definition breaks_at_body :: "laid_out \<Rightarrow> laid_out list \<Rightarrow> bool" where
  "breaks_at_body n above' \<longleftrightarrow> (case above' of [] \<Rightarrow> False | m # _ \<Rightarrow> lo_body m) \<and> lo_position n = Some (lit ''absolute'')"

text \<open>In WebKit the sum ends at an absolute element below the body.\<close>

fun cumulativeOffset :: "bool \<Rightarrow> laid_out list \<Rightarrow> int \<times> int" where
  "cumulativeOffset webkit [] = (0, 0)"
| "cumulativeOffset webkit (n # ns) =
     plus2 (lo_offset n) (if webkit \<and> breaks_at_body n ns then (0, 0) else cumulativeOffset webkit ns)"

fun positionedOffset :: "laid_out list \<Rightarrow> int \<times> int" where
  "positionedOffset [] = (0, 0)"
| "positionedOffset (n # ns) =
     plus2 (lo_offset n)
       (case ns of
          [] \<Rightarrow> (0, 0)
        | m # _ \<Rightarrow> if lo_body m \<or> lo_position m \<noteq> Some (lit ''static'') then (0, 0) else positionedOffset ns)"

fun cumulativeScrollOffset :: "laid_out list \<Rightarrow> int \<times> int" where
  "cumulativeScrollOffset [] = (0, 0)"
| "cumulativeScrollOffset (n # ns) = plus2 (lo_scroll n) (cumulativeScrollOffset ns)"

fun scrolled_away :: "bool \<Rightarrow> laid_out list \<Rightarrow> int \<times> int" where
  "scrolled_away opera [] = (0, 0)"
| "scrolled_away opera (n # ns) =
     plus2 (if \<not> opera \<or> lo_body n then lo_scroll n else (0, 0)) (scrolled_away opera ns)"

definition viewportOffset :: "bool \<Rightarrow> laid_out list \<Rightarrow> laid_out list \<Rightarrow> int \<times> int" where
  "viewportOffset opera offsets parents = minus2 (cumulativeOffset True offsets) (scrolled_away opera parents)"

lemma viewport_cumulative:
  assumes "cumulativeOffset True offsets = cumulativeOffset False offsets"
  shows "viewportOffset False offsets parents = minus2 (cumulativeOffset False offsets) (cumulativeScrollOffset parents)"
proof -
  have "scrolled_away False parents = cumulativeScrollOffset parents" by (induction parents) simp_all
  then show ?thesis using assms by (simp add: viewportOffset_def)
qed

fun offset_parent_loop :: "nat \<Rightarrow> (nat \<Rightarrow> ustr option) \<Rightarrow> nat list \<Rightarrow> nat" where
  "offset_parent_loop body position [] = body"
| "offset_parent_loop body position (p # ps) =
     (if p = body then body else if position p \<noteq> Some (lit ''static'') then p else offset_parent_loop body position ps)"

definition getOffsetParent :: "dom \<Rightarrow> nat \<Rightarrow> (nat \<Rightarrow> nat option) \<Rightarrow> (nat \<Rightarrow> ustr option) \<Rightarrow> nat \<Rightarrow> nat" where
  "getOffsetParent d body offsetParent position i =
     (case offsetParent i of
        Some p \<Rightarrow> p
      | None \<Rightarrow> if i = body then i else offset_parent_loop body position (chain d i))"

record clone_options =
  cl_setLeft :: bool
  cl_setTop :: bool
  cl_setWidth :: bool
  cl_setHeight :: bool
  cl_offsetTop :: int
  cl_offsetLeft :: int

text \<open>The lengths \<open>clonePosition\<close> writes into the style of the element. \<open>at'\<close> is where the source is in the
  window; \<open>parent\<close> is, for an absolute element, where its offset parent is and whether that is the body.\<close>

definition clonePosition ::
  "clone_options \<Rightarrow> int \<times> int \<Rightarrow> int \<times> int \<Rightarrow> ((int \<times> int) \<times> bool) option \<Rightarrow> int \<times> int \<Rightarrow> (ustr \<times> int) list" where
  "clonePosition opts at' size' parent body_offset =
     (let delta = (case parent of
                     None \<Rightarrow> (0, 0)
                   | Some (q, is_body) \<Rightarrow> if is_body then minus2 q body_offset else q)
      in (if cl_setLeft opts then [(lit ''left'', fst at' - fst delta + cl_offsetLeft opts)] else [])
         @ (if cl_setTop opts then [(lit ''top'', snd at' - snd delta + cl_offsetTop opts)] else [])
         @ (if cl_setWidth opts then [(lit ''width'', fst size')] else [])
         @ (if cl_setHeight opts then [(lit ''height'', snd size')] else []))"

subsection \<open>Walks\<close>

datatype walk_to = Nearest | AtIndex nat | Selected "token list list" nat

definition walk_list :: "dom \<Rightarrow> nat option \<Rightarrow> nat list \<Rightarrow> walk_to \<Rightarrow> indices \<Rightarrow> (nat option \<times> indices) res" where
  "walk_list d near ns w idx =
     (case w of
        Nearest \<Rightarrow> Inr (near, idx)
      | AtIndex k \<Rightarrow> Inr (at_index ns k, idx)
      | Selected tss k \<Rightarrow> findElement d ns tss k idx)"

definition elem_up :: "dom \<Rightarrow> nat \<Rightarrow> walk_to \<Rightarrow> indices \<Rightarrow> (nat option \<times> indices) res" where
  "elem_up d i = walk_list d (parentNode d i) (ancestors d i)"

definition elem_previous :: "dom \<Rightarrow> nat \<Rightarrow> walk_to \<Rightarrow> indices \<Rightarrow> (nat option \<times> indices) res" where
  "elem_previous d i = walk_list d (previousElementSibling d i) (previousSiblings d i)"

definition elem_next :: "dom \<Rightarrow> nat \<Rightarrow> walk_to \<Rightarrow> indices \<Rightarrow> (nat option \<times> indices) res" where
  "elem_next d i = walk_list d (nextElementSibling d i) (nextSiblings d i)"

definition elem_select :: "dom \<Rightarrow> nat \<Rightarrow> token list list \<Rightarrow> indices \<Rightarrow> (nat list \<times> indices) res" where
  "elem_select d i tss idx = findChildElements d i tss idx"

definition elem_down :: "dom \<Rightarrow> nat \<Rightarrow> walk_to \<Rightarrow> indices \<Rightarrow> (nat option \<times> indices) res" where
  "elem_down d i w idx =
     (case w of
        Nearest \<Rightarrow> Inr (firstDescendant d i, idx)
      | AtIndex k \<Rightarrow> Inr (at_index (getElementsByTagName d i [42]) k, idx)
      | Selected tss k \<Rightarrow> rbind (elem_select d i tss idx) (\<lambda>(ns, idx). Inr (at_index ns k, idx)))"

definition elem_adjacent :: "dom \<Rightarrow> nat \<Rightarrow> token list list \<Rightarrow> indices \<Rightarrow> (nat list \<times> indices) res" where
  "elem_adjacent d i tss idx =
     (case parentNode d i of
        None \<Rightarrow> Inl TypeError
      | Some p \<Rightarrow> rbind (findChildElements d p tss idx) (\<lambda>(ns, idx). Inr (filter (\<lambda>n. n \<noteq> i) ns, idx)))"

text \<open>What an event is about, and \<open>findElement\<close> from there.\<close>

record mouse_event =
  me_target :: nat
  me_current :: "nat option"
  me_type :: ustr
  me_radio :: bool

definition event_element :: "dom \<Rightarrow> (ustr \<Rightarrow> ustr) \<Rightarrow> mouse_event \<Rightarrow> nat option" where
  "event_element d toLower ev =
     (let n = (case me_current ev of
                 Some c \<Rightarrow>
                   if nd_tag (node d c) \<noteq> []
                      \<and> (me_type ev = lit ''load'' \<or> me_type ev = lit ''error''
                         \<or> (me_type ev = lit ''click'' \<and> toLower (nd_tag (node d c)) = lit ''input'' \<and> me_radio ev))
                   then c else me_target ev
               | None \<Rightarrow> me_target ev)
      in if nd_type (node d n) = 3 then parentNode d n else Some n)"

definition event_findElement ::
  "dom \<Rightarrow> (ustr \<Rightarrow> ustr) \<Rightarrow> mouse_event \<Rightarrow> token list list option \<Rightarrow> indices \<Rightarrow> (nat option \<times> indices) res" where
  "event_findElement d toLower ev expression idx =
     (case expression of
        None \<Rightarrow> Inr (event_element d toLower ev, idx)
      | Some tss \<Rightarrow>
          (case event_element d toLower ev of
             None \<Rightarrow> Inl TypeError
           | Some n \<Rightarrow> findElement d (n # ancestors d n) tss 0 idx))"

datatype browser = IE | WebKit | OtherBrowser

record button_event =
  be_which :: nat
  be_button :: nat
  be_meta :: bool

definition isButton :: "browser \<Rightarrow> nat \<Rightarrow> button_event \<Rightarrow> bool" where
  "isButton b code ev =
     (case b of
        IE \<Rightarrow> be_button ev = (if code = 0 then 1 else if code = 1 then 4 else 2)
      | WebKit \<Rightarrow> (if code = 0 then be_which ev = 1 \<and> \<not> be_meta ev else if code = 1 then be_which ev = 1 \<and> be_meta ev else False)
      | OtherBrowser \<Rightarrow> (if be_which ev \<noteq> 0 then be_which ev = code + 1 else be_button ev = code))"

definition isLeftClick :: "browser \<Rightarrow> button_event \<Rightarrow> bool" where
  "isLeftClick b = isButton b 0"

definition isMiddleClick :: "browser \<Rightarrow> button_event \<Rightarrow> bool" where
  "isMiddleClick b = isButton b 1"

definition isRightClick :: "browser \<Rightarrow> button_event \<Rightarrow> bool" where
  "isRightClick b = isButton b 2"

text \<open>One coordinate of \<open>pointer\<close>; a missing \<open>pageX\<close> counts as zero.\<close>

definition event_pointer :: "int \<Rightarrow> int \<Rightarrow> int \<Rightarrow> int \<Rightarrow> int \<Rightarrow> int" where
  "event_pointer page client doc_scroll body_scroll doc_border =
     (if page \<noteq> 0 then page else client + (if doc_scroll \<noteq> 0 then doc_scroll else body_scroll) - doc_border)"

end
