(* ===== verification/Insertion.thy ===== *)
theory Insertion
  imports Elements SortProps
begin

text \<open>
  Changing the tree: \<open>remove\<close>, \<open>update\<close>, \<open>replace\<close>, \<open>insert\<close> and \<open>wrap\<close> of \<open>prototype.js\<close> (1569 to 1673)
  with the four places of \<open>_insertionTranslations\<close> (2509 to 2521). The nodes a text of HTML stands for
  are an argument; they are not in the document yet. What is proved is where inserted nodes end up.
\<close>

subsection \<open>The methods\<close>

datatype insertion = Before | Top | Bottom | After

fun set_kids :: "nat \<Rightarrow> dtree list \<Rightarrow> dtree \<Rightarrow> dtree" where
  "set_kids x us (DNode k t i c ts) = (if k = x then DNode k t i c us else DNode k t i c (map (set_kids x us) ts))"

definition elem_remove :: "nat \<Rightarrow> dtree \<Rightarrow> dtree res" where
  "elem_remove x t = (case parent_key x t of None \<Rightarrow> Inl TypeError | Some p \<Rightarrow> Inr (remove_node x t))"

definition elem_update :: "nat \<Rightarrow> dtree list \<Rightarrow> dtree \<Rightarrow> dtree" where
  "elem_update x us t = set_kids x us t"

definition insert_one :: "insertion \<Rightarrow> nat \<Rightarrow> dtree \<Rightarrow> dtree \<Rightarrow> dtree res" where
  "insert_one position x u t =
     (case position of
        Before \<Rightarrow> (case parent_key x t of None \<Rightarrow> Inl TypeError | Some p \<Rightarrow> Inr (insert_at p u (Some x) t))
      | Top \<Rightarrow> Inr (insert_at x u (case kids_of x t of [] \<Rightarrow> None | k # _ \<Rightarrow> Some k) t)
      | Bottom \<Rightarrow> Inr (insert_at x u None t)
      | After \<Rightarrow> (case parent_key x t of None \<Rightarrow> Inl TypeError | Some p \<Rightarrow> Inr (insert_at p u (nextSibling x t) t)))"

fun insert_each :: "insertion \<Rightarrow> nat \<Rightarrow> dtree list \<Rightarrow> dtree \<Rightarrow> dtree res" where
  "insert_each position x [] t = Inr t"
| "insert_each position x (u # us) t = rbind (insert_one position x u t) (insert_each position x us)"

definition insert_nodes :: "insertion \<Rightarrow> nat \<Rightarrow> dtree list \<Rightarrow> dtree \<Rightarrow> dtree res" where
  "insert_nodes position x us t =
     insert_each position x (if position = Top \<or> position = After then rev us else us) t"

fun elem_insert :: "nat \<Rightarrow> (insertion \<times> dtree list) list \<Rightarrow> dtree \<Rightarrow> dtree res" where
  "elem_insert x [] t = Inr t"
| "elem_insert x ((position, us) # ins) t = rbind (insert_nodes position x us t) (elem_insert x ins)"

text \<open>\<open>replaceChild\<close>: the new nodes take the place of the old one.\<close>

definition elem_replace :: "nat \<Rightarrow> dtree list \<Rightarrow> dtree \<Rightarrow> dtree res" where
  "elem_replace x us t =
     (case parent_key x t of
        None \<Rightarrow> Inl TypeError
      | Some p \<Rightarrow> Inr (remove_node x (fold (\<lambda>u. insert_at p u (Some x)) us t)))"

definition elem_wrap :: "nat \<Rightarrow> dtree \<Rightarrow> dtree \<Rightarrow> dtree res" where
  "elem_wrap x wrapper t =
     (case (parent_key x t, find_node x t) of
        (Some p, Some n) \<Rightarrow>
          Inr (insert_at (n_key wrapper) n None (remove_node x (insert_at p wrapper (Some x) t)))
      | _ \<Rightarrow> Inl TypeError)"

subsection \<open>Where nodes end up\<close>

lemma insert_at_kids:
  assumes "distinct (keys t)" and "p \<in> set (keys t)"
  shows "kids_of p (insert_at p u ref t) = ins_before (n_key u) ref (kids_of p t)"
proof -
  obtain m where m: "find_node p t = Some m" using assms(2) by (cases "find_node p t") (auto simp: find_node_None)
  show ?thesis using find_insert [OF assms(1) m, of u ref] by (simp add: kids_of_def m insert_kid_keys)
qed

lemma insert_at_distinct:
  assumes "distinct (keys u @ keys t)" and "p \<in> set (keys t)"
  shows "mset (keys (insert_at p u ref t)) = mset (keys u) + mset (keys t) \<and> distinct (keys (insert_at p u ref t))"
proof -
  have "mset (keys (insert_at p u ref t)) = mset (keys u @ keys t)" using keys_insert [OF _ assms(2)] assms(1) by simp
  then show ?thesis using assms(1) mset_eq_imp_distinct_iff [of "keys (insert_at p u ref t)" "keys u @ keys t"] by simp
qed

lemma kid_parent:
  assumes "distinct (keys t)" and "x \<in> set (kids_of p t)"
  shows "parent_key x t = Some p"
proof -
  obtain m where m: "find_node p t = Some m" using assms(2) by (cases "find_node p t") (auto simp: kids_of_def)
  then obtain u where "u \<in> set (n_kids m)" "n_key u = x" using assms(2) by (auto simp: kids_of_def)
  then show ?thesis using find_kid_of [OF assms(1) m, of u] by simp
qed

lemma kids_distinct: "distinct (keys t) \<Longrightarrow> distinct (kids_of p t)"
  using distinct_kids [of t p] by (auto simp: kids_of_def split: option.split)

lemma kids_in: "kids_of p t \<noteq> [] \<Longrightarrow> p \<in> set (keys t)"
  using find_node_None [of p t] by (auto simp: kids_of_def split: option.splits)

text \<open>The end of the children of a node under repeated insertion.\<close>

lemma insert_bottoms:
  assumes "distinct (keys t @ concat (map keys us))" and "x \<in> set (keys t)"
  shows "\<exists>t'. insert_each Bottom x us t = Inr t' \<and> mset (keys t') = mset (keys t @ concat (map keys us))
    \<and> kids_of x t' = kids_of x t @ map n_key us"
  using assms
proof (induction us arbitrary: t)
  case (Cons u us)
  have du: "distinct (keys u @ keys t)" using Cons.prems(1) by auto
  let ?t = "insert_at x u None t"
  note k = insert_at_distinct [OF du Cons.prems(2), of None]
  have s: "set (keys ?t) = set (keys u) \<union> set (keys t)" using arg_cong [OF conjunct1 [OF k], of set_mset] by simp
  then have "distinct (keys ?t @ concat (map keys us))" "x \<in> set (keys ?t)" using k Cons.prems by auto
  then obtain t' where t': "insert_each Bottom x us ?t = Inr t'" "mset (keys t') = mset (keys ?t @ concat (map keys us))"
    "kids_of x t' = kids_of x ?t @ map n_key us" using Cons.IH by blast
  have "kids_of x ?t = kids_of x t @ [n_key u]"
    using insert_at_kids [of t x u None] Cons.prems ins_before_end [of None] by simp
  then show ?case using t' k by (intro exI [of _ t']) (simp add: insert_one_def ac_simps)
qed simp

text \<open>In front of a child, one after the other.\<close>

lemma insert_befores:
  assumes "distinct (keys t @ concat (map keys us))" and "kids_of p t = as @ x # bs" and "p \<in> set (keys t)"
  shows "\<exists>t'. insert_each Before x us t = Inr t' \<and> mset (keys t') = mset (keys t @ concat (map keys us))
    \<and> kids_of p t' = as @ map n_key us @ x # bs"
  using assms
proof (induction us arbitrary: t as)
  case (Cons u us)
  have dt: "distinct (keys t)" and du: "distinct (keys u @ keys t)" using Cons.prems(1) by auto
  have par: "parent_key x t = Some p" using kid_parent [OF dt, of x p] Cons.prems(2) by simp
  let ?t = "insert_at p u (Some x) t"
  note k = insert_at_distinct [OF du Cons.prems(3), of "Some x"]
  have s: "set (keys ?t) = set (keys u) \<union> set (keys t)" using arg_cong [OF conjunct1 [OF k], of set_mset] by simp
  have "p \<notin> set (keys u)" using du Cons.prems(3) by auto
  have "x \<notin> set as" using kids_distinct [OF dt, of p] Cons.prems(2) by simp
  then have kids: "kids_of p ?t = (as @ [n_key u]) @ x # bs"
    using insert_at_kids [OF dt Cons.prems(3)] Cons.prems(2) by (simp add: ins_before_split)
  have "distinct (keys ?t @ concat (map keys us))" "p \<in> set (keys ?t)" using s k Cons.prems by auto
  then obtain t' where t': "insert_each Before x us ?t = Inr t'" "mset (keys t') = mset (keys ?t @ concat (map keys us))"
    "kids_of p t' = (as @ [n_key u]) @ map n_key us @ x # bs" using Cons.IH kids by blast
  then show ?case using k par by (intro exI [of _ t']) (simp add: insert_one_def ac_simps)
qed simp

text \<open>Behind a node, and in front of all children, the last inserted comes first.\<close>

lemma insert_afters:
  assumes "distinct (keys t @ concat (map keys us))" and "kids_of p t = as @ x # bs"
  shows "\<exists>t'. insert_each After x us t = Inr t' \<and> mset (keys t') = mset (keys t @ concat (map keys us))
    \<and> kids_of p t' = as @ x # rev (map n_key us) @ bs"
  using assms
proof (induction us arbitrary: t bs)
  case (Cons u us)
  have dt: "distinct (keys t)" and du: "distinct (keys u @ keys t)" using Cons.prems(1) by auto
  have pt: "p \<in> set (keys t)" using kids_in [of p t] Cons.prems(2) by simp
  have par: "parent_key x t = Some p" using kid_parent [OF dt, of x p] Cons.prems(2) by simp
  have dk: "distinct (as @ x # bs)" using kids_distinct [OF dt, of p] Cons.prems(2) by simp
  let ?t = "insert_at p u (nextSibling x t) t"
  note k = insert_at_distinct [OF du pt, of "nextSibling x t"]
  have s: "set (keys ?t) = set (keys u) \<union> set (keys t)" using arg_cong [OF conjunct1 [OF k], of set_mset] by simp
  have nx: "nextSibling x t = after_in x (as @ x # bs)" by (simp add: nextSibling_def kin_def par Cons.prems(2))
  have "kids_of p ?t = ins_before (n_key u) (nextSibling x t) (as @ x # bs)"
    using insert_at_kids [OF dt pt] Cons.prems(2) by simp
  also have "\<dots> = as @ x # n_key u # bs"
  proof (cases bs)
    case Nil
    then have "nextSibling x t = None" using dk nx by (simp add: after_in_last)
    then show ?thesis using Nil ins_before_end [of None "as @ [x]" "n_key u"] by simp
  next
    case (Cons b cs)
    then have "nextSibling x t = Some b" using dk nx by (simp add: after_in_split)
    then show ?thesis using Cons dk ins_before_split [of b "as @ [x]" "n_key u" cs] by simp
  qed
  finally have kids: "kids_of p ?t = as @ x # n_key u # bs" .
  have "distinct (keys ?t @ concat (map keys us))" using s k Cons.prems by auto
  then obtain t' where t': "insert_each After x us ?t = Inr t'" "mset (keys t') = mset (keys ?t @ concat (map keys us))"
    "kids_of p t' = as @ x # rev (map n_key us) @ n_key u # bs" using Cons.IH kids by blast
  then show ?case using k par by (intro exI [of _ t']) (simp add: insert_one_def ac_simps)
qed simp

lemma insert_tops:
  assumes "distinct (keys t @ concat (map keys us))" and "x \<in> set (keys t)"
  shows "\<exists>t'. insert_each Top x us t = Inr t' \<and> mset (keys t') = mset (keys t @ concat (map keys us))
    \<and> kids_of x t' = rev (map n_key us) @ kids_of x t"
  using assms
proof (induction us arbitrary: t)
  case (Cons u us)
  have dt: "distinct (keys t)" and du: "distinct (keys u @ keys t)" using Cons.prems(1) by auto
  let ?r = "case kids_of x t of [] \<Rightarrow> None | k # _ \<Rightarrow> Some k"
  let ?t = "insert_at x u ?r t"
  note k = insert_at_distinct [OF du Cons.prems(2), of ?r]
  have s: "set (keys ?t) = set (keys u) \<union> set (keys t)" using arg_cong [OF conjunct1 [OF k], of set_mset] by simp
  have kids: "kids_of x ?t = n_key u # kids_of x t"
    using insert_at_kids [OF dt Cons.prems(2)] by (cases "kids_of x t") simp_all
  have "distinct (keys ?t @ concat (map keys us))" "x \<in> set (keys ?t)" using s k Cons.prems by auto
  then obtain t' where t': "insert_each Top x us ?t = Inr t'" "mset (keys t') = mset (keys ?t @ concat (map keys us))"
    "kids_of x t' = rev (map n_key us) @ kids_of x ?t" using Cons.IH by blast
  then show ?case using k kids by (intro exI [of _ t']) (simp add: insert_one_def ac_simps)
qed simp

text \<open>
  C34. Inserted nodes keep their order at each of the four places: before or behind the element among the
  children of its parent, in front of or behind its own children; no node of the document is lost.
\<close>

theorem insert_keeps_order:
  assumes "distinct (keys t @ concat (map keys us))" and "x \<in> set (keys t)" and "kids_of p t = as @ x # bs"
  shows "\<exists>t'. insert_nodes position x us t = Inr t' \<and> mset (keys t') = mset (keys t @ concat (map keys us))
    \<and> (case position of
         Before \<Rightarrow> kids_of p t' = as @ map n_key us @ x # bs
       | After \<Rightarrow> kids_of p t' = as @ x # map n_key us @ bs
       | Top \<Rightarrow> kids_of x t' = map n_key us @ kids_of x t
       | Bottom \<Rightarrow> kids_of x t' = kids_of x t @ map n_key us)"
proof -
  have pt: "p \<in> set (keys t)" using kids_in [of p t] assms(3) by simp
  have ms: "mset (concat (map keys (rev us))) = mset (concat (map keys us))" by (induction us) simp_all
  have "mset (keys t @ concat (map keys (rev us))) = mset (keys t @ concat (map keys us))" using ms by simp
  then have dr: "distinct (keys t @ concat (map keys (rev us)))" using assms(1) mset_eq_imp_distinct_iff by blast
  show ?thesis
  proof (cases position)
    case Before
    then show ?thesis using insert_befores [OF assms(1,3) pt] by (simp add: insert_nodes_def)
  next
    case Top
    then show ?thesis using insert_tops [OF dr assms(2)] ms by (simp add: insert_nodes_def rev_map)
  next
    case Bottom
    then show ?thesis using insert_bottoms [OF assms(1,2)] by (simp add: insert_nodes_def)
  next
    case After
    then show ?thesis using insert_afters [OF dr assms(3)] ms by (simp add: insert_nodes_def rev_map)
  qed
qed

theorem insert_keeps_order_witness:
  "\<exists>t'. insert_nodes After 2 [DNode 7 [] [] [] [], DNode 8 [] [] [] []]
      (DNode 1 [] [] [] [DNode 2 [] [] [] [], DNode 3 [] [] [] []]) = Inr t' \<and> kids_of 1 t' = [2, 7, 8, 3]"
  using insert_keeps_order [of "DNode 1 [] [] [] [DNode 2 [] [] [] [], DNode 3 [] [] [] []]"
      "[DNode 7 [] [] [] [], DNode 8 [] [] [] []]" 2 1 "[]" "[3]" After]
  by (auto simp: kids_of_def)

subsection \<open>Identifiers\<close>

text \<open>
  C35. \<open>identify\<close> always returns: it gives an element without an identifier one that no element of the document
  has, and counts on, so that no number is tried twice.
\<close>

theorem identify_fresh:
  "fst (identify_loop ids counter) \<notin> set ids \<and> counter < snd (identify_loop ids counter)
   \<and> (readAttribute (lit ''id'') e = None \<longrightarrow>
        readAttribute (lit ''id'') (fst (snd (identify ids e counter))) = Some (fst (identify ids e counter))
        \<and> fst (identify ids e counter) \<notin> set ids)"
proof -
  have l: "fst (identify_loop ids counter) \<notin> set ids \<and> counter < snd (identify_loop ids counter)" for counter
  proof (induction ids counter rule: identify_loop.induct)
    case (1 ids counter)
    then show ?case by (cases "anonymous counter \<in> set ids") (simp_all add: identify_loop.simps [of ids counter])
  qed
  moreover have "lit ''id'' \<noteq> lit ''className''" "lit ''id'' \<noteq> lit ''htmlFor''" by (simp_all add: lit_def)
  ultimately show ?thesis
    by (auto simp: identify_def case_prod_beta Let_def readAttribute_def writeAttribute_def write_one_def attr_name_def)
qed

theorem identify_fresh_witness:
  "let e = \<lparr>st_style = [], st_attrs = [], st_madePositioned = False, st_overflow = None\<rparr>; ids = [lit ''anonymous_element_1'']
   in readAttribute (lit ''id'') (fst (snd (identify ids e 1))) = Some (fst (identify ids e 1))
      \<and> fst (identify ids e 1) \<noteq> lit ''anonymous_element_1''"
  using identify_fresh [of "[lit ''anonymous_element_1'']" 1
      "\<lparr>st_style = [], st_attrs = [], st_madePositioned = False, st_overflow = None\<rparr>"]
  by (simp add: readAttribute_def Let_def)

subsection \<open>Styles that are put back\<close>

lemma inline_set [simp]: "inline m (set_inline n v e) = (if m = n then v else inline m e)"
  by (simp add: inline_def set_inline_def)

lemma toggle_visible: "elem_visible (elem_toggle e) \<longleftrightarrow> \<not> elem_visible e"
  by (simp add: elem_toggle_def elem_visible_def elem_hide_def elem_show_def lit_def)

text \<open>Clipping and back leaves the style as it was, if the overflow was that of the style or none anywhere.\<close>

lemma clipping_undone:
  assumes "st_overflow e = None" and "camelize toUpper (lit ''overflow'') = lit ''overflow''"
    and "inline (lit ''overflow'') e \<noteq> [] \<and> inline (lit ''overflow'') e \<noteq> lit ''auto''
      \<or> inline (lit ''overflow'') e = [] \<and> css (lit ''overflow'') = None"
  shows "inline m (undoClipping (makeClipping toUpper css e)) = inline m e"
  using assms
  by (auto simp: undoClipping_def makeClipping_def getStyle_def Let_def set_inline_def inline_def lit_def)

text \<open>Measuring a hidden element changes nothing that is read afterwards.\<close>

lemma dimensions_restore: "inline m (snd (getDimensions toUpper css offset size_of e)) = inline m e"
  by (simp add: getDimensions_def Let_def)

end
