(* ===== verification/Regex.thy ===== *)
theory Regex
  imports ProtoString
begin

text \<open>
  The regular expressions of the language, as far as the selector engine and the effects use them.
  \<open>runs\<close> gives every way an expression matches at a position, in the order in which the
  backtracking matcher of the language tries them; the match is the first one. A state holds the
  text before the position, reversed, the text behind it, and what the groups have caught.
\<close>

subsection \<open>Expressions\<close>

datatype regex =
    REmpty
  | RChar "jchar \<Rightarrow> bool"
  | RSeq regex regex
  | RAlt regex regex
  | RStar regex
  | RLazy regex
  | ROpt regex
  | RGroup nat regex
  | RBack nat
  | RBoundary
  | REnd
  | RBegin
  | RAhead "jchar \<Rightarrow> bool"

type_synonym rstate = "ustr \<times> ustr \<times> (nat \<Rightarrow> ustr option)"

abbreviation ahead :: "rstate \<Rightarrow> ustr" where
  "ahead st \<equiv> fst (snd st)"

definition word_char :: "jchar \<Rightarrow> bool" where
  "word_char c \<longleftrightarrow> (65 \<le> c \<and> c \<le> 90) \<or> (97 \<le> c \<and> c \<le> 122) \<or> (48 \<le> c \<and> c \<le> 57) \<or> c = 95"

definition dot_char :: "jchar \<Rightarrow> bool" where
  "dot_char c \<longleftrightarrow> c \<notin> {10, 13, 0x2028, 0x2029}"

definition head_is :: "(jchar \<Rightarrow> bool) \<Rightarrow> ustr \<Rightarrow> bool" where
  "head_is P s \<longleftrightarrow> (case s of [] \<Rightarrow> False | c # _ \<Rightarrow> P c)"

definition step_char :: "(jchar \<Rightarrow> bool) \<Rightarrow> rstate \<Rightarrow> rstate list" where
  "step_char P st =
     (case st of (pre, s, g) \<Rightarrow> (case s of [] \<Rightarrow> [] | c # r \<Rightarrow> if P c then [(c # pre, r, g)] else []))"

text \<open>A literal text, also what a group has caught.\<close>

fun step_text :: "ustr \<Rightarrow> rstate \<Rightarrow> rstate list" where
  "step_text [] st = [st]"
| "step_text (c # cs) st = concat (map (step_text cs) (step_char (\<lambda>x. x = c) st))"

text \<open>Repetition: an iteration that takes no character fails, as the language says. The bound is the number of characters left.\<close>

fun star_runs :: "bool \<Rightarrow> (rstate \<Rightarrow> rstate list) \<Rightarrow> nat \<Rightarrow> rstate \<Rightarrow> rstate list" where
  "star_runs greedy f 0 st = [st]"
| "star_runs greedy f (Suc n) st =
     (let again = concat (map (star_runs greedy f n) (filter (\<lambda>u. length (ahead u) < length (ahead st)) (f st)))
      in if greedy then again @ [st] else st # again)"

definition catch :: "nat \<Rightarrow> rstate \<Rightarrow> rstate \<Rightarrow> rstate" where
  "catch k st u =
     (fst u, ahead u, (snd (snd u))(k := Some (take (length (ahead st) - length (ahead u)) (ahead st))))"

primrec runs :: "regex \<Rightarrow> rstate \<Rightarrow> rstate list" where
  "runs REmpty st = [st]"
| "runs (RChar P) st = step_char P st"
| "runs (RSeq a b) st = concat (map (runs b) (runs a st))"
| "runs (RAlt a b) st = runs a st @ runs b st"
| "runs (RStar a) st = star_runs True (runs a) (length (ahead st)) st"
| "runs (RLazy a) st = star_runs False (runs a) (length (ahead st)) st"
| "runs (ROpt a) st = filter (\<lambda>u. length (ahead u) < length (ahead st)) (runs a st) @ [st]"
| "runs (RGroup k a) st = map (catch k st) (runs a st)"
| "runs (RBack k) st = step_text (case snd (snd st) k of None \<Rightarrow> [] | Some t \<Rightarrow> t) st"
| "runs RBoundary st = (if head_is word_char (fst st) \<noteq> head_is word_char (ahead st) then [st] else [])"
| "runs REnd st = (if ahead st = [] then [st] else [])"
| "runs RBegin st = (if fst st = [] then [st] else [])"
| "runs (RAhead P) st = (if head_is P (ahead st) then [st] else [])"

text \<open>Written as in the source: a literal, one or more, a sequence, a choice.\<close>

fun rtext :: "ustr \<Rightarrow> regex" where
  "rtext [] = REmpty"
| "rtext (c # cs) = RSeq (RChar (\<lambda>x. x = c)) (rtext cs)"

definition rlit :: "string \<Rightarrow> regex" where
  "rlit s = rtext (lit s)"

definition RPlus :: "regex \<Rightarrow> regex" where
  "RPlus a = RSeq a (RStar a)"

fun rseq :: "regex list \<Rightarrow> regex" where
  "rseq [] = REmpty"
| "rseq [a] = a"
| "rseq (a # b # as) = RSeq a (rseq (b # as))"

fun ralt :: "regex list \<Rightarrow> regex" where
  "ralt [] = RChar (\<lambda>_. False)"
| "ralt [a] = a"
| "ralt (a # b # as) = RAlt a (ralt (b # as))"

subsection \<open>Matching\<close>

text \<open>The first match at or behind a position: its index and the groups \<open>0\<close> to \<open>k\<close>.\<close>

definition match_here :: "nat \<Rightarrow> regex \<Rightarrow> ustr \<Rightarrow> ustr \<Rightarrow> groups option" where
  "match_here k r pre s =
     (case runs r (pre, s, \<lambda>_. None) of
        [] \<Rightarrow> None
      | u # _ \<Rightarrow> Some (Some (take (length s - length (ahead u)) s) # map (snd (snd u)) [1..<Suc k]))"

fun match_from :: "nat \<Rightarrow> regex \<Rightarrow> ustr \<Rightarrow> ustr \<Rightarrow> (nat \<times> groups) option" where
  "match_from k r pre [] = map_option (\<lambda>gs. (0, gs)) (match_here k r pre [])"
| "match_from k r pre (c # s) =
     (case match_here k r pre (c # s) of
        Some gs \<Rightarrow> Some (0, gs)
      | None \<Rightarrow> map_option (\<lambda>(i, gs). (Suc i, gs)) (match_from k r (c # pre) s))"

definition re_match :: "nat \<Rightarrow> regex \<Rightarrow> matcher" where
  "re_match k r s = match_from k r [] s"

text \<open>\<open>replace\<close> with a text: its first occurrence goes away.\<close>

definition cut_first :: "ustr \<Rightarrow> ustr \<Rightarrow> ustr" where
  "cut_first t s = (case find_sub t s of None \<Rightarrow> s | Some i \<Rightarrow> take i s @ drop (i + length t) s)"

subsection \<open>What a match catches\<close>

lemma star_runs_inv:
  assumes "u \<in> set (star_runs greedy f n st)" and "P st"
    and "\<And>v w. P v \<Longrightarrow> w \<in> set (f v) \<Longrightarrow> P w"
  shows "P u"
  using assms(1,2)
proof (induction n arbitrary: st)
  case (Suc n)
  have "u = st \<or> (\<exists>v \<in> set (f st). u \<in> set (star_runs greedy f n v))"
    using Suc.prems(1) by (auto simp: Let_def split: if_splits)
  then show ?case using Suc.IH Suc.prems(2) assms(3) by blast
qed simp

definition reached :: "rstate \<Rightarrow> rstate \<Rightarrow> bool" where
  "reached st u \<longleftrightarrow> (\<exists>w. ahead st = w @ ahead u \<and> fst u = rev w @ fst st)
     \<and> (\<forall>k t. snd (snd u) k = Some t \<longrightarrow> snd (snd st) k = Some t \<or> length t \<le> length (ahead st))"

lemma reached_refl [simp]: "reached st st"
  by (simp add: reached_def)

lemma reached_trans: "reached s t \<Longrightarrow> reached t u \<Longrightarrow> reached s u"
  unfolding reached_def by (fastforce simp: le_SucI)

lemma reached_length: "reached st u \<Longrightarrow> length (ahead u) \<le> length (ahead st)"
  by (auto simp: reached_def)

lemma reached_char: "u \<in> set (step_char P st) \<Longrightarrow> reached st u"
  by (cases st) (auto simp: reached_def step_char_def split: list.splits if_splits)

lemma reached_text: "u \<in> set (step_text t st) \<Longrightarrow> reached st u"
  by (induction t arbitrary: st) (auto dest: reached_char intro: reached_trans)

lemma reached_catch: "reached st u \<Longrightarrow> reached st (catch k st u)"
  unfolding reached_def catch_def by auto

lemma runs_reached: "u \<in> set (runs r st) \<Longrightarrow> reached st u"
proof (induction r arbitrary: st u)
  case (RSeq a b)
  obtain v where "v \<in> set (runs a st)" and "u \<in> set (runs b v)" using RSeq.prems by auto
  then show ?case using RSeq.IH reached_trans by blast
next
  case (RStar a)
  show ?case
    by (rule star_runs_inv [OF RStar.prems [unfolded runs.simps], of "reached st"])
       (auto intro: reached_trans RStar.IH)
next
  case (RLazy a)
  show ?case
    by (rule star_runs_inv [OF RLazy.prems [unfolded runs.simps], of "reached st"])
       (auto intro: reached_trans RLazy.IH)
next
  case (RGroup k a)
  obtain v where "v \<in> set (runs a st)" and "u = catch k st v" using RGroup.prems by auto
  then show ?case using RGroup.IH reached_catch by blast
qed (auto simp: reached_char reached_text split: if_splits)

lemma match_here_group:
  assumes "match_here k r pre s = Some m"
  shows "length (group i m) \<le> length s"
proof -
  obtain u where u: "u \<in> set (runs r (pre, s, \<lambda>_. None))"
    and m: "m = Some (take (length s - length (ahead u)) s) # map (snd (snd u)) [1..<Suc k]"
    using assms by (auto simp: match_here_def split: list.splits)
  show ?thesis
  proof (cases i)
    case 0
    then show ?thesis by (simp add: m group_def)
  next
    case (Suc j)
    then show ?thesis using runs_reached [OF u]
      by (auto simp: m group_def reached_def nth_append simp del: upt_Suc split: option.splits)
  qed
qed

lemma re_match_group: "re_match k r s = Some (n, m) \<Longrightarrow> length (group i m) \<le> length s"
proof -
  have "match_from k r pre s = Some (n, m) \<Longrightarrow> length (group i m) \<le> length s" for pre
    by (induction s arbitrary: pre n)
       (auto dest: match_here_group le_SucI split: option.splits)
  then show "re_match k r s = Some (n, m) \<Longrightarrow> length (group i m) \<le> length s"
    by (simp add: re_match_def)
qed

text \<open>A pattern that begins with one fixed character catches shorter texts.\<close>

lemma begin_here: "match_from k (RSeq RBegin a) pre s = Some (n, m) \<Longrightarrow> pre = [] \<Longrightarrow> match_here k (RSeq RBegin a) [] s = Some m"
proof (induction s arbitrary: pre n)
  case (Cons c s)
  have none: "match_from k (RSeq RBegin a) (x # xs) t = None" for x xs t
    by (induction t arbitrary: x xs) (auto simp: match_here_def)
  show ?case using Cons.prems none by (auto split: option.splits)
qed auto

lemma char_group_shorter:
  assumes "re_match k (RSeq RBegin (RSeq (RSeq (RChar P) REmpty) a)) e = Some (n, m)" and "0 < i"
  shows "length (group i m) < length e"
proof -
  let ?r = "RSeq RBegin (RSeq (RSeq (RChar P) REmpty) a)"
  have "match_here k ?r [] e = Some m"
    using begin_here [OF assms(1) [unfolded re_match_def]] by simp
  then obtain u where u: "u \<in> set (runs ?r ([], e, \<lambda>_. None))"
    and m: "m = Some (take (length e - length (ahead u)) e) # map (snd (snd u)) [1..<Suc k]"
    by (auto simp: match_here_def simp del: runs.simps split: list.splits)
  obtain c e1 where e: "e = c # e1" and v: "u \<in> set (runs a ([c], e1, \<lambda>_. None))"
    using u by (cases e) (auto simp: step_char_def split: if_splits)
  show ?thesis using runs_reached [OF v] assms(2)
    by (cases i) (auto simp: m e group_def reached_def less_Suc_eq_le simp del: upt_Suc split: option.splits)
qed

end
