(* ===== verification/SelectorText.thy ===== *)
theory SelectorText
  imports Selector Regex ProtoTemplate ProtoText
begin

text \<open>
  The text of a selector (\<open>prototype.js\<close>, lines 2728 to 2991, 3005 to 3041 and 3390 to 3396): the
  patterns, the loop that cuts one match after another off the text, the program and the XPath
  expression that are made of the matches, and the cache of both.
\<close>

subsection \<open>Patterns\<close>

datatype pattern =
    PLaterSibling | PChild | PAdjacent | PDescendant
  | PTagName | PId | PClassName | PPseudo | PAttrPresence | PAttr

definition rspaces :: regex where
  "rspaces = RStar (RChar is_ws)"

definition name_char :: "jchar \<Rightarrow> bool" where
  "name_char c \<longleftrightarrow> word_char c \<or> c = 45"

definition star_name_char :: "jchar \<Rightarrow> bool" where
  "star_name_char c \<longleftrightarrow> name_char c \<or> c = 42"

definition re_combinator :: "jchar \<Rightarrow> regex" where
  "re_combinator k = rseq [RBegin, rspaces, RChar (\<lambda>c. c = k), rspaces]"

definition re_descendant :: regex where
  "re_descendant = rseq [RBegin, RChar is_ws]"

definition re_tagName :: regex where
  "re_tagName =
     rseq [RBegin, rspaces, RGroup 1 (RAlt (rlit ''*'') (RPlus (RChar name_char))),
           ROpt (RGroup 2 (RAlt RBoundary REnd))]"

text \<open>An identifier or a class: a mark and a name.\<close>

definition re_marked :: "jchar \<Rightarrow> regex" where
  "re_marked k =
     rseq [RBegin, RChar (\<lambda>c. c = k), RGroup 1 (RPlus (RChar star_name_char)), RGroup 2 (RAlt RBoundary REnd)]"

definition re_pseudo_name :: regex where
  "re_pseudo_name =
     ralt [RSeq (RGroup 2 (ralt [rlit ''first'', rlit ''last'', rlit ''nth'', rlit ''nth-last'', rlit ''only'']))
             (RGroup 3 (ralt [rlit ''-child'', rlit ''-of-type''])),
           rlit ''empty'', rlit ''checked'',
           RSeq (RGroup 4 (ralt [rlit ''en'', rlit ''dis''])) (rlit ''abled''), rlit ''not'']"

definition re_argument :: regex where
  "re_argument = ROpt (RGroup 5 (rseq [rlit ''('', RGroup 6 (RLazy (RChar dot_char)), rlit '')'']))"

definition re_pseudo_end :: regex where
  "re_pseudo_end =
     RGroup 7 (ralt [RBoundary, REnd, ralt [RAhead is_ws, RAhead (\<lambda>c. c \<in> {58, 43, 126, 62})]])"

definition re_pseudo :: regex where
  "re_pseudo = rseq [RBegin, rlit '':'', RGroup 1 re_pseudo_name, re_argument, re_pseudo_end]"

definition re_attrPresence :: regex where
  "re_attrPresence =
     rseq [RBegin, rlit ''['',
           RGroup 1 (RSeq (ROpt (RSeq (RPlus (RChar word_char)) (rlit '':''))) (RPlus (RChar word_char))),
           rlit '']'']"

text \<open>In the class \<open>[^\4]\<close> the escape is the character of code 4, not a group.\<close>

definition re_attr_value :: regex where
  "re_attr_value =
     RGroup 3 (RAlt
       (rseq [RGroup 4 (RChar (\<lambda>c. c = 39 \<or> c = 34)), RGroup 5 (RLazy (RChar (\<lambda>c. c \<noteq> 4))), RBack 4])
       (RGroup 6 (RSeq (RChar (\<lambda>c. c \<noteq> 39 \<and> c \<noteq> 34)) (RLazy (RChar (\<lambda>c. c \<noteq> 93))))))"

definition re_attr :: regex where
  "re_attr =
     rseq [rlit ''['',
           RGroup 1 (RSeq (ROpt (RSeq (RStar (RChar name_char)) (rlit '':''))) (RPlus (RChar name_char))),
           rspaces,
           ROpt (rseq [RGroup 2 (RSeq (ROpt (RChar (\<lambda>c. c \<in> set (lit ''!^$*~|'')))) (rlit ''='')), rspaces, re_attr_value]),
           rlit '']'']"

definition patterns :: "(pattern \<times> nat \<times> regex) list" where
  "patterns =
     [(PLaterSibling, 0, re_combinator 126), (PChild, 0, re_combinator 62), (PAdjacent, 0, re_combinator 43),
      (PDescendant, 0, re_descendant), (PTagName, 2, re_tagName), (PId, 2, re_marked 35),
      (PClassName, 2, re_marked 46), (PPseudo, 7, re_pseudo), (PAttrPresence, 1, re_attrPresence), (PAttr, 6, re_attr)]"

subsection \<open>The loop over the text\<close>

type_synonym selector_match = "pattern \<times> groups"

fun first_pattern :: "(pattern \<times> nat \<times> regex) list \<Rightarrow> ustr \<Rightarrow> selector_match option" where
  "first_pattern [] e = None"
| "first_pattern ((i, k, p) # ps) e =
     (case re_match k p e of Some (_, m) \<Rightarrow> Some (i, m) | None \<Rightarrow> first_pattern ps e)"

definition has_text :: "ustr \<Rightarrow> bool" where
  "has_text e \<longleftrightarrow> list_ex (\<lambda>c. \<not> is_ws c) e"

lemma cut_first_shorter: "cut_first t e = e \<or> length (cut_first t e) < length e"
  using find_sub_Some_split [of t e]
  by (cases t) (auto simp: cut_first_def min_def split: option.splits)

text \<open>The matches and the text that none of the patterns matches.\<close>

function scan_selector :: "ustr \<Rightarrow> selector_match list \<times> ustr" where
  "scan_selector e =
     (if e = [] \<or> \<not> has_text e then ([], e)
      else case first_pattern patterns e of
             None \<Rightarrow> ([], e)
           | Some (i, m) \<Rightarrow>
               let e' = cut_first (group 0 m) e in
               if e' = e then ([(i, m)], e)
               else (let (ms, rest) = scan_selector e' in ((i, m) # ms, rest)))"
  by pat_completeness auto
termination
  by (relation "measure length") (use cut_first_shorter in \<open>auto\<close>)

declare scan_selector.simps [simp del]

subsection \<open>Tokens\<close>

lemma first_pattern_in: "first_pattern ps e = Some (i, m) \<Longrightarrow> \<exists>k p n. (i, k, p) \<in> set ps \<and> re_match k p e = Some (n, m)"
  by (induction ps e rule: first_pattern.induct) (auto split: option.splits)

lemma scan_selector_argument:
  "(PPseudo, m) \<in> set (fst (scan_selector e)) \<Longrightarrow> length (group 6 m) < length e"
proof (induction e rule: scan_selector.induct)
  case (1 e)
  have head: "first_pattern patterns e = Some (PPseudo, m) \<Longrightarrow> length (group 6 m) < length e"
    using char_group_shorter [of 7 _ _ e _ m 6]
    by (drule_tac first_pattern_in) (auto simp: patterns_def re_pseudo_def rlit_def js_simps)
  show ?case
  proof (cases "e = [] \<or> \<not> has_text e \<or> first_pattern patterns e = None")
    case True
    then show ?thesis using 1(2) by (subst (asm) scan_selector.simps) (auto split: if_splits)
  next
    case False
    then obtain i m' where f: "first_pattern patterns e = Some (i, m')" and n: "\<not> (e = [] \<or> \<not> has_text e)" by auto
    let ?e' = "cut_first (group 0 m') e"
    show ?thesis
    proof (cases "?e' = e")
      case True
      then show ?thesis using 1(2) f n head by (subst (asm) scan_selector.simps) auto
    next
      case False
      have "(PPseudo, m) = (i, m') \<or> (PPseudo, m) \<in> set (fst (scan_selector ?e'))"
        using 1(2) f n False
        by (subst (asm) scan_selector.simps) (simp add: Let_def case_prod_beta)
      then show ?thesis
        using head f 1(1) [OF n f refl refl False] cut_first_shorter [of "group 0 m'" e] False
        by auto
    qed
  qed
qed

definition op_of :: "ustr \<Rightarrow> attr_op" where
  "op_of s =
     (if s = lit ''='' then OpEq else if s = lit ''!='' then OpNe else if s = lit ''^='' then OpPrefix
      else if s = lit ''$='' then OpSuffix else if s = lit ''*='' then OpSubstring
      else if s = lit ''~='' then OpWord else if s = lit ''|='' then OpDash else OpMissing)"

text \<open>\<open>m[5] || m[6]\<close>: the value of a comparison, quoted or not.\<close>

definition or_value :: "groups \<Rightarrow> ustr" where
  "or_value m = (if group 5 m \<noteq> [] then group 5 m else group 6 m)"

text \<open>The handler of \<open>Selector.pseudos\<close> by its name; \<open>excluded\<close> are the tokens of the argument.\<close>

definition pseudo_token :: "token list \<Rightarrow> ustr \<Rightarrow> ustr \<Rightarrow> simple" where
  "pseudo_token excluded name v =
     (if name = lit ''first-child'' then SFirstChild
      else if name = lit ''last-child'' then SLastChild
      else if name = lit ''only-child'' then SOnlyChild
      else if name = lit ''nth-child'' then SNth v False False
      else if name = lit ''nth-last-child'' then SNth v True False
      else if name = lit ''nth-of-type'' then SNth v False True
      else if name = lit ''nth-last-of-type'' then SNth v True True
      else if name = lit ''first-of-type'' then SNth (lit ''1'') False True
      else if name = lit ''last-of-type'' then SNth (lit ''1'') True True
      else if name = lit ''only-of-type'' then SOnlyOfType
      else if name = lit ''empty'' then SEmpty
      else if name = lit ''not'' then SNot excluded
      else if name = lit ''enabled'' then SEnabled
      else if name = lit ''disabled'' then SDisabled
      else SChecked)"

definition token_of :: "token list \<Rightarrow> pattern \<Rightarrow> groups \<Rightarrow> token" where
  "token_of excluded i m =
     (case i of
        PLaterSibling \<Rightarrow> Comb LaterSibling
      | PChild \<Rightarrow> Comb Child
      | PAdjacent \<Rightarrow> Comb Adjacent
      | PDescendant \<Rightarrow> Comb Descendant
      | PTagName \<Rightarrow> Simple (STag (group 1 m))
      | PId \<Rightarrow> Simple (SId (group 1 m))
      | PClassName \<Rightarrow> Simple (SClass (group 1 m))
      | PPseudo \<Rightarrow> Simple (pseudo_token excluded (group 1 m) (group 6 m))
      | PAttrPresence \<Rightarrow> Simple (SAttrPresence (group 1 m))
      | PAttr \<Rightarrow> Simple (SAttr (group 1 m) (op_of (group 2 m)) (or_value m)))"

lemma length_strip_le: "length (strip s) \<le> length s"
  unfolding strip_def strip_left_def strip_right_def
  by (metis length_dropWhile_le length_rev order_trans)

text \<open>The tokens of a text. The argument of \<open>:not\<close> is a selector of its own, stripped first.\<close>

function tokens :: "ustr \<Rightarrow> token list" where
  "tokens e =
     map (\<lambda>(i, m). token_of (if i = PPseudo then tokens (strip (group 6 m)) else []) i m) (fst (scan_selector e))"
  by pat_completeness auto
termination
proof (relation "measure length")
  fix e and x :: selector_match and i m
  assume "x \<in> set (fst (scan_selector e))" and "(i, m) = x" and "i = PPseudo"
  then have "length (group 6 m) < length e" using scan_selector_argument by blast
  then show "(strip (group 6 m), e) \<in> measure length"
    using length_strip_le [of "group 6 m"] by simp
qed simp

declare tokens.simps [simp del]

end
