(* ===== verification/RegexFacts.thy ===== *)
theory RegexFacts
  imports Regex
begin

text \<open>
  Rules about the first match of an expression: greedy and lazy runs over a class of characters, and
  sequences whose first part needs no backtracking.
\<close>

definition first_run :: "regex \<Rightarrow> rstate \<Rightarrow> rstate option" where
  "first_run r st = (case runs r st of [] \<Rightarrow> None | u # _ \<Rightarrow> Some u)"

lemma first_run_None [simp]: "first_run r st = None \<longleftrightarrow> runs r st = []"
  by (simp add: first_run_def split: list.splits)

lemma first_runI: "runs r st = u # us \<Longrightarrow> first_run r st = Some u"
  by (simp add: first_run_def)

lemma first_runD: "first_run r st = Some u \<Longrightarrow> \<exists>us. runs r st = u # us"
  by (simp add: first_run_def split: list.splits)

lemma match_here_first:
  "match_here k r pre s =
     map_option (\<lambda>u. Some (take (length s - length (ahead u)) s) # map (snd (snd u)) [1..<Suc k])
       (first_run r (pre, s, \<lambda>_. None))"
  by (simp add: match_here_def first_run_def split: list.splits)

lemma re_match_begin:
  "re_match k (RSeq RBegin a) e = map_option (\<lambda>m. (0, m)) (match_here k a [] e)"
proof -
  have none: "match_from k (RSeq RBegin a) (x # xs) t = None" for x xs t
    by (induction t arbitrary: x xs) (auto simp: match_here_def)
  have "match_here k (RSeq RBegin a) [] e = match_here k a [] e" by (simp add: match_here_def)
  then show ?thesis unfolding re_match_def using none by (cases e) (auto split: option.splits)
qed

lemma re_match_here: "match_here k r [] e = Some m \<Longrightarrow> re_match k r e = Some (0, m)"
  unfolding re_match_def by (cases e) auto

subsection \<open>Sequences\<close>

lemma seq_single: "runs a st = [v] \<Longrightarrow> runs (RSeq a b) st = runs b v"
  by simp

lemma seq_first: "first_run a st = Some v \<Longrightarrow> first_run b v = Some u \<Longrightarrow> first_run (RSeq a b) st = Some u"
  by (auto simp: first_run_def split: list.splits)

lemma seq_first_single: "first_run a st = Some v \<Longrightarrow> runs b v = [w] \<Longrightarrow> first_run (RSeq a b) st = Some w"
  by (erule seq_first) (rule first_runI)

lemma seq_single_first: "runs a st = [v] \<Longrightarrow> first_run (RSeq a b) st = first_run b v"
  by (simp add: first_run_def)

lemma concat_first:
  "(\<And>x. x \<in> set xs \<Longrightarrow> f x = []) \<Longrightarrow> f v = u # us \<Longrightarrow> \<exists>ws. concat (map f (xs @ v # ys)) = u # ws"
  by (induction xs) auto

lemma seq_later:
  assumes "runs a st = xs @ v # ys" and "\<And>x. x \<in> set xs \<Longrightarrow> runs b x = []" and "first_run b v = Some u"
  shows "first_run (RSeq a b) st = Some u"
proof -
  obtain us where "runs b v = u # us" using assms(3) by (auto dest: first_runD)
  then obtain ws where "concat (map (runs b) (xs @ v # ys)) = u # ws"
    using concat_first [of xs "runs b" v u us ys] assms(2) by blast
  then show ?thesis by (simp add: first_run_def assms(1))
qed

lemma seq_none: "(\<And>v. v \<in> set (runs a st) \<Longrightarrow> runs b v = []) \<Longrightarrow> runs (RSeq a b) st = []"
  by simp

lemma alt_left: "first_run a st = Some u \<Longrightarrow> first_run (RAlt a b) st = Some u"
  by (auto simp: first_run_def split: list.splits)

lemma alt_right: "runs a st = [] \<Longrightarrow> first_run (RAlt a b) st = first_run b st"
  by (simp add: first_run_def)

lemma opt_taken:
  "first_run a st = Some u \<Longrightarrow> length (ahead u) < length (ahead st) \<Longrightarrow> first_run (ROpt a) st = Some u"
  by (auto simp: first_run_def split: list.splits)

lemma opt_skipped: "runs a st = [] \<Longrightarrow> runs (ROpt a) st = [st]"
  by simp

lemma group_first: "first_run (RGroup k a) st = map_option (catch k st) (first_run a st)"
  by (simp add: first_run_def split: list.splits)

lemma catch_text [simp]: "catch k (pre, w @ r, g) (pre', r, g') = (pre', r, g'(k := Some w))"
  by (simp add: catch_def)

lemma catch_all [simp]: "catch k (pre, w, g) (pre', [], g') = (pre', [], g'(k := Some w))"
  by (simp add: catch_def)

lemma runs_text [simp]: "runs (rtext t) (pre, t @ r, g) = [(rev t @ pre, r, g)]"
  by (induction t arbitrary: pre) (simp_all add: step_char_def)

lemma step_text_self [simp]: "step_text t (pre, t @ r, g) = [(rev t @ pre, r, g)]"
  by (induction t arbitrary: pre) (simp_all add: step_char_def)

subsection \<open>Runs over a class of characters\<close>

definition ahead_by :: "ustr \<Rightarrow> ustr \<Rightarrow> (nat \<Rightarrow> ustr option) \<Rightarrow> nat \<Rightarrow> rstate" where
  "ahead_by pre s g k = (rev (take k s) @ pre, drop k s, g)"

lemma ahead_by_Cons: "ahead_by pre (c # s) g (Suc k) = ahead_by (c # pre) s g k"
  by (simp add: ahead_by_def)

lemma ahead_by_0: "ahead_by pre s g 0 = (pre, s, g)"
  by (simp add: ahead_by_def)

lemma runs_RChar: "runs (RChar P) = step_char P"
  by (simp add: fun_eq_iff)

lemma star_class_runs:
  "length s \<le> n \<Longrightarrow> star_runs greedy (step_char P) n (pre, s, g) =
     map (ahead_by pre s g) ((if greedy then rev else id) [0..<Suc (length (takeWhile P s))])"
proof (induction n arbitrary: pre s)
  case (Suc n)
  show ?case
  proof (cases s)
    case Nil
    then show ?thesis by (simp add: step_char_def ahead_by_def)
  next
    case (Cons c r)
    have shift: "map (ahead_by (c # pre) r g) xs = map (ahead_by pre s g) (map Suc xs)" for xs
      by (simp add: Cons ahead_by_Cons)
    have up: "[0..<Suc (Suc m)] = 0 # map Suc [0..<Suc m]" for m
      by (simp add: upt_conv_Cons map_Suc_upt del: upt_Suc)
    show ?thesis
    proof (cases "P c")
      case True
      have "star_runs greedy (step_char P) n (c # pre, r, g) =
          map (ahead_by (c # pre) r g) ((if greedy then rev else id) [0..<Suc (length (takeWhile P r))])"
        using Suc by (simp add: Cons)
      moreover have "step_char P (pre, s, g) = [(c # pre, r, g)]" using True by (simp add: Cons step_char_def)
      ultimately show ?thesis using True up [of "length (takeWhile P r)"]
        by (simp add: Cons Let_def shift rev_map ahead_by_0 del: upt_Suc)
    next
      case False
      then show ?thesis by (simp add: Cons step_char_def ahead_by_0)
    qed
  qed
qed (simp add: ahead_by_0)

lemma star_runs_class:
  "runs (RStar (RChar P)) (pre, s, g) = map (ahead_by pre s g) (rev [0..<Suc (length (takeWhile P s))])"
  by (simp add: runs_RChar star_class_runs del: upt_Suc)

lemma lazy_runs_class:
  "runs (RLazy (RChar P)) (pre, s, g) = map (ahead_by pre s g) [0..<Suc (length (takeWhile P s))]"
  by (simp add: runs_RChar star_class_runs del: upt_Suc)

lemma plus_runs_class:
  "runs (RPlus (RChar P)) (pre, s, g) = map (ahead_by pre s g) (rev [1..<Suc (length (takeWhile P s))])"
proof (cases s)
  case Nil
  then show ?thesis by (simp add: RPlus_def runs_RChar step_char_def)
next
  case (Cons c r)
  then show ?thesis
    by (simp add: RPlus_def runs_RChar step_char_def star_class_runs rev_map ahead_by_Cons [symmetric] comp_def
        flip: map_Suc_upt del: upt_Suc)
qed

declare runs.simps(5,6) [simp del]

lemma takeWhile_class: "\<forall>c \<in> set w. P c \<Longrightarrow> \<not> head_is P r \<Longrightarrow> takeWhile P (w @ r) = w"
  by (cases r) (simp_all add: head_is_def)

lemma ahead_by_whole: "ahead_by pre (w @ r) g (length w) = (rev w @ pre, r, g)"
  by (simp add: ahead_by_def)

lemma star_first:
  assumes "\<forall>c \<in> set w. P c" and "\<not> head_is P r"
  shows "first_run (RStar (RChar P)) (pre, w @ r, g) = Some (rev w @ pre, r, g)"
  unfolding first_run_def star_runs_class takeWhile_class [OF assms] by (simp add: ahead_by_whole)

lemma plus_first:
  assumes "\<forall>c \<in> set w. P c" and "w \<noteq> []" and "\<not> head_is P r"
  shows "first_run (RPlus (RChar P)) (pre, w @ r, g) = Some (rev w @ pre, r, g)"
  unfolding first_run_def plus_runs_class takeWhile_class [OF assms(1,3)] using assms(2)
  by (cases w rule: rev_cases) (simp_all add: ahead_by_def)

lemma star_none: "\<not> head_is P s \<Longrightarrow> runs (RStar (RChar P)) (pre, s, g) = [(pre, s, g)]"
  unfolding star_runs_class by (cases s) (simp_all add: head_is_def ahead_by_0)

lemma plus_none: "\<not> head_is P s \<Longrightarrow> runs (RPlus (RChar P)) (pre, s, g) = []"
  unfolding plus_runs_class by (cases s) (simp_all add: head_is_def)

text \<open>A lazy run stops where the rest matches for the first time.\<close>

lemma lazy_group_first:
  assumes "\<forall>c \<in> set w. P c"
    and "\<And>j. j < length w \<Longrightarrow> runs b (rev (take j w) @ pre, drop j w @ r, g(k := Some (take j w))) = []"
    and "first_run b (rev w @ pre, r, g(k := Some w)) = Some u"
  shows "first_run (RSeq (RGroup k (RLazy (RChar P))) b) (pre, w @ r, g) = Some u"
proof -
  let ?n = "length w" and ?m = "length (takeWhile P (w @ r))"
  let ?f = "\<lambda>j. catch k (pre, w @ r, g) (ahead_by pre (w @ r) g j)"
  have n: "?n \<le> ?m" using assms(1) by simp
  have f: "?f j = (rev (take j w) @ pre, drop j w @ r, g(k := Some (take j w)))" if "j \<le> ?n" for j
    using that by (simp add: catch_def ahead_by_def)
  have "runs (RGroup k (RLazy (RChar P))) (pre, w @ r, g) = map ?f [0..<Suc ?m]"
    by (simp add: lazy_runs_class del: upt_Suc)
  also have "[0..<Suc ?m] = [0..<?n] @ ?n # [Suc ?n..<Suc ?m]"
    using n upt_add_eq_append [of 0 ?n "Suc ?m - ?n"] upt_conv_Cons [of ?n "Suc ?m"] by (simp del: upt_Suc)
  finally have "runs (RGroup k (RLazy (RChar P))) (pre, w @ r, g) =
      map ?f [0..<?n] @ ?f ?n # map ?f [Suc ?n..<Suc ?m]" by simp
  then show ?thesis
    by (rule seq_later) (use assms(2,3) f in auto)
qed

end
