(* ===== verification/SelectorPrint.thy ===== *)
theory SelectorPrint
  imports SelectorText RegexFacts
begin

text \<open>
  Tokens written as the text of a selector, and the lemma that the loop over the patterns reads that
  text back. \<open>canon\<close> says which lists of tokens have such a text: a combinator stands between two
  simple selectors, an element name comes first, names are names, and behind a pseudo-class with an
  argument comes another pseudo-class or a combinator, as the pattern wants it.
\<close>

subsection \<open>Writing\<close>

definition comb_text :: "combinator \<Rightarrow> ustr" where
  "comb_text k = (case k of Descendant \<Rightarrow> [32] | Child \<Rightarrow> [62] | Adjacent \<Rightarrow> [43] | LaterSibling \<Rightarrow> [126])"

definition op_text :: "attr_op \<Rightarrow> ustr" where
  "op_text operator =
     (case operator of OpEq \<Rightarrow> [61] | OpNe \<Rightarrow> [33, 61] | OpPrefix \<Rightarrow> [94, 61] | OpSuffix \<Rightarrow> [36, 61]
      | OpSubstring \<Rightarrow> [42, 61] | OpWord \<Rightarrow> [126, 61] | OpDash \<Rightarrow> [124, 61] | OpMissing \<Rightarrow> [])"

definition nth_name :: "bool \<Rightarrow> bool \<Rightarrow> string" where
  "nth_name reverse ofType =
     (if ofType then (if reverse then ''nth-last-of-type'' else ''nth-of-type'')
      else (if reverse then ''nth-last-child'' else ''nth-child''))"

fun print_simple :: "simple \<Rightarrow> ustr" and print_tokens :: "token list \<Rightarrow> ustr" where
  "print_simple (STag t) = t"
| "print_simple (SId i) = [35] @ i"
| "print_simple (SClass c) = [46] @ c"
| "print_simple (SAttrPresence a) = [91] @ a @ [93]"
| "print_simple (SAttr a operator v) = [91] @ a @ op_text operator @ [34] @ v @ [34, 93]"
| "print_simple SFirstChild = lit '':first-child''"
| "print_simple SLastChild = lit '':last-child''"
| "print_simple SOnlyChild = lit '':only-child''"
| "print_simple (SNth v reverse ofType) = [58] @ lit (nth_name reverse ofType) @ [40] @ v @ [41]"
| "print_simple SOnlyOfType = lit '':only-of-type''"
| "print_simple SEmpty = lit '':empty''"
| "print_simple (SNot ts) = [58] @ lit ''not'' @ [40] @ print_tokens ts @ [41]"
| "print_simple SEnabled = lit '':enabled''"
| "print_simple SDisabled = lit '':disabled''"
| "print_simple SChecked = lit '':checked''"
| "print_tokens [] = []"
| "print_tokens (Comb k # ts) = comb_text k @ print_tokens ts"
| "print_tokens (Simple s # ts) = print_simple s @ print_tokens ts"

definition tag_name :: "ustr \<Rightarrow> bool" where
  "tag_name t \<longleftrightarrow> t = [42] \<or> (t \<noteq> [] \<and> list_all name_char t)"

definition mark_name :: "ustr \<Rightarrow> bool" where
  "mark_name t \<longleftrightarrow> t \<noteq> [] \<and> list_all name_char t \<and> word_char (last t)"

definition value_text :: "ustr \<Rightarrow> bool" where
  "value_text v \<longleftrightarrow> v \<noteq> [] \<and> list_all (\<lambda>c. c \<noteq> 34 \<and> c \<noteq> 4) v"

definition argument_text :: "ustr \<Rightarrow> bool" where
  "argument_text v \<longleftrightarrow> list_all (\<lambda>c. dot_char c \<and> c \<noteq> 41) v"

fun takes_argument :: "simple \<Rightarrow> bool" where
  "takes_argument (SNth _ _ _) = True"
| "takes_argument (SNot _) = True"
| "takes_argument _ = False"

fun is_tag :: "simple \<Rightarrow> bool" where
  "is_tag (STag _) = True"
| "is_tag _ = False"

fun is_pseudo :: "simple \<Rightarrow> bool" where
  "is_pseudo (STag _) = False"
| "is_pseudo (SId _) = False"
| "is_pseudo (SClass _) = False"
| "is_pseudo (SAttrPresence _) = False"
| "is_pseudo (SAttr _ _ _) = False"
| "is_pseudo _ = True"

fun pseudo_next :: "token list \<Rightarrow> bool" where
  "pseudo_next (Simple s # _) = is_pseudo s"
| "pseudo_next _ = True"

fun canon_simple :: "simple \<Rightarrow> bool" and canon :: "bool \<Rightarrow> token list \<Rightarrow> bool" where
  "canon_simple (STag t) = tag_name t"
| "canon_simple (SId i) = mark_name i"
| "canon_simple (SClass c) = mark_name c"
| "canon_simple (SAttrPresence a) = (a \<noteq> [] \<and> list_all word_char a)"
| "canon_simple (SAttr a operator v) =
     (a \<noteq> [] \<and> list_all name_char a \<and> operator \<noteq> OpMissing \<and> value_text v)"
| "canon_simple (SNth v _ _) = argument_text v"
| "canon_simple (SNot ts) = (canon True ts \<and> argument_text (print_tokens ts))"
| "canon_simple _ = True"
| "canon start [] = (\<not> start)"
| "canon start (Comb k # ts) = (\<not> start \<and> canon True ts)"
| "canon start (Simple s # ts) =
     (canon_simple s \<and> (start \<or> \<not> is_tag s) \<and> (takes_argument s \<longrightarrow> pseudo_next ts) \<and> canon False ts)"

subsection \<open>What stands next\<close>

definition next_ok :: "ustr \<Rightarrow> bool" where
  "next_ok r \<longleftrightarrow> r = [] \<or> hd r \<in> {35, 46, 58, 91, 32, 62, 43, 126}"

definition next_pseudo_ok :: "ustr \<Rightarrow> bool" where
  "next_pseudo_ok r \<longleftrightarrow> r = [] \<or> hd r \<in> {58, 32, 62, 43, 126}"

definition starts_simple :: "ustr \<Rightarrow> bool" where
  "starts_simple r \<longleftrightarrow> (\<exists>c s. r = c # s \<and> (name_char c \<or> c \<in> {42, 35, 46, 58, 91}))"

lemmas char_defs = word_char_def name_char_def star_name_char_def dot_char_def is_ws_def

lemma next_ok_heads:
  assumes "next_ok r"
  shows "\<not> head_is word_char r" "\<not> head_is name_char r" "\<not> head_is star_name_char r"
  using assms by (cases r; auto simp: next_ok_def head_is_def char_defs)+

lemma next_pseudo_ok_next: "next_pseudo_ok r \<Longrightarrow> next_ok r"
  by (auto simp: next_ok_def next_pseudo_ok_def)

lemma print_simple_start: "canon_simple s \<Longrightarrow> starts_simple (print_simple s @ r)"
  by (cases s)
     (auto simp: starts_simple_def tag_name_def lit_def mark_name_def neq_Nil_conv nth_name_def)

lemma canon_start: "canon True ts \<Longrightarrow> starts_simple (print_tokens ts)"
  by (cases "(True, ts)" rule: canon.cases) (auto simp: print_simple_start)

lemma print_simple_next: "canon_simple s \<Longrightarrow> \<not> is_tag s \<Longrightarrow> next_ok (print_simple s @ r)"
  by (cases s) (auto simp: next_ok_def lit_def)

lemma comb_next: "next_pseudo_ok (comb_text k @ r)"
  by (cases k) (simp_all add: next_pseudo_ok_def comb_text_def)

lemma nil_next: "next_pseudo_ok []"
  by (simp add: next_pseudo_ok_def)

lemma canon_next:
  assumes "canon False ts"
  shows "next_ok (print_tokens ts)"
proof (cases ts)
  case Nil
  then show ?thesis using nil_next next_pseudo_ok_next by simp
next
  case (Cons t us)
  then show ?thesis using assms comb_next next_pseudo_ok_next print_simple_next by (cases t) simp_all
qed

lemma canon_pseudo_next:
  assumes "canon False ts" and "pseudo_next ts"
  shows "next_pseudo_ok (print_tokens ts)"
proof (cases ts)
  case Nil
  then show ?thesis using nil_next by simp
next
  case (Cons t us)
  show ?thesis
  proof (cases t)
    case (Simple s)
    then show ?thesis using assms Cons by (cases s) (simp_all add: next_pseudo_ok_def lit_def)
  qed (simp add: Cons comb_next)
qed

subsection \<open>The patterns on written text\<close>

declare runs.simps(5,6) [simp del]

lemma match_begin:
  "re_match k (RSeq RBegin a) e =
     map_option (\<lambda>u. (0, Some (take (length e - length (ahead u)) e) # map (snd (snd u)) [1..<Suc k]))
       (first_run a ([], e, \<lambda>_. None))"
  by (simp add: re_match_begin match_here_first option.map_comp comp_def)

lemma match_none: "runs a ([], e, \<lambda>_. None) = [] \<Longrightarrow> re_match k (RSeq RBegin a) e = None"
  by (simp add: match_begin)

lemma head_is_Cons [simp]: "head_is P (c # s) = P c"
  by (simp add: head_is_def)

lemma head_is_Nil [simp]: "\<not> head_is P []"
  by (simp add: head_is_def)

lemma char_fails: "\<not> head_is P s \<Longrightarrow> runs (RSeq (RChar P) b) (pre, s, g) = []"
  by (cases s) (auto simp: step_char_def)

lemma char_takes: "P c \<Longrightarrow> runs (RSeq (RChar P) b) (pre, c # s, g) = runs b (c # pre, s, g)"
  by (simp add: step_char_def)

lemma combinator_none:
  assumes "\<not> is_ws k" and "\<not> head_is (\<lambda>c. c = k) (dropWhile is_ws e)"
  shows "re_match 0 (re_combinator k) e = None"
proof -
  let ?n = "length (takeWhile is_ws e)"
  have no: "\<not> head_is (\<lambda>c. c = k) (drop j e)" if "j \<le> ?n" for j
  proof (cases "j = ?n")
    case True
    then show ?thesis using assms(2) by (simp add: dropWhile_eq_drop)
  next
    case False
    then have j: "j < ?n" using that by simp
    then have "j < length e" using length_takeWhile_le less_le_trans by blast
    moreover have "is_ws (e ! j)" using j by (metis nth_mem set_takeWhileD takeWhile_nth)
    ultimately show ?thesis using assms(1) by (auto simp: head_is_def Cons_nth_drop_Suc [symmetric])
  qed
  have "runs (RSeq rspaces (RSeq (RChar (\<lambda>c. c = k)) rspaces)) ([], e, \<lambda>_. None) = []"
    by (rule seq_none)
       (auto simp: rspaces_def star_runs_class ahead_by_def less_Suc_eq_le no
         simp del: upt_Suc runs.simps intro!: char_fails no)
  then show ?thesis unfolding re_combinator_def rseq.simps by (rule match_none)
qed

lemma combinator_match:
  assumes "\<not> is_ws k" and "\<not> head_is is_ws r"
  shows "re_match 0 (re_combinator k) (k # r) = Some (0, [Some [k]])"
proof -
  have "runs (RSeq rspaces (RSeq (RChar (\<lambda>c. c = k)) rspaces)) ([], k # r, \<lambda>_. None) = [([k], r, \<lambda>_. None)]"
    using assms by (simp add: rspaces_def star_none step_char_def)
  then show ?thesis unfolding re_combinator_def rseq.simps match_begin by (simp add: first_run_def del: runs.simps)
qed

lemma starts_simple_head:
  assumes "starts_simple r"
  shows "\<not> head_is is_ws r" "c \<in> {126, 62, 43} \<Longrightarrow> \<not> head_is (\<lambda>x. x = c) r" "r \<noteq> []" "dropWhile is_ws r = r"
  using assms by (auto simp: starts_simple_def char_defs)

lemma read_combinator:
  assumes "starts_simple r"
  shows "\<exists>i m. first_pattern patterns (comb_text k @ r) = Some (i, m) \<and> i \<noteq> PPseudo \<and> group 0 m = comb_text k
    \<and> token_of [] i m = Comb k"
proof -
  note h = starts_simple_head [OF assms]
  have ws: "\<not> is_ws 126" "\<not> is_ws 62" "\<not> is_ws 43" "is_ws 32" by (simp_all add: is_ws_def)
  have d: "re_match 0 re_descendant (32 # r) = Some (0, [Some [32]])"
    unfolding re_descendant_def rseq.simps match_begin by (simp add: first_run_def step_char_def ws)
  show ?thesis
    using h combinator_match [OF ws(1) h(1)] combinator_match [OF ws(2) h(1)] combinator_match [OF ws(3) h(1)] d
      combinator_none [OF ws(1), of "32 # r"] combinator_none [OF ws(2), of "32 # r"] combinator_none [OF ws(3), of "32 # r"]
      combinator_none [OF ws(1), of "62 # r"] combinator_none [OF ws(1), of "43 # r"] combinator_none [OF ws(2), of "43 # r"]
    by (cases k) (simp_all add: patterns_def comb_text_def group_def token_of_def ws)
qed

subsection \<open>Simple selectors\<close>

lemma skip_combinators:
  assumes "\<not> is_ws c" and "c \<notin> {126, 62, 43}"
  shows "first_pattern patterns (c # s) = first_pattern (drop 4 patterns) (c # s)"
proof -
  have ws: "\<not> is_ws 126" "\<not> is_ws 62" "\<not> is_ws 43" by (simp_all add: is_ws_def)
  have d: "re_match 0 re_descendant (c # s) = None"
    unfolding re_descendant_def rseq.simps by (rule match_none) (simp add: step_char_def assms(1))
  show ?thesis
    using assms d combinator_none [OF ws(1), of "c # s"] combinator_none [OF ws(2), of "c # s"] combinator_none [OF ws(3), of "c # s"]
    by (simp add: patterns_def)
qed

lemma tag_none:
  assumes "\<not> is_ws c" and "\<not> name_char c" and "c \<noteq> 42"
  shows "re_match 2 re_tagName (c # s) = None"
  unfolding re_tagName_def rseq.simps
  by (rule match_none)
     (use assms in \<open>simp add: rspaces_def star_none plus_none rlit_def lit_def step_char_def\<close>)

lemma marked_none: "c \<noteq> k \<Longrightarrow> re_match 2 (re_marked k) (c # s) = None"
  unfolding re_marked_def rseq.simps by (rule match_none) (simp add: step_char_def)

lemma pseudo_none: "c \<noteq> 58 \<Longrightarrow> re_match 7 re_pseudo (c # s) = None"
  unfolding re_pseudo_def rseq.simps by (rule match_none) (simp add: step_char_def rlit_def lit_def)

lemma opt_still:
  assumes "\<And>u. u \<in> set (runs a st) \<Longrightarrow> ahead u = ahead st"
  shows "runs (ROpt a) st = [st]"
  using assms by (auto simp: filter_empty_conv)

lemma read_tag:
  assumes "tag_name t" and "next_ok r"
  shows "\<exists>m. first_pattern patterns (t @ r) = Some (PTagName, m) \<and> group 0 m = t \<and> group 1 m = t"
proof -
  obtain c t' where t: "t = c # t'" and c: "\<not> is_ws c" "c \<notin> {126, 62, 43}"
    using assms(1) by (cases t) (auto simp: tag_name_def char_defs)
  let ?a = "RGroup 1 (RAlt (rlit ''*'') (RPlus (RChar name_char)))" and ?b = "ROpt (RGroup 2 (RAlt RBoundary REnd))"
  let ?st = "([], t @ r, \<lambda>_. None) :: rstate" and ?u = "(rev t, r, (\<lambda>_. None)(1 := Some t)) :: rstate"
  have "first_run (RAlt (rlit ''*'') (RPlus (RChar name_char))) ?st = Some (rev t, r, \<lambda>_. None)"
  proof (cases "t = [42]")
    case True
    then show ?thesis by (intro alt_left) (simp add: first_run_def rlit_def lit_def step_char_def)
  next
    case False
    then have n: "\<forall>x \<in> set t. name_char x" and ne: "t \<noteq> []"
      using assms(1) by (simp_all add: tag_name_def list_all_iff)
    have "c \<noteq> 42" using n by (auto simp: t char_defs)
    then have "runs (rlit ''*'') ?st = []" by (simp add: t rlit_def lit_def step_char_def)
    then show ?thesis
      using plus_first [OF n ne next_ok_heads(2) [OF assms(2)], of "[]"] by (simp add: alt_right)
  qed
  then have "first_run ?a ?st = Some ?u" by (simp add: group_first)
  moreover have "runs ?b ?u = [?u]" by (rule opt_still) (auto simp: catch_def split: if_splits)
  ultimately have ab: "first_run (RSeq ?a ?b) ?st = Some ?u" by (rule seq_first_single)
  have "runs rspaces ?st = [?st]" using c by (simp add: rspaces_def star_none t)
  then have "first_run (RSeq rspaces (RSeq ?a ?b)) ?st = first_run (RSeq ?a ?b) ?st" by (rule seq_single_first)
  also note ab
  finally have "first_run (RSeq rspaces (RSeq ?a ?b)) ?st = Some ?u" .
  then have "re_match 2 re_tagName (t @ r) = Some (0, [Some t, Some t, None])"
    unfolding re_tagName_def rseq.simps match_begin by (simp add: upt_rec)
  then show ?thesis
    using skip_combinators [OF c, of "t' @ r"] by (simp add: t patterns_def group_def)
qed

lemma read_mark:
  assumes "mark_name t" and "next_ok r"
  shows "re_match 2 (re_marked k) (k # t @ r) = Some (0, [Some (k # t), Some t, Some []])"
proof -
  let ?b = "RGroup 2 (RAlt RBoundary REnd)"
  let ?st = "([k], t @ r, \<lambda>_. None) :: rstate" and ?u = "(rev t @ [k], r, (\<lambda>_. None)(1 := Some t)) :: rstate"
  have n: "\<forall>x \<in> set t. star_name_char x" and ne: "t \<noteq> []"
    using assms(1) by (auto simp: mark_name_def list_all_iff star_name_char_def)
  have "first_run (RGroup 1 (RPlus (RChar star_name_char))) ?st = Some ?u"
    using plus_first [OF n ne next_ok_heads(3) [OF assms(2)]] by (simp add: group_first)
  moreover have "first_run ?b ?u = Some (rev t @ [k], r, (\<lambda>_. None)(1 := Some t, 2 := Some []))"
  proof -
    have "head_is word_char (rev t @ [k])"
      using assms(1) by (cases t rule: rev_cases) (simp_all add: mark_name_def)
    then show ?thesis using next_ok_heads(1) [OF assms(2)]
      by (simp add: group_first first_run_def catch_def)
  qed
  ultimately have "first_run (RSeq (RGroup 1 (RPlus (RChar star_name_char))) ?b) ?st =
      Some (rev t @ [k], r, (\<lambda>_. None)(1 := Some t, 2 := Some []))" by (rule seq_first)
  then have "first_run (RSeq (RChar (\<lambda>c. c = k)) (RSeq (RGroup 1 (RPlus (RChar star_name_char))) ?b)) ([], k # t @ r, \<lambda>_. None) =
      Some (rev t @ [k], r, (\<lambda>_. None)(1 := Some t, 2 := Some []))"
    by (simp add: first_run_def step_char_def)
  then show ?thesis unfolding re_marked_def rseq.simps match_begin by (simp add: upt_rec Suc_diff_le)
qed

lemma read_id:
  assumes "mark_name t" and "next_ok r"
  shows "\<exists>m. first_pattern patterns (35 # t @ r) = Some (PId, m) \<and> group 0 m = 35 # t \<and> group 1 m = t"
  using read_mark [OF assms, of 35] skip_combinators [of 35 "t @ r"] tag_none [of 35 "t @ r"]
  by (simp add: patterns_def group_def char_defs)

lemma read_class:
  assumes "mark_name t" and "next_ok r"
  shows "\<exists>m. first_pattern patterns (46 # t @ r) = Some (PClassName, m) \<and> group 0 m = 46 # t \<and> group 1 m = t"
  using read_mark [OF assms, of 46] skip_combinators [of 46 "t @ r"] tag_none [of 46 "t @ r"] marked_none [of 46 35]
  by (simp add: patterns_def group_def char_defs)

subsection \<open>Attributes\<close>

lemma drop_head:
  assumes "\<forall>c \<in> set w. c \<noteq> k" and "\<not> head_is (\<lambda>c. c = k) r" and "j \<le> length w"
  shows "\<not> head_is (\<lambda>c. c = k) (drop j (w @ r))"
proof (cases "j = length w")
  case False
  then have "j < length w" using assms(3) by simp
  then show ?thesis using assms(1) nth_mem [of j w] by (auto simp: Cons_nth_drop_Suc [symmetric])
qed (use assms in simp)

lemma takeWhile_bound: "\<not> head_is P r \<Longrightarrow> length (takeWhile P (w @ r)) \<le> length w"
  by (induction w) (cases r; simp)+

lemma runs_then_none:
  assumes "\<And>v. v \<in> set (runs a (pre, w @ r, g)) \<Longrightarrow> \<exists>j \<le> length w. ahead v = drop j (w @ r)"
    and "\<forall>c \<in> set w. c \<noteq> k" and "\<not> head_is (\<lambda>c. c = k) r"
  shows "runs (RSeq a (RSeq (RChar (\<lambda>c. c = k)) b)) (pre, w @ r, g) = []"
proof (rule seq_none)
  fix v assume "v \<in> set (runs a (pre, w @ r, g))"
  then obtain j where "j \<le> length w" and "ahead v = drop j (w @ r)" using assms(1) by blast
  then have "\<not> head_is (\<lambda>c. c = k) (ahead v)" using drop_head [OF assms(2,3)] by simp
  then show "runs (RSeq (RChar (\<lambda>c. c = k)) b) v = []" by (cases v) (simp add: char_fails del: runs.simps)
qed

lemma class_runs_ahead:
  assumes "\<not> head_is P r" and "v \<in> set (runs a (pre, w @ r, g))" and "a = RPlus (RChar P) \<or> a = RStar (RChar P)"
  shows "\<exists>j \<le> length w. ahead v = drop j (w @ r)"
proof -
  obtain j where "j < Suc (length (takeWhile P (w @ r)))" and "v = ahead_by pre (w @ r) g j"
    using assms(2,3) by (auto simp: plus_runs_class star_runs_class simp del: upt_Suc)
  then show ?thesis using takeWhile_bound [OF assms(1), of w] by (auto simp: ahead_by_def intro!: exI [of _ j])
qed

lemma class_then_none:
  assumes "\<not> head_is P r" and "\<forall>c \<in> set w. c \<noteq> k" and "\<not> head_is (\<lambda>c. c = k) r"
  shows "runs (RSeq (RPlus (RChar P)) (RSeq (RChar (\<lambda>c. c = k)) b)) (pre, w @ r, g) = []"
    and "runs (RSeq (RStar (RChar P)) (RSeq (RChar (\<lambda>c. c = k)) b)) (pre, w @ r, g) = []"
proof -
  show "runs (RSeq (RPlus (RChar P)) (RSeq (RChar (\<lambda>c. c = k)) b)) (pre, w @ r, g) = []"
    by (rule runs_then_none [OF class_runs_ahead [OF assms(1) _ disjI1 [OF refl]] assms(2,3)])
  show "runs (RSeq (RStar (RChar P)) (RSeq (RChar (\<lambda>c. c = k)) b)) (pre, w @ r, g) = []"
    by (rule runs_then_none [OF class_runs_ahead [OF assms(1) _ disjI2 [OF refl]] assms(2,3)])
qed

lemma rlit_one: "rlit [c] = RSeq (RChar (\<lambda>x. x = of_char c)) REmpty"
  by (simp add: rlit_def lit_def)

lemma one_char: "runs (RSeq (RChar (\<lambda>x. x = k)) REmpty) (pre, k # s, g) = [(k # pre, s, g)]"
  by (simp add: step_char_def)

text \<open>The name of an attribute in brackets, for both patterns: there is no colon in it.\<close>

lemma attr_name_first:
  assumes "w \<noteq> []" and "\<forall>c \<in> set w. P c \<and> c \<noteq> 58" and "\<not> head_is P r" and "\<not> head_is (\<lambda>c. c = 58) r"
    and "a = RPlus (RChar P) \<or> a = RStar (RChar P)"
  shows "first_run (RGroup 1 (RSeq (ROpt (RSeq a (rlit '':''))) (RPlus (RChar P)))) (pre, w @ r, g) =
    Some (rev w @ pre, r, g(1 := Some w))"
proof -
  have "runs (RSeq a (rlit '':'')) (pre, w @ r, g) = []"
    using class_then_none [of P r w 58 REmpty pre g] assms by (auto simp: rlit_one simp del: runs.simps)
  then have "runs (ROpt (RSeq a (rlit '':''))) (pre, w @ r, g) = [(pre, w @ r, g)]" by (rule opt_skipped)
  then have "first_run (RSeq (ROpt (RSeq a (rlit '':''))) (RPlus (RChar P))) (pre, w @ r, g) =
      first_run (RPlus (RChar P)) (pre, w @ r, g)" by (rule seq_single_first)
  also have "\<dots> = Some (rev w @ pre, r, g)" using assms by (intro plus_first) auto
  finally show ?thesis by (simp add: group_first)
qed

lemma read_attrPresence:
  assumes "a \<noteq> []" and "list_all word_char a"
  shows "\<exists>m. first_pattern patterns (91 # a @ 93 # r) = Some (PAttrPresence, m) \<and> group 0 m = 91 # a @ [93] \<and> group 1 m = a"
proof -
  let ?b = "rlit '']''" and ?n = "RGroup 1 (RSeq (ROpt (RSeq (RPlus (RChar word_char)) (rlit '':''))) (RPlus (RChar word_char)))"
  let ?g = "(\<lambda>_. None)(1 := Some a) :: nat \<Rightarrow> ustr option"
  have "first_run ?n ([91], a @ 93 # r, \<lambda>_. None) = Some (rev a @ [91], 93 # r, ?g)"
    by (rule attr_name_first) (use assms in \<open>auto simp: list_all_iff char_defs\<close>)
  moreover have "runs ?b (rev a @ [91], 93 # r, ?g) = [(93 # rev a @ [91], r, ?g)]"
    by (simp add: rlit_one step_char_def)
  ultimately have nb: "first_run (RSeq ?n ?b) ([91], a @ 93 # r, \<lambda>_. None) = Some (93 # rev a @ [91], r, ?g)"
    by (rule seq_first_single)
  have "runs (rlit ''['') ([], 91 # a @ 93 # r, \<lambda>_. None) = [([91], a @ 93 # r, \<lambda>_. None)]"
    by (simp add: rlit_one step_char_def)
  then have "first_run (RSeq (rlit ''['') (RSeq ?n ?b)) ([], 91 # a @ 93 # r, \<lambda>_. None) = Some (93 # rev a @ [91], r, ?g)"
    using nb by (simp only: seq_single_first)
  then have "re_match 1 re_attrPresence (91 # a @ 93 # r) = Some (0, [Some (91 # a @ [93]), Some a])"
    unfolding re_attrPresence_def rseq.simps match_begin by (simp add: upt_rec Suc_diff_le)
  then show ?thesis
    using skip_combinators [of 91 "a @ 93 # r"] tag_none [of 91 "a @ 93 # r"] marked_none [of 91] pseudo_none [of 91]
    by (simp add: patterns_def group_def char_defs)
qed

lemma no_presence:
  assumes "\<forall>c \<in> set a. name_char c" and "\<not> head_is word_char r" and "\<not> head_is (\<lambda>c. c = 58) r" and "\<not> head_is (\<lambda>c. c = 93) r"
  shows "re_match 1 re_attrPresence (91 # a @ r) = None"
proof -
  let ?p = "RPlus (RChar word_char)"
  have a: "\<forall>c \<in> set a. c \<noteq> 58" "\<forall>c \<in> set a. c \<noteq> 93" using assms(1) by (auto simp: char_defs)
  have "runs (RSeq ?p (rlit '':'')) ([91], a @ r, \<lambda>_. None) = []"
    using class_then_none(1) [OF assms(2) a(1) assms(3), of REmpty] by (simp add: rlit_one del: runs.simps)
  then have "runs (ROpt (RSeq ?p (rlit '':''))) ([91], a @ r, \<lambda>_. None) = [([91], a @ r, \<lambda>_. None)]" by (rule opt_skipped)
  then have "runs (RGroup 1 (RSeq (ROpt (RSeq ?p (rlit '':''))) ?p)) ([91], a @ r, \<lambda>_. None) =
      map (catch 1 ([91], a @ r, \<lambda>_. None)) (runs ?p ([91], a @ r, \<lambda>_. None))"
    by (simp only: runs.simps(3,8) list.map concat.simps append_Nil2)
  moreover have "\<exists>j \<le> length a. ahead v = drop j (a @ r)" if "v \<in> set (runs ?p ([91], a @ r, \<lambda>_. None))" for v
    using class_runs_ahead [OF assms(2)] that by blast
  ultimately have "\<exists>j \<le> length a. ahead v = drop j (a @ r)"
    if "v \<in> set (runs (RGroup 1 (RSeq (ROpt (RSeq ?p (rlit '':''))) ?p)) ([91], a @ r, \<lambda>_. None))" for v
    using that by (auto simp: catch_def simp del: runs.simps)
  then have "runs (RSeq (RGroup 1 (RSeq (ROpt (RSeq ?p (rlit '':''))) ?p)) (rlit '']'')) ([91], a @ r, \<lambda>_. None) = []"
    unfolding rlit_one using runs_then_none [OF _ a(2) assms(4), of _ "[91]" "\<lambda>_. None" REmpty] by (simp add: rlit_one del: runs.simps)
  then show ?thesis
    unfolding re_attrPresence_def rseq.simps
    by (intro match_none, subst seq_single [of "rlit ''[''" _ "([91], a @ r, \<lambda>_. None)"])
       (simp_all add: rlit_one step_char_def)
qed

lemma op_text_cases:
  assumes "operator \<noteq> OpMissing"
  obtains "op_text operator = [61]" | c where "op_text operator = [c, 61]" "c \<in> set (lit ''!^$*~|'')" "c \<noteq> 61"
  using assms that by (cases operator) (auto simp: op_text_def lit_def)

lemma op_of_text [simp]: "op_of (op_text operator) = operator"
  by (cases operator) (simp_all add: op_of_def op_text_def lit_def)

lemma op_head:
  assumes "operator \<noteq> OpMissing"
  shows "\<exists>c s. op_text operator @ r = c # s \<and> \<not> name_char c \<and> \<not> word_char c \<and> c \<notin> {58, 93} \<and> \<not> is_ws c"
  using assms by (rule op_text_cases) (auto simp: lit_def char_defs)

lemma read_operator:
  assumes "operator \<noteq> OpMissing"
  shows "first_run (RGroup 2 (RSeq (ROpt (RChar (\<lambda>c. c \<in> set (lit ''!^$*~|'')))) (rlit ''='')))
      (pre, op_text operator @ r, g) = Some (rev (op_text operator) @ pre, r, g(2 := Some (op_text operator)))"
proof -
  have "first_run (RSeq (ROpt (RChar (\<lambda>c. c \<in> set (lit ''!^$*~|'')))) (rlit ''='')) (pre, op_text operator @ r, g) =
      Some (rev (op_text operator) @ pre, r, g)"
    using assms
  proof (rule op_text_cases)
    assume "op_text operator = [61]"
    then show ?thesis by (simp add: first_run_def step_char_def rlit_one) (simp add: lit_def step_char_def)
  next
    fix c assume c: "op_text operator = [c, 61]" "c \<in> set (lit ''!^$*~|'')" "c \<noteq> 61"
    then show ?thesis by (simp add: first_run_def step_char_def rlit_one)
  qed
  then show ?thesis by (simp add: group_first)
qed

lemma quoted_first:
  assumes "list_all (\<lambda>c. c \<noteq> 34 \<and> c \<noteq> 4) v"
  shows "first_run re_attr_value (pre, 34 # v @ 34 # r, g) =
    Some (34 # rev v @ 34 # pre, r, g(4 := Some [34], 5 := Some v, 3 := Some (34 # v @ [34])))"
proof -
  let ?l = "RGroup 5 (RLazy (RChar (\<lambda>c. c \<noteq> 4)))" and ?q = "RGroup 4 (RChar (\<lambda>c. c = 39 \<or> c = 34))"
  let ?g = "g(4 := Some [34])"
  have v: "\<forall>c \<in> set v. c \<noteq> 34 \<and> c \<noteq> 4" using assms by (simp add: list_all_iff)
  have "first_run (RSeq ?l (RBack 4)) (34 # pre, v @ 34 # r, ?g) = Some (34 # rev v @ 34 # pre, r, ?g(5 := Some v))"
  proof (rule lazy_group_first)
    fix j assume j: "j < length v"
    then have "v ! j \<noteq> 34" using v nth_mem by blast
    then show "runs (RBack 4) (rev (take j v) @ 34 # pre, drop j v @ 34 # r, ?g(5 := Some (take j v))) = []"
      using j by (simp add: step_char_def Cons_nth_drop_Suc [symmetric])
  qed (use v in \<open>simp_all add: first_run_def step_char_def\<close>)
  moreover have "runs ?q (pre, 34 # v @ 34 # r, g) = [(34 # pre, v @ 34 # r, ?g)]"
    by (simp add: step_char_def catch_def Suc_diff_le)
  ultimately have "first_run (RSeq ?q (RSeq ?l (RBack 4))) (pre, 34 # v @ 34 # r, g) =
      Some (34 # rev v @ 34 # pre, r, ?g(5 := Some v))" by (simp only: seq_single_first)
  then show ?thesis
    unfolding re_attr_value_def rseq.simps group_first
    by (simp only: alt_left option.map) (simp add: catch_def Suc_diff_le)
qed

lemma read_attr:
  assumes "a \<noteq> []" and "list_all name_char a" and "operator \<noteq> OpMissing" and "value_text v"
  shows "\<exists>m. first_pattern patterns (91 # a @ op_text operator @ 34 # v @ 34 # 93 # r) = Some (PAttr, m)
    \<and> group 0 m = 91 # a @ op_text operator @ 34 # v @ [34, 93]
    \<and> group 1 m = a \<and> group 2 m = op_text operator \<and> group 5 m = v"
proof -
  let ?o = "op_text operator" and ?r4 = "34 # v @ 34 # 93 # r"
  let ?n = "RGroup 1 (RSeq (ROpt (RSeq (RStar (RChar name_char)) (rlit '':''))) (RPlus (RChar name_char)))"
  let ?op = "RGroup 2 (RSeq (ROpt (RChar (\<lambda>c. c \<in> set (lit ''!^$*~|'')))) (rlit ''=''))"
  let ?c = "RSeq ?op (RSeq rspaces re_attr_value)"
  let ?g1 = "(\<lambda>_. None)(1 := Some a) :: nat \<Rightarrow> ustr option" let ?g2 = "?g1(2 := Some ?o)"
  let ?g3 = "?g2(4 := Some [34], 5 := Some v, 3 := Some (34 # v @ [34]))"
  obtain oc os where o: "?o @ ?r4 = oc # os" "\<not> name_char oc" "\<not> word_char oc" "oc \<notin> {58, 93}" "\<not> is_ws oc"
    using op_head [OF assms(3)] by blast
  have n: "\<forall>x \<in> set a. name_char x" using assms(2) by (simp add: list_all_iff)
  have v: "list_all (\<lambda>c. c \<noteq> 34 \<and> c \<noteq> 4) v" using assms(4) by (simp add: value_text_def)
  let ?s1 = "(rev a @ [91], ?o @ ?r4, ?g1) :: rstate"
  let ?s2 = "(rev ?o @ rev a @ [91], ?r4, ?g2) :: rstate"
  let ?s3 = "(34 # rev v @ 34 # rev ?o @ rev a @ [91], 93 # r, ?g3) :: rstate"
  let ?s4 = "(93 # 34 # rev v @ 34 # rev ?o @ rev a @ [91], r, ?g3) :: rstate"
  have 1: "first_run ?n ([91], a @ ?o @ ?r4, \<lambda>_. None) = Some ?s1"
    by (rule attr_name_first) (use assms(1) n o in \<open>auto simp: char_defs\<close>)
  have 2: "first_run ?op ?s1 = Some ?s2" by (rule read_operator [OF assms(3)])
  have "runs rspaces ?s2 = [?s2]" by (simp add: rspaces_def star_none is_ws_def)
  then have 3: "first_run (RSeq rspaces re_attr_value) ?s2 = Some ?s3"
    using quoted_first [OF v, of _ "93 # r" ?g2] by (simp add: seq_single_first)
  have "first_run ?c ?s1 = Some ?s3" using 2 3 by (rule seq_first)
  then have 4: "first_run (ROpt ?c) ?s1 = Some ?s3" by (rule opt_taken) simp
  have "first_run (rlit '']'') ?s3 = Some ?s4" by (simp add: rlit_one step_char_def first_run_def)
  with 4 have 5: "first_run (RSeq (ROpt ?c) (rlit '']'')) ?s1 = Some ?s4" by (rule seq_first)
  have "runs rspaces ?s1 = [?s1]" using o by (simp add: rspaces_def star_none)
  then have "first_run (RSeq rspaces (RSeq (ROpt ?c) (rlit '']''))) ?s1 = Some ?s4" using 5 by (simp only: seq_single_first)
  with 1 have 6: "first_run (RSeq ?n (RSeq rspaces (RSeq (ROpt ?c) (rlit '']'')))) ([91], a @ ?o @ ?r4, \<lambda>_. None) = Some ?s4"
    by (rule seq_first)
  have "runs (rlit ''['') ([], 91 # a @ ?o @ ?r4, \<lambda>_. None) = [([91], a @ ?o @ ?r4, \<lambda>_. None)]"
    by (simp add: rlit_one step_char_def)
  then have "first_run re_attr ([], 91 # a @ ?o @ ?r4, \<lambda>_. None) = Some ?s4"
    unfolding re_attr_def rseq.simps using 6 by (simp only: seq_single_first)
  then have "re_match 6 re_attr (91 # a @ ?o @ ?r4) = Some (0, [Some (91 # a @ ?o @ 34 # v @ [34, 93]), Some a,
      Some ?o, Some (34 # v @ [34]), Some [34], Some v, None])"
    by (intro re_match_here) (simp add: match_here_first upt_rec Suc_diff_le)
  moreover have "re_match 1 re_attrPresence (91 # a @ ?o @ ?r4) = None"
    by (rule no_presence) (use n o in auto)
  ultimately show ?thesis
    using skip_combinators [of 91] tag_none [of 91] marked_none [of 91] pseudo_none [of 91]
    by (simp add: patterns_def group_def char_defs)
qed

subsection \<open>Pseudo-classes\<close>

definition pseudo_names :: "string list" where
  "pseudo_names =
     [''first-child'', ''last-child'', ''only-child'', ''nth-child'', ''nth-last-child'', ''nth-of-type'',
      ''nth-last-of-type'', ''only-of-type'', ''empty'', ''not'', ''enabled'', ''disabled'', ''checked'']"

lemma pseudo_name_runs:
  assumes "n \<in> set pseudo_names"
  shows "\<exists>g. runs re_pseudo_name (pre, lit n @ r, \<lambda>_. None) = [(rev (lit n) @ pre, r, g)]
    \<and> g 5 = None \<and> g 6 = None"
  using assms unfolding pseudo_names_def
  by (simp add: re_pseudo_name_def rlit_def lit_def step_char_def catch_def)
     (elim disjE; simp add: step_char_def catch_def)

lemma name_first:
  assumes "n \<in> set pseudo_names"
  obtains g where "runs (RGroup 1 re_pseudo_name) (pre, lit n @ r, \<lambda>_. None) = [(rev (lit n) @ pre, r, g)]"
    and "g 1 = Some (lit n)" and "g 5 = None" and "g 6 = None"
proof -
  obtain g where "runs re_pseudo_name (pre, lit n @ r, \<lambda>_. None) = [(rev (lit n) @ pre, r, g)]"
    and "g 5 = None" "g 6 = None" using pseudo_name_runs [OF assms] by blast
  then show ?thesis by (intro that [of "g(1 := Some (lit n))"]) simp_all
qed

lemma upt7: "[1..<Suc 7] = [1, 2, 3, 4, 5, 6, 7]"
  by (simp add: upt_rec)

lemma pseudo_from:
  assumes "n \<in> set pseudo_names"
    and "\<And>g. g 5 = None \<Longrightarrow> g 6 = None \<Longrightarrow> \<exists>g'. first_run (RSeq re_argument re_pseudo_end) (rev (lit n) @ [58], arg @ r, g)
        = Some (pre', r, g') \<and> g' 1 = g 1 \<and> g' 6 = v"
  shows "\<exists>m. first_pattern patterns (58 # lit n @ arg @ r) = Some (PPseudo, m) \<and> group 0 m = 58 # lit n @ arg
    \<and> group 1 m = lit n \<and> group 6 m = (case v of None \<Rightarrow> [] | Some t \<Rightarrow> t)"
proof -
  obtain g where g: "runs (RGroup 1 re_pseudo_name) ([58], lit n @ arg @ r, \<lambda>_. None) = [(rev (lit n) @ [58], arg @ r, g)]"
    "g 1 = Some (lit n)" "g 5 = None" "g 6 = None"
    using name_first [OF assms(1), of "[58]" "arg @ r"] by blast
  obtain g' where g': "first_run (RSeq re_argument re_pseudo_end) (rev (lit n) @ [58], arg @ r, g) = Some (pre', r, g')"
    "g' 1 = g 1" "g' 6 = v"
    using assms(2) [OF g(3,4)] by blast
  have "runs (rlit '':'') ([], 58 # lit n @ arg @ r, \<lambda>_. None) = [([58], lit n @ arg @ r, \<lambda>_. None)]"
    by (simp add: rlit_one step_char_def)
  then have "first_run (RSeq (rlit '':'') (RSeq (RGroup 1 re_pseudo_name) (RSeq re_argument re_pseudo_end)))
      ([], 58 # lit n @ arg @ r, \<lambda>_. None) = Some (pre', r, g')"
    using seq_single_first [OF g(1)] g'(1) by (simp only: seq_single_first)
  then have "\<exists>m. re_match 7 re_pseudo (58 # lit n @ arg @ r) = Some (0, m) \<and> group 0 m = 58 # lit n @ arg
      \<and> group 1 m = lit n \<and> group 6 m = (case v of None \<Rightarrow> [] | Some t \<Rightarrow> t)"
    unfolding re_pseudo_def rseq.simps match_begin upt7 using g' g(2)
    by (simp add: Suc_diff_le group_def split: option.splits)
  then show ?thesis
    using skip_combinators [of 58 "lit n @ arg @ r"] tag_none [of 58 "lit n @ arg @ r"] marked_none [of 58]
    by (auto simp: patterns_def char_defs)
qed

lemma pseudo_end_word:
  assumes "word_char c" and "\<not> head_is word_char r"
  shows "first_run re_pseudo_end (c # pre, r, g) = Some (c # pre, r, g(7 := Some []))"
  using assms by (simp add: re_pseudo_end_def group_first first_run_def catch_def)

lemma pseudo_end_next:
  assumes "next_pseudo_ok r"
  shows "first_run re_pseudo_end (41 # pre, r, g) = Some (41 # pre, r, g(7 := Some []))"
  using assms
  by (cases r) (auto simp: re_pseudo_end_def group_first first_run_def catch_def next_pseudo_ok_def char_defs)

lemma read_plain_pseudo:
  assumes "n \<in> set pseudo_names" and "next_ok r"
  shows "\<exists>m. first_pattern patterns (58 # lit n @ r) = Some (PPseudo, m) \<and> group 0 m = 58 # lit n
    \<and> group 1 m = lit n \<and> group 6 m = []"
proof -
  obtain c pre where c: "rev (lit n) @ [58] = c # pre" "word_char c"
    using assms(1) by (auto simp: pseudo_names_def lit_def word_char_def)
  have h: "\<not> head_is (\<lambda>x. x = 40) r" using assms(2) by (cases r) (auto simp: next_ok_def)
  have "\<exists>g'. first_run (RSeq re_argument re_pseudo_end) (rev (lit n) @ [58], [] @ r, g) = Some (c # pre, r, g')
      \<and> g' 1 = g 1 \<and> g' 6 = None" if "g 6 = None" for g
  proof -
    have "runs re_argument (c # pre, r, g) = [(c # pre, r, g)]"
      unfolding re_argument_def by (rule opt_skipped) (use h in \<open>cases r; simp add: rlit_one step_char_def\<close>)
    then show ?thesis
      using pseudo_end_word [OF c(2) next_ok_heads(1) [OF assms(2)], of pre g] that by (simp add: c(1) seq_single_first)
  qed
  then show ?thesis using pseudo_from [OF assms(1), of "[]" r "c # pre" None] by simp
qed

lemma read_argument:
  assumes "argument_text v"
  shows "first_run re_argument (pre, 40 # v @ 41 # r, g) =
    Some (41 # rev v @ 40 # pre, r, g(6 := Some v, 5 := Some (40 # v @ [41])))"
proof -
  have v: "\<forall>c \<in> set v. dot_char c \<and> c \<noteq> 41" using assms by (simp add: argument_text_def list_all_iff)
  have "first_run (RSeq (RGroup 6 (RLazy (RChar dot_char))) (rlit '')'')) (40 # pre, v @ 41 # r, g) =
      Some (41 # rev v @ 40 # pre, r, g(6 := Some v))"
  proof (rule lazy_group_first)
    fix j assume j: "j < length v"
    then have "v ! j \<noteq> 41" using v nth_mem by blast
    then show "runs (rlit '')'') (rev (take j v) @ 40 # pre, drop j v @ 41 # r, g(6 := Some (take j v))) = []"
      using j by (simp add: rlit_one step_char_def Cons_nth_drop_Suc [symmetric])
  qed (use v in \<open>simp_all add: first_run_def rlit_one step_char_def\<close>)
  moreover have "runs (rlit ''('') (pre, 40 # v @ 41 # r, g) = [(40 # pre, v @ 41 # r, g)]"
    by (simp add: rlit_one step_char_def)
  ultimately have "first_run (RSeq (rlit ''('') (RSeq (RGroup 6 (RLazy (RChar dot_char))) (rlit '')''))) (pre, 40 # v @ 41 # r, g) =
      Some (41 # rev v @ 40 # pre, r, g(6 := Some v))" by (simp only: seq_single_first)
  then have "first_run (RGroup 5 (RSeq (rlit ''('') (RSeq (RGroup 6 (RLazy (RChar dot_char))) (rlit '')'')))) (pre, 40 # v @ 41 # r, g) =
      Some (41 # rev v @ 40 # pre, r, g(6 := Some v, 5 := Some (40 # v @ [41])))"
    by (simp add: group_first catch_def Suc_diff_le del: runs.simps)
  then show ?thesis unfolding re_argument_def rseq.simps by (rule opt_taken) simp
qed

lemma read_argument_pseudo:
  assumes "n \<in> set pseudo_names" and "argument_text v" and "next_pseudo_ok r"
  shows "\<exists>m. first_pattern patterns (58 # lit n @ 40 # v @ 41 # r) = Some (PPseudo, m) \<and> group 0 m = 58 # lit n @ 40 # v @ [41]
    \<and> group 1 m = lit n \<and> group 6 m = v"
proof -
  let ?p = "41 # rev v @ 40 # rev (lit n) @ [58]"
  have "\<exists>g'. first_run (RSeq re_argument re_pseudo_end) (rev (lit n) @ [58], (40 # v @ [41]) @ r, g) = Some (?p, r, g')
      \<and> g' 1 = g 1 \<and> g' 6 = Some v" for g
    using seq_first [OF read_argument [OF assms(2)] pseudo_end_next [OF assms(3)]] by simp
  then show ?thesis using pseudo_from [OF assms(1), of "40 # v @ [41]" r ?p "Some v"] by simp
qed

subsection \<open>Reading back\<close>

text \<open>A match stands for a token: it has the text of the token, and the token is made of it.\<close>

fun token_text :: "token \<Rightarrow> ustr" where
  "token_text (Comb k) = comb_text k"
| "token_text (Simple s) = print_simple s"

fun argument_of :: "token \<Rightarrow> token list option" where
  "argument_of (Simple (SNot us)) = Some us"
| "argument_of _ = None"

text \<open>The name and the argument of a pseudo-class.\<close>

fun pseudo_call :: "simple \<Rightarrow> ustr \<times> ustr" where
  "pseudo_call (SNth v reverse ofType) = (lit (nth_name reverse ofType), v)"
| "pseudo_call (SNot us) = (lit ''not'', print_tokens us)"
| "pseudo_call s = (drop 1 (print_simple s), [])"

definition reads :: "token \<Rightarrow> selector_match \<Rightarrow> bool" where
  "reads t im \<longleftrightarrow>
     (case im of (i, m) \<Rightarrow>
        group 0 m = token_text t
        \<and> (i = PPseudo \<longrightarrow> (\<exists>s. t = Simple s \<and> (group 1 m, group 6 m) = pseudo_call s))
        \<and> (case argument_of t of
              None \<Rightarrow> \<forall>ex. token_of ex i m = t
            | Some us \<Rightarrow> i = PPseudo \<and> group 6 m = print_tokens us \<and> token_of us i m = t))"

lemma nth_name_known: "nth_name reverse ofType \<in> set pseudo_names"
  by (simp add: nth_name_def pseudo_names_def)

lemma pseudo_token_nth: "pseudo_token ex (lit (nth_name reverse ofType)) v = SNth v reverse ofType"
  by (simp add: nth_name_def pseudo_token_def lit_def)

lemma print_plain:
  "lit (CHR '':'' # n) = 58 # lit n"
  by (simp add: lit_def)

lemma reads_plain:
  assumes "n \<in> set pseudo_names" and "next_ok r"
    and "\<And>ex. pseudo_token ex (lit n) [] = s" and "print_simple s = 58 # lit n" and "argument_of (Simple s) = None"
    and "pseudo_call s = (lit n, [])"
  shows "\<exists>im. first_pattern patterns (print_simple s @ r) = Some im \<and> reads (Simple s) im"
proof -
  obtain m where "first_pattern patterns (58 # lit n @ r) = Some (PPseudo, m)" "group 0 m = 58 # lit n"
    "group 1 m = lit n" "group 6 m = []" using read_plain_pseudo [OF assms(1,2)] by blast
  then show ?thesis using assms(3-6) by (intro exI [of _ "(PPseudo, m)"]) (simp add: reads_def token_of_def)
qed

lemma read_simple:
  assumes "canon_simple s" and "next_ok r" and "takes_argument s \<Longrightarrow> next_pseudo_ok r"
  shows "\<exists>im. first_pattern patterns (print_simple s @ r) = Some im \<and> reads (Simple s) im"
proof (cases s)
  case (STag t)
  then show ?thesis using read_tag [OF _ assms(2), of t] assms(1) by (auto simp: reads_def token_of_def)
next
  case (SId i)
  then show ?thesis using read_id [OF _ assms(2), of i] assms(1) by (auto simp: reads_def token_of_def)
next
  case (SClass c)
  then show ?thesis using read_class [OF _ assms(2), of c] assms(1) by (auto simp: reads_def token_of_def)
next
  case (SAttrPresence a)
  then show ?thesis using read_attrPresence [of a r] assms(1) by (auto simp: reads_def token_of_def)
next
  case (SAttr a operator v)
  have c: "a \<noteq> []" "list_all name_char a" "operator \<noteq> OpMissing" "value_text v" using assms(1) SAttr by auto
  obtain m where "first_pattern patterns (91 # a @ op_text operator @ 34 # v @ 34 # 93 # r) = Some (PAttr, m)"
    "group 0 m = 91 # a @ op_text operator @ 34 # v @ [34, 93]" "group 1 m = a" "group 2 m = op_text operator" "group 5 m = v"
    using read_attr [OF c, of r] by blast
  moreover have "v \<noteq> []" using c(4) by (simp add: value_text_def)
  ultimately show ?thesis using SAttr
    by (intro exI [of _ "(PAttr, m)"]) (simp add: reads_def token_of_def or_value_def)
next
  case (SNth v reverse ofType)
  then show ?thesis
    using read_argument_pseudo [OF nth_name_known _ assms(3), of v reverse ofType] assms(1)
    by (auto simp: reads_def token_of_def pseudo_token_nth)
next
  case (SNot us)
  have "''not'' \<in> set pseudo_names" by (simp add: pseudo_names_def)
  from read_argument_pseudo [OF this _ assms(3), of "print_tokens us"] obtain m where
    "first_pattern patterns (58 # lit ''not'' @ 40 # print_tokens us @ 41 # r) = Some (PPseudo, m)"
    "group 0 m = 58 # lit ''not'' @ 40 # print_tokens us @ [41]" "group 1 m = lit ''not''" "group 6 m = print_tokens us"
    using assms(1) SNot by auto
  then show ?thesis
    by (intro exI [of _ "(PPseudo, m)"]) (simp add: SNot reads_def token_of_def pseudo_token_def lit_def)
qed (rule reads_plain [OF _ assms(2)]; simp add: pseudo_names_def pseudo_token_def print_plain, (simp add: lit_def)?)+

lemma canon_tail: "canon start (t # ts) \<Longrightarrow> \<exists>start'. canon start' ts \<and> (ts = [] \<longrightarrow> \<not> start')"
  by (cases t) auto

lemma map_back: "list_all2 R ts ms \<Longrightarrow> (\<And>t im. R t im \<Longrightarrow> t \<in> set ts \<Longrightarrow> f im = t) \<Longrightarrow> map f ms = ts"
  by (auto simp: list_all2_conv_all_nth intro!: nth_equalityI)

lemma starts_has_text: "starts_simple r \<Longrightarrow> has_text r"
  by (auto simp: starts_simple_def has_text_def char_defs)

lemma cut_prefix: "cut_first w (w @ r) = r"
proof -
  have "find_sub w (w @ r) = Some 0" using find_sub_None_iff [of w "w @ r"] find_sub_first [of w "w @ r" _ 0]
    by (cases "find_sub w (w @ r)") (auto simp: starts_with_iff intro: gr0I)
  then show ?thesis by (simp add: cut_first_def)
qed

lemma scan_step:
  assumes "first_pattern patterns (w @ r) = Some (i, m)" and "group 0 m = w" and "w \<noteq> []" and "has_text (w @ r)"
  shows "scan_selector (w @ r) = (let (ms, rest) = scan_selector r in ((i, m) # ms, rest))"
  using assms by (subst scan_selector.simps) (simp add: cut_prefix)

lemma scan_end: "scan_selector [] = ([], [])"
  by (subst scan_selector.simps) simp

lemma scan_print:
  "canon start ts \<Longrightarrow> \<exists>ms. scan_selector (print_tokens ts) = (ms, []) \<and> list_all2 reads ts ms"
proof (induction ts arbitrary: start)
  case Nil
  then show ?case by (simp add: scan_end)
next
  case (Cons t ts)
  have "\<exists>i m. first_pattern patterns (token_text t @ print_tokens ts) = Some (i, m) \<and> reads t (i, m)
      \<and> token_text t \<noteq> [] \<and> has_text (token_text t @ print_tokens ts)"
  proof (cases t)
    case (Comb k)
    then have s: "starts_simple (print_tokens ts)" using Cons.prems canon_start by simp
    have "has_text (comb_text k @ print_tokens ts)" using starts_has_text [OF s] by (simp add: has_text_def)
    moreover have "comb_text k \<noteq> []" by (cases k) (simp_all add: comb_text_def)
    moreover obtain i m where "first_pattern patterns (comb_text k @ print_tokens ts) = Some (i, m)" "i \<noteq> PPseudo"
      "group 0 m = comb_text k" "token_of [] i m = Comb k" using read_combinator [OF s] by blast
    moreover from this have "token_of ex i m = Comb k" for ex by (cases i) (simp_all add: token_of_def)
    ultimately show ?thesis by (auto simp: Comb reads_def)
  next
    case (Simple s)
    then have c: "canon_simple s" "canon False ts" "takes_argument s \<Longrightarrow> pseudo_next ts"
      using Cons.prems by auto
    have "starts_simple (print_simple s @ print_tokens ts)" "starts_simple (print_simple s @ [])"
      using print_simple_start [OF c(1)] by blast+
    then have h: "has_text (print_simple s @ print_tokens ts)" "print_simple s \<noteq> []"
      by (simp_all only: starts_has_text append_Nil2) (auto dest: starts_simple_head(3))
    then show ?thesis
      using read_simple [OF c(1) canon_next [OF c(2)] canon_pseudo_next [OF c(2) c(3)]] h by (auto simp: Simple)
  qed
  then obtain i m where im: "first_pattern patterns (token_text t @ print_tokens ts) = Some (i, m)" "reads t (i, m)"
    "token_text t \<noteq> []" "has_text (token_text t @ print_tokens ts)" by blast
  obtain start' where "canon start' ts" using canon_tail [OF Cons.prems] by blast
  then obtain ms where ms: "scan_selector (print_tokens ts) = (ms, [])" "list_all2 reads ts ms" using Cons.IH by blast
  have "print_tokens (t # ts) = token_text t @ print_tokens ts" by (cases t) simp_all
  moreover have "group 0 m = token_text t" using im(2) by (simp add: reads_def)
  ultimately show ?case using scan_step [OF im(1) _ im(3,4)] ms im(2) by auto
qed

lemma name_not_ws: "name_char c \<Longrightarrow> \<not> is_ws c"
  by (auto simp: char_defs)

lemma print_last:
  "canon_simple s \<Longrightarrow> print_simple s \<noteq> [] \<and> \<not> is_ws (last (print_simple s))"
proof (cases s)
  case (STag t)
  then show "canon_simple s \<Longrightarrow> ?thesis"
    using name_not_ws [of "last t"] last_in_set [of t]
    by (cases "t = [42]") (simp_all add: tag_name_def list_all_iff is_ws_def)
qed (use name_not_ws in \<open>auto simp: mark_name_def lit_def is_ws_def name_char_def\<close>)

lemma canon_not: "canon start ts \<Longrightarrow> Simple (SNot us) \<in> set ts \<Longrightarrow> canon True us"
proof (induction ts arbitrary: start)
  case (Cons t ts)
  then show ?case using canon_tail [OF Cons.prems(1)] by auto
qed simp

lemma canon_last: "canon start ts \<Longrightarrow> ts \<noteq> [] \<Longrightarrow> print_tokens ts \<noteq> [] \<and> \<not> is_ws (last (print_tokens ts))"
proof (induction ts arbitrary: start)
  case (Cons t ts)
  obtain start' where c: "canon start' ts" using canon_tail [OF Cons.prems(1)] by blast
  show ?case
  proof (cases "ts = []")
    case True
    then show ?thesis using Cons.prems print_last by (cases t) auto
  next
    case False
    then show ?thesis using Cons.IH [OF c] by (cases t) (auto simp: last_append)
  qed
qed simp

lemma strip_print: "canon True ts \<Longrightarrow> strip (print_tokens ts) = print_tokens ts"
proof -
  assume c: "canon True ts"
  then have ne: "ts \<noteq> []" by auto
  have "\<not> head_is is_ws (print_tokens ts)" using starts_simple_head(1) [OF canon_start [OF c]] .
  then have "strip_left is_ws (print_tokens ts) = print_tokens ts"
    by (intro strip_left_id) (auto simp: head_is_def split: list.splits)
  then show ?thesis using canon_last [OF c ne] by (simp add: strip_def strip_right_id)
qed

lemma tokens_print: "canon start ts \<Longrightarrow> tokens (print_tokens ts) = ts"
proof (induction ts arbitrary: start rule: measure_induct_rule [of "size_list size"])
  case (less ts)
  obtain ms where ms: "scan_selector (print_tokens ts) = (ms, [])" "list_all2 reads ts ms"
    using scan_print [OF less.prems] by blast
  have inner: "tokens (strip (print_tokens us)) = us" if "Simple (SNot us) \<in> set ts" for us
  proof -
    have "canon True us" using less.prems that by (rule canon_not)
    moreover have "size_list size us < size_list size ts"
      using size_list_estimation' [OF that, of "size (Simple (SNot us))" size] by simp
    ultimately show ?thesis using less.IH strip_print by simp
  qed
  have "(case im of (i, m) \<Rightarrow> token_of (if i = PPseudo then tokens (strip (group 6 m)) else []) i m) = t"
    if "reads t im" and "t \<in> set ts" for t im
    using that inner by (cases t rule: argument_of.cases) (auto simp: reads_def split: if_splits)
  then have "map (\<lambda>(i, m). token_of (if i = PPseudo then tokens (strip (group 6 m)) else []) i m) ms = ts"
    by (rule map_back [OF ms(2)])
  then show ?case by (subst tokens.simps) (simp add: ms(1))
qed

end
