(* ===== verification/SelectorCompile.thy ===== *)
theory SelectorCompile
  imports SelectorText Elements
begin

text \<open>
  What \<open>prototype.js\<close> makes of the matches of a selector: the program (lines 2775 to 2803 and 3005 to
  3022), the XPath expression (2805 to 2829 and 2903 to 3003), the mode and the cache (2728 to
  2773), the search in each mode (2831 to 2853), the test of one element (2855 to 2889) and several
  selectors (3390 to 3396, 3413 to 3421 and 3440 to 3442).
\<close>

subsection \<open>The program\<close>

definition group_value :: "ustr option \<Rightarrow> val" where
  "group_value g = (case g of None \<Rightarrow> Undefined | Some t \<Rightarrow> VStr t)"

definition fill :: "string \<Rightarrow> groups \<Rightarrow> ustr" where
  "fill t m = (case template_evaluate (lit t) (VArr (map group_value m)) of None \<Rightarrow> [] | Some s \<Rightarrow> s)"

text \<open>\<open>m[k] = v\<close> of a match.\<close>

definition set_group :: "nat \<Rightarrow> ustr option \<Rightarrow> groups \<Rightarrow> groups" where
  "set_group k v m = m[k := v]"

definition pick_value :: "groups \<Rightarrow> ustr option" where
  "pick_value m = (if group 5 m \<noteq> [] then Some (group 5 m) else m ! 6)"

definition escape_quotes :: "ustr \<Rightarrow> ustr" where
  "escape_quotes s = concat (map (\<lambda>c. if c = quote then [backslash, quote] else [c]) s)"

definition criterion :: "selector_match \<Rightarrow> ustr" where
  "criterion im =
     (case im of (i, m) \<Rightarrow>
        (case i of
           PTagName \<Rightarrow> fill ''n = h.tagName(n, r, \"#{1}\", c);      c = false;'' m
         | PClassName \<Rightarrow> fill ''n = h.className(n, r, \"#{1}\", c);    c = false;'' m
         | PId \<Rightarrow> fill ''n = h.id(n, r, \"#{1}\", c);           c = false;'' m
         | PAttrPresence \<Rightarrow> fill ''n = h.attrPresence(n, r, \"#{1}\", c); c = false;'' m
         | PAttr \<Rightarrow> fill ''n = h.attr(n, r, \"#{1}\", \"#{3}\", \"#{2}\", c); c = false;'' (set_group 3 (pick_value m) m)
         | PPseudo \<Rightarrow> fill ''n = h.pseudo(n, \"#{1}\", \"#{6}\", r, c); c = false;''
                       (if group 6 m \<noteq> [] then set_group 6 (Some (escape_quotes (group 6 m))) m else m)
         | PDescendant \<Rightarrow> fill ''c = \"descendant\";'' m
         | PChild \<Rightarrow> fill ''c = \"child\";'' m
         | PAdjacent \<Rightarrow> fill ''c = \"adjacent\";'' m
         | PLaterSibling \<Rightarrow> fill ''c = \"laterSibling\";'' m))"

definition compileMatcher :: "ustr \<Rightarrow> ustr" where
  "compileMatcher e =
     join [10]
       ([lit ''this.matcher = function(root) {'', lit ''var r = root, h = Selector.handlers, c = false, n;'']
        @ map criterion (fst (scan_selector e)) @ [lit ''return h.unique(n);'' @ [10] @ lit ''}''])"

subsection \<open>The XPath expression\<close>

text \<open>A value that need not be there, and the exceptions of calls on it.\<close>

definition defined :: "ustr option res \<Rightarrow> ustr res" where
  "defined r = rbind r (\<lambda>v. case v of None \<Rightarrow> Inl TypeError | Some t \<Rightarrow> Inr t)"

definition xpath_operator :: "attr_op \<Rightarrow> string res" where
  "xpath_operator operator =
     (case operator of
        OpEq \<Rightarrow> Inr ''[@#{1}=\\'#{3}\\']''
      | OpNe \<Rightarrow> Inr ''[@#{1}!=\\'#{3}\\']''
      | OpPrefix \<Rightarrow> Inr ''[starts-with(@#{1}, \\'#{3}\\')]''
      | OpSuffix \<Rightarrow> Inr ''[substring(@#{1}, (string-length(@#{1}) - string-length(\\'#{3}\\') + 1))=\\'#{3}\\']''
      | OpSubstring \<Rightarrow> Inr ''[contains(@#{1}, \\'#{3}\\')]''
      | OpWord \<Rightarrow> Inr ''[contains(concat(\\' \\', @#{1}, \\' \\'), \\' #{3} \\')]''
      | OpDash \<Rightarrow> Inr ''[contains(concat(\\'-\\', @#{1}, \\'-\\'), \\'-#{3}-\\')]''
      | OpMissing \<Rightarrow> Inl TypeError)"

text \<open>The named axes of \<open>nth\<close>: \<open>formula\<close> is the argument, which may be missing.\<close>

definition xpath_nth :: "string \<Rightarrow> ustr option \<Rightarrow> ustr option res" where
  "xpath_nth fragment formula =
     (case formula of
        None \<Rightarrow> Inl TypeError
      | Some f \<Rightarrow>
          Inr (case read_formula f of
                 Position _ \<Rightarrow> Some ([91] @ lit fragment @ lit ''= '' @ f @ [93])
               | Linear a b \<Rightarrow>
                   Some (case template_evaluate
                       (lit ''[((#{fragment} - #{b}) mod #{a} = 0) and ((#{fragment} - #{b}) div #{a} >= 0)]'')
                       (VObj [(lit ''fragment'', VStr (lit fragment)), (lit ''a'', VNum a), (lit ''b'', VNum b)]) of
                     None \<Rightarrow> [] | Some s \<Rightarrow> s)
               | NoFormula \<Rightarrow> None))"

definition before_it :: string where "before_it = ''(count(./preceding-sibling::*) + 1) ''"
definition behind_it :: string where "behind_it = ''(count(./following-sibling::*) + 1) ''"
definition position_it :: string where "position_it = ''position() ''"
definition last_it :: string where "last_it = ''(last() + 1 - position()) ''"

text \<open>\<open>excluded\<close> is what \<open>:not\<close> gives for its argument.\<close>

definition xpath_pseudo :: "ustr res \<Rightarrow> ustr \<Rightarrow> groups \<Rightarrow> ustr option res" where
  "xpath_pseudo excluded name m =
     (if name = lit ''first-child'' then Inr (Some (lit ''[not(preceding-sibling::*)]''))
      else if name = lit ''last-child'' then Inr (Some (lit ''[not(following-sibling::*)]''))
      else if name = lit ''only-child'' then Inr (Some (lit ''[not(preceding-sibling::* or following-sibling::*)]''))
      else if name = lit ''empty'' then Inr (Some (lit ''[count(*) = 0 and (count(text()) = 0)]''))
      else if name = lit ''checked'' then Inr (Some (lit ''[@checked]''))
      else if name = lit ''disabled'' then Inr (Some (lit ''[(@disabled) and (@type!=\\'hidden\\')]''))
      else if name = lit ''enabled'' then Inr (Some (lit ''[not(@disabled) and (@type!=\\'hidden\\')]''))
      else if name = lit ''not'' then rbind excluded (\<lambda>v. Inr (Some v))
      else if name = lit ''nth-child'' then xpath_nth before_it (m ! 6)
      else if name = lit ''nth-last-child'' then xpath_nth behind_it (m ! 6)
      else if name = lit ''nth-of-type'' then xpath_nth position_it (m ! 6)
      else if name = lit ''nth-last-of-type'' then xpath_nth last_it (m ! 6)
      else if name = lit ''first-of-type'' then xpath_nth position_it (Some (lit ''1''))
      else if name = lit ''last-of-type'' then xpath_nth last_it (Some (lit ''1''))
      else if name = lit ''only-of-type'' then
        rbind (defined (xpath_nth position_it (Some (lit ''1'')))) (\<lambda>a.
        rbind (defined (xpath_nth last_it (Some (lit ''1'')))) (\<lambda>b. Inr (Some (a @ b))))
      else Inr (Some []))"

definition xpath_part :: "(ustr \<Rightarrow> ustr) \<Rightarrow> (ustr \<Rightarrow> ustr) \<Rightarrow> ustr res \<Rightarrow> selector_match \<Rightarrow> ustr option res" where
  "xpath_part lo up excluded im =
     (case im of (i, m) \<Rightarrow>
        (case i of
           PDescendant \<Rightarrow> Inr (Some (fill ''//*'' m))
         | PChild \<Rightarrow> Inr (Some (fill ''/*'' m))
         | PAdjacent \<Rightarrow> Inr (Some (fill ''/following-sibling::*[1]'' m))
         | PLaterSibling \<Rightarrow> Inr (Some (fill ''/following-sibling::*'' m))
         | PTagName \<Rightarrow>
             Inr (Some (if group 1 m = [42] then []
                        else lit ''[local-name()='' @ [39] @ lo (group 1 m) @ [39] @ lit '' or local-name()='' @ [39] @ up (group 1 m) @ [39] @ lit '']''))
         | PClassName \<Rightarrow> Inr (Some (fill ''[contains(concat(\\' \\', @class, \\' \\'), \\' #{1} \\')]'' m))
         | PId \<Rightarrow> Inr (Some (fill ''[@id=\\'#{1}\\']'' m))
         | PAttrPresence \<Rightarrow> Inr (Some (fill ''[@#{1}]'' (set_group 1 (Some (lo (group 1 m))) m)))
         | PAttr \<Rightarrow>
             rbind (xpath_operator (op_of (group 2 m))) (\<lambda>t.
               Inr (Some (fill t (set_group 3 (pick_value m) (set_group 1 (Some (lo (group 1 m))) m)))))
         | PPseudo \<Rightarrow> xpath_pseudo excluded (group 1 m) m))"

function xpath_not :: "(ustr \<Rightarrow> ustr) \<Rightarrow> (ustr \<Rightarrow> ustr) \<Rightarrow> ustr \<Rightarrow> ustr res" where
  "xpath_not lo up e =
     (let vs = map (\<lambda>(i, m). xpath_part lo up (if i = PPseudo then xpath_not lo up (group 6 m) else Inr []) (i, m))
                 (fst (scan_selector e))
      in rbind (rmap defined vs) (\<lambda>vs.
           Inr (lit ''[not('' @ join (lit '' and '')
                  (map (\<lambda>v. [40] @ substring v 1 (int (length v) - 1) @ [41]) vs) @ lit '')]'')))"
  by pat_completeness auto
termination
  by (relation "measure (\<lambda>(l, u, e). length e)") (auto dest: scan_selector_argument)

declare xpath_not.simps [simp del]

text \<open>\<open>join\<close> leaves out what is undefined.\<close>

definition compileXPathMatcher :: "(ustr \<Rightarrow> ustr) \<Rightarrow> (ustr \<Rightarrow> ustr) \<Rightarrow> ustr \<Rightarrow> ustr res" where
  "compileXPathMatcher lo up e =
     rbind (rmap (\<lambda>(i, m). xpath_part lo up (xpath_not lo up (group 6 m)) (i, m)) (fst (scan_selector e)))
       (\<lambda>vs. Inr (lit ''.//*'' @ concat (map (\<lambda>v. case v of None \<Rightarrow> [] | Some t \<Rightarrow> t) vs)))"

subsection \<open>Mode and cache\<close>

datatype sel_mode = SelectorsAPI | XPathMode | NormalMode

text \<open>What the browser can do. \<open>bf_accepts\<close>: \<open>querySelector\<close> on an empty element does not throw.\<close>

record browser_features =
  bf_xpath :: bool
  bf_selectors :: bool
  bf_webkit :: bool
  bf_accepts :: "ustr \<Rightarrow> bool"
  bf_lower :: "ustr \<Rightarrow> ustr"
  bf_upper :: "ustr \<Rightarrow> ustr"

definition re_no_xpath :: regex where
  "re_no_xpath = RAlt (rseq [rlit ''['', RLazy (RChar name_char), rlit '':'']) (rlit '':checked'')"

definition shouldUseXPath :: "browser_features \<Rightarrow> ustr \<Rightarrow> bool" where
  "shouldUseXPath bf e \<longleftrightarrow>
     bf_xpath bf
     \<and> \<not> (bf_webkit bf \<and> (string_include e (lit ''-of-type'') \<or> string_include e (lit '':empty'')))
     \<and> re_match 0 re_no_xpath e = None"

definition shouldUseSelectorsAPI :: "browser_features \<Rightarrow> ustr \<Rightarrow> bool" where
  "shouldUseSelectorsAPI bf e \<longleftrightarrow> bf_selectors bf \<and> bf_accepts bf e"

definition selector_mode :: "browser_features \<Rightarrow> ustr \<Rightarrow> sel_mode" where
  "selector_mode bf e =
     (if shouldUseSelectorsAPI bf e then SelectorsAPI else if shouldUseXPath bf e then XPathMode else NormalMode)"

text \<open>The names under which a plain object answers with an inherited function: the cache is such an object.\<close>

definition inherited_names :: "ustr list" where
  "inherited_names =
     map lit [''constructor'', ''toString'', ''toLocaleString'', ''valueOf'', ''hasOwnProperty'',
              ''isPrototypeOf'', ''propertyIsEnumerable'', ''__proto__'']"

datatype compiled = Program ustr | XPathText ustr | InheritedValue ustr

type_synonym sel_cache = "(ustr \<times> compiled) list"

definition cache_find :: "sel_cache \<Rightarrow> ustr \<Rightarrow> compiled option" where
  "cache_find cache e =
     (case map_of cache e of
        Some c \<Rightarrow> Some c
      | None \<Rightarrow> if e \<in> set inherited_names then Some (InheritedValue e) else None)"

definition compile_as :: "browser_features \<Rightarrow> sel_mode \<Rightarrow> ustr \<Rightarrow> compiled option res" where
  "compile_as bf mode e =
     (case mode of
        SelectorsAPI \<Rightarrow> Inr None
      | XPathMode \<Rightarrow> rbind (compileXPathMatcher (bf_lower bf) (bf_upper bf) e) (\<lambda>t. Inr (Some (XPathText t)))
      | NormalMode \<Rightarrow> Inr (Some (Program (compileMatcher e))))"

text \<open>\<open>initialize\<close>: the expression, its mode, what is compiled for it, and the cache. In the mode of the
  native interface nothing is compiled.\<close>

record selector_object =
  so_expression :: ustr
  so_mode :: sel_mode
  so_compiled :: "compiled option"

definition selector_initialize :: "browser_features \<Rightarrow> ustr \<Rightarrow> sel_cache \<Rightarrow> (selector_object \<times> sel_cache) res" where
  "selector_initialize bf expression cache =
     (let e = strip expression; md = selector_mode bf e in
      if md = SelectorsAPI then Inr (\<lparr>so_expression = e, so_mode = md, so_compiled = None\<rparr>, cache)
      else case cache_find cache e of
             Some c \<Rightarrow> Inr (\<lparr>so_expression = e, so_mode = md, so_compiled = Some c\<rparr>, cache)
           | None \<Rightarrow>
               rbind (compile_as bf md e) (\<lambda>c.
                 Inr (\<lparr>so_expression = e, so_mode = md, so_compiled = c\<rparr>,
                      (case c of None \<Rightarrow> cache | Some t \<Rightarrow> (e, t) # cache))))"

definition selector_toString :: "selector_object \<Rightarrow> ustr" where
  "selector_toString so = so_expression so"

definition selector_inspect :: "selector_object \<Rightarrow> ustr" where
  "selector_inspect so = lit ''#<Selector:'' @ inspect_string False (so_expression so) @ lit ''>''"

subsection \<open>The search\<close>

text \<open>
  The native searches are arguments. For a root other than the document the native one gets the
  identifier of the root in front; \<open>identify\<close> writes one when there is none, and the old one, which
  may be empty, is written back at the end.
\<close>

definition set_ident :: "nat \<Rightarrow> ustr \<Rightarrow> dom \<Rightarrow> dom" where
  "set_ident n i d = d\<lparr>d_nodes := (d_nodes d)[n := (node d n)\<lparr>nd_ident := i\<rparr>]\<rparr>"

definition identify_node :: "nat \<Rightarrow> dom \<Rightarrow> nat \<Rightarrow> ustr \<times> dom \<times> nat" where
  "identify_node n d counter =
     (if nd_ident (node d n) \<noteq> [] then (nd_ident (node d n), d, counter)
      else (let (i, c) = identify_loop (map nd_ident (d_nodes d)) counter in (i, set_ident n i d, c)))"

definition find_native ::
  "(dom \<Rightarrow> nat \<Rightarrow> ustr \<Rightarrow> nat list) \<Rightarrow> dom \<Rightarrow> nat \<Rightarrow> ustr \<Rightarrow> nat \<Rightarrow> nat list \<times> dom \<times> nat"
where
  "find_native querySelectorAll d rt e counter =
     (if rt = 0 then (querySelectorAll d rt e, d, counter)
      else (let oldId = nd_ident (node d rt);
                (i, d1, c) = identify_node rt d counter;
                results = querySelectorAll d1 rt ([35] @ i @ [32] @ e)
            in (results, set_ident rt oldId d1, c)))"

text \<open>The program of the normal mode acts as its tokens do, the argument of \<open>:not\<close> in the same mode; an inherited function in its place is called
  with the root and gives no nodes of the document.\<close>

definition find_compiled ::
  "(ustr \<Rightarrow> nat \<Rightarrow> nat list) \<Rightarrow> dom \<Rightarrow> selector_object \<Rightarrow> nat \<Rightarrow> indices \<Rightarrow> (nat list \<times> indices) res option"
where
  "find_compiled getElementsByXPath d so rt idx =
     (case so_compiled so of
        Some (Program _) \<Rightarrow> Some (matcher d rt (tokens (so_expression so)) idx)
      | Some (XPathText x) \<Rightarrow> Some (Inr (getElementsByXPath x rt, idx))
      | _ \<Rightarrow> None)"

subsection \<open>One element\<close>

text \<open>\<open>match\<close> goes through the patterns without starting again behind a match. A combinator or a
  pseudo-class makes it search the whole document (\<open>None\<close>).\<close>

definition has_check :: "pattern \<Rightarrow> bool" where
  "has_check i \<longleftrightarrow> i \<in> {PTagName, PClassName, PId, PAttrPresence, PAttr}"

fun match_pass :: "(pattern \<times> nat \<times> regex) list \<Rightarrow> ustr \<Rightarrow> (selector_match list \<times> ustr) option" where
  "match_pass [] e = Some ([], e)"
| "match_pass ((i, k, p) # ps) e =
     (case re_match k p e of
        None \<Rightarrow> match_pass ps e
      | Some (_, m) \<Rightarrow>
          if has_check i
          then map_option (\<lambda>(ms, e'). ((i, m) # ms, e')) (match_pass ps (cut_first (group 0 m) e))
          else None)"

lemma match_pass_shorter: "match_pass ps e = Some (ms, e') \<Longrightarrow> e' = e \<or> length e' < length e"
proof (induction ps e arbitrary: ms rule: match_pass.induct)
  case (2 i k p ps e)
  show ?case
  proof (cases "re_match k p e")
    case None
    then show ?thesis using 2 by simp
  next
    case (Some x)
    then obtain n m where x: "re_match k p e = Some (n, m)" by (cases x) auto
    then obtain ms' where c: "has_check i" and p: "match_pass ps (cut_first (group 0 m) e) = Some (ms', e')"
      using 2(3) by (auto split: if_splits)
    show ?thesis using 2(2) [OF x refl c p] cut_first_shorter [of "group 0 m" e] by auto
  qed
qed simp

function match_scan :: "ustr \<Rightarrow> selector_match list option" where
  "match_scan e =
     (if e = [] \<or> \<not> has_text e then Some []
      else case match_pass patterns e of
             None \<Rightarrow> None
           | Some (ms, e') \<Rightarrow> if e' = e then Some ms else map_option (\<lambda>r. ms @ r) (match_scan e'))"
  by pat_completeness auto
termination
  by (relation "measure length") (use match_pass_shorter in \<open>auto\<close>)

declare match_scan.simps [simp del]

text \<open>Without a value the operators compare with the text \<open>undefined\<close>, as far as they make a text of it.\<close>

definition compared_value :: "attr_op \<Rightarrow> groups \<Rightarrow> ustr" where
  "compared_value operator m =
     (case pick_value m of
        Some t \<Rightarrow> t
      | None \<Rightarrow> if operator \<in> {OpEq, OpNe, OpDash} then [] else lit ''undefined'')"

definition check_token :: "selector_match \<Rightarrow> token" where
  "check_token im =
     (case im of (i, m) \<Rightarrow>
        if i = PAttr then Simple (SAttr (group 1 m) (op_of (group 2 m)) (compared_value (op_of (group 2 m)) m))
        else token_of [] i m)"

definition match_text :: "dom \<Rightarrow> ustr \<Rightarrow> nat \<Rightarrow> indices \<Rightarrow> (bool \<times> indices) res" where
  "match_text d e n idx =
     (case match_scan e of
        Some ms \<Rightarrow> rbind (check_assertions d n (map check_token ms)) (\<lambda>b. Inr (b, idx))
      | None \<Rightarrow> rbind (matcher d 0 (tokens e) idx) (\<lambda>(ns, idx). Inr (n \<in> set ns, idx)))"

subsection \<open>Several selectors\<close>

definition list_char :: "jchar \<Rightarrow> bool" where
  "list_char c \<longleftrightarrow> word_char c \<or> is_ws c \<or> c \<in> set (lit ''#:.~>+()-'')"

definition re_split :: regex where
  "re_split =
     rseq [RGroup 1 (RPlus (RGroup 2
             (ralt [RPlus (RChar list_char), rlit ''*'', rseq [rlit ''['', RLazy (RChar dot_char), rlit '']'']]))),
           rspaces, RGroup 3 (RAlt (rlit '','') REnd)]"

definition split_selectors :: "ustr \<Rightarrow> ustr list" where
  "split_selectors e =
     (case scan (re_match 3 re_split) (\<lambda>m acc. acc @ [strip (group 1 m)]) [] e of
        None \<Rightarrow> [] | Some (_, es) \<Rightarrow> es)"

definition find_text :: "dom \<Rightarrow> nat \<Rightarrow> ustr list \<Rightarrow> indices \<Rightarrow> (nat list \<times> indices) res" where
  "find_text d rt expressions idx =
     findChildElements d rt (map (\<lambda>e. tokens (strip (strip e))) (split_selectors (join [44] expressions))) idx"

definition dollar_dollar :: "dom \<Rightarrow> ustr list \<Rightarrow> indices \<Rightarrow> (nat list \<times> indices) res" where
  "dollar_dollar d args idx = find_text d 0 args idx"

end
