(* ===== verification/SelectorTextProps.thy ===== *)
theory SelectorTextProps
  imports SelectorPrint SelectorCompile SelectorProps
begin

text \<open>
  Properties of selectors as texts: the object made of a text finds what the text means, whether it
  is compiled or comes from the cache; the program is one line for every token; what becomes of the
  argument of a pseudo-class that a class follows.
\<close>

subsection \<open>The object of a text\<close>









subsection \<open>The program\<close>



































subsection \<open>A lost argument\<close>

declare runs.simps(5,6) [simp del]

lemma concat_only: "n \<le> m \<Longrightarrow> (\<And>j. j \<le> m \<Longrightarrow> j \<noteq> n \<Longrightarrow> f j = []) \<Longrightarrow> concat (map f [0..<Suc m]) = f n"
proof (induction m)
  case (Suc m)
  then show ?case
  proof (cases "n = Suc m")
    case True
    have "concat (map f [0..<Suc m]) = []" using Suc.prems(2) True by auto
    then show ?thesis using True by simp
  next
    case False
    then have "concat (map f [0..<Suc m]) = f n" using Suc by simp
    then show ?thesis using Suc.prems(2) [of "Suc m"] False by simp
  qed
qed simp

lemma argument_runs:
  assumes "argument_text v" and "41 \<notin> set r"
  shows "\<exists>g'. runs re_argument (pre, 40 # v @ 41 # r, g) = [(41 # rev v @ 40 # pre, r, g'), (pre, 40 # v @ 41 # r, g)]"
proof -
  let ?s = "v @ 41 # r" let ?m = "length (takeWhile dot_char ?s)" and ?n = "length v"
  let ?f = "\<lambda>j. runs (rlit '')'') (catch 6 (40 # pre, ?s, g) (ahead_by (40 # pre) ?s g j))"
  have v: "\<forall>c \<in> set v. dot_char c" "41 \<notin> set v" using assms(1) by (auto simp: argument_text_def list_all_iff)
  have n: "?n \<le> ?m" using v(1) by simp
  have none: "?f j = []" if j: "j \<le> ?m" "j \<noteq> ?n" for j
  proof -
    have "j \<le> length ?s" using j(1) length_takeWhile_le le_trans by blast
    then have "\<not> head_is (\<lambda>c. c = 41) (drop j ?s)"
    proof (cases "j < ?n")
      case True
      then have "v ! j \<noteq> 41" using v(2) nth_mem by metis
      then show ?thesis using True by (simp add: Cons_nth_drop_Suc [symmetric])
    next
      case False
      then obtain i where "j = ?n + Suc i" using j(2) by (metis less_iff_Suc_add linorder_neqE_nat add_Suc_right)
      then have d: "drop j ?s = drop i r" by simp
      have "41 \<notin> set (drop i r)" using assms(2) by (auto dest: in_set_dropD)
      then show ?thesis unfolding d by (cases "drop i r") simp_all
    qed
    then show ?thesis by (simp add: rlit_one catch_def ahead_by_def char_fails del: runs.simps)
  qed
  have "runs (RSeq (RGroup 6 (RLazy (RChar dot_char))) (rlit '')'')) (40 # pre, ?s, g) = concat (map ?f [0..<Suc ?m])"
    by (simp add: lazy_runs_class comp_def del: upt_Suc)
  also have "\<dots> = ?f ?n" using n none by (rule concat_only)
  also have "\<dots> = [(41 # rev v @ 40 # pre, r, g(6 := Some v))]"
    by (simp add: rlit_one ahead_by_whole step_char_def)
  finally have a: "runs (RSeq (RGroup 6 (RLazy (RChar dot_char))) (rlit '')'')) (40 # pre, ?s, g) =
      [(41 # rev v @ 40 # pre, r, g(6 := Some v))]" .
  have "runs (rlit ''('') (pre, 40 # ?s, g) = [(40 # pre, ?s, g)]" by (simp add: rlit_one step_char_def)
  from seq_single [OF this] a
  have "runs (RGroup 5 (RSeq (rlit ''('') (RSeq (RGroup 6 (RLazy (RChar dot_char))) (rlit '')'')))) (pre, 40 # ?s, g) =
      [catch 5 (pre, 40 # ?s, g) (41 # rev v @ 40 # pre, r, g(6 := Some v))]"
    by (simp only: runs.simps(8) list.map)
  then show ?thesis unfolding re_argument_def rseq.simps by (simp add: catch_def)
qed

lemma no_attr: "91 \<notin> set e \<Longrightarrow> re_match 6 re_attr e = None"
proof -
  have here: "match_here k (RSeq (rlit ''['') b) pre s = None" if "91 \<notin> set s" for k b pre s
    using that by (cases s) (simp_all add: match_here_def rlit_one step_char_def)
  have "match_from k (RSeq (rlit ''['') b) pre s = None" if "91 \<notin> set s" for k b pre s
    using that here by (induction s arbitrary: pre) auto
  then show "91 \<notin> set e \<Longrightarrow> ?thesis" unfolding re_match_def re_attr_def rseq.simps by simp
qed

text \<open>
  C38. When a class or an identifier follows the argument of a pseudo-class, and neither a parenthesis
  closes nor a bracket opens behind it, the argument is lost: the pattern matches the name alone, and
  the text from the opening parenthesis on, the class or identifier included, is dropped from the
  selector without an error. So \<open>:nth-child(2).a\<close> asks for the formula of no text.
\<close>

theorem pseudo_argument_lost:
  assumes "n \<in> set pseudo_names" and "argument_text v" and "c \<in> {46, 35}"
    and "41 \<notin> set r" and "91 \<notin> set (v @ r)"
  shows "\<exists>m. scan_selector (58 # lit n @ 40 # v @ 41 # c # r) = ([(PPseudo, m)], 40 # v @ 41 # c # r)
    \<and> group 1 m = lit n \<and> group 6 m = []"
proof -
  let ?rest = "40 # v @ 41 # c # r"
  obtain w pre where w: "rev (lit n) @ [58] = w # pre" "word_char w"
    using assms(1) by (auto simp: pseudo_names_def lit_def word_char_def)
  have "\<exists>g'. first_run (RSeq re_argument re_pseudo_end) (rev (lit n) @ [58], [] @ ?rest, g) = Some (w # pre, ?rest, g')
      \<and> g' 1 = g 1 \<and> g' 6 = None" if "g 6 = None" for g
  proof -
    have "41 \<notin> set (c # r)" using assms(3,4) by auto
    then obtain h where a: "runs re_argument (w # pre, ?rest, g) = [(41 # rev v @ 40 # w # pre, c # r, h), (w # pre, ?rest, g)]"
      using argument_runs [OF assms(2), of "c # r" "w # pre" g] by auto
    have "runs re_pseudo_end (41 # rev v @ 40 # w # pre, c # r, h) = []"
      using assms(3) by (auto simp: re_pseudo_end_def char_defs)
    moreover have "first_run re_pseudo_end (w # pre, ?rest, g) = Some (w # pre, ?rest, g(7 := Some []))"
      using pseudo_end_word [OF w(2), of ?rest pre g] by (simp add: word_char_def)
    ultimately show ?thesis
      using seq_later [of re_argument "(w # pre, ?rest, g)" "[(41 # rev v @ 40 # w # pre, c # r, h)]" "(w # pre, ?rest, g)" "[]"] a that
      by (simp add: w(1))
  qed
  then obtain m where m: "first_pattern patterns (58 # lit n @ ?rest) = Some (PPseudo, m)" "group 0 m = 58 # lit n"
    "group 1 m = lit n" "group 6 m = []"
    using pseudo_from [OF assms(1), of "[]" ?rest "w # pre" None] by auto
  have "re_match 1 re_attrPresence ?rest = None"
    unfolding re_attrPresence_def rseq.simps by (rule match_none) (simp add: rlit_one step_char_def)
  then have "first_pattern patterns ?rest = None"
    using skip_combinators [of 40] tag_none [of 40] marked_none [of 40] pseudo_none [of 40] no_attr [of ?rest] assms(3,5)
    by (auto simp: patterns_def char_defs)
  moreover have t: "has_text ?rest" "has_text ((58 # lit n) @ ?rest)" by (simp_all add: has_text_def is_ws_def)
  ultimately have "scan_selector ?rest = ([], ?rest)" by (subst scan_selector.simps) simp
  then show ?thesis using scan_step [of "58 # lit n" ?rest PPseudo m] m t by auto
qed

theorem pseudo_argument_lost_witness:
  "\<exists>m. scan_selector (lit '':nth-child(2).a'') = ([(PPseudo, m)], lit ''(2).a'') \<and> group 6 m = []"
proof -
  have "''nth-child'' \<in> set pseudo_names" by (simp add: pseudo_names_def)
  moreover have "argument_text (lit ''2'')" by (simp add: argument_text_def dot_char_def lit_def)
  ultimately show ?thesis
    using pseudo_argument_lost [of "''nth-child''" "lit ''2''" 46 "lit ''a''"] by (auto simp: lit_def)
qed

end
