(* ===== verification/JsFloat.thy ===== *)
theory JsFloat
  imports Complex_Main JsNumber
begin

text \<open>
  Numbers with a fraction, as exact rationals: \<open>parseFloat\<close> (the longest decimal number at the front
  of a text), \<open>parseInt\<close> to base 16, \<open>round\<close> and \<open>toFixed\<close>. \<open>None\<close> is NaN.
\<close>

definition js_round :: "rat \<Rightarrow> int" where
  "js_round x = \<lfloor>x + 1 / 2\<rfloor>"

definition decimal_value :: "ustr \<Rightarrow> rat" where
  "decimal_value ds = rat_of_nat (digits_value 0 ds)"

text \<open>The exponent counts only when it has digits; with what is left behind it.\<close>

definition read_exponent :: "ustr \<Rightarrow> int \<times> ustr" where
  "read_exponent s =
     (if s \<noteq> [] \<and> (hd s = 101 \<or> hd s = 69) then
        (let neg = (tl s \<noteq> [] \<and> hd (tl s) = 45);
             r = (if tl s \<noteq> [] \<and> (hd (tl s) = 45 \<or> hd (tl s) = 43) then tl (tl s) else tl s);
             ds = takeWhile is_digit r; n = int (digits_value 0 ds)
         in if ds = [] then (0, s) else (if neg then - n else n, drop (length ds) r))
      else (0, s))"

definition scale_ten :: "int \<Rightarrow> rat \<Rightarrow> rat" where
  "scale_ten k x = (if 0 \<le> k then x * 10 ^ nat k else x / 10 ^ nat (- k))"

definition read_decimal :: "ustr \<Rightarrow> (rat \<times> ustr) option" where
  "read_decimal s =
     (let t = dropWhile is_ws s;
          neg = (t \<noteq> [] \<and> hd t = 45);
          u = (if t \<noteq> [] \<and> (hd t = 45 \<or> hd t = 43) then tl t else t);
          ip = takeWhile is_digit u; r = drop (length ip) u;
          fp = (if r \<noteq> [] \<and> hd r = 46 then takeWhile is_digit (tl r) else []);
          r2 = (if r \<noteq> [] \<and> hd r = 46 \<and> (ip \<noteq> [] \<or> fp \<noteq> []) then drop (Suc (length fp)) r else r);
          (k, rest) = read_exponent r2;
          x = scale_ten k (decimal_value ip + decimal_value fp / 10 ^ length fp)
      in if ip = [] \<and> fp = [] then None else Some (if neg then - x else x, rest))"

definition parseFloat :: "ustr \<Rightarrow> rat option" where
  "parseFloat s = map_option fst (read_decimal s)"

text \<open>A text where a number is wanted: white space around a decimal number, or nothing.\<close>

definition text_number :: "ustr \<Rightarrow> rat option" where
  "text_number s =
     (if list_all is_ws s then Some 0
      else case read_decimal s of
             None \<Rightarrow> None | Some (x, rest) \<Rightarrow> if list_all is_ws rest then Some x else None)"

text \<open>Digits with a fixed number of places; of two nearest numbers the larger one.\<close>

definition toFixed :: "nat \<Rightarrow> rat \<Rightarrow> ustr" where
  "toFixed f x =
     (let n = js_round (\<bar>x\<bar> * 10 ^ f); ds = nat_str (nat n);
          ds = replicate (Suc f - length ds) 48 @ ds; k = length ds - f;
          t = (if f = 0 then ds else take k ds @ [46] @ drop k ds)
      in if x < 0 then 45 # t else t)"

definition nibble_char :: "jchar \<Rightarrow> bool" where
  "nibble_char c \<longleftrightarrow> is_digit c \<or> (65 \<le> c \<and> c \<le> 70) \<or> (97 \<le> c \<and> c \<le> 102)"

definition nibble :: "jchar \<Rightarrow> nat" where
  "nibble c = (if is_digit c then c - 48 else if c \<le> 70 then c - 55 else c - 87)"

definition parseHex :: "ustr \<Rightarrow> int option" where
  "parseHex s =
     (let t = dropWhile is_ws s;
          neg = (t \<noteq> [] \<and> hd t = 45);
          u = (if t \<noteq> [] \<and> (hd t = 45 \<or> hd t = 43) then tl t else t);
          v = (if take 2 u = [48, 120] \<or> take 2 u = [48, 88] then drop 2 u else u);
          ds = takeWhile nibble_char v; n = fold (\<lambda>c a. 16 * a + nibble c) ds 0
      in if ds = [] then None else Some (if neg then - int n else int n))"

lemma js_round_int [simp]: "js_round (rat_of_int i) = i"
  by (simp add: js_round_def floor_eq_iff)

lemma js_round_bounds: "rat_of_int a \<le> x \<Longrightarrow> x \<le> rat_of_int b \<Longrightarrow> a \<le> js_round x \<and> js_round x \<le> b"
proof -
  assume x: "rat_of_int a \<le> x" "x \<le> rat_of_int b"
  have "a \<le> \<lfloor>x + 1 / 2\<rfloor>" using x(1) by (simp add: le_floor_iff)
  moreover have "x + 1 / 2 < rat_of_int (b + 1)" using x(2) by simp
  then have "\<lfloor>x + 1 / 2\<rfloor> < b + 1" by (rule floor_less_iff [THEN iffD2])
  ultimately show ?thesis by (simp add: js_round_def)
qed

end
