(* ===== verification/VisualEffects.thy ===== *)
theory VisualEffects
  imports Elements Effects JsFloat
begin

text \<open>
  The effects of \<open>gserver/public/javascripts/effects.js\<close> that change an element (lines 43 to 52, 70 to
  97 and 354 to 528): transitions, opacity, movement, scaling, highlighting, scrolling. What an effect
  does is attached to the events of its life (\<open>Effects\<close>): \<open>fx_event\<close> applies one event to the styles of the
  element and of its first child. The layout and the computed styles are answers of the browser; a
  number becomes text through \<open>fe_print\<close>, its own conversion.
\<close>

subsection \<open>Transitions\<close>

text \<open>The ones without trigonometric functions.\<close>

definition linear :: "rat \<Rightarrow> rat" where "linear pos = pos"
definition reverse_transition :: "rat \<Rightarrow> rat" where "reverse_transition pos = 1 - pos"
definition none_transition :: "rat \<Rightarrow> rat" where "none_transition pos = 0"
definition full_transition :: "rat \<Rightarrow> rat" where "full_transition pos = 1"

subsection \<open>The element\<close>

record fx_env =
  fe_upper :: "ustr \<Rightarrow> ustr"
  fe_lower :: "ustr \<Rightarrow> ustr"
  fe_css :: "elem_style \<Rightarrow> computed"
  fe_print :: "rat \<Rightarrow> ustr"
  fe_opera :: bool
  fe_styleFloat :: bool
  fe_corner :: "elem_style \<Rightarrow> int \<times> int"
  fe_size :: "elem_style \<Rightarrow> int \<times> int"
  fe_scroll_size :: "elem_style \<Rightarrow> int \<times> int"
  fe_client_height :: "elem_style \<Rightarrow> int"
  fe_client_width :: "elem_style \<Rightarrow> int"
  fe_positioned :: "elem_style \<Rightarrow> int \<times> int"

type_synonym styles = "(ustr \<times> ustr) list"

definition get_style :: "fx_env \<Rightarrow> ustr \<Rightarrow> elem_style \<Rightarrow> ustr option" where
  "get_style env name el = getStyle (fe_upper env) (fe_css env el) name el"

definition number_or :: "rat \<Rightarrow> rat option \<Rightarrow> rat" where
  "number_or d v = (case v of None \<Rightarrow> d | Some x \<Rightarrow> if x = 0 then d else x)"

definition set_style :: "fx_env \<Rightarrow> styles \<Rightarrow> elem_style \<Rightarrow> elem_style" where
  "set_style env = setStyle (fe_print env) (\<lambda>v. number_or 0 (parseFloat v)) (fe_styleFloat env)"

text \<open>\<open>getOpacity\<close>: the style, or what the browser computes, as a number; 1 without any.\<close>

definition get_opacity :: "fx_env \<Rightarrow> elem_style \<Rightarrow> rat option" where
  "get_opacity env el =
     (let v = inline (lit ''opacity'') el;
          r = (if v = [] \<or> v = lit ''auto'' then fe_css env el (lit ''opacity'') else Some v)
      in case r of None \<Rightarrow> Some 1 | Some t \<Rightarrow> if t = [] then Some 1 else parseFloat t)"

definition getInlineOpacity :: "elem_style \<Rightarrow> ustr" where
  "getInlineOpacity el = inline (lit ''opacity'') el"

definition setContentZoom :: "fx_env \<Rightarrow> rat \<Rightarrow> elem_style \<Rightarrow> elem_style" where
  "setContentZoom env percent el = set_style env [(lit ''fontSize'', fe_print env (percent / 100) @ lit ''em'')] el"

definition dimensions :: "fx_env \<Rightarrow> elem_style \<Rightarrow> rat \<times> rat" where
  "dimensions env el =
     (let d = fst (getDimensions (fe_upper env) (fe_css env el) (snd (fe_size env el), fst (fe_size env el))
                     (\<lambda>e. (snd (fe_size env e), fst (fe_size env e))) el)
      in (rat_of_int (snd d), rat_of_int (fst d)))"

definition px :: "int \<Rightarrow> ustr" where
  "px i = int_str i @ lit ''px''"

definition px_or_nan :: "rat option \<Rightarrow> ustr" where
  "px_or_nan v = (case v of None \<Rightarrow> lit ''NaNpx'' | Some x \<Rightarrow> px (js_round x))"

subsection \<open>Movement\<close>

record move_data =
  mv_x :: rat
  mv_y :: rat
  mv_absolute :: bool
  mv_left :: "rat option"
  mv_top :: "rat option"

definition style_number :: "fx_env \<Rightarrow> ustr \<Rightarrow> elem_style \<Rightarrow> rat option" where
  "style_number env name el =
     (case get_style env name el of
        None \<Rightarrow> Some 0 | Some t \<Rightarrow> if t = [] then Some 0 else parseFloat t)"

text \<open>In mode \<open>absolute\<close> a target that is NaN makes the way NaN, which is the case of \<open>None\<close> again.\<close>

definition move_setup :: "fx_env \<Rightarrow> move_data \<Rightarrow> elem_style \<Rightarrow> move_data \<times> elem_style" where
  "move_setup env d el =
     (let el = makePositioned (fe_upper env) (fe_opera env) (fe_css env el) el;
          l = style_number env (lit ''left'') el; t = style_number env (lit ''top'') el;
          d = d\<lparr>mv_left := l, mv_top := t\<rparr>
      in (if mv_absolute d
          then d\<lparr>mv_x := mv_x d - (case l of None \<Rightarrow> 0 | Some a \<Rightarrow> a), mv_y := mv_y d - (case t of None \<Rightarrow> 0 | Some a \<Rightarrow> a)\<rparr>
          else d, el))"

definition move_update :: "fx_env \<Rightarrow> move_data \<Rightarrow> rat \<Rightarrow> elem_style \<Rightarrow> elem_style" where
  "move_update env d pos el =
     set_style env
       [(lit ''left'', px_or_nan (map_option (\<lambda>a. mv_x d * pos + a) (mv_left d))),
        (lit ''top'', px_or_nan (map_option (\<lambda>a. mv_y d * pos + a) (mv_top d)))] el"

definition new_move :: "rat \<Rightarrow> rat \<Rightarrow> move_data" where
  "new_move x y = \<lparr>mv_x = x, mv_y = y, mv_absolute = False, mv_left = None, mv_top = None\<rparr>"

definition MoveBy :: "rat \<Rightarrow> rat \<Rightarrow> move_data" where
  "MoveBy toTop toLeft = new_move toLeft toTop"

subsection \<open>Scaling\<close>

datatype scale_mode = BoxMode | ContentsMode | GivenMode rat rat

record scale_data =
  sc_x :: bool
  sc_y :: bool
  sc_content :: bool
  sc_center :: bool
  sc_mode :: scale_mode
  sc_from :: rat
  sc_to :: rat
  sc_restore :: bool
  sc_positioning :: "ustr option"
  sc_style :: styles
  sc_top :: int
  sc_left :: int
  sc_font :: "(rat option \<times> ustr) option"
  sc_factor :: rat
  sc_dims :: "rat \<times> rat"

definition new_scale :: "rat \<Rightarrow> scale_data" where
  "new_scale percent =
     \<lparr>sc_x = True, sc_y = True, sc_content = True, sc_center = False, sc_mode = BoxMode, sc_from = 100, sc_to = percent,
      sc_restore = False, sc_positioning = None, sc_style = [], sc_top = 0, sc_left = 0, sc_font = None,
      sc_factor = 0, sc_dims = (0, 0)\<rparr>"

definition kept_styles :: "ustr list" where
  "kept_styles = [lit ''top'', lit ''left'', lit ''width'', lit ''height'', lit ''fontSize'']"

text \<open>The last unit that occurs behind the beginning of the text counts.\<close>

definition font_of :: "ustr \<Rightarrow> (rat option \<times> ustr) option" where
  "font_of fontSize =
     fold (\<lambda>u r. if indexOf fontSize u > 0 then Some (parseFloat fontSize, u) else r)
       [lit ''em'', lit ''px'', lit ''%'', lit ''pt''] None"

definition scale_setup :: "fx_env \<Rightarrow> scale_data \<Rightarrow> elem_style \<Rightarrow> scale_data" where
  "scale_setup env d el =
     (let pair = (\<lambda>(a, b). (rat_of_int a, rat_of_int b));
          fontSize = (case get_style env (lit ''font-size'') el of None \<Rightarrow> lit ''100%'' | Some t \<Rightarrow> if t = [] then lit ''100%'' else t)
      in d\<lparr>sc_positioning := get_style env (lit ''position'') el,
           sc_style := map (\<lambda>k. (k, inline k el)) kept_styles,
           sc_top := fst (fe_corner env el), sc_left := snd (fe_corner env el),
           sc_font := font_of fontSize, sc_factor := (sc_to d - sc_from d) / 100,
           sc_dims := (case sc_mode d of
                         BoxMode \<Rightarrow> pair (fe_size env el)
                       | ContentsMode \<Rightarrow> pair (fe_scroll_size env el)
                       | GivenMode h w \<Rightarrow> (h, w))\<rparr>)"

definition set_dimensions :: "fx_env \<Rightarrow> scale_data \<Rightarrow> rat \<Rightarrow> rat \<Rightarrow> elem_style \<Rightarrow> elem_style" where
  "set_dimensions env d height width el =
     (let topd = (height - fst (sc_dims d)) / 2; leftd = (width - snd (sc_dims d)) / 2;
          absolute = (sc_positioning d = Some (lit ''absolute''));
          size = (if sc_x d then [(lit ''width'', px (js_round width))] else [])
                 @ (if sc_y d then [(lit ''height'', px (js_round height))] else []);
          corner = (if sc_center d then
              (if sc_y d then [(lit ''top'', fe_print env ((if absolute then rat_of_int (sc_top d) else 0) - topd) @ lit ''px'')] else [])
              @ (if sc_x d then [(lit ''left'', fe_print env ((if absolute then rat_of_int (sc_left d) else 0) - leftd) @ lit ''px'')] else [])
              else [])
      in set_style env (size @ corner) el)"

definition scale_update :: "fx_env \<Rightarrow> scale_data \<Rightarrow> rat \<Rightarrow> elem_style \<Rightarrow> elem_style" where
  "scale_update env d pos el =
     (let currentScale = sc_from d / 100 + sc_factor d * pos;
          el1 = (case (sc_content d, sc_font d) of
                   (True, Some (Some n, u)) \<Rightarrow>
                     if n \<noteq> 0 then set_style env [(lit ''fontSize'', fe_print env (n * currentScale) @ u)] el else el
                 | _ \<Rightarrow> el)
      in set_dimensions env d (fst (sc_dims d) * currentScale) (snd (sc_dims d) * currentScale) el1)"

definition scale_finish :: "fx_env \<Rightarrow> scale_data \<Rightarrow> elem_style \<Rightarrow> elem_style" where
  "scale_finish env d el = (if sc_restore d then set_style env (sc_style d) el else el)"

subsection \<open>Highlighting\<close>

record highlight_data =
  hl_old :: styles
  hl_restore :: ustr
  hl_base :: "int option list"
  hl_delta :: "int option list"

definition color_channel :: "ustr \<Rightarrow> nat \<Rightarrow> int option" where
  "color_channel color i = parseHex (slice color (int i * 2 + 1) (int i * 2 + 3))"

definition minus_nan :: "int option \<Rightarrow> int option \<Rightarrow> int option" where
  "minus_nan a b = (case (a, b) of (Some x, Some y) \<Rightarrow> Some (x - y) | _ \<Rightarrow> None)"

definition color_text :: "int option list \<Rightarrow> int option list \<Rightarrow> rat \<Rightarrow> ustr" where
  "color_text base delta pos =
     [35] @ concat (map (\<lambda>(b, d). color_part (case (b, d) of
         (Some x, Some y) \<Rightarrow> Some (js_round (rat_of_int x + rat_of_int y * pos)) | _ \<Rightarrow> None)) (zip base delta))"

text \<open>\<open>setup\<close> with the options \<open>startcolor\<close>, \<open>endcolor\<close>, \<open>restorecolor\<close> and \<open>keepBackgroundImage\<close>. An element that
  is not displayed cancels the effect (\<open>None\<close>); without a background colour there is nothing to parse.\<close>

definition background :: "fx_env \<Rightarrow> elem_style \<Rightarrow> ustr res" where
  "background env el = (case get_style env (lit ''background-color'') el of None \<Rightarrow> Inl TypeError | Some t \<Rightarrow> Inr t)"

definition highlight_setup ::
  "fx_env \<Rightarrow> ustr \<Rightarrow> ustr option \<Rightarrow> ustr option \<Rightarrow> bool \<Rightarrow> elem_style \<Rightarrow> ((highlight_data \<times> elem_style) option) res"
where
  "highlight_setup env startcolor endcolor restorecolor keep el =
     (if get_style env (lit ''display'') el = Some (lit ''none'') then Inr None
      else
        let image = get_style env (lit ''background-image'') el;
            old = (if keep then [] else [(lit ''backgroundImage'', (case image of None \<Rightarrow> [] | Some t \<Rightarrow> t))]);
            el1 = (if keep then el else set_style env [(lit ''backgroundImage'', lit ''none'')] el)
        in rbind (case endcolor of
                    Some c \<Rightarrow> Inr c
                  | None \<Rightarrow> rbind (background env el1) (\<lambda>t. Inr (parseColor (fe_lower env) (Some (lit ''#ffffff'')) t)))
             (\<lambda>endc.
           let restore = (case restorecolor of
                            Some c \<Rightarrow> c
                          | None \<Rightarrow> (case get_style env (lit ''background-color'') el1 of None \<Rightarrow> [] | Some t \<Rightarrow> t));
               base = map (color_channel startcolor) [0..<3];
               delta = map (\<lambda>i. minus_nan (color_channel endc i) (color_channel startcolor i)) [0..<3]
           in Inr (Some (\<lparr>hl_old = old, hl_restore = restore, hl_base = base, hl_delta = delta\<rparr>, el1))))"

definition highlight_update :: "fx_env \<Rightarrow> highlight_data \<Rightarrow> rat \<Rightarrow> elem_style \<Rightarrow> elem_style" where
  "highlight_update env d pos el = set_style env [(lit ''backgroundColor'', color_text (hl_base d) (hl_delta d) pos)] el"

definition highlight_finish :: "fx_env \<Rightarrow> highlight_data \<Rightarrow> elem_style \<Rightarrow> elem_style" where
  "highlight_finish env d el = set_style env (put (lit ''backgroundColor'') (hl_restore d) (hl_old d)) el"

text \<open>\<open>ScrollTo\<close>: the bounds of the tween, and where the window is scrolled to at a position.\<close>

definition scroll_range :: "int \<Rightarrow> int \<Rightarrow> int option \<Rightarrow> int \<times> int" where
  "scroll_range top' elementTop offset =
     (top', elementTop + (case offset of None \<Rightarrow> 0 | Some d \<Rightarrow> d))"

definition scroll_update :: "int \<Rightarrow> rat \<Rightarrow> int \<times> int" where
  "scroll_update left' pos = (left', js_round pos)"

subsection \<open>An effect with its hooks\<close>

datatype core = OpacityCore | MoveCore move_data | ScaleCore scale_data

text \<open>The element, and the first element inside it.\<close>

record fx_page =
  fp_el :: elem_style
  fp_inner :: elem_style

definition core_setup :: "fx_env \<Rightarrow> core \<Rightarrow> fx_page \<Rightarrow> core \<times> fx_page" where
  "core_setup env c p =
     (case c of
        OpacityCore \<Rightarrow> (c, p)
      | MoveCore d \<Rightarrow> (let (d, el) = move_setup env d (fp_el p) in (MoveCore d, p\<lparr>fp_el := el\<rparr>))
      | ScaleCore d \<Rightarrow> (ScaleCore (scale_setup env d (fp_el p)), p))"

definition core_update :: "fx_env \<Rightarrow> core \<Rightarrow> rat \<Rightarrow> fx_page \<Rightarrow> fx_page" where
  "core_update env c pos p =
     (case c of
        OpacityCore \<Rightarrow> p\<lparr>fp_el := setOpacity (fe_print env) pos (fp_el p)\<rparr>
      | MoveCore d \<Rightarrow> p\<lparr>fp_el := move_update env d pos (fp_el p)\<rparr>
      | ScaleCore d \<Rightarrow> p\<lparr>fp_el := scale_update env d pos (fp_el p)\<rparr>)"

definition core_finish :: "fx_env \<Rightarrow> core \<Rightarrow> fx_page \<Rightarrow> fx_page" where
  "core_finish env c p =
     (case c of ScaleCore d \<Rightarrow> p\<lparr>fp_el := scale_finish env d (fp_el p)\<rparr> | _ \<Rightarrow> p)"

record hooks =
  hk_beforeStart :: "fx_page \<Rightarrow> fx_page"
  hk_beforeSetup :: "fx_page \<Rightarrow> fx_page"
  hk_afterSetup :: "fx_page \<Rightarrow> fx_page"
  hk_afterUpdate :: "core \<Rightarrow> fx_page \<Rightarrow> fx_page"
  hk_afterFinish :: "fx_page \<Rightarrow> fx_page"

definition no_hooks :: hooks where
  "no_hooks = \<lparr>hk_beforeStart = id, hk_beforeSetup = id, hk_afterSetup = id, hk_afterUpdate = \<lambda>_. id, hk_afterFinish = id\<rparr>"

definition fx_event :: "fx_env \<Rightarrow> hooks \<Rightarrow> eff_event \<Rightarrow> core \<times> fx_page \<Rightarrow> core \<times> fx_page" where
  "fx_event env hk ev s =
     (case ev of
        BeforeStart \<Rightarrow> (fst s, hk_beforeStart hk (snd s))
      | BeforeSetup \<Rightarrow> (fst s, hk_beforeSetup hk (snd s))
      | Setup \<Rightarrow> core_setup env (fst s) (snd s)
      | AfterSetup \<Rightarrow> (fst s, hk_afterSetup hk (snd s))
      | BeforeUpdate _ \<Rightarrow> s
      | Update pos \<Rightarrow> (fst s, core_update env (fst s) pos (snd s))
      | AfterUpdate \<Rightarrow> (fst s, hk_afterUpdate hk (fst s) (snd s))
      | BeforeFinish \<Rightarrow> s
      | Finish \<Rightarrow> (fst s, core_finish env (fst s) (snd s))
      | AfterFinish \<Rightarrow> (fst s, hk_afterFinish hk (snd s)))"

definition fx_run :: "fx_env \<Rightarrow> hooks \<Rightarrow> eff_event list \<Rightarrow> core \<times> fx_page \<Rightarrow> core \<times> fx_page" where
  "fx_run env hk evs s = fold (fx_event env hk) evs s"

text \<open>An effect before it starts: its bounds, its duration, its core and hooks, and the page as its constructor
  leaves it.\<close>

record visual =
  vi_from :: rat
  vi_to :: rat
  vi_duration :: rat
  vi_core :: core
  vi_hooks :: hooks
  vi_page :: fx_page

definition visual_run :: "fx_env \<Rightarrow> visual \<Rightarrow> eff_event list \<Rightarrow> fx_page" where
  "visual_run env v evs = snd (fx_run env (vi_hooks v) evs (vi_core v, vi_page v))"

text \<open>What the queue of effects lets happen to an effect that ends (\<open>life_ok\<close>): any updates, the last one at the
  end position.\<close>

definition whole_life :: "rat list \<Rightarrow> rat \<Rightarrow> eff_event list" where
  "whole_life ps last_pos = setup_log @ updates (ps @ [last_pos]) @ [BeforeFinish, Finish, AfterFinish]"

end
