(* ===== verification/CombinedEffects.thy ===== *)
theory CombinedEffects
  imports VisualEffects
begin

text \<open>
  The combined effects of \<open>gserver/public/javascripts/effects.js\<close> (lines 313 to 330 and 532 to 918): what
  their constructors read from the element, their hooks, effects in parallel on one element, and
  effects that start one another at their end.
\<close>

subsection \<open>Helpers\<close>

definition on_el :: "(elem_style \<Rightarrow> elem_style) \<Rightarrow> fx_page \<Rightarrow> fx_page" where
  "on_el f p = p\<lparr>fp_el := f (fp_el p)\<rparr>"

definition on_inner :: "(elem_style \<Rightarrow> elem_style) \<Rightarrow> fx_page \<Rightarrow> fx_page" where
  "on_inner f p = p\<lparr>fp_inner := f (fp_inner p)\<rparr>"

definition make_positioned :: "fx_env \<Rightarrow> elem_style \<Rightarrow> elem_style" where
  "make_positioned env el = makePositioned (fe_upper env) (fe_opera env) (fe_css env el) el"

definition make_clipping :: "fx_env \<Rightarrow> elem_style \<Rightarrow> elem_style" where
  "make_clipping env el = makeClipping (fe_upper env) (fe_css env el) el"

definition style_text :: "fx_env \<Rightarrow> string \<Rightarrow> elem_style \<Rightarrow> ustr" where
  "style_text env name el = (case get_style env (lit name) el of None \<Rightarrow> [] | Some t \<Rightarrow> t)"

definition set_opacity_text :: "fx_env \<Rightarrow> ustr \<Rightarrow> elem_style \<Rightarrow> elem_style" where
  "set_opacity_text env v = set_style env [(lit ''opacity'', v)]"

definition inline_styles :: "string list \<Rightarrow> elem_style \<Rightarrow> styles" where
  "inline_styles names el = map (\<lambda>n. (lit n, inline (lit n) el)) names"

text \<open>\<open>absolutize\<close> and \<open>relativize\<close> of \<open>prototype.js\<close>: what the first remembers on the element is its second result.\<close>

record saved_box =
  sb_left :: "rat option"
  sb_top :: "rat option"
  sb_width :: ustr
  sb_height :: ustr

definition float_or_zero :: "ustr \<Rightarrow> rat option" where
  "float_or_zero t = (if t = [] then Some 0 else parseFloat t)"

definition absolutize_style :: "fx_env \<Rightarrow> elem_style \<Rightarrow> elem_style \<times> saved_box option" where
  "absolutize_style env el =
     (if get_style env (lit ''position'') el = Some (lit ''absolute'') then (el, None)
      else
        let (left', top') = fe_positioned env el;
            saved = \<lparr>sb_left = map_option (\<lambda>a. rat_of_int left' - a) (float_or_zero (inline (lit ''left'') el)),
                     sb_top = map_option (\<lambda>a. rat_of_int top' - a) (float_or_zero (inline (lit ''top'') el)),
                     sb_width = inline (lit ''width'') el, sb_height = inline (lit ''height'') el\<rparr>
        in (fold (\<lambda>(n, v). set_inline n v)
              [(lit ''position'', lit ''absolute''), (lit ''top'', px top'), (lit ''left'', px left'),
               (lit ''width'', px (fe_client_width env el)), (lit ''height'', px (fe_client_height env el))] el, Some saved))"

definition relativize_style :: "fx_env \<Rightarrow> saved_box \<Rightarrow> elem_style \<Rightarrow> elem_style" where
  "relativize_style env saved el =
     (if get_style env (lit ''position'') el = Some (lit ''relative'') then el
      else
        let text = (\<lambda>v. case v of None \<Rightarrow> lit ''NaNpx'' | Some x \<Rightarrow> fe_print env x @ lit ''px'');
            el = set_inline (lit ''position'') (lit ''relative'') el;
            minus = (\<lambda>a b. case a of None \<Rightarrow> None | Some x \<Rightarrow> Some (x - number_or 0 b))
        in fold (\<lambda>(n, v). set_inline n v)
             [(lit ''top'', text (minus (float_or_zero (inline (lit ''top'') el)) (sb_top saved))),
              (lit ''left'', text (minus (float_or_zero (inline (lit ''left'') el)) (sb_left saved))),
              (lit ''height'', sb_height saved), (lit ''width'', sb_width saved)] el)"

subsection \<open>Single effects\<close>

definition Opacity_options :: "fx_env \<Rightarrow> elem_style \<Rightarrow> rat \<times> rat" where
  "Opacity_options env el = (number_or 0 (get_opacity env el), 1)"

definition Fade :: "fx_env \<Rightarrow> rat \<Rightarrow> fx_page \<Rightarrow> visual" where
  "Fade env to p =
     (let oldOpacity = getInlineOpacity (fp_el p) in
      \<lparr>vi_from = number_or 1 (get_opacity env (fp_el p)), vi_to = to, vi_duration = 1, vi_core = OpacityCore,
       vi_hooks = no_hooks\<lparr>hk_afterFinish :=
         (\<lambda>p. if to \<noteq> 0 then p else on_el (set_opacity_text env oldOpacity \<circ> elem_hide) p)\<rparr>,
       vi_page = p\<rparr>)"

definition Appear_from :: "fx_env \<Rightarrow> elem_style \<Rightarrow> rat" where
  "Appear_from env el =
     (if get_style env (lit ''display'') el = Some (lit ''none'') then 0 else number_or 0 (get_opacity env el))"

definition Appear :: "fx_env \<Rightarrow> fx_page \<Rightarrow> visual" where
  "Appear env p =
     (let from = Appear_from env (fp_el p) in
      \<lparr>vi_from = from, vi_to = 1, vi_duration = 1, vi_core = OpacityCore,
       vi_hooks = no_hooks\<lparr>hk_beforeSetup := on_el (elem_show \<circ> setOpacity (fe_print env) from)\<rparr>, vi_page = p\<rparr>)"

definition Pulsate :: "fx_env \<Rightarrow> fx_page \<Rightarrow> visual" where
  "Pulsate env p =
     (let oldOpacity = getInlineOpacity (fp_el p) in
      \<lparr>vi_from = 0, vi_to = 1, vi_duration = 2, vi_core = OpacityCore,
       vi_hooks = no_hooks\<lparr>hk_afterFinish := on_el (set_opacity_text env oldOpacity)\<rparr>, vi_page = p\<rparr>)"

definition BlindUp :: "fx_env \<Rightarrow> fx_page \<Rightarrow> visual" where
  "BlindUp env p =
     \<lparr>vi_from = 0, vi_to = 1, vi_duration = 1,
      vi_core = ScaleCore ((new_scale 0)\<lparr>sc_content := False, sc_x := False, sc_restore := True\<rparr>),
      vi_hooks = no_hooks\<lparr>hk_afterFinish := on_el (undoClipping \<circ> elem_hide)\<rparr>,
      vi_page = on_el (make_clipping env) p\<rparr>"

text \<open>The styles that \<open>getDimensions\<close> writes for the measuring are back afterwards.\<close>

definition BlindDown :: "fx_env \<Rightarrow> fx_page \<Rightarrow> visual" where
  "BlindDown env p =
     (let (h, w) = dimensions env (fp_el p) in
      \<lparr>vi_from = 0, vi_to = 1, vi_duration = 1,
       vi_core = ScaleCore ((new_scale 100)\<lparr>sc_content := False, sc_x := False, sc_from := 0, sc_mode := GivenMode h w,
                              sc_restore := True\<rparr>),
       vi_hooks = no_hooks\<lparr>hk_afterSetup := on_el (elem_show \<circ> set_style env [(lit ''height'', lit ''0px'')] \<circ> make_clipping env),
                            hk_afterFinish := on_el undoClipping\<rparr>,
       vi_page = p\<rparr>)"

text \<open>The inner element stays at the lower edge: its distance from the bottom is what is not yet there of the height.\<close>

definition follow_bottom :: "fx_env \<Rightarrow> core \<Rightarrow> fx_page \<Rightarrow> fx_page" where
  "follow_bottom env c p =
     (case c of
        ScaleCore d \<Rightarrow>
          on_inner (set_style env [(lit ''bottom'',
              fe_print env (fst (sc_dims d) - rat_of_int (fe_client_height env (fp_el p))) @ lit ''px'')]) p
      | _ \<Rightarrow> p)"

definition clear_top :: "fx_env \<Rightarrow> fx_page \<Rightarrow> fx_page" where
  "clear_top env p = (if fe_opera env then on_el (set_style env [(lit ''top'', [])]) p else p)"

definition SlideDown :: "fx_env \<Rightarrow> fx_page \<Rightarrow> visual" where
  "SlideDown env p =
     (let oldInnerBottom = style_text env ''bottom'' (fp_inner p); (h, w) = dimensions env (fp_el p) in
      \<lparr>vi_from = 0, vi_to = 1, vi_duration = 1,
       vi_core = ScaleCore ((new_scale 100)\<lparr>sc_content := False, sc_x := False, sc_from := (if fe_opera env then 0 else 1),
                              sc_mode := GivenMode h w, sc_restore := True\<rparr>),
       vi_hooks = no_hooks
         \<lparr>hk_afterSetup := on_el (elem_show \<circ> set_style env [(lit ''height'', lit ''0px'')] \<circ> make_clipping env) \<circ> clear_top env
             \<circ> on_inner (make_positioned env) \<circ> on_el (make_positioned env),
          hk_afterUpdate := follow_bottom env,
          hk_afterFinish := on_inner (set_style env [(lit ''bottom'', oldInnerBottom)] \<circ> undoPositioned)
             \<circ> on_el (undoPositioned \<circ> undoClipping)\<rparr>,
       vi_page = p\<rparr>)"

definition SlideUp :: "fx_env \<Rightarrow> fx_page \<Rightarrow> visual" where
  "SlideUp env p =
     (let oldInnerBottom = style_text env ''bottom'' (fp_inner p); (h, w) = dimensions env (fp_el p) in
      \<lparr>vi_from = 0, vi_to = 1, vi_duration = 1,
       vi_core = ScaleCore ((new_scale (if fe_opera env then 0 else 1))\<lparr>sc_content := False, sc_x := False,
                              sc_mode := GivenMode h w, sc_restore := True\<rparr>),
       vi_hooks = no_hooks
         \<lparr>hk_afterSetup := on_el (elem_show \<circ> make_clipping env) \<circ> clear_top env
             \<circ> on_inner (make_positioned env) \<circ> on_el (make_positioned env),
          hk_afterUpdate := follow_bottom env,
          hk_afterFinish := on_inner (set_style env [(lit ''bottom'', oldInnerBottom)] \<circ> undoPositioned)
             \<circ> on_el (undoPositioned \<circ> undoClipping \<circ> elem_hide)\<rparr>,
       vi_page = p\<rparr>)"

definition Squish :: "fx_env \<Rightarrow> fx_page \<Rightarrow> visual" where
  "Squish env p =
     \<lparr>vi_from = 0, vi_to = 1, vi_duration = 1,
      vi_core = ScaleCore ((new_scale (if fe_opera env then 1 else 0))\<lparr>sc_restore := True\<rparr>),
      vi_hooks = no_hooks\<lparr>hk_beforeSetup := on_el (make_clipping env), hk_afterFinish := on_el (undoClipping \<circ> elem_hide)\<rparr>,
      vi_page = p\<rparr>"

subsection \<open>One effect after the other\<close>

text \<open>Each stage is made from the page the stage before has left. The lives are the events of the stages.\<close>

fun run_stages :: "fx_env \<Rightarrow> (fx_page \<Rightarrow> visual) list \<Rightarrow> eff_event list list \<Rightarrow> fx_page \<Rightarrow> fx_page" where
  "run_stages env (v # vs) (evs # evss) p = run_stages env vs evss (visual_run env (v p) evs)"
| "run_stages env _ _ p = p"

definition move_stage :: "rat \<Rightarrow> rat \<Rightarrow> rat \<Rightarrow> hooks \<Rightarrow> fx_page \<Rightarrow> visual" where
  "move_stage x y duration hk p =
     \<lparr>vi_from = 0, vi_to = 1, vi_duration = duration, vi_core = MoveCore (new_move x y), vi_hooks = hk, vi_page = p\<rparr>"

text \<open>\<open>Shake\<close>, with its options \<open>distance\<close> and \<open>duration\<close>; the corner it puts back is the computed one.\<close>

definition Shake :: "fx_env \<Rightarrow> rat \<Rightarrow> rat \<Rightarrow> fx_page \<Rightarrow> (fx_page \<Rightarrow> visual) list" where
  "Shake env distance duration p =
     (let split = duration / 10;
          oldStyle = [(lit ''top'', style_text env ''top'' (fp_el p)), (lit ''left'', style_text env ''left'' (fp_el p))]
      in [move_stage distance 0 split no_hooks,
          move_stage (- distance * 2) 0 (split * 2) no_hooks,
          move_stage (distance * 2) 0 (split * 2) no_hooks,
          move_stage (- distance * 2) 0 (split * 2) no_hooks,
          move_stage (distance * 2) 0 (split * 2) no_hooks,
          move_stage (- distance) 0 split
            (no_hooks\<lparr>hk_afterFinish := on_el (set_style env oldStyle \<circ> undoPositioned)\<rparr>)])"

definition SwitchOff :: "fx_env \<Rightarrow> fx_page \<Rightarrow> (fx_page \<Rightarrow> visual) list" where
  "SwitchOff env p =
     (let oldOpacity = getInlineOpacity (fp_el p) in
      [\<lambda>p. \<lparr>vi_from = 0, vi_to = 1, vi_duration = 4 / 10, vi_core = OpacityCore,
            vi_hooks = no_hooks\<lparr>hk_beforeSetup := on_el (elem_show \<circ> setOpacity (fe_print env) 0)\<rparr>, vi_page = p\<rparr>,
       \<lambda>p. \<lparr>vi_from = 0, vi_to = 1, vi_duration = 3 / 10,
            vi_core = ScaleCore ((new_scale 1)\<lparr>sc_center := True, sc_x := False, sc_content := False, sc_restore := True\<rparr>),
            vi_hooks = no_hooks
              \<lparr>hk_beforeSetup := on_el (make_clipping env \<circ> make_positioned env),
               hk_afterFinish := on_el (set_opacity_text env oldOpacity \<circ> undoPositioned \<circ> undoClipping \<circ> elem_hide)\<rparr>,
            vi_page = p\<rparr>])"

definition Fold :: "fx_env \<Rightarrow> fx_page \<Rightarrow> (fx_page \<Rightarrow> visual) list" where
  "Fold env p =
     (let oldStyle = inline_styles [''top'', ''left'', ''width'', ''height''] (fp_el p) in
      [\<lambda>p. \<lparr>vi_from = 0, vi_to = 1, vi_duration = 1,
            vi_core = ScaleCore ((new_scale 5)\<lparr>sc_content := False, sc_x := False\<rparr>),
            vi_hooks = no_hooks, vi_page = on_el (make_clipping env) p\<rparr>,
       \<lambda>p. \<lparr>vi_from = 0, vi_to = 1, vi_duration = 1,
            vi_core = ScaleCore ((new_scale 1)\<lparr>sc_content := False, sc_y := False\<rparr>),
            vi_hooks = no_hooks\<lparr>hk_afterFinish := on_el (set_style env oldStyle \<circ> undoClipping \<circ> elem_hide)\<rparr>,
            vi_page = p\<rparr>])"

subsection \<open>Effects in parallel\<close>

text \<open>A part has its own bounds and transition, which it applies to the position of the whole.\<close>

record sub_effect =
  se_core :: core
  se_started :: bool
  se_from :: rat
  se_to :: rat
  se_transition :: "rat \<Rightarrow> rat"

definition sub_render :: "fx_env \<Rightarrow> rat \<Rightarrow> sub_effect \<Rightarrow> fx_page \<Rightarrow> sub_effect \<times> fx_page" where
  "sub_render env pos s p =
     (let (c, p) = (if se_started s then (se_core s, p) else core_setup env (se_core s) p);
          x = se_transition s pos * (se_to s - se_from s) + se_from s
      in (s\<lparr>se_core := c, se_started := True\<rparr>, core_update env c x p))"

fun subs_render :: "fx_env \<Rightarrow> rat \<Rightarrow> sub_effect list \<Rightarrow> fx_page \<Rightarrow> sub_effect list \<times> fx_page" where
  "subs_render env pos [] p = ([], p)"
| "subs_render env pos (s # ss) p =
     (let (s', p1) = sub_render env pos s p; (ss', p2) = subs_render env pos ss p1 in (s' # ss', p2))"

text \<open>At the end each part is rendered at 1 and finished, before the next one.\<close>

fun subs_finish :: "fx_env \<Rightarrow> sub_effect list \<Rightarrow> fx_page \<Rightarrow> sub_effect list \<times> fx_page" where
  "subs_finish env [] p = ([], p)"
| "subs_finish env (s # ss) p =
     (let (s', p1) = sub_render env 1 s p; (ss', p2) = subs_finish env ss (core_finish env (se_core s') p1)
      in (s' # ss', p2))"

record parallel =
  pa_duration :: rat
  pa_subs :: "sub_effect list"
  pa_hooks :: hooks
  pa_page :: fx_page

definition parallel_event :: "fx_env \<Rightarrow> hooks \<Rightarrow> eff_event \<Rightarrow> sub_effect list \<times> fx_page \<Rightarrow> sub_effect list \<times> fx_page" where
  "parallel_event env hk ev s =
     (case ev of
        BeforeStart \<Rightarrow> (fst s, hk_beforeStart hk (snd s))
      | BeforeSetup \<Rightarrow> (fst s, hk_beforeSetup hk (snd s))
      | AfterSetup \<Rightarrow> (fst s, hk_afterSetup hk (snd s))
      | Update pos \<Rightarrow> subs_render env pos (fst s) (snd s)
      | Finish \<Rightarrow> subs_finish env (fst s) (snd s)
      | AfterFinish \<Rightarrow> (fst s, hk_afterFinish hk (snd s))
      | _ \<Rightarrow> s)"

definition parallel_run :: "fx_env \<Rightarrow> parallel \<Rightarrow> eff_event list \<Rightarrow> fx_page" where
  "parallel_run env v evs = snd (fold (parallel_event env (pa_hooks v)) evs (pa_subs v, pa_page v))"

definition sub_of :: "core \<Rightarrow> rat \<Rightarrow> rat \<Rightarrow> (rat \<Rightarrow> rat) \<Rightarrow> sub_effect" where
  "sub_of c from to tr = \<lparr>se_core = c, se_started = False, se_from = from, se_to = to, se_transition = tr\<rparr>"

text \<open>The transition of a part is the default one, \<open>tr\<close>, unless it is given.\<close>

definition Puff :: "fx_env \<Rightarrow> (rat \<Rightarrow> rat) \<Rightarrow> fx_page \<Rightarrow> parallel" where
  "Puff env tr p =
     (let el = fp_el p;
          oldStyle = [(lit ''opacity'', getInlineOpacity el), (lit ''position'', style_text env ''position'' el)]
                     @ inline_styles [''top'', ''left'', ''width'', ''height''] el
      in \<lparr>pa_duration = 1,
          pa_subs = [sub_of (ScaleCore ((new_scale 200)\<lparr>sc_center := True, sc_restore := True\<rparr>)) 0 1 tr,
                     sub_of OpacityCore (fst (Opacity_options env el)) 0 tr],
          pa_hooks = no_hooks\<lparr>hk_beforeSetup := on_el (\<lambda>el. fst (absolutize_style env el)),
                               hk_afterFinish := on_el (set_style env oldStyle \<circ> elem_hide)\<rparr>,
          pa_page = p\<rparr>)"

definition DropOut :: "fx_env \<Rightarrow> (rat \<Rightarrow> rat) \<Rightarrow> fx_page \<Rightarrow> parallel" where
  "DropOut env tr p =
     (let el = fp_el p;
          oldStyle = [(lit ''top'', style_text env ''top'' el), (lit ''left'', style_text env ''left'' el),
                      (lit ''opacity'', getInlineOpacity el)]
      in \<lparr>pa_duration = 5 / 10,
          pa_subs = [sub_of (MoveCore (new_move 0 100)) 0 1 tr, sub_of OpacityCore (fst (Opacity_options env el)) 0 tr],
          pa_hooks = no_hooks\<lparr>hk_beforeSetup := on_el (make_positioned env),
                               hk_afterFinish := on_el (set_style env oldStyle \<circ> undoPositioned \<circ> elem_hide)\<rparr>,
          pa_page = p\<rparr>)"

subsection \<open>Growing and shrinking\<close>

datatype direction = TopLeft | TopRight | BottomLeft | BottomRight | Center

text \<open>The corner the element grows from, and the way back, for a height and a width.\<close>

definition grow_moves :: "direction \<Rightarrow> rat \<times> rat \<Rightarrow> (rat \<times> rat) \<times> (rat \<times> rat)" where
  "grow_moves d dims =
     (let h = fst dims; w = snd dims in
      case d of
        TopLeft \<Rightarrow> ((0, 0), (0, 0))
      | TopRight \<Rightarrow> ((w, 0), (- w, 0))
      | BottomLeft \<Rightarrow> ((0, h), (0, - h))
      | BottomRight \<Rightarrow> ((w, h), (- w, - h))
      | Center \<Rightarrow> ((w / 2, h / 2), (- w / 2, - h / 2)))"

definition old_box :: "elem_style \<Rightarrow> styles" where
  "old_box el = inline_styles [''top'', ''left'', ''height'', ''width''] el @ [(lit ''opacity'', getInlineOpacity el)]"

definition Grow_start :: "fx_env \<Rightarrow> direction \<Rightarrow> fx_page \<Rightarrow> visual" where
  "Grow_start env d p =
     (let (x, y) = fst (grow_moves d (dimensions env (fp_el p))) in
      move_stage x y (1 / 100) (no_hooks\<lparr>hk_beforeSetup := on_el (make_positioned env \<circ> make_clipping env \<circ> elem_hide)\<rparr>) p)"

definition Grow_parts :: "fx_env \<Rightarrow> (rat \<Rightarrow> rat) \<Rightarrow> direction \<Rightarrow> elem_style \<Rightarrow> fx_page \<Rightarrow> parallel" where
  "Grow_parts env tr d before p =
     (let dims = dimensions env before; (x, y) = snd (grow_moves d dims) in
      \<lparr>pa_duration = 1,
       pa_subs = [sub_of OpacityCore 0 1 full_transition, sub_of (MoveCore (new_move x y)) 0 1 tr,
                  sub_of (ScaleCore ((new_scale 100)\<lparr>sc_mode := GivenMode (fst dims) (snd dims),
                            sc_from := (if fe_opera env then 1 else 0), sc_restore := True\<rparr>)) 0 1 tr],
       pa_hooks = no_hooks\<lparr>hk_beforeSetup := on_el (elem_show \<circ> set_style env [(lit ''height'', lit ''0px'')]),
                            hk_afterFinish := on_el (set_style env (old_box before) \<circ> undoPositioned \<circ> undoClipping)\<rparr>,
       pa_page = p\<rparr>)"

definition Grow_run :: "fx_env \<Rightarrow> (rat \<Rightarrow> rat) \<Rightarrow> direction \<Rightarrow> eff_event list \<Rightarrow> eff_event list \<Rightarrow> fx_page \<Rightarrow> fx_page" where
  "Grow_run env tr d evs1 evs2 p =
     parallel_run env (Grow_parts env tr d (fp_el p) (visual_run env (Grow_start env d p) evs1)) evs2"

definition shrink_move :: "direction \<Rightarrow> rat \<times> rat \<Rightarrow> rat \<times> rat" where
  "shrink_move d dims =
     (let h = fst dims; w = snd dims in
      case d of TopLeft \<Rightarrow> (0, 0) | TopRight \<Rightarrow> (w, 0) | BottomLeft \<Rightarrow> (0, h) | BottomRight \<Rightarrow> (w, h) | Center \<Rightarrow> (w / 2, h / 2))"

definition Shrink :: "fx_env \<Rightarrow> (rat \<Rightarrow> rat) \<Rightarrow> direction \<Rightarrow> fx_page \<Rightarrow> parallel" where
  "Shrink env tr d p =
     (let el = fp_el p; (x, y) = shrink_move d (dimensions env el) in
      \<lparr>pa_duration = 1,
       pa_subs = [sub_of OpacityCore 1 0 none_transition,
                  sub_of (ScaleCore ((new_scale (if fe_opera env then 1 else 0))\<lparr>sc_restore := True\<rparr>)) 0 1 tr,
                  sub_of (MoveCore (new_move x y)) 0 1 tr],
       pa_hooks = no_hooks\<lparr>hk_beforeStart := on_el (make_clipping env \<circ> make_positioned env),
                            hk_afterFinish := on_el (set_style env (old_box el) \<circ> undoPositioned \<circ> undoClipping \<circ> elem_hide)\<rparr>,
       pa_page = p\<rparr>)"

end
