(* ===== verification/Morph.thy ===== *)
theory Morph
  imports VisualEffects SelectorCompile
begin

text \<open>
  \<open>Effect.Morph\<close>, \<open>Effect.Transform\<close> and the rest of \<open>gserver/public/javascripts/effects.js\<close> (lines 107 to 123
  and 920 to 1128): a style as text or as a class, the transforms it asks for, the styles at each
  position, and the names of the effects.
\<close>

subsection \<open>Styles as text\<close>

definition CSS_PROPERTIES :: "ustr list" where
  "CSS_PROPERTIES = map lit
     [''backgroundColor'', ''backgroundPosition'', ''borderBottomColor'', ''borderBottomStyle'',
      ''borderBottomWidth'', ''borderLeftColor'', ''borderLeftStyle'', ''borderLeftWidth'',
      ''borderRightColor'', ''borderRightStyle'', ''borderRightWidth'', ''borderSpacing'',
      ''borderTopColor'', ''borderTopStyle'', ''borderTopWidth'', ''bottom'', ''clip'', ''color'',
      ''fontSize'', ''fontWeight'', ''height'', ''left'', ''letterSpacing'', ''lineHeight'',
      ''marginBottom'', ''marginLeft'', ''marginRight'', ''marginTop'', ''markerOffset'', ''maxHeight'',
      ''maxWidth'', ''minHeight'', ''minWidth'', ''opacity'', ''outlineColor'', ''outlineOffset'',
      ''outlineWidth'', ''paddingBottom'', ''paddingLeft'', ''paddingRight'', ''paddingTop'',
      ''right'', ''textIndent'', ''top'', ''width'', ''wordSpacing'', ''zIndex'']"

definition number_char :: "jchar \<Rightarrow> bool" where
  "number_char c \<longleftrightarrow> is_digit c \<or> c = 46"

definition re_signed :: regex where
  "re_signed = RSeq (ROpt (RChar (\<lambda>c. c = 43 \<or> c = 45))) (RPlus (RChar number_char))"

text \<open>Only the first alternative begins at the beginning of the text.\<close>

definition re_css_length :: regex where
  "re_css_length =
     RAlt (RSeq RBegin (RGroup 1 (RSeq (RGroup 2 re_signed)
             (RGroup 3 (ralt (map rlit [''em'', ''ex'', ''px'', ''in'', ''cm'', ''mm'', ''pt'', ''pc'', ''%'']))))))
       (RSeq (rlit ''0'') REnd)"

definition re_components :: regex where
  "re_components = rseq [RBegin, RGroup 1 re_signed, RGroup 2 (RStar (RChar dot_char)), REnd]"

definition re_ie_opacity :: regex where
  "re_ie_opacity =
     rseq [rlit ''opacity:'', RStar (RChar is_ws),
           RGroup 1 (RSeq (ROpt (RAlt (rlit ''0'') (rlit ''1''))) (ROpt (RSeq (rlit ''.'') (RStar (RChar is_digit)))))]"

text \<open>\<open>read\<close> is the style the browser gives an element with the text as its style.\<close>

definition parseStyle :: "bool \<Rightarrow> (ustr \<Rightarrow> ustr) \<Rightarrow> ustr \<Rightarrow> styles res" where
  "parseStyle ie read s =
     (let rules = map (\<lambda>p. (p, read p)) (filter (\<lambda>p. read p \<noteq> []) CSS_PROPERTIES)
      in if ie \<and> string_include s (lit ''opacity'')
         then (case re_match 1 re_ie_opacity s of
                 None \<Rightarrow> Inl TypeError
               | Some (_, m) \<Rightarrow> Inr (put (lit ''opacity'') (group 1 m) rules))
         else Inr rules)"

definition getStyles :: "fx_env \<Rightarrow> elem_style \<Rightarrow> (ustr \<times> ustr option) list" where
  "getStyles env el = map (\<lambda>p. (p, fe_css env el p)) CSS_PROPERTIES"

text \<open>The class of an element is one of its attributes.\<close>

definition attr_class :: "elem_style \<Rightarrow> ustr" where
  "attr_class el = (case map_of (st_attrs el) (lit ''class'') of None \<Rightarrow> [] | Some t \<Rightarrow> t)"

definition with_class :: "(ustr \<Rightarrow> ustr) \<Rightarrow> elem_style \<Rightarrow> elem_style" where
  "with_class f el = el\<lparr>st_attrs := put (lit ''class'') (f (attr_class el)) (st_attrs el)\<rparr>"

datatype morph_option = StyleHash styles | StyleText ustr

text \<open>The style that is aimed at, and the class that the end of the effect leaves on the element. Styles that the
  class does not change are dropped; a style the browser does not know has no text.\<close>

definition morph_style ::
  "fx_env \<Rightarrow> bool \<Rightarrow> (ustr \<Rightarrow> ustr \<Rightarrow> ustr) \<Rightarrow> morph_option \<Rightarrow> elem_style \<Rightarrow> (styles \<times> ustr option \<times> elem_style) res"
where
  "morph_style env ie read opt el =
     (case opt of
        StyleHash ps \<Rightarrow> Inr (ps, None, el)
      | StyleText t \<Rightarrow>
          if string_include t [58] then rbind (parseStyle ie (read t) t) (\<lambda>ps. Inr (ps, None, el))
          else
            let el1 = with_class (addClassName t) el; wanted = getStyles env el1;
                el2 = with_class (removeClassName t) el1; css = getStyles env el2
            in Inr (map (\<lambda>(p, v). (p, case v of None \<Rightarrow> [] | Some x \<Rightarrow> x))
                      (filter (\<lambda>(p, v). map_of css p \<noteq> Some v) wanted), Some t, el2))"

subsection \<open>Transforms\<close>

datatype morph_value =
    ColorWay "int option list" "int option list"
  | NumberWay rat rat "ustr option"

type_synonym transform = "ustr \<times> morph_value"

definition morph_color :: "fx_env \<Rightarrow> ustr option \<Rightarrow> int option list" where
  "morph_color env c =
     (let t = (case c of None \<Rightarrow> lit ''#ffffff''
               | Some t \<Rightarrow> if t = [] \<or> t = lit ''rgba(0, 0, 0, 0)'' \<or> t = lit ''transparent'' then lit ''#ffffff'' else t);
          color = parseColor (fe_lower env) None t
      in map (color_channel color) [0..<3])"

definition is_color :: "fx_env \<Rightarrow> ustr \<Rightarrow> bool" where
  "is_color env v \<longleftrightarrow> parseColor (fe_lower env) (Some (lit ''#zzzzzz'')) v \<noteq> lit ''#zzzzzz''"

text \<open>The number that is aimed at, and its unit.\<close>

definition morph_target :: "ustr \<Rightarrow> ustr \<Rightarrow> (rat option \<times> ustr option) res" where
  "morph_target property v =
     (if property = lit ''opacity'' then Inr (parseFloat v, None)
      else if re_match 3 re_css_length v \<noteq> None then
        (case re_match 2 re_components v of
           None \<Rightarrow> Inl TypeError
         | Some (_, m) \<Rightarrow> Inr (parseFloat (group 1 m), Some (group 2 m)))
      else Inr (text_number v, None))"

text \<open>A transform that changes nothing, or without numbers, is dropped; colours are arrays and never equal.\<close>

definition morph_transform :: "fx_env \<Rightarrow> elem_style \<Rightarrow> ustr \<times> ustr \<Rightarrow> transform option res" where
  "morph_transform env el pv =
     (case pv of (property, v) \<Rightarrow>
        let original = get_style env property el; name = camelize (fe_upper env) property in
        if is_color env v
        then Inr (Some (name, ColorWay (morph_color env original) (morph_color env (Some (parseColor (fe_lower env) None v)))))
        else rbind (morph_target property v) (\<lambda>(target, unit).
          case (case original of None \<Rightarrow> Some 0 | Some t \<Rightarrow> if t = [] then Some 0 else parseFloat t, target) of
            (Some a, Some b) \<Rightarrow> Inr (if a = b then None else Some (name, NumberWay a b unit))
          | _ \<Rightarrow> Inr None))"

definition morph_setup :: "fx_env \<Rightarrow> styles \<Rightarrow> elem_style \<Rightarrow> transform list res" where
  "morph_setup env style el =
     rbind (rmap (morph_transform env el) style) (\<lambda>ts. Inr (concat (map (\<lambda>t. case t of None \<Rightarrow> [] | Some x \<Rightarrow> [x]) ts)))"

definition way_text :: "rat \<Rightarrow> morph_value \<Rightarrow> ustr" where
  "way_text pos w =
     (case w of
        ColorWay a b \<Rightarrow> color_text a (map2 minus_nan b a) pos
      | NumberWay a b unit \<Rightarrow> toFixed 3 (a + (b - a) * pos) @ (case unit of None \<Rightarrow> [] | Some u \<Rightarrow> u))"

text \<open>The loop goes through the transforms from the last to the first.\<close>

definition morph_update :: "fx_env \<Rightarrow> transform list \<Rightarrow> rat \<Rightarrow> elem_style \<Rightarrow> elem_style" where
  "morph_update env ts pos el =
     set_style env (fold (\<lambda>(name, w) st. put name (way_text pos w) st) (rev ts) []) el"

definition morph_finish :: "ustr option \<Rightarrow> transform list \<Rightarrow> elem_style \<Rightarrow> elem_style" where
  "morph_finish cls ts el =
     (case cls of
        None \<Rightarrow> el
      | Some c \<Rightarrow> fold (\<lambda>(name, w) e. set_inline name [] e) ts (with_class (addClassName c) el))"

subsection \<open>Tracks\<close>

text \<open>\<open>addTracks\<close> takes the first property of each object; \<open>play\<close> makes an effect for each element.\<close>

definition addTracks :: "(ustr \<times> styles) list list \<Rightarrow> (ustr \<times> styles) list \<Rightarrow> (ustr \<times> styles) list" where
  "addTracks tracks acc = acc @ concat (map (\<lambda>t. take 1 t) tracks)"

definition track_elements :: "dom \<Rightarrow> ustr \<Rightarrow> indices \<Rightarrow> (nat list \<times> indices) res" where
  "track_elements d ids idx =
     (case getElementById d ids of Some n \<Rightarrow> Inr ([n], idx) | None \<Rightarrow> dollar_dollar d [ids] idx)"

fun play_tracks :: "dom \<Rightarrow> (ustr \<times> styles) list \<Rightarrow> indices \<Rightarrow> ((nat \<times> styles) list \<times> indices) res" where
  "play_tracks d [] idx = Inr ([], idx)"
| "play_tracks d ((ids, st) # ts) idx =
     rbind (track_elements d ids idx) (\<lambda>(ns, idx).
     rbind (play_tracks d ts idx) (\<lambda>(es, idx). Inr (map (\<lambda>n. (n, st)) ns @ es, idx)))"

subsection \<open>Names, and text as elements\<close>

definition capital :: "(ustr \<Rightarrow> ustr) \<Rightarrow> ustr \<Rightarrow> ustr" where
  "capital up s = up (charAt s 0) @ drop 1 s"

definition effect_class :: "(ustr \<Rightarrow> ustr) \<Rightarrow> ustr \<Rightarrow> ustr option" where
  "effect_class up effect = map_option (\<lambda>t. capital up (camelize up t)) (dasherize effect)"

text \<open>\<open>tagifyText\<close>: every character of a text becomes an element; a blank becomes one that does not break.\<close>

definition tagify_char :: "jchar \<Rightarrow> node" where
  "tagify_char c = Elem [] [Text [if c = 32 then 160 else c]]"

fun tagifyText :: "node list \<Rightarrow> node list" where
  "tagifyText [] = []"
| "tagifyText (Text t # ns) = map tagify_char t @ tagifyText ns"
| "tagifyText (Elem cls ks # ns) = Elem cls ks # tagifyText ns"

end
