(* ===== verification/EffectProps.thy ===== *)
theory EffectProps
  imports CombinedEffects Morph WidgetProps Insertion
begin

text \<open>
  Properties of the visual effects: what the blinds leave on an element after any life the queue can
  give them, colours on their way, the way of a shaken element, and text made of elements.
\<close>

subsection \<open>Colours\<close>

lemma two_digits:
  assumes "n < 256"
  shows "toColorPart n = [digit_char (n div 16), digit_char (n mod 16)]"
proof (cases "n < 16")
  case True
  then have "radix_str 16 n = [digit_char n]" by (subst radix_str.simps) simp
  then show ?thesis using True by (simp add: toColorPart_def toPaddedString_def times_eq digit_char_def)
next
  case False
  have "n div 16 < 16" using assms by simp
  then have "radix_str 16 (n div 16) = [digit_char (n div 16)]" by (subst radix_str.simps) simp
  with False have "radix_str 16 n = [digit_char (n div 16), digit_char (n mod 16)]"
    by (subst radix_str.simps) simp
  then show ?thesis by (simp add: toColorPart_def toPaddedString_def times_eq)
qed

lemma nibble_digit: "d < 16 \<Longrightarrow> nibble_char (digit_char d) \<and> nibble (digit_char d) = d \<and> \<not> is_ws (digit_char d) \<and> digit_char d \<notin> {45, 43, 120, 88}"
  by (auto simp: nibble_char_def nibble_def digit_char_def is_digit_def is_ws_def)

lemma parseHex_two:
  assumes "a < 16" and "b < 16"
  shows "parseHex [digit_char a, digit_char b] = Some (int (16 * a + b))"
  using nibble_digit [OF assms(1)] nibble_digit [OF assms(2)] by (simp add: parseHex_def Let_def)

lemma channel_text:
  assumes "0 \<le> i" and "i \<le> 255"
  shows "color_part (Some i) = [digit_char (nat i div 16), digit_char (nat i mod 16)]"
proof -
  have "nat i < 256" using assms by simp
  then show ?thesis using assms by (simp add: color_part_def two_digits)
qed

lemma channel_between:
  assumes "0 \<le> pos" and "pos \<le> 1"
  shows "min x y \<le> js_round (rat_of_int x + rat_of_int (y - x) * pos)
    \<and> js_round (rat_of_int x + rat_of_int (y - x) * pos) \<le> max x y"
proof (rule js_round_bounds)
  let ?z = "rat_of_int x + rat_of_int (y - x) * pos"
  have eq: "?z = (1 - pos) * rat_of_int x + pos * rat_of_int y" by (simp add: algebra_simps)
  have "(1 - pos) * rat_of_int (min x y) + pos * rat_of_int (min x y) \<le> ?z"
    unfolding eq using assms by (intro add_mono mult_left_mono) simp_all
  then show "rat_of_int (min x y) \<le> ?z" by (simp add: algebra_simps)
  have "?z \<le> (1 - pos) * rat_of_int (max x y) + pos * rat_of_int (max x y)"
    unfolding eq using assms by (intro add_mono mult_left_mono) simp_all
  then show "?z \<le> rat_of_int (max x y)" by (simp add: algebra_simps)
qed

lemma color_slices:
  "slice [h, a, b, c, d, e, f] 1 3 = [a, b]"
  "slice [h, a, b, c, d, e, f] 3 5 = [c, d]"
  "slice [h, a, b, c, d, e, f] 5 7 = [e, f]"
  using slice_nat [of "[h, a, b, c, d, e, f]" 1 3] slice_nat [of "[h, a, b, c, d, e, f]" 3 5]
    slice_nat [of "[h, a, b, c, d, e, f]" 5 7] by simp_all

lemma channels_of:
  assumes "length t = 7"
  shows "map (color_channel t) [0..<3] = map parseHex [slice t 1 3, slice t 3 5, slice t 5 7]"
  by (simp add: color_channel_def upt_rec)

lemma round_ends: "js_round (rat_of_int x + rat_of_int (y - x) * 0) = x" "js_round (rat_of_int x + rat_of_int (y - x) * 1) = y"
  by simp_all

text \<open>
  C39. On its way from one colour to another, highlighted or morphed, every text of a colour is well
  formed: a hash and six hexadecimal digits that read back, channel by channel, as a number between
  the two channels; at the beginning it is the first colour, at the end the second.
\<close>

theorem colors_between:
  assumes "list_all (\<lambda>x. 0 \<le> x \<and> x \<le> 255) [x0, x1, x2, y0, y1, y2]" and "0 \<le> pos" and "pos \<le> 1"
  shows "let a = map Some [x0, x1, x2]; b = map Some [y0, y1, y2]; t = color_text a (map2 minus_nan b a) pos in
     length t = 7
     \<and> (\<exists>z0 z1 z2. map (color_channel t) [0..<3] = map Some [z0, z1, z2]
          \<and> min x0 y0 \<le> z0 \<and> z0 \<le> max x0 y0 \<and> min x1 y1 \<le> z1 \<and> z1 \<le> max x1 y1 \<and> min x2 y2 \<le> z2 \<and> z2 \<le> max x2 y2
          \<and> (pos = 0 \<longrightarrow> [z0, z1, z2] = [x0, x1, x2]) \<and> (pos = 1 \<longrightarrow> [z0, z1, z2] = [y0, y1, y2]))"
proof -
  let ?z = "\<lambda>x y. js_round (rat_of_int x + rat_of_int (y - x) * pos)"
  have b: "min x y \<le> ?z x y \<and> ?z x y \<le> max x y" for x y using channel_between [OF assms(2,3)] .
  have r: "0 \<le> ?z x y \<and> ?z x y \<le> 255" if "0 \<le> x" "x \<le> 255" "0 \<le> y" "y \<le> 255" for x y
    using b [of x y] that by linarith
  have rs: "0 \<le> ?z x0 y0 \<and> ?z x0 y0 \<le> 255" "0 \<le> ?z x1 y1 \<and> ?z x1 y1 \<le> 255" "0 \<le> ?z x2 y2 \<and> ?z x2 y2 \<le> 255"
    using assms(1) r by simp_all
  let ?two = "\<lambda>i. [digit_char (nat i div 16), digit_char (nat i mod 16)]"
  let ?t = "color_text (map Some [x0, x1, x2]) (map2 minus_nan (map Some [y0, y1, y2]) (map Some [x0, x1, x2])) pos"
  have t: "?t = 35 # ?two (?z x0 y0) @ ?two (?z x1 y1) @ ?two (?z x2 y2)"
    using rs by (simp add: color_text_def minus_nan_def channel_text)
  have hex: "parseHex (?two i) = Some i" if "0 \<le> i \<and> i \<le> 255" for i
  proof -
    have "nat i div 16 < 16" "nat i mod 16 < 16" using that by auto
    then have "parseHex (?two i) = Some (int (16 * (nat i div 16) + nat i mod 16))" by (rule parseHex_two)
    then show ?thesis using that by simp
  qed
  have len: "length ?t = 7" unfolding t by simp
  have s: "slice ?t 1 3 = ?two (?z x0 y0)" "slice ?t 3 5 = ?two (?z x1 y1)" "slice ?t 5 7 = ?two (?z x2 y2)"
    unfolding t append_Cons append_Nil by (rule color_slices)+
  have c: "map (color_channel ?t) [0..<3] = map Some [?z x0 y0, ?z x1 y1, ?z x2 y2]"
    unfolding channels_of [OF len] s by (simp only: list.map hex [OF rs(1)] hex [OF rs(2)] hex [OF rs(3)])
  have "pos = 0 \<longrightarrow> ?z x y = x" "pos = 1 \<longrightarrow> ?z x y = y" for x y
    using round_ends [of x y] by (simp_all del: of_int_diff)
  then have ends: "pos = 0 \<longrightarrow> [?z x0 y0, ?z x1 y1, ?z x2 y2] = [x0, x1, x2]"
      "pos = 1 \<longrightarrow> [?z x0 y0, ?z x1 y1, ?z x2 y2] = [y0, y1, y2]" by simp_all
  have "\<exists>z0 z1 z2. map (color_channel ?t) [0..<3] = map Some [z0, z1, z2]
          \<and> min x0 y0 \<le> z0 \<and> z0 \<le> max x0 y0 \<and> min x1 y1 \<le> z1 \<and> z1 \<le> max x1 y1 \<and> min x2 y2 \<le> z2 \<and> z2 \<le> max x2 y2
          \<and> (pos = 0 \<longrightarrow> [z0, z1, z2] = [x0, x1, x2]) \<and> (pos = 1 \<longrightarrow> [z0, z1, z2] = [y0, y1, y2])"
    using c ends b [of x0 y0] b [of x1 y1] b [of x2 y2]
    by (intro exI [of _ "?z x0 y0"] exI [of _ "?z x1 y1"] exI [of _ "?z x2 y2"]) (simp only: simp_thms)
  then show ?thesis unfolding Let_def using len by (simp only: simp_thms)
qed

theorem colors_between_witness:
  "length (color_text (map Some [255, 0, 16]) (map2 minus_nan (map Some [0, 0, 32]) (map Some [255, 0, 16])) (1 / 2)) = 7"
  using colors_between [of 255 0 16 0 0 32 "1 / 2"] by (simp add: Let_def)

subsection \<open>Scaled elements\<close>

text \<open>Styles by plain names are written as they are; the last value for a name stays.\<close>

definition plain_names :: "styles \<Rightarrow> bool" where
  "plain_names st \<longleftrightarrow> set (map fst st) \<inter> set (map lit [''opacity'', ''float'', ''cssFloat'']) = {}"

lemma overflow_set [simp]: "st_overflow (set_inline n v e) = st_overflow e"
  by (simp add: set_inline_def)

lemma set_style_Nil [simp]: "set_style env [] el = el"
  by (simp add: set_style_def setStyle_def)

lemma set_style_Cons:
  assumes "plain_names ((n, v) # st)"
  shows "set_style env ((n, v) # st) el = set_style env st (set_inline n v el)" "plain_names st"
  using assms by (auto simp: plain_names_def set_style_def setStyle_def style_name_def)

lemma set_style_inline:
  assumes "plain_names st"
  shows "inline m (set_style env st el) = (case map_of (rev st) m of None \<Rightarrow> inline m el | Some v \<Rightarrow> v)
    \<and> st_overflow (set_style env st el) = st_overflow el"
  using assms
proof (induction st arbitrary: el)
  case (Cons x st)
  then obtain n v where x: "x = (n, v)" by (cases x)
  show ?case using Cons.IH set_style_Cons(1) [of n v st env el] set_style_Cons(2) [of n v st] Cons.prems
    by (auto simp: x map_add_def split: option.splits)
qed simp

text \<open>What scaling leaves alone.\<close>

definition only_box :: "elem_style \<Rightarrow> elem_style \<Rightarrow> bool" where
  "only_box a b \<longleftrightarrow> (\<forall>n. n \<notin> set kept_styles \<longrightarrow> inline n b = inline n a) \<and> st_overflow b = st_overflow a"

lemma only_box_refl [simp]: "only_box a a"
  by (simp add: only_box_def)

lemma only_box_trans: "only_box a b \<Longrightarrow> only_box b c \<Longrightarrow> only_box a c"
  by (simp add: only_box_def)

lemma set_box:
  assumes "set (map fst st) \<subseteq> set kept_styles"
  shows "only_box el (set_style env st el)"
proof -
  have "plain_names st" using assms by (fastforce simp: plain_names_def kept_styles_def lit_def)
  moreover have "map_of (rev st) n = None" if "n \<notin> set kept_styles" for n
    using assms that by (auto simp: map_of_eq_None_iff)
  ultimately show ?thesis by (simp add: only_box_def set_style_inline)
qed

lemma scale_update_box: "only_box el (scale_update env d pos el)"
proof -
  have "only_box a (set_dimensions env d h w a)" for h w a
    unfolding set_dimensions_def Let_def by (rule set_box) (auto simp: kept_styles_def)
  moreover have "only_box el (set_style env [(lit ''fontSize'', v)] el)" for v
    by (rule set_box) (simp add: kept_styles_def)
  ultimately show ?thesis
    unfolding scale_update_def Let_def by (auto split: bool.splits option.splits) (blast intro: only_box_trans)
qed

lemma updates_Cons: "updates (p # ps) = [BeforeUpdate p, Update p, AfterUpdate] @ updates ps"
  by (simp add: updates_def)

lemma scale_updates:
  assumes "hk_afterUpdate hk = (\<lambda>_. id)"
  shows "\<exists>el. fx_run env hk (updates ps) (ScaleCore d, p) = (ScaleCore d, p\<lparr>fp_el := el\<rparr>) \<and> only_box (fp_el p) el"
proof (induction ps arbitrary: p)
  case Nil
  show ?case by (rule exI [of _ "fp_el p"]) (simp add: updates_def fx_run_def)
next
  case (Cons x ps)
  let ?p = "p\<lparr>fp_el := scale_update env d x (fp_el p)\<rparr>"
  obtain el where "fx_run env hk (updates ps) (ScaleCore d, ?p) = (ScaleCore d, ?p\<lparr>fp_el := el\<rparr>)" "only_box (fp_el ?p) el"
    using Cons.IH by blast
  moreover have "only_box (fp_el p) (fp_el ?p)" by (simp add: scale_update_box)
  ultimately show ?case using assms
    by (intro exI [of _ el]) (auto simp: updates_Cons fx_run_def fx_event_def core_update_def intro: only_box_trans)
qed

text \<open>A life of an effect that scales and restores: outside its hooks nothing is left of it.\<close>

lemma scale_finish_box:
  assumes "sc_restore d" and "sc_style d = map (\<lambda>k. (k, inline k a)) kept_styles" and "only_box b el"
  shows "inline n (scale_finish env d el) = (if n \<in> set kept_styles then inline n a else inline n b)
    \<and> st_overflow (scale_finish env d el) = st_overflow b"
proof -
  have pl: "plain_names (sc_style d)" by (simp add: assms(2) plain_names_def kept_styles_def lit_def)
  have r: "rev (sc_style d) = map (\<lambda>k. (k, inline k a)) (rev kept_styles)" by (simp add: assms(2) rev_map)
  have "map_of (rev (sc_style d)) n = (if n \<in> set kept_styles then Some (inline n a) else None)"
    unfolding r by (simp add: map_of_map_restrict restrict_map_def)
  then show ?thesis using assms(1,3) set_style_inline [OF pl]
    by (auto simp: scale_finish_def only_box_def)
qed

lemma scale_life:
  assumes "hk_afterUpdate hk = (\<lambda>_. id)" and "sc_restore d"
    and "p1 = hk_beforeSetup hk (hk_beforeStart hk p)"
  shows "\<exists>p'. snd (fx_run env hk (whole_life ps x) (ScaleCore d, p)) = hk_afterFinish hk p'
    \<and> st_overflow (fp_el p') = st_overflow (fp_el (hk_afterSetup hk p1))
    \<and> (\<forall>n. inline n (fp_el p') = (if n \<in> set kept_styles then inline n (fp_el p1) else inline n (fp_el (hk_afterSetup hk p1))))"
proof -
  let ?d = "scale_setup env d (fp_el p1)"
  let ?p2 = "hk_afterSetup hk p1"
  obtain el where u: "fx_run env hk (updates (ps @ [x])) (ScaleCore ?d, ?p2) = (ScaleCore ?d, ?p2\<lparr>fp_el := el\<rparr>)"
    "only_box (fp_el ?p2) el" using scale_updates [OF assms(1)] by blast
  let ?p' = "?p2\<lparr>fp_el := scale_finish env ?d el\<rparr>"
  have "fx_run env hk setup_log (ScaleCore d, p) = (ScaleCore ?d, ?p2)"
    by (simp add: fx_run_def setup_log_def fx_event_def core_setup_def assms(3))
  then have "snd (fx_run env hk (whole_life ps x) (ScaleCore d, p)) = hk_afterFinish hk ?p'"
    using u(1) by (simp add: whole_life_def fx_run_def fx_event_def core_finish_def)
  moreover have "sc_restore ?d" "sc_style ?d = map (\<lambda>k. (k, inline k (fp_el p1))) kept_styles"
    using assms(2) by (simp_all add: scale_setup_def Let_def)
  ultimately show ?thesis
    using scale_finish_box [OF _ _ u(2), of ?d "fp_el p1"] by (intro exI [of _ ?p']) simp
qed

lemma clipping_frame:
  assumes "n \<noteq> lit ''overflow''"
  shows "inline n (make_clipping env el) = inline n el" "inline n (undoClipping el) = inline n el"
  using assms
  by (simp_all add: make_clipping_def makeClipping_def undoClipping_def Let_def inline_def set_inline_def split: option.splits)

definition overflow_of :: "fx_env \<Rightarrow> elem_style \<Rightarrow> ustr" where
  "overflow_of env el = (let v = style_text env ''overflow'' el in if v = lit ''auto'' then [] else v)"

lemma clipping_overflow:
  assumes "st_overflow el = None"
    and "st_overflow e2 = st_overflow (make_clipping env el)"
  shows "st_overflow (undoClipping e2) = None" "inline (lit ''overflow'') (undoClipping e2) = overflow_of env el"
  using assms
  by (auto simp: make_clipping_def makeClipping_def undoClipping_def overflow_of_def style_text_def get_style_def Let_def
        inline_def set_inline_def split: option.splits if_splits)

lemma blind_end:
  assumes "st_overflow el = None" and "st_overflow e2 = st_overflow (make_clipping env el)"
    and "\<And>n. n \<noteq> lit ''display'' \<Longrightarrow> n \<noteq> lit ''overflow'' \<Longrightarrow> inline n e2 = inline n el"
    and "elem_visible e2 \<longleftrightarrow> shown"
  shows "(\<forall>n. n \<noteq> lit ''display'' \<and> n \<noteq> lit ''overflow'' \<longrightarrow> inline n (undoClipping e2) = inline n el)
    \<and> (elem_visible (undoClipping e2) \<longleftrightarrow> shown)
    \<and> inline (lit ''overflow'') (undoClipping e2) = overflow_of env el \<and> st_overflow (undoClipping e2) = None"
  using clipping_overflow [OF assms(1,2)] assms(3,4) clipping_frame(2)
  by (simp add: elem_visible_def lit_def)

lemma not_kept: "lit ''display'' \<notin> set kept_styles" "lit ''overflow'' \<notin> set kept_styles" "lit ''height'' \<in> set kept_styles"
  "lit ''height'' \<noteq> lit ''overflow''" "lit ''display'' \<noteq> lit ''overflow''"
  by (simp_all add: kept_styles_def lit_def)

lemma set_height: "set_style env [(lit ''height'', v)] el = set_inline (lit ''height'') v el"
  by (simp add: set_style_def setStyle_def style_name_def lit_def)

lemma blind_life:
  assumes "st_overflow (fp_el p) = None"
    and "(v, shown) \<in> {(BlindUp env p, False), (BlindDown env p, True), (Squish env p, False)}"
  shows "let el = fp_el (visual_run env v (whole_life ps x)) in
     (\<forall>n. n \<noteq> lit ''display'' \<and> n \<noteq> lit ''overflow'' \<longrightarrow> inline n el = inline n (fp_el p))
     \<and> (elem_visible el \<longleftrightarrow> shown) \<and> inline (lit ''overflow'') el = overflow_of env (fp_el p) \<and> st_overflow el = None"
proof -
  note ends = blind_end [OF assms(1), of _ env]
  consider "v = BlindUp env p" "\<not> shown" | "v = BlindDown env p" "shown" | "v = Squish env p" "\<not> shown"
    using assms(2) by auto
  then show ?thesis
  proof cases
    case 1
    let ?hk = "no_hooks\<lparr>hk_afterFinish := on_el (undoClipping \<circ> elem_hide)\<rparr>"
    obtain p' where "snd (fx_run env ?hk (whole_life ps x) (vi_core v, on_el (make_clipping env) p)) = hk_afterFinish ?hk p'"
      "st_overflow (fp_el p') = st_overflow (make_clipping env (fp_el p))"
      "\<forall>n. inline n (fp_el p') = inline n (make_clipping env (fp_el p))"
      using scale_life [of ?hk "(new_scale 0)\<lparr>sc_content := False, sc_x := False, sc_restore := True\<rparr>"
          "on_el (make_clipping env) p" "on_el (make_clipping env) p" env ps x] 1(1)
      by (auto simp: no_hooks_def BlindUp_def on_el_def)
    then show ?thesis using 1 ends [of "elem_hide (fp_el p')" False] clipping_frame(1) [of _ env "fp_el p"]
      by (simp add: visual_run_def BlindUp_def on_el_def elem_hide_def elem_visible_def)
  next
    case 2
    obtain h w where hw: "dimensions env (fp_el p) = (h, w)" by fastforce
    let ?f = "elem_show \<circ> set_style env [(lit ''height'', lit ''0px'')] \<circ> make_clipping env"
    let ?hk = "no_hooks\<lparr>hk_afterSetup := on_el ?f, hk_afterFinish := on_el undoClipping\<rparr>"
    obtain p' where "snd (fx_run env ?hk (whole_life ps x) (vi_core v, p)) = hk_afterFinish ?hk p'"
      "st_overflow (fp_el p') = st_overflow (make_clipping env (fp_el p))"
      "\<forall>n. inline n (fp_el p') = (if n \<in> set kept_styles then inline n (fp_el p) else inline n (?f (fp_el p)))"
      using scale_life [of ?hk "(new_scale 100)\<lparr>sc_content := False, sc_x := False, sc_from := 0, sc_mode := GivenMode h w,
                              sc_restore := True\<rparr>" p p env ps x] 2(1)
      by (auto simp: no_hooks_def BlindDown_def hw on_el_def elem_show_def set_height)
    note p' = this
    have "inline n (fp_el p') = inline n (fp_el p)" if "n \<noteq> lit ''display''" "n \<noteq> lit ''overflow''" for n
      using p'(3) that clipping_frame(1) [of n env "fp_el p"] not_kept(3) by (auto simp: elem_show_def set_height)
    moreover have "elem_visible (fp_el p') \<longleftrightarrow> True"
      using p'(3) not_kept(1) by (simp add: elem_show_def elem_visible_def) (simp add: lit_def)
    ultimately show ?thesis using 2 p'(1) ends [OF p'(2)]
      by (simp add: visual_run_def BlindDown_def hw on_el_def)
  next
    case 3
    let ?hk = "no_hooks\<lparr>hk_beforeSetup := on_el (make_clipping env), hk_afterFinish := on_el (undoClipping \<circ> elem_hide)\<rparr>"
    obtain p' where "snd (fx_run env ?hk (whole_life ps x) (vi_core v, p)) = hk_afterFinish ?hk p'"
      "st_overflow (fp_el p') = st_overflow (make_clipping env (fp_el p))"
      "\<forall>n. inline n (fp_el p') = inline n (make_clipping env (fp_el p))"
      using scale_life [of ?hk "(new_scale (if fe_opera env then 1 else 0))\<lparr>sc_restore := True\<rparr>"
          "on_el (make_clipping env) p" p env ps x] 3(1)
      by (auto simp: no_hooks_def Squish_def on_el_def)
    then show ?thesis using 3 ends [of "elem_hide (fp_el p')" False] clipping_frame(1) [of _ env "fp_el p"]
      by (simp add: visual_run_def Squish_def on_el_def elem_hide_def elem_visible_def)
  qed
qed

text \<open>
  C40. Every run of \<open>BlindUp\<close>, \<open>BlindDown\<close> or \<open>Squish\<close> that ends, whatever the queue did with it before,
  leaves every inline style as it was, the box included, except two: the element is hidden, or shown
  after \<open>BlindDown\<close>, and the overflow is the computed one. Nothing is left to be unclipped.
\<close>

theorem blinds_restore:
  assumes "st_overflow (fp_el p) = None"
    and "e \<in> set (q_ended (snd (queue_run transition steps)))"
    and "(v, shown) \<in> {(BlindUp env p, False), (BlindDown env p, True), (Squish env p, False)}"
  shows "let el = fp_el (visual_run env v (ef_log e)) in
     (\<forall>n. n \<noteq> lit ''display'' \<and> n \<noteq> lit ''overflow'' \<longrightarrow> inline n el = inline n (fp_el p))
     \<and> (elem_visible el \<longleftrightarrow> shown) \<and> inline (lit ''overflow'') el = overflow_of env (fp_el p) \<and> st_overflow el = None"
proof -
  have "queue_ok transition (snd (queue_run transition steps))" using queue_run_ok by (simp add: run_ok_def)
  then have "life_ok transition e" "ef_state e = Finished" using assms(2) by (simp_all add: queue_ok_def)
  then obtain ps where "ef_log e = whole_life ps (end_position transition e)" by (auto simp: life_ok_def whole_life_def)
  then show ?thesis using blind_life [OF assms(1,3)] by simp
qed

theorem blinds_restore_witness:
  "let env = \<lparr>fe_upper = id, fe_lower = id, fe_css = \<lambda>_ _. None, fe_print = \<lambda>_. [], fe_opera = False,
        fe_styleFloat = False, fe_corner = \<lambda>_. (0, 0), fe_size = \<lambda>_. (40, 20), fe_scroll_size = \<lambda>_. (40, 20),
        fe_client_height = \<lambda>_. 40, fe_client_width = \<lambda>_. 20, fe_positioned = \<lambda>_. (0, 0)\<rparr>;
      el = \<lparr>st_style = [(lit ''height'', lit ''4em'')], st_attrs = [], st_madePositioned = False, st_overflow = None\<rparr>;
      q = snd (queue_run (\<lambda>p. p) [Add 100 DefaultOptions, Tick 5000]);
      el2 = fp_el (visual_run env (BlindUp env \<lparr>fp_el = el, fp_inner = el\<rparr>) (ef_log (hd (q_ended q))))
   in inline (lit ''height'') el2 = lit ''4em'' \<and> \<not> elem_visible el2"
proof -
  let ?env = "\<lparr>fe_upper = id, fe_lower = id, fe_css = \<lambda>_ _. None, fe_print = \<lambda>_. [], fe_opera = False,
        fe_styleFloat = False, fe_corner = \<lambda>_. (0, 0), fe_size = \<lambda>_. (40, 20), fe_scroll_size = \<lambda>_. (40, 20),
        fe_client_height = \<lambda>_. 40, fe_client_width = \<lambda>_. 20, fe_positioned = \<lambda>_. (0, 0)\<rparr>"
  let ?el = "\<lparr>st_style = [(lit ''height'', lit ''4em'')], st_attrs = [], st_madePositioned = False, st_overflow = None\<rparr>"
  let ?q = "snd (queue_run (\<lambda>p. p) [Add 100 DefaultOptions, Tick 5000])"
  have "length (q_ended ?q) = 1" by code_simp
  then have "hd (q_ended ?q) \<in> set (q_ended ?q)" by (cases "q_ended ?q") simp_all
  then show ?thesis
    using blinds_restore [of "\<lparr>fp_el = ?el, fp_inner = ?el\<rparr>" "hd (q_ended ?q)" "\<lambda>p. p" "[Add 100 DefaultOptions, Tick 5000]"
        "BlindUp ?env \<lparr>fp_el = ?el, fp_inner = ?el\<rparr>" False ?env]
    by (simp add: Let_def inline_def lit_def)
qed

end
