(* ===== verification/Spec2Isabelle.thy ===== *)
theory Spec2Isabelle
  imports ServerProps DriveProps LibProps WidgetProps FormProps SelectorProps SortProps DragProps Insertion SelectorTextProps EffectProps
begin

text \<open>
  A verification library for the JavaScript of the pea search client.

  The program is the page \<open>browser/web\<close> of a desktop file search: a box for the query, a table
  of results, a page of recently opened files, menus that act on files, and dialogs about the
  indexed volumes. The page runs inside a native shell that gives it one object, \<open>cef\<close>; every
  answer of the search server and every file operation goes through it. The scripts share one set
  of global variables and one document, and they are driven by events: keys, clicks, the scroll
  position, timers and the answers of two HTTP requests.

  The model. A handler runs to completion, so a handler is a function from the state of the page
  (the record \<open>app\<close>: global variables, the parts of the document the scripts write, the queue of
  timers, the log \<open>calls\<close> of commands sent to \<open>cef\<close>) to the state it leaves and the
  exception that ended it, if any. What \<open>cef\<close> and the browser answer during one handler is
  the record \<open>env\<close>, an argument. \<open>Page.handle\<close> runs the handler of an event and
  \<open>Page.step\<close> is one turn of the event loop; \<open>PageTimers.page_reachable\<close> are the pages that
  the start-up code and any sequence of events, each with its own environment, can produce.

  The theories, with the source they model:
  \<^item> \<open>Prelude\<close>, \<open>JsString\<close>, \<open>JsNumber\<close>: strings as lists of 16-bit code units, exceptions as
    values, the string, array and number operations of the language that the source uses, and
    facts on lists.
  \<^item> \<open>EventLoop\<close>: \<open>setTimeout\<close>, \<open>clearTimeout\<close> and the queue of pending timers; the
    locale \<open>timer_slot\<close> is the interface of an operation that arms a timer through a variable
    that holds its handle, \<open>timer_component\<close> extends it to a component all of whose
    handlers keep an invariant, so that at most one such timer is pending at any time.
  \<^item> \<open>AppState\<close>: the records the server sends, the rows of the table, the environment, the
    page, the commands (\<open>browser/extern-cef.js\<close> lists the native interface).
  \<^item> \<open>Message\<close> (\<open>message.js\<close>), \<open>Scroll\<close> (\<open>scroll.js\<close>), \<open>Subnav\<close> (\<open>subnav.js\<close>).
  \<^item> \<open>Drives\<close>, \<open>IndexStatus\<close>, \<open>Upgrade\<close> (\<open>disk.js\<close>, lines 1 to 320): volumes, the
    status dialog, hotkey, export, rescans, offline indexes, the check for updates.
  \<^item> \<open>Order\<close>, \<open>Grid\<close> (\<open>disk.js\<close> from line 322, with \<open>orderby\<close>, \<open>highlight\<close> and
    \<open>icon_replace\<close> of \<open>search.js\<close> and \<open>get_file_path\<close> of \<open>context.js\<close>): the table.
  \<^item> \<open>Search\<close>, \<open>History\<close>, \<open>Page\<close> (\<open>search.js\<close>): the search box, the history page, start-up,
    the bindings and the event loop.
  \<^item> \<open>FileOps\<close> (\<open>context.js\<close> and the keys of a row): the operations on files.

  The second part is the JavaScript library code of the repository's web site, in
  \<open>gserver/public/javascripts\<close>, and the cookie plugin of the page:
  \<^item> \<open>Uri\<close>, \<open>JsValue\<close>: the escaping of the language; values, objects as lists of
    properties, \<open>inspect\<close> and \<open>toJSON\<close> (\<open>prototype.js\<close>).
  \<^item> \<open>ProtoString\<close>, \<open>ProtoText\<close>, \<open>ProtoQuery\<close>, \<open>ProtoTemplate\<close>: the string functions. A
    regular expression is the function that finds its first match; \<open>gsub\<close> is a partial
    function, because its loop need not end.
  \<^item> \<open>ProtoEnum\<close>, \<open>HashMaps\<close>: \<open>Enumerable\<close>, arrays, \<open>Hash\<close>, ranges. The locales
    \<open>lookup_table\<close> and \<open>enumerable_table\<close> are the interface of a finite map, interpreted on
    hashes.
  \<^item> \<open>ProtoFun\<close>: binding, \<open>Class.create\<close> with \<open>$super\<close>, the periodical executer.
  \<^item> \<open>ProtoAjax\<close>: responders, requests, answers, updaters.
  \<^item> \<open>ProtoEvent\<close>: the registry of event handlers, custom events, class names.
  \<^item> \<open>ProtoForm\<close>: fields and their values, the data and the request of a form, the observers of
    fields.
  \<^item> \<open>DomTree\<close>, \<open>Selector\<close>: a document as its nodes in document order, the walks on it, and
    the selector engine as a program over the tokens of a selector; \<open>SelectorSpec\<close> defines what
    a selector means and proves that the engine finds it.
  \<^item> \<open>Regex\<close>, \<open>RegexFacts\<close>: the backtracking matcher of regular expressions, as the list of all
    matches in the order of their priority. \<open>SelectorText\<close>: the patterns of selectors and the loop
    that cuts their matches off a text; \<open>SelectorCompile\<close>: the program, the XPath expression, the
    mode and the cache; \<open>SelectorPrint\<close>: tokens as text, and that the text is read back.
  \<^item> \<open>Droppables\<close>, \<open>Draggables\<close>, \<open>Sortable\<close>, \<open>SortableLife\<close> (\<open>dragdrop.js\<close>): the targets of a drag and
    \<open>Position\<close>, the draggables as a machine of mouse, keys, timers and effects, the order and the moves
    of sortable lists on the tree of the document, their creation and destruction. The boxes of elements
    are answers of the browser. \<open>SortFacts\<close> holds what moves of nodes do to the tree.
  \<^item> \<open>Elements\<close>, \<open>Insertion\<close> (\<open>prototype.js\<close>, lines 1535 to 2160 and 3816 to 3895): styles, attributes,
    positions and walks of an element, what an event is about, and the insertion of nodes, with the proof
    that inserted nodes keep their order and that \<open>identify\<close> returns.
  \<^item> \<open>JsFloat\<close>, \<open>VisualEffects\<close>, \<open>CombinedEffects\<close>, \<open>Morph\<close> (\<open>effects.js\<close>): numbers from and to text; what an
    effect does to the styles of its element at each event of its life, opacity, moving, scaling,
    highlighting; the effects built from these, one after the other or in parallel; styles on their
    way to other styles. The lives are those of the queue in \<open>Effects\<close>.
  \<^item> \<open>Cookie\<close> (\<open>browser/web/jquery.cookie.js\<close>).
  \<^item> \<open>Autocompleter\<close>, \<open>InPlaceEditor\<close> (\<open>controls.js\<close>), \<open>Effects\<close> (\<open>effects.js\<close>),
    \<open>FormPlugin\<close> (\<open>jquery.form.js\<close>): state machines whose events are the handlers, the
    timers and the answers. The locale \<open>event_machine\<close> of \<open>Prelude\<close> is their interface:
    an invariant each step keeps holds after any sequence of events. It is interpreted on the
    requests, the queue of effects, the editor, the registry of event handlers and the drags.

  What is shown:
  \<^item> \<open>PageTimers\<close>: every handler keeps the invariant that the pending search timer and the
    pending fade of the message are the ones their variables name; both locales are
    interpreted on the page.
  \<^item> \<open>SearchProps\<close>: from a key to the table, stale answers, unreadable answers, trimming, the
    command line, the order.
  \<^item> \<open>GridProps\<close>, \<open>ViewProps\<close>: the table is a numbered prefix of the results under
    scrolling, and the condition under which it stops being one; the selection; the
    highlighted match; icons; menu layers; the bottom of the page; the font size.
  \<^item> \<open>OpsProps\<close>, \<open>ServerProps\<close>: one command per menu item, the history page, the exported
    text, the requests for updates, the counts.
  \<^item> \<open>DriveProps\<close>: the volume lists as multisets, offline names, sizes, the status dialog.
  \<^item> \<open>LibProps\<close>: query strings and cookies survive a round trip, which parameters are read,
    a hash refines a finite map, templates return, \<open>$super\<close>, the life of a request, the registry
    of handlers as a list of registrations.
  \<^item> \<open>WidgetProps\<close>: the queue of effects and that it empties, the editor in place and its
    failures, the mark of the autocompleter, the data of a form.
  \<^item> \<open>FormProps\<close>: the data of a form and that its query string is read back, fields have the
    values written to them, observers report changes.
  \<^item> \<open>SelectorProps\<close>: selectors find what they mean, positions among siblings, identifiers
    behind a combinator.
  \<^item> \<open>SelectorTextProps\<close>: the object made of the text of a selector finds what the selector means, the
    program has one line for each token, what is lost behind the argument of a pseudo-class.
  \<^item> \<open>EffectProps\<close>: colours on their way, and that the blinds leave the styles of an element as they were.
  \<^item> \<open>SortProps\<close>: a hover puts the element beside its neighbour, \<open>setSequence\<close> gives the order asked for
    and loses the other items, the text of a list is read back.
  \<^item> \<open>DropProps\<close>, \<open>DragProps\<close>: the innermost target is active, notifications form drags, the element
    follows the pointer or the grid, Escape before a movement, destroying what was created.
  \<^item> \<open>Sample\<close>: the concrete page and environment on which the theorems are applied.

  Bounds and termination. All loops of the scripts run over arrays and are structural recursions,
  or end by a measure; the two loops that need not end, \<open>gsub\<close> and the search in one element
  of the autocompleter, are partial functions with an option as value. No fuel is used. Times of
  effects are exact rationals. Code units are natural numbers, integers of the scripts are unbounded
  integers: the numbers that occur (sizes in MB, pixels, counts) are far below the range in
  which JavaScript numbers are exact.

  Not modelled: the variants of the functions of \<open>prototype.js\<close> for old browsers and the parsing of HTML;
  uploads through a frame; the transitions of effects made of trigonometric functions, which are arguments,
  and the callbacks a page gives to effects; in \<open>dragdrop.js\<close> the styles of the marker and
  effects given as options; the minified libraries (jQuery, jQuery UI, jqGrid, jTemplates), of which the
  documented effect of the calls is used; the HTML templates; the start of a drag out of the page; the
  native shells and the search server, written in other languages.
\<close>

end
